(* ===== verification/Kinetic_Prelude.thy ===== *)
theory Kinetic_Prelude
  imports Main "HOL-Library.Word" "HOL-Library.Sublist"
begin

text \<open>
  Shared vocabulary of the development: machine-integer type names, Rust's \<open>Result\<close> as a sum
  with the error on the left, the big-endian integer codecs of the \<open>bytes\<close> buffers the proxy
  writes to, generic lemmas on lists and options, and the interface \<open>byte_codec\<close> of an encoder
  with a remainder-returning decoder.

  The fact collections are: \<open>codec_simps\<close> (decoding what was just encoded), \<open>text_simps\<close>
  (laws of Rust string functions), \<open>wire_defs\<close> (definitions of the wire layer).
\<close>

named_theorems codec_simps
named_theorems text_simps
named_theorems wire_defs

unbundle bit_operations_syntax

type_synonym u8 = "8 word"
type_synonym u32 = "32 word"
type_synonym u64 = "64 word"
type_synonym i16 = "16 word"
type_synonym i32 = "32 word"
type_synonym bytes = "u8 list"

section \<open>Results\<close>

text \<open>Rust's \<open>?\<close> operator on \<open>Result\<close>: the first error is the result.\<close>

definition and_then :: "'e + 'a \<Rightarrow> ('a \<Rightarrow> 'e + 'b) \<Rightarrow> 'e + 'b" where
  "and_then r f = (case r of Inl e \<Rightarrow> Inl e | Inr x \<Rightarrow> f x)"

lemma and_then_simps [simp]:
  "and_then (Inl e) f = Inl e"
  "and_then (Inr x) f = f x"
  by (simp_all add: and_then_def)

lemma and_then_eq_Inr: "and_then r f = Inr y \<longleftrightarrow> (\<exists>x. r = Inr x \<and> f x = Inr y)"
  by (cases r) auto

lemma and_then_eq_Inl: "and_then r f = Inl e \<longleftrightarrow> r = Inl e \<or> (\<exists>x. r = Inr x \<and> f x = Inl e)"
  by (cases r) auto

definition ok_or :: "'a option \<Rightarrow> 'e \<Rightarrow> 'e + 'a" where
  "ok_or x e = (case x of None \<Rightarrow> Inl e | Some v \<Rightarrow> Inr v)"

lemma ok_or_simps [simp]:
  "ok_or None e = Inl e"
  "ok_or (Some v) e = Inr v"
  by (simp_all add: ok_or_def)

lemma ok_or_eq_Inr [simp]: "ok_or x e = Inr v \<longleftrightarrow> x = Some v"
  by (cases x) auto

section \<open>Positions in lists\<close>

text \<open>\<open>iter().position(p)\<close>: the index of the first element that satisfies the predicate.\<close>

fun position :: "('a \<Rightarrow> bool) \<Rightarrow> 'a list \<Rightarrow> nat option" where
  "position P [] = None"
| "position P (x # xs) = (if P x then Some 0 else map_option Suc (position P xs))"

lemma position_None: "position P xs = None \<longleftrightarrow> (\<forall>x\<in>set xs. \<not> P x)"
  by (induction xs) auto

lemma position_Some:
  "position P xs = Some i \<longleftrightarrow> i < length xs \<and> P (xs ! i) \<and> (\<forall>x\<in>set (take i xs). \<not> P x)"
proof (induction xs arbitrary: i)
  case Nil
  then show ?case by simp
next
  case (Cons x xs)
  show ?case
    by (cases i) (auto simp: Cons.IH)
qed

lemma position_less: "position P xs = Some i \<Longrightarrow> i < length xs"
  by (simp add: position_Some)

lemma position_append_hit:
  "\<forall>x\<in>set xs. \<not> P x \<Longrightarrow> P y \<Longrightarrow> position P (xs @ y # ys) = Some (length xs)"
  by (induction xs) auto

lemma position_split:
  "position P xs = Some i \<Longrightarrow> xs = take i xs @ xs ! i # drop (Suc i) xs"
  by (auto dest!: position_less simp: id_take_nth_drop)

section \<open>Big-endian integers\<close>

text \<open>\<open>put_i32\<close>/\<open>put_i16\<close> and \<open>from_be_bytes\<close>: signed and unsigned values share their bits.\<close>

definition put_i32 :: "32 word \<Rightarrow> bytes" where
  "put_i32 w = [ucast (drop_bit 24 w), ucast (drop_bit 16 w), ucast (drop_bit 8 w), ucast w]"

definition i32_from_be :: "u8 \<Rightarrow> u8 \<Rightarrow> u8 \<Rightarrow> u8 \<Rightarrow> i32" where
  "i32_from_be a b c d =
     push_bit 24 (ucast a) OR push_bit 16 (ucast b) OR push_bit 8 (ucast c) OR ucast d"

definition put_i16 :: "16 word \<Rightarrow> bytes" where
  "put_i16 w = [ucast (drop_bit 8 w), ucast w]"

definition i16_from_be :: "u8 \<Rightarrow> u8 \<Rightarrow> i16" where
  "i16_from_be a b = push_bit 8 (ucast a) OR ucast b"

lemma bit_u8_beyond [simp]: "8 \<le> n \<Longrightarrow> \<not> bit (b :: u8) n"
  using bit_imp_le_length [of b n] by auto

lemma i32_be_round [simp]:
  "i32_from_be (ucast (drop_bit 24 w)) (ucast (drop_bit 16 w)) (ucast (drop_bit 8 w)) (ucast w) = w"
proof (rule bit_word_eqI)
  fix n :: nat
  assume "n < LENGTH(32)"
  then consider "n < 8" | "8 \<le> n" "n < 16" | "16 \<le> n" "n < 24" | "24 \<le> n" "n < 32"
    by fastforce
  then show "bit (i32_from_be (ucast (drop_bit 24 w)) (ucast (drop_bit 16 w))
      (ucast (drop_bit 8 w)) (ucast w)) n = bit w n"
    by cases (auto simp: i32_from_be_def bit_simps)
qed

lemma i16_be_round [simp]: "i16_from_be (ucast (drop_bit 8 w)) (ucast w) = w"
  by (rule bit_word_eqI) (auto simp: i16_from_be_def bit_simps)

lemma i32_be_unfold:
  "put_i32 (i32_from_be a b c d) = [a, b, c, d]"
  by (auto simp: put_i32_def i32_from_be_def bit_simps intro!: bit_word_eqI)

lemma length_put_i32 [simp]: "length (put_i32 w) = 4"
  by (simp add: put_i32_def)

lemma length_put_i16 [simp]: "length (put_i16 w) = 2"
  by (simp add: put_i16_def)

text \<open>The casts \<open>as i32\<close> and \<open>as i16\<close> of a \<open>usize\<close> keep the low bits.\<close>

definition usize_as_i32 :: "nat \<Rightarrow> i32" where
  "usize_as_i32 n = word_of_nat n"

definition usize_as_i16 :: "nat \<Rightarrow> i16" where
  "usize_as_i16 n = word_of_nat n"

lemma sint_usize_as_i32 [simp]: "n < 2 ^ 31 \<Longrightarrow> sint (usize_as_i32 n) = int n"
  by (simp add: usize_as_i32_def sint_uint unsigned_of_nat take_bit_nat_eq_self
      signed_take_bit_int_eq_self)

lemma sint_usize_as_i16 [simp]: "n < 2 ^ 15 \<Longrightarrow> sint (usize_as_i16 n) = int n"
  by (simp add: usize_as_i16_def sint_uint unsigned_of_nat take_bit_nat_eq_self
      signed_take_bit_int_eq_self)

lemma usize_as_i32_sint: "sint w = int n \<Longrightarrow> usize_as_i32 n = w"
proof -
  assume "sint w = int n"
  then have "(of_int (sint w) :: i32) = word_of_nat n" by simp
  then show ?thesis by (simp add: usize_as_i32_def)
qed

text \<open>Reading an integer from the front of a buffer: \<open>None\<close> where the read would run past its end.\<close>

fun get_i32 :: "bytes \<Rightarrow> (i32 \<times> bytes) option" where
  "get_i32 (a # b # c # d # rest) = Some (i32_from_be a b c d, rest)"
| "get_i32 _ = None"

fun get_i16 :: "bytes \<Rightarrow> (i16 \<times> bytes) option" where
  "get_i16 (a # b # rest) = Some (i16_from_be a b, rest)"
| "get_i16 _ = None"

lemma get_i32_put [codec_simps, simp]: "get_i32 (put_i32 w @ rest) = Some (w, rest)"
  by (simp add: put_i32_def)

lemma get_i16_put [codec_simps, simp]: "get_i16 (put_i16 w @ rest) = Some (w, rest)"
  by (simp add: put_i16_def)

section \<open>The interface of a byte codec\<close>

text \<open>
  An encoder together with a decoder that returns the bytes it did not read. The law is the
  round trip with an arbitrary tail; what clients need, that a sequence of encoded values is
  read back, is proved once here.
\<close>

locale byte_codec =
  fixes enc :: "'a \<Rightarrow> bytes"
    and dec :: "bytes \<Rightarrow> ('a \<times> bytes) option"
    and valid :: "'a \<Rightarrow> bool"
  assumes dec_enc: "valid x \<Longrightarrow> dec (enc x @ rest) = Some (x, rest)"
begin

text \<open>Reading a fixed number of values in a row.\<close>

fun dec_many :: "nat \<Rightarrow> bytes \<Rightarrow> ('a list \<times> bytes) option" where
  "dec_many 0 bs = Some ([], bs)"
| "dec_many (Suc n) bs =
     (case dec bs of None \<Rightarrow> None
      | Some (x, rest) \<Rightarrow> map_option (\<lambda>(xs, r). (x # xs, r)) (dec_many n rest))"

lemma dec_many_enc:
  "\<forall>x\<in>set xs. valid x \<Longrightarrow> dec_many (length xs) (concat (map enc xs) @ rest) = Some (xs, rest)"
  by (induction xs) (auto simp: dec_enc)

lemma enc_inject: "valid x \<Longrightarrow> valid y \<Longrightarrow> enc x @ r = enc y @ s \<Longrightarrow> x = y \<and> r = s"
  by (metis dec_enc option.inject prod.inject)

end

interpretation i32_codec: byte_codec put_i32 get_i32 "\<lambda>_. True"
  by unfold_locales simp

interpretation i16_codec: byte_codec put_i16 get_i16 "\<lambda>_. True"
  by unfold_locales simp

end
