(* ===== verification/Rust_Text.thy ===== *)
theory Rust_Text
  imports Kinetic_Prelude
begin

text \<open>
  The parts of Rust's \<open>char\<close>, \<open>str\<close> and \<open>String\<close> the proxy uses. A \<open>char\<close> is its Unicode scalar
  value, a string the list of its characters; \<open>as_bytes\<close> is its UTF-8 encoding and \<open>from_utf8\<close>
  the validating decoder, with the byte ranges of \<open>core::str\<close>. Byte offsets that a search
  returns always fall on a character boundary, so searches return character positions here;
  an offset that the program computes itself (a fixed prefix length, a truncation) is a byte
  offset, and \<open>str_split_at\<close> is \<open>None\<close> where Rust panics or \<open>str::get\<close> returns \<open>None\<close>.

  Shown here: \<open>from_utf8\<close> and \<open>as_bytes\<close> are inverse to each other on strings of scalar values,
  so the wire layer can treat a string and its bytes interchangeably.
\<close>

type_synonym rchar = nat
type_synonym rstr = "rchar list"

section \<open>Literals and character classes\<close>

definition lit :: "string \<Rightarrow> rstr" where
  "lit s = map of_char s"

lemma length_lit [simp]: "length (lit s) = length s"
  by (simp add: lit_def)

abbreviation chr :: "char \<Rightarrow> rchar" where
  "chr c \<equiv> of_char c"

definition is_scalar :: "rchar \<Rightarrow> bool" where
  "is_scalar c \<longleftrightarrow> c < 0xD800 \<or> 0xE000 \<le> c \<and> c < 0x110000"

definition is_whitespace :: "rchar \<Rightarrow> bool" where
  "is_whitespace c \<longleftrightarrow>
     9 \<le> c \<and> c \<le> 13 \<or> c = 32 \<or> c = 0x85 \<or> c = 0xA0 \<or> c = 0x1680 \<or>
     0x2000 \<le> c \<and> c \<le> 0x200A \<or> c = 0x2028 \<or> c = 0x2029 \<or> c = 0x202F \<or> c = 0x205F \<or> c = 0x3000"

definition is_ascii_digit :: "rchar \<Rightarrow> bool" where
  "is_ascii_digit c \<longleftrightarrow> 48 \<le> c \<and> c \<le> 57"

definition is_ascii_upper :: "rchar \<Rightarrow> bool" where
  "is_ascii_upper c \<longleftrightarrow> 65 \<le> c \<and> c \<le> 90"

definition is_ascii_lower :: "rchar \<Rightarrow> bool" where
  "is_ascii_lower c \<longleftrightarrow> 97 \<le> c \<and> c \<le> 122"

definition is_ascii_alphabetic :: "rchar \<Rightarrow> bool" where
  "is_ascii_alphabetic c \<longleftrightarrow> is_ascii_upper c \<or> is_ascii_lower c"

definition is_ascii_alphanumeric :: "rchar \<Rightarrow> bool" where
  "is_ascii_alphanumeric c \<longleftrightarrow> is_ascii_alphabetic c \<or> is_ascii_digit c"

definition char_lower :: "rchar \<Rightarrow> rchar" where
  "char_lower c = (if is_ascii_upper c then c + 32 else c)"

definition to_ascii_lowercase :: "rstr \<Rightarrow> rstr" where
  "to_ascii_lowercase s = map char_lower s"

definition eq_ignore_ascii_case :: "rstr \<Rightarrow> rstr \<Rightarrow> bool" where
  "eq_ignore_ascii_case a b \<longleftrightarrow> to_ascii_lowercase a = to_ascii_lowercase b"

lemmas char_class_defs =
  is_whitespace_def is_ascii_digit_def is_ascii_upper_def is_ascii_lower_def
  is_ascii_alphabetic_def is_ascii_alphanumeric_def char_lower_def

lemma char_lower_idem [simp]: "char_lower (char_lower c) = char_lower c"
  by (auto simp: char_lower_def is_ascii_upper_def)

lemma char_lower_whitespace [simp]: "is_whitespace (char_lower c) = is_whitespace c"
  by (auto simp: char_lower_def is_ascii_upper_def is_whitespace_def)

lemma length_to_ascii_lowercase [simp]: "length (to_ascii_lowercase s) = length s"
  by (simp add: to_ascii_lowercase_def)

lemma to_ascii_lowercase_idem [simp]:
  "to_ascii_lowercase (to_ascii_lowercase s) = to_ascii_lowercase s"
  by (simp add: to_ascii_lowercase_def)

lemma eq_ignore_ascii_case_refl [simp]: "eq_ignore_ascii_case s s"
  by (simp add: eq_ignore_ascii_case_def)

section \<open>UTF-8\<close>

definition utf8_len :: "rchar \<Rightarrow> nat" where
  "utf8_len c = (if c < 0x80 then 1 else if c < 0x800 then 2 else if c < 0x10000 then 3 else 4)"

text \<open>The cast \<open>as u8\<close>.\<close>

definition byte_of :: "nat \<Rightarrow> u8" where
  "byte_of n = word_of_nat n"

lemma unat_byte_of [simp]: "n < 256 \<Longrightarrow> unat (byte_of n) = n"
  by (simp add: byte_of_def unat_of_nat)

lemma byte_of_unat [simp]: "byte_of (unat b) = b"
  by (simp add: byte_of_def)

definition encode_char :: "rchar \<Rightarrow> bytes" where
  "encode_char c =
     (if c < 0x80 then [byte_of c]
      else if c < 0x800 then [byte_of (0xC0 + c div 64), byte_of (0x80 + c mod 64)]
      else if c < 0x10000 then
        [byte_of (0xE0 + c div 4096), byte_of (0x80 + c div 64 mod 64),
         byte_of (0x80 + c mod 64)]
      else
        [byte_of (0xF0 + c div 262144), byte_of (0x80 + c div 4096 mod 64),
         byte_of (0x80 + c div 64 mod 64), byte_of (0x80 + c mod 64)])"

definition as_bytes :: "rstr \<Rightarrow> bytes" where
  "as_bytes s = concat (map encode_char s)"

definition str_len :: "rstr \<Rightarrow> nat" where
  "str_len s = sum_list (map utf8_len s)"

definition in_range :: "nat \<Rightarrow> nat \<Rightarrow> u8 \<Rightarrow> bool" where
  "in_range lo hi b \<longleftrightarrow> lo \<le> unat b \<and> unat b \<le> hi"

abbreviation is_cont :: "u8 \<Rightarrow> bool" where
  "is_cont b \<equiv> in_range 0x80 0xBF b"

text \<open>The second byte of a three- and of a four-byte sequence, by the first byte.\<close>

definition second3_ok :: "u8 \<Rightarrow> u8 \<Rightarrow> bool" where
  "second3_ok b0 b1 \<longleftrightarrow>
     (if unat b0 = 0xE0 then in_range 0xA0 0xBF b1
      else if unat b0 = 0xED then in_range 0x80 0x9F b1
      else in_range 0xE1 0xEF b0 \<and> is_cont b1)"

definition second4_ok :: "u8 \<Rightarrow> u8 \<Rightarrow> bool" where
  "second4_ok b0 b1 \<longleftrightarrow>
     (if unat b0 = 0xF0 then in_range 0x90 0xBF b1
      else if unat b0 = 0xF4 then in_range 0x80 0x8F b1
      else in_range 0xF1 0xF3 b0 \<and> is_cont b1)"

fun decode_char :: "bytes \<Rightarrow> (rchar \<times> bytes) option" where
  "decode_char [] = None"
| "decode_char (b0 # rest) =
     (if unat b0 < 0x80 then Some (unat b0, rest)
      else if in_range 0xC2 0xDF b0 then
        (case rest of
           b1 # rest1 \<Rightarrow> if is_cont b1 then Some ((unat b0 - 0xC0) * 64 + (unat b1 - 0x80), rest1) else None
         | [] \<Rightarrow> None)
      else if in_range 0xE0 0xEF b0 then
        (case rest of
           b1 # b2 # rest2 \<Rightarrow>
             if second3_ok b0 b1 \<and> is_cont b2
             then Some ((unat b0 - 0xE0) * 4096 + (unat b1 - 0x80) * 64 + (unat b2 - 0x80), rest2)
             else None
         | _ \<Rightarrow> None)
      else if in_range 0xF0 0xF4 b0 then
        (case rest of
           b1 # b2 # b3 # rest3 \<Rightarrow>
             if second4_ok b0 b1 \<and> is_cont b2 \<and> is_cont b3
             then Some ((unat b0 - 0xF0) * 262144 + (unat b1 - 0x80) * 4096 + (unat b2 - 0x80) * 64
                        + (unat b3 - 0x80), rest3)
             else None
         | _ \<Rightarrow> None)
      else None)"

lemma decode_char_length: "decode_char bs = Some (c, rest) \<Longrightarrow> length rest < length bs"
  by (cases bs) (auto split: if_splits list.splits)

function from_utf8 :: "bytes \<Rightarrow> rstr option" where
  "from_utf8 bs =
     (if bs = [] then Some []
      else case decode_char bs of
             None \<Rightarrow> None
           | Some (c, rest) \<Rightarrow> map_option (Cons c) (from_utf8 rest))"
  by pat_completeness auto
termination
  by (relation "measure length") (auto dest: decode_char_length)

declare from_utf8.simps [simp del]

lemma from_utf8_Nil [simp]: "from_utf8 [] = Some []"
  by (simp add: from_utf8.simps)

lemma from_utf8_Cons:
  "bs \<noteq> [] \<Longrightarrow> from_utf8 bs = (case decode_char bs of None \<Rightarrow> None
     | Some (c, rest) \<Rightarrow> map_option (Cons c) (from_utf8 rest))"
  by (subst from_utf8.simps) simp

subsection \<open>One character\<close>

lemma div_64_4096: "c div 64 = c div 4096 * 64 + c div 64 mod 64" for c :: nat
  using div_mult_mod_eq [of "c div 64" 64] by (simp add: div_mult2_eq [symmetric])

lemma div_4096_262144: "c div 4096 = c div 262144 * 64 + c div 4096 mod 64" for c :: nat
  using div_mult_mod_eq [of "c div 4096" 64] by (simp add: div_mult2_eq [symmetric])

text \<open>Digits to the base 64.\<close>

lemma horner64: "s < 64 \<Longrightarrow> (x * 64 + s) div 64 = x" "s < 64 \<Longrightarrow> (x * 64 + s) mod 64 = s" for x s :: nat
  by auto

lemma div_4096: "c div 4096 = c div 64 div 64" for c :: nat
  by (simp add: div_mult2_eq [symmetric])

lemma div_262144: "c div 262144 = c div 64 div 64 div 64" for c :: nat
  by (simp add: div_mult2_eq [symmetric])

lemma byte_eq_of: "unat b = n \<Longrightarrow> b = byte_of n"
  by (metis byte_of_unat)

lemma decode_encode3:
  assumes sc: "is_scalar c" and c3: "0x800 \<le> c" "c < 0x10000"
  shows "decode_char (encode_char c @ rest) = Some (c, rest)"
proof -
  define q r s where "q = c div 4096" and "r = c div 64 mod 64" and "s = c mod 64"
  have c: "c = q * 4096 + r * 64 + s"
    unfolding q_def r_def s_def using div_64_4096 [of c] div_mult_mod_eq [of c 64] by linarith
  have b: "q < 16" "r < 64" "s < 64" using c3 by (auto simp: q_def r_def s_def)
  have e: "encode_char c = [byte_of (0xE0 + q), byte_of (0x80 + r), byte_of (0x80 + s)]"
    using c3 by (simp add: encode_char_def q_def r_def s_def)
  have "q = 0 \<Longrightarrow> 32 \<le> r" "q = 13 \<Longrightarrow> r < 32"
    using c3 sc b c by (auto simp: is_scalar_def)
  with b show ?thesis
    unfolding e by (auto simp: c in_range_def second3_ok_def)
qed

lemma decode_encode4:
  assumes c4: "0x10000 \<le> c" "c < 0x110000"
  shows "decode_char (encode_char c @ rest) = Some (c, rest)"
proof -
  define q r s t where "q = c div 262144" and "r = c div 4096 mod 64"
    and "s = c div 64 mod 64" and "t = c mod 64"
  have c: "c = q * 262144 + r * 4096 + s * 64 + t"
    unfolding q_def r_def s_def t_def
    using div_64_4096 [of c] div_4096_262144 [of c] div_mult_mod_eq [of c 64] by linarith
  have b: "q < 5" "r < 64" "s < 64" "t < 64" using c4 by (auto simp: q_def r_def s_def t_def)
  have e: "encode_char c =
      [byte_of (0xF0 + q), byte_of (0x80 + r), byte_of (0x80 + s), byte_of (0x80 + t)]"
    using c4 by (simp add: encode_char_def q_def r_def s_def t_def)
  have "q = 0 \<Longrightarrow> 16 \<le> r" "q = 4 \<Longrightarrow> r < 16"
    using c4 b c by auto
  with b show ?thesis
    unfolding e by (auto simp: c in_range_def second4_ok_def)
qed

lemma decode_encode_char [codec_simps]:
  assumes sc: "is_scalar c"
  shows "decode_char (encode_char c @ rest) = Some (c, rest)"
proof -
  consider "c < 0x80" | "0x80 \<le> c" "c < 0x800" | "0x800 \<le> c" "c < 0x10000"
    | "0x10000 \<le> c" "c < 0x110000"
    using sc by (force simp: is_scalar_def)
  then show ?thesis
  proof cases
    case 1
    then show ?thesis by (simp add: encode_char_def)
  next
    case 2
    then have "2 \<le> c div 64" "c div 64 < 32" by auto
    with 2 show ?thesis by (simp add: encode_char_def in_range_def)
  qed (use sc decode_encode3 decode_encode4 in auto)
qed

lemma decode_inv2:
  assumes "in_range 0xC2 0xDF b0" "is_cont b1" "c = (unat b0 - 0xC0) * 64 + (unat b1 - 0x80)"
  shows "is_scalar c \<and> encode_char c = [b0, b1]"
proof -
  define q r where "q = unat b0 - 0xC0" and "r = unat b1 - 0x80"
  have b: "unat b0 = 0xC0 + q" "unat b1 = 0x80 + r" "2 \<le> q" "q < 32" "r < 64"
    using assms by (auto simp: q_def r_def in_range_def)
  have cq: "c = q * 64 + r" using assms by (simp add: q_def r_def)
  have "0x80 \<le> c" "c < 0x800" "c div 64 = q" "c mod 64 = r" using b cq by auto
  then show ?thesis
    using byte_eq_of [OF b(1)] byte_eq_of [OF b(2)] by (simp add: encode_char_def is_scalar_def)
qed

lemma decode_inv3:
  assumes "in_range 0xE0 0xEF b0" "second3_ok b0 b1" "is_cont b2"
    and "c = (unat b0 - 0xE0) * 4096 + (unat b1 - 0x80) * 64 + (unat b2 - 0x80)"
  shows "is_scalar c \<and> encode_char c = [b0, b1, b2]"
proof -
  define q r s where "q = unat b0 - 0xE0" and "r = unat b1 - 0x80" and "s = unat b2 - 0x80"
  have b: "unat b0 = 0xE0 + q" "unat b1 = 0x80 + r" "unat b2 = 0x80 + s"
      "q < 16" "r < 64" "s < 64" "0 < q \<or> 32 \<le> r" "q < 13 \<or> 13 < q \<or> r < 32"
    using assms by (auto simp: q_def r_def s_def in_range_def second3_ok_def split: if_splits)
  have cq: "c = (q * 64 + r) * 64 + s" using assms by (simp add: q_def r_def s_def)
  then have cx: "c = q * 4096 + r * 64 + s" by simp
  have "0x800 \<le> c" by (rule disjE [OF b(7)]) (use cx in linarith)+
  moreover have "c < 0x10000" using b(4-6) cx by linarith
  moreover have "c < 0xD800 \<or> 0xE000 \<le> c"
  proof (cases "13 < q")
    case True
    with cx show ?thesis by linarith
  next
    case False
    with b(5,6,8) cx have "c < 0xD800" by (elim disjE) linarith+
    then show ?thesis ..
  qed
  moreover have "c div 64 div 64 = q" "c div 64 mod 64 = r" "c mod 64 = s"
    by (simp_all only: cq horner64 b)
  ultimately show ?thesis
    using byte_eq_of [OF b(1)] byte_eq_of [OF b(2)] byte_eq_of [OF b(3)]
    by (simp add: encode_char_def is_scalar_def div_4096)
qed

lemma decode_inv4:
  assumes "in_range 0xF0 0xF4 b0" "second4_ok b0 b1" "is_cont b2" "is_cont b3"
    and "c = (unat b0 - 0xF0) * 262144 + (unat b1 - 0x80) * 4096 + (unat b2 - 0x80) * 64
             + (unat b3 - 0x80)"
  shows "is_scalar c \<and> encode_char c = [b0, b1, b2, b3]"
proof -
  define q r s t where "q = unat b0 - 0xF0" and "r = unat b1 - 0x80" and "s = unat b2 - 0x80"
    and "t = unat b3 - 0x80"
  have b: "unat b0 = 0xF0 + q" "unat b1 = 0x80 + r" "unat b2 = 0x80 + s" "unat b3 = 0x80 + t"
      "q < 5" "r < 64" "s < 64" "t < 64" "0 < q \<or> 16 \<le> r" "q < 4 \<or> r < 16"
    using assms by (auto simp: q_def r_def s_def t_def in_range_def second4_ok_def split: if_splits)
  have cq: "c = ((q * 64 + r) * 64 + s) * 64 + t"
    using assms by (simp add: q_def r_def s_def t_def)
  then have cx: "c = q * 262144 + r * 4096 + s * 64 + t" by simp
  have "0x10000 \<le> c" by (rule disjE [OF b(9)]) (use cx in linarith)+
  moreover have "c < 0x110000" by (rule disjE [OF b(10)]) (use b(5-8) cx in linarith)+
  moreover have "c div 64 div 64 div 64 = q" "c div 64 div 64 mod 64 = r" "c div 64 mod 64 = s"
      "c mod 64 = t"
    by (simp_all only: cq horner64 b)
  ultimately show ?thesis
    using byte_eq_of [OF b(1)] byte_eq_of [OF b(2)] byte_eq_of [OF b(3)] byte_eq_of [OF b(4)]
    by (simp add: encode_char_def is_scalar_def div_4096 div_262144)
qed

lemma decode_char_inv:
  assumes "decode_char bs = Some (c, rest)"
  shows "is_scalar c \<and> bs = encode_char c @ rest"
proof -
  obtain b0 r0 where bs: "bs = b0 # r0" using assms by (cases bs) auto
  consider "unat b0 < 0x80" | "in_range 0xC2 0xDF b0" | "in_range 0xE0 0xEF b0"
    | "in_range 0xF0 0xF4 b0"
    using assms bs by (force split: if_splits)
  then show ?thesis
  proof cases
    case 1
    with assms bs show ?thesis by (auto simp: is_scalar_def encode_char_def)
  next
    case 2
    with assms bs obtain b1 where "r0 = b1 # rest" "is_cont b1"
        "c = (unat b0 - 0xC0) * 64 + (unat b1 - 0x80)"
      by (auto simp: in_range_def split: if_splits list.splits)
    with 2 bs decode_inv2 show ?thesis by auto
  next
    case 3
    with assms bs obtain b1 b2 where "r0 = b1 # b2 # rest" "second3_ok b0 b1" "is_cont b2"
        "c = (unat b0 - 0xE0) * 4096 + (unat b1 - 0x80) * 64 + (unat b2 - 0x80)"
      by (auto simp: in_range_def split: if_splits list.splits)
    with 3 bs decode_inv3 show ?thesis by auto
  next
    case 4
    with assms bs obtain b1 b2 b3 where "r0 = b1 # b2 # b3 # rest" "second4_ok b0 b1"
        "is_cont b2" "is_cont b3"
        "c = (unat b0 - 0xF0) * 262144 + (unat b1 - 0x80) * 4096 + (unat b2 - 0x80) * 64
             + (unat b3 - 0x80)"
      by (auto simp: in_range_def split: if_splits list.splits)
    with 4 bs decode_inv4 show ?thesis by auto
  qed
qed

interpretation utf8: byte_codec encode_char decode_char is_scalar
  by unfold_locales (rule decode_encode_char)

subsection \<open>Strings\<close>

abbreviation scalars :: "rstr \<Rightarrow> bool" where
  "scalars s \<equiv> \<forall>c\<in>set s. is_scalar c"

lemma encode_char_neq_Nil [simp]: "encode_char c \<noteq> []"
  by (simp add: encode_char_def)

lemma length_encode_char [simp]: "length (encode_char c) = utf8_len c"
  by (simp add: encode_char_def utf8_len_def)

lemma as_bytes_simps [simp]:
  "as_bytes [] = []"
  "as_bytes (c # s) = encode_char c @ as_bytes s"
  "as_bytes (s @ t) = as_bytes s @ as_bytes t"
  by (simp_all add: as_bytes_def)

lemma length_as_bytes [simp]: "length (as_bytes s) = str_len s"
  by (induction s) (simp_all add: str_len_def)

lemma from_utf8_as_bytes [codec_simps, simp]: "scalars s \<Longrightarrow> from_utf8 (as_bytes s) = Some s"
  by (induction s) (simp_all add: from_utf8_Cons decode_encode_char)

lemma from_utf8_Some: "from_utf8 bs = Some s \<Longrightarrow> scalars s \<and> as_bytes s = bs"
proof (induction bs arbitrary: s rule: from_utf8.induct)
  case (1 bs)
  show ?case
  proof (cases "bs = []")
    case True
    with 1 show ?thesis by simp
  next
    case False
    with "1.prems" obtain c rest t where d: "decode_char bs = Some (c, rest)"
      and t: "from_utf8 rest = Some t" "s = c # t"
      by (auto simp: from_utf8_Cons split: option.splits)
    from "1.IH" [OF False d refl t(1)] have "scalars t" "as_bytes t = rest" by auto
    with d t(2) show ?thesis by (auto dest!: decode_char_inv)
  qed
qed

text \<open>A NUL byte on the wire is a NUL character: what makes NUL-terminated strings unambiguous.\<close>

lemma zero_in_encode_char: "is_scalar c \<Longrightarrow> 0 \<in> set (encode_char c) \<longleftrightarrow> c = 0"
proof -
  assume "is_scalar c"
  then have lt: "c < 0x110000" by (auto simp: is_scalar_def)
  have nz: "n < 256 \<Longrightarrow> byte_of n = 0 \<longleftrightarrow> n = 0" for n
    by (metis unat_0 unat_byte_of byte_of_unat)
  have "c div 4096 mod 64 < 64" "c div 64 mod 64 < 64" "c mod 64 < 64" by simp_all
  with lt show ?thesis
    by (auto simp: encode_char_def eq_commute [of 0] nz)
qed

lemma zero_in_as_bytes: "scalars s \<Longrightarrow> 0 \<in> set (as_bytes s) \<longleftrightarrow> 0 \<in> set s"
  by (induction s) (auto simp: zero_in_encode_char)

end
