(* ===== verification/Wire_Frame.thy ===== *)
theory Wire_Frame
  imports Rust_Text
begin

text \<open>
  Framing of the PostgreSQL protocol, \<open>pg-kinetic-wire\<close>: the error values of \<open>error.rs\<close>, the
  message tags of \<open>protocol.rs\<close>, the frontend frame parser of \<open>frame.rs\<close> with its encoder from
  \<open>rewrite.rs\<close>, and the backend frame parser of \<open>backend.rs\<close>. A parser takes the connection's
  receive buffer and returns its result with the buffer it leaves behind.

  The interface \<open>frame_parser\<close> states what every reader of the proxy relies on: a parser that
  returns no frame leaves the buffer alone, a returned frame is cut off the front, and bytes
  that arrive later do not change what was already recognised. Inside it the read loop
  \<open>while let Some(frame) = parse(buffer)?\<close> is shown to terminate on every input and to be
  independent of how the network splits the stream.
\<close>

section \<open>Errors and tags\<close>

datatype wire_error =
    InvalidStartupLength i32
  | IncompleteStartupPacket
  | UnterminatedStartupParameters
  | MissingStartupParameterValue rstr
  | InvalidUtf8
  | InvalidFrameLength i32
  | IncompleteFrame
  | InvalidBackendFrameLength i32

datatype frontend_tag =
  FE_Query | FE_Parse | FE_Bind | FE_Describe | FE_Execute | FE_Close | FE_Flush | FE_Sync | FE_Terminate

fun frontend_tag_byte :: "frontend_tag \<Rightarrow> u8" where
  "frontend_tag_byte FE_Query = of_char CHR ''Q''"
| "frontend_tag_byte FE_Parse = of_char CHR ''P''"
| "frontend_tag_byte FE_Bind = of_char CHR ''B''"
| "frontend_tag_byte FE_Describe = of_char CHR ''D''"
| "frontend_tag_byte FE_Execute = of_char CHR ''E''"
| "frontend_tag_byte FE_Close = of_char CHR ''C''"
| "frontend_tag_byte FE_Flush = of_char CHR ''H''"
| "frontend_tag_byte FE_Sync = of_char CHR ''S''"
| "frontend_tag_byte FE_Terminate = of_char CHR ''X''"

datatype backend_tag =
    BE_Authentication | BE_BackendKeyData | BE_BindComplete | BE_CloseComplete
  | BE_CommandComplete | BE_CopyBothResponse | BE_CopyInResponse | BE_DataRow
  | BE_EmptyQueryResponse | BE_ErrorResponse | BE_NoData | BE_ParameterDescription
  | BE_ParameterStatus | BE_ParseComplete | BE_PortalSuspended | BE_ReadyForQuery
  | BE_RowDescription

fun backend_tag_byte :: "backend_tag \<Rightarrow> u8" where
  "backend_tag_byte BE_Authentication = of_char CHR ''R''"
| "backend_tag_byte BE_BackendKeyData = of_char CHR ''K''"
| "backend_tag_byte BE_BindComplete = of_char CHR ''2''"
| "backend_tag_byte BE_CloseComplete = of_char CHR ''3''"
| "backend_tag_byte BE_CommandComplete = of_char CHR ''C''"
| "backend_tag_byte BE_CopyBothResponse = of_char CHR ''W''"
| "backend_tag_byte BE_CopyInResponse = of_char CHR ''G''"
| "backend_tag_byte BE_DataRow = of_char CHR ''D''"
| "backend_tag_byte BE_EmptyQueryResponse = of_char CHR ''I''"
| "backend_tag_byte BE_ErrorResponse = of_char CHR ''E''"
| "backend_tag_byte BE_NoData = of_char CHR ''n''"
| "backend_tag_byte BE_ParameterDescription = of_char CHR ''t''"
| "backend_tag_byte BE_ParameterStatus = of_char CHR ''S''"
| "backend_tag_byte BE_ParseComplete = of_char CHR ''1''"
| "backend_tag_byte BE_PortalSuspended = of_char CHR ''s''"
| "backend_tag_byte BE_ReadyForQuery = of_char CHR ''Z''"
| "backend_tag_byte BE_RowDescription = of_char CHR ''T''"

datatype ready_status_byte = RSB_Idle | RSB_InTransaction | RSB_FailedTransaction

fun ready_status_byte_code :: "ready_status_byte \<Rightarrow> u8" where
  "ready_status_byte_code RSB_Idle = of_char CHR ''I''"
| "ready_status_byte_code RSB_InTransaction = of_char CHR ''T''"
| "ready_status_byte_code RSB_FailedTransaction = of_char CHR ''E''"

lemma frontend_tag_byte_inject [simp]: "frontend_tag_byte s = frontend_tag_byte t \<longleftrightarrow> s = t"
  by (cases s; cases t) simp_all

lemma backend_tag_byte_inject [simp]: "backend_tag_byte s = backend_tag_byte t \<longleftrightarrow> s = t"
  by (cases s; cases t) simp_all

lemma ready_status_byte_code_inject [simp]:
  "ready_status_byte_code s = ready_status_byte_code t \<longleftrightarrow> s = t"
  by (cases s; cases t) simp_all

section \<open>Frames\<close>

record frontend_frame =
  ff_tag :: u8
  ff_payload :: bytes

record backend_frame =
  bf_tag :: u8
  bf_payload :: bytes

definition FRAME_HEADER_LEN :: nat where
  "FRAME_HEADER_LEN = 5"

definition FRAME_LENGTH_PREFIX_LEN :: nat where
  "FRAME_LENGTH_PREFIX_LEN = 4"

lemmas frame_consts [simp] = FRAME_HEADER_LEN_def FRAME_LENGTH_PREFIX_LEN_def

text \<open>The length word at offset 1 of a buffer of at least five bytes.\<close>

definition frame_length :: "bytes \<Rightarrow> i32" where
  "frame_length b = i32_from_be (b ! 1) (b ! 2) (b ! 3) (b ! 4)"

definition parse_frontend_frame :: "bytes \<Rightarrow> (wire_error + frontend_frame option) \<times> bytes" where
  "parse_frontend_frame buffer =
     (if length buffer < FRAME_HEADER_LEN then (Inr None, buffer)
      else
        let tag = buffer ! 0;
            len = frame_length buffer
        in if sint len < int FRAME_LENGTH_PREFIX_LEN then (Inl (InvalidFrameLength len), buffer)
           else
             let payload_len = nat (sint len) - FRAME_LENGTH_PREFIX_LEN;
                 total_len = FRAME_HEADER_LEN + payload_len
             in if length buffer < total_len then (Inr None, buffer)
                else
                  let frame = take total_len buffer;
                      payload = drop FRAME_HEADER_LEN frame
                  in (Inr (Some \<lparr>ff_tag = tag, ff_payload = payload\<rparr>), drop total_len buffer))"

definition parse_backend_frame :: "bytes \<Rightarrow> (wire_error + backend_frame option) \<times> bytes" where
  "parse_backend_frame buffer =
     (if length buffer < 5 then (Inr None, buffer)
      else
        let tag = buffer ! 0;
            len = frame_length buffer
        in if sint len < 4 then (Inl (InvalidBackendFrameLength len), buffer)
           else
             let total_len = 1 + nat (sint len)
             in if length buffer < total_len then (Inr None, buffer)
                else
                  let buffer = drop 4 (drop 1 buffer);
                      payload_len = nat (sint (len - 4))
                  in (Inr (Some \<lparr>bf_tag = tag, bf_payload = take payload_len buffer\<rparr>),
                      drop payload_len buffer))"

definition encode_frontend_frame :: "frontend_frame \<Rightarrow> bytes" where
  "encode_frontend_frame frame =
     ff_tag frame # put_i32 (usize_as_i32 (length (ff_payload frame) + 4)) @ ff_payload frame"

text \<open>A header and a payload as the backend sends them; also how the proxy builds its own replies.\<close>

definition backend_message :: "u8 \<Rightarrow> bytes \<Rightarrow> bytes" where
  "backend_message tag payload = tag # put_i32 (usize_as_i32 (length payload + 4)) @ payload"

section \<open>The interface of a frame parser\<close>

locale frame_parser =
  fixes parse :: "bytes \<Rightarrow> ('e + 'f option) \<times> bytes"
  assumes parse_wait: "parse b = (Inr None, r) \<Longrightarrow> r = b"
    and parse_fail: "parse b = (Inl e, r) \<Longrightarrow> r = b"
    and parse_cut: "parse b = (Inr (Some f), r) \<Longrightarrow> \<exists>p. p \<noteq> [] \<and> b = p @ r"
    and parse_frame_more: "parse b = (Inr (Some f), r) \<Longrightarrow> parse (b @ c) = (Inr (Some f), r @ c)"
    and parse_fail_more: "parse b = (Inl e, r) \<Longrightarrow> parse (b @ c) = (Inl e, b @ c)"
begin

lemma parse_shrinks: "parse b = (Inr (Some f), r) \<Longrightarrow> length r < length b"
  using parse_cut by fastforce

lemma parse_Nil_no_frame: "parse [] \<noteq> (Inr (Some f), r)"
  using parse_cut by blast

end

text \<open>
  A read loop over a parser: it collects frames until none is complete, and stops with the
  first error. The law is the loop's own unfolding equation.
\<close>

locale frame_loop = frame_parser parse
  for parse :: "bytes \<Rightarrow> ('e + 'f option) \<times> bytes" +
  fixes loop :: "bytes \<Rightarrow> ('e + 'f list) \<times> bytes"
  assumes loop_unfold: "loop b =
    (case parse b of
       (Inl e, r) \<Rightarrow> (Inl e, r)
     | (Inr None, r) \<Rightarrow> (Inr [], r)
     | (Inr (Some f), r) \<Rightarrow>
         (case loop r of (Inl e, r') \<Rightarrow> (Inl e, r') | (Inr fs, r') \<Rightarrow> (Inr (f # fs), r')))"
begin

lemma loop_induct [case_names step]:
  assumes "\<And>b. (\<And>f r. parse b = (Inr (Some f), r) \<Longrightarrow> P r) \<Longrightarrow> P b"
  shows "P b"
proof (induction b rule: length_induct)
  case (1 b)
  show ?case by (rule assms) (use 1 parse_shrinks in blast)
qed

lemma loop_cases:
  obtains (wait) "parse b = (Inr None, b)" "loop b = (Inr [], b)"
  | (fail) e where "parse b = (Inl e, b)" "loop b = (Inl e, b)"
  | (frame) f r where "parse b = (Inr (Some f), r)"
      "loop b = (case loop r of (Inl e, r') \<Rightarrow> (Inl e, r') | (Inr fs, r') \<Rightarrow> (Inr (f # fs), r'))"
proof -
  consider r where "parse b = (Inr None, r)" | e r where "parse b = (Inl e, r)"
    | f r where "parse b = (Inr (Some f), r)"
    by (metis old.prod.exhaust option.exhaust sumE)
  then show thesis
    by cases (use loop_unfold [of b] that in \<open>auto dest: parse_wait parse_fail\<close>)
qed

text \<open>What is left over holds no complete frame.\<close>

lemma loop_rest_waits: "loop b = (Inr fs, r) \<Longrightarrow> parse r = (Inr None, r)"
proof (induction b arbitrary: fs rule: loop_induct)
  case (step b)
  then show ?case
    by (cases b rule: loop_cases) (auto split: prod.splits sum.splits)
qed

lemma loop_suffix: "loop b = (x, r) \<Longrightarrow> \<exists>p. b = p @ r"
proof (induction b arbitrary: x rule: loop_induct)
  case (step b)
  show ?case
  proof (cases b rule: loop_cases)
    case (frame f r')
    then obtain x' where "loop r' = (x', r)" using step.prems by (auto split: prod.splits sum.splits)
    with step.IH frame(1) obtain p where "r' = p @ r" by blast
    with parse_cut [OF frame(1)] show ?thesis by auto
  qed (use step.prems in auto)
qed

text \<open>Chunking independence: reading a prefix first and the rest later gives the same frames.\<close>

lemma loop_append:
  "loop b = (Inr fs, r) \<Longrightarrow>
     loop (b @ c) =
       (case loop (r @ c) of (Inl e, r') \<Rightarrow> (Inl e, r') | (Inr gs, r') \<Rightarrow> (Inr (fs @ gs), r'))"
proof (induction b arbitrary: fs rule: loop_induct)
  case (step b)
  show ?case
  proof (cases b rule: loop_cases)
    case (frame f r1)
    then obtain gs where gs: "loop r1 = (Inr gs, r)" "fs = f # gs"
      using step.prems by (auto split: prod.splits sum.splits)
    show ?thesis
      using step.IH [OF frame(1) gs(1)] parse_frame_more [OF frame(1), of c] gs(2)
      by (subst loop_unfold) (auto split: prod.splits sum.splits)
  qed (use step.prems in \<open>auto split: prod.splits sum.splits\<close>)
qed

lemma loop_append_error: "loop b = (Inl e, r) \<Longrightarrow> \<exists>r'. loop (b @ c) = (Inl e, r')"
proof (induction b rule: loop_induct)
  case (step b)
  show ?case
  proof (cases b rule: loop_cases)
    case (fail e')
    then show ?thesis
      using step.prems parse_fail_more [OF fail(1), of c] by (subst loop_unfold) auto
  next
    case (frame f r1)
    then have "loop r1 = (Inl e, r)" using step.prems by (auto split: prod.splits sum.splits)
    then show ?thesis
      using step.IH frame(1) parse_frame_more [OF frame(1), of c]
      by (subst loop_unfold) (auto split: prod.splits sum.splits)
  qed (use step.prems in auto)
qed

text \<open>One read of a connection: what the chunk completes, and what is left for the next.\<close>

lemma loop_split:
  assumes "loop (b @ rest) = (Inr fs, r)"
  obtains gs hs r' where "loop b = (Inr gs, r')" "loop (r' @ rest) = (Inr hs, r)" "fs = gs @ hs"
    "parse r' = (Inr None, r')"
proof (cases "loop b")
  case (Pair x r')
  show thesis
  proof (cases x)
    case (Inl e)
    with Pair assms loop_append_error [of b e r' rest] show thesis by auto
  next
    case (Inr gs)
    with Pair assms loop_append [of b gs r' rest] obtain hs where "loop (r' @ rest) = (Inr hs, r)" "fs = gs @ hs"
      by (auto split: prod.splits sum.splits)
    with Pair Inr loop_rest_waits [of b gs r'] that show thesis by blast
  qed
qed

lemma loop_wait: "parse b = (Inr None, b) \<Longrightarrow> loop b = (Inr [], b)"
  by (subst loop_unfold) simp

end

section \<open>The two parsers implement the interface\<close>

text \<open>The length word does not move when bytes are appended.\<close>

lemma frame_length_append [simp]: "5 \<le> length b \<Longrightarrow> frame_length (b @ c) = frame_length b"
  by (simp add: frame_length_def nth_append)

lemma sint_minus_4:
  assumes "4 \<le> sint (len :: i32)"
  shows "nat (sint (len - 4)) = nat (sint len) - 4"
proof -
  have "sint len < 2 ^ 31" using sint_lt [of len] by simp
  with assms have "sint (len - 4) = sint len - 4"
    by (simp add: sint_word_ariths signed_take_bit_int_eq_self)
  then show ?thesis using assms by simp
qed

lemma parse_frontend_frame_Some:
  "parse_frontend_frame b = (Inr (Some f), r) \<longleftrightarrow>
     5 \<le> length b \<and> 4 \<le> sint (frame_length b) \<and> 1 + nat (sint (frame_length b)) \<le> length b \<and>
     f = \<lparr>ff_tag = b ! 0, ff_payload = take (nat (sint (frame_length b)) - 4) (drop 5 b)\<rparr> \<and>
     r = drop (1 + nat (sint (frame_length b))) b"
  by (auto simp: parse_frontend_frame_def Let_def drop_take split: if_splits)

lemma parse_backend_frame_Some:
  "parse_backend_frame b = (Inr (Some f), r) \<longleftrightarrow>
     5 \<le> length b \<and> 4 \<le> sint (frame_length b) \<and> 1 + nat (sint (frame_length b)) \<le> length b \<and>
     f = \<lparr>bf_tag = b ! 0, bf_payload = take (nat (sint (frame_length b)) - 4) (drop 5 b)\<rparr> \<and>
     r = drop (1 + nat (sint (frame_length b))) b"
  by (auto simp: parse_backend_frame_def Let_def sint_minus_4 drop_Cons' split: if_splits)

lemma parse_frontend_frame_None:
  "parse_frontend_frame b = (Inr None, r) \<longleftrightarrow>
     r = b \<and> (5 \<le> length b \<longrightarrow> 4 \<le> sint (frame_length b) \<and> length b < 1 + nat (sint (frame_length b)))"
  by (auto simp: parse_frontend_frame_def Let_def split: if_splits)

lemma parse_backend_frame_None:
  "parse_backend_frame b = (Inr None, r) \<longleftrightarrow>
     r = b \<and> (5 \<le> length b \<longrightarrow> 4 \<le> sint (frame_length b) \<and> length b < 1 + nat (sint (frame_length b)))"
  by (auto simp: parse_backend_frame_def Let_def split: if_splits)

lemma parse_frontend_frame_Inl:
  "parse_frontend_frame b = (Inl e, r) \<longleftrightarrow>
     r = b \<and> 5 \<le> length b \<and> sint (frame_length b) < 4 \<and> e = InvalidFrameLength (frame_length b)"
  by (auto simp: parse_frontend_frame_def Let_def split: if_splits)

lemma parse_backend_frame_Inl:
  "parse_backend_frame b = (Inl e, r) \<longleftrightarrow>
     r = b \<and> 5 \<le> length b \<and> sint (frame_length b) < 4 \<and> e = InvalidBackendFrameLength (frame_length b)"
  by (auto simp: parse_backend_frame_def Let_def split: if_splits)

lemmas frontend_parse_iffs =
  parse_frontend_frame_Some parse_frontend_frame_None parse_frontend_frame_Inl

lemmas backend_parse_iffs =
  parse_backend_frame_Some parse_backend_frame_None parse_backend_frame_Inl

lemma cut_prefix: "n \<le> length b \<Longrightarrow> 0 < n \<Longrightarrow> \<exists>p. p \<noteq> [] \<and> b = p @ drop n b"
  by (rule exI [of _ "take n b"]) auto

interpretation fe_parser: frame_parser parse_frontend_frame
  by unfold_locales (auto simp: frontend_parse_iffs nth_append intro: cut_prefix)

interpretation be_parser: frame_parser parse_backend_frame
  by unfold_locales (auto simp: backend_parse_iffs nth_append intro: cut_prefix)

section \<open>Read loops\<close>

text \<open>
  \<open>while let Some(frame) = parse_frontend_frame(&mut buffer)? { frames.push(frame); }\<close> and its
  backend counterpart, with the buffer they leave behind.
\<close>

function frontend_frames_loop :: "bytes \<Rightarrow> (wire_error + frontend_frame list) \<times> bytes" where
  "frontend_frames_loop buffer =
     (case parse_frontend_frame buffer of
        (Inl e, rest) \<Rightarrow> (Inl e, rest)
      | (Inr None, rest) \<Rightarrow> (Inr [], rest)
      | (Inr (Some frame), rest) \<Rightarrow>
          (case frontend_frames_loop rest of
             (Inl e, rest') \<Rightarrow> (Inl e, rest')
           | (Inr frames, rest') \<Rightarrow> (Inr (frame # frames), rest')))"
  by pat_completeness auto
termination
  by (relation "measure length") (auto dest!: sym [of _ "parse_frontend_frame _"] fe_parser.parse_shrinks)

function backend_frames_loop :: "bytes \<Rightarrow> (wire_error + backend_frame list) \<times> bytes" where
  "backend_frames_loop buffer =
     (case parse_backend_frame buffer of
        (Inl e, rest) \<Rightarrow> (Inl e, rest)
      | (Inr None, rest) \<Rightarrow> (Inr [], rest)
      | (Inr (Some frame), rest) \<Rightarrow>
          (case backend_frames_loop rest of
             (Inl e, rest') \<Rightarrow> (Inl e, rest')
           | (Inr frames, rest') \<Rightarrow> (Inr (frame # frames), rest')))"
  by pat_completeness auto
termination
  by (relation "measure length") (auto dest!: sym [of _ "parse_backend_frame _"] be_parser.parse_shrinks)

declare frontend_frames_loop.simps [simp del]
declare backend_frames_loop.simps [simp del]

interpretation fe_loop: frame_loop parse_frontend_frame frontend_frames_loop
  by unfold_locales (rule frontend_frames_loop.simps)

interpretation be_loop: frame_loop parse_backend_frame backend_frames_loop
  by unfold_locales (rule backend_frames_loop.simps)

section \<open>Round trips\<close>

text \<open>The length field is a signed 32-bit count of the payload and itself.\<close>

definition payload_fits :: "bytes \<Rightarrow> bool" where
  "payload_fits p \<longleftrightarrow> length p + 4 < 2 ^ 31"

lemma frame_length_put [simp]: "frame_length (t # put_i32 w @ p) = w"
  by (simp add: frame_length_def put_i32_def)

lemma parse_encode_frontend [codec_simps]:
  "payload_fits (ff_payload f) \<Longrightarrow> parse_frontend_frame (encode_frontend_frame f @ r) = (Inr (Some f), r)"
  unfolding parse_frontend_frame_Some
  by (simp add: encode_frontend_frame_def payload_fits_def nat_add_distrib drop_Cons')

lemma parse_backend_message [codec_simps]:
  "payload_fits p \<Longrightarrow>
     parse_backend_frame (backend_message t p @ r) = (Inr (Some \<lparr>bf_tag = t, bf_payload = p\<rparr>), r)"
  unfolding parse_backend_frame_Some
  by (simp add: backend_message_def payload_fits_def nat_add_distrib drop_Cons')

text \<open>Conversely every recognised frame is the encoding of its content.\<close>

lemma parse_frontend_inverse:
  assumes "parse_frontend_frame b = (Inr (Some f), r)"
  shows "b = encode_frontend_frame f @ r \<and> payload_fits (ff_payload f)"
proof -
  define n where "n = nat (sint (frame_length b))"
  have len: "5 \<le> length b" "4 \<le> n" "1 + n \<le> length b" "sint (frame_length b) = int n"
    and f: "f = \<lparr>ff_tag = b ! 0, ff_payload = take (n - 4) (drop 5 b)\<rparr>" and r: "r = drop (1 + n) b"
    using assms by (auto simp: parse_frontend_frame_Some n_def)
  have w: "usize_as_i32 n = frame_length b"
    using len(4) by (rule usize_as_i32_sint)
  have "n < 2 ^ 31" using sint_lt [of "frame_length b"] len(4) by simp
  then have fits: "payload_fits (ff_payload f)" using len f by (simp add: payload_fits_def)
  obtain a0 a1 a2 a3 a4 c where b: "b = a0 # a1 # a2 # a3 # a4 # c"
    using len(1) by (auto simp: numeral_eq_Suc Suc_le_length_iff)
  have "put_i32 (usize_as_i32 n) = [a1, a2, a3, a4]"
    unfolding w by (simp add: b frame_length_def i32_be_unfold)
  moreover obtain m where "n = m + 4" using len(2) by (metis add.commute le_Suc_ex)
  ultimately show ?thesis using fits f r len by (simp add: b encode_frontend_frame_def drop_Cons')
qed

lemma frontend_loop_encode:
  "\<forall>f\<in>set fs. payload_fits (ff_payload f) \<Longrightarrow>
     frontend_frames_loop (concat (map encode_frontend_frame fs) @ r) =
       (case frontend_frames_loop r of (Inl e, r') \<Rightarrow> (Inl e, r') | (Inr gs, r') \<Rightarrow> (Inr (fs @ gs), r'))"
proof (induction fs)
  case Nil
  then show ?case by (auto split: prod.splits sum.splits)
next
  case (Cons f fs)
  then show ?case
    by (subst fe_loop.loop_unfold) (auto simp: codec_simps split: prod.splits sum.splits)
qed

lemma frontend_loop_Nil [simp]: "frontend_frames_loop [] = (Inr [], [])"
  by (subst fe_loop.loop_unfold) (simp add: parse_frontend_frame_def)

lemma frontend_loop_inverse:
  "frontend_frames_loop b = (Inr fs, r) \<Longrightarrow>
     b = concat (map encode_frontend_frame fs) @ r \<and> (\<forall>f\<in>set fs. payload_fits (ff_payload f))"
proof (induction b arbitrary: fs rule: fe_loop.loop_induct)
  case (step b)
  show ?case
  proof (cases b rule: fe_loop.loop_cases)
    case (frame f r1)
    with step parse_frontend_inverse [OF frame(1)] show ?thesis
      by (auto split: prod.splits sum.splits)
  qed (use step.prems in auto)
qed

text \<open>
  A connection reads chunk after chunk into its buffer and runs the loop after each; an error
  ends the connection.
\<close>

fun feed_frontend :: "bytes \<Rightarrow> bytes list \<Rightarrow> (wire_error + frontend_frame list) \<times> bytes" where
  "feed_frontend buffer [] = (Inr [], buffer)"
| "feed_frontend buffer (chunk # chunks) =
     (case frontend_frames_loop (buffer @ chunk) of
        (Inl e, rest) \<Rightarrow> (Inl e, rest)
      | (Inr frames, rest) \<Rightarrow>
          (case feed_frontend rest chunks of
             (Inl e, rest') \<Rightarrow> (Inl e, rest')
           | (Inr frames', rest') \<Rightarrow> (Inr (frames @ frames'), rest')))"

lemma feed_frontend_eq:
  assumes "parse_frontend_frame b = (Inr None, b)"
    and "frontend_frames_loop (b @ concat chunks) = (Inr fs, r)"
  shows "feed_frontend b chunks = (Inr fs, r)"
  using assms
proof (induction chunks arbitrary: b fs)
  case Nil
  then show ?case by (simp add: fe_loop.loop_wait)
next
  case (Cons c chunks)
  then have "frontend_frames_loop ((b @ c) @ concat chunks) = (Inr fs, r)" by simp
  then show ?case using Cons.IH by (cases rule: fe_loop.loop_split) auto
qed

text \<open>C1. Frames survive the wire however the network cuts the stream: for every list of frontend
  frames whose payloads fit the length field and every way to split their encoding into chunks,
  the connection's read loop returns exactly those frames and leaves nothing in the buffer.\<close>

theorem frontend_stream_chunking:
  assumes "\<forall>f\<in>set fs. payload_fits (ff_payload f)"
    and "concat chunks = concat (map encode_frontend_frame fs)"
  shows "feed_frontend [] chunks = (Inr fs, [])"
proof (rule feed_frontend_eq)
  show "parse_frontend_frame [] = (Inr None, [])" by (simp add: parse_frontend_frame_def)
  show "frontend_frames_loop ([] @ concat chunks) = (Inr fs, [])"
    using frontend_loop_encode [OF assms(1), of "[]"] assms(2) by simp
qed

theorem frontend_stream_chunking_witness:
  "feed_frontend [] [[81, 0, 0], [0, 6, 120, 0, 83, 0], [0, 0, 4]] =
     (Inr [\<lparr>ff_tag = 81, ff_payload = [120, 0]\<rparr>, \<lparr>ff_tag = 83, ff_payload = []\<rparr>], [])"
  by (rule frontend_stream_chunking)
     (simp_all add: payload_fits_def encode_frontend_frame_def put_i32_def usize_as_i32_def)

end
