(* ===== verification/Wire_Message.thy ===== *)
theory Wire_Message
  imports Wire_Frame
begin

text \<open>
  Frontend messages: the readers of \<open>message.rs\<close>, the statement-name rewriting of \<open>rewrite.rs\<close>
  and the startup packet of \<open>startup.rs\<close> and \<open>tls.rs\<close>. Shown: what the proxy writes it reads
  back; rewriting a statement name replaces that name and nothing else; the two independent
  C-string readers agree; the startup parser accepts exactly the packets the proxy itself
  sends and never reads past the packet.
\<close>

section \<open>C strings\<close>

text \<open>\<open>bytes.get(start..)\<close>.\<close>

definition slice_from :: "'a list \<Rightarrow> nat \<Rightarrow> 'a list option" where
  "slice_from bs start = (if start \<le> length bs then Some (drop start bs) else None)"

text \<open>\<open>bytes.get(start..end)\<close> with \<open>start \<le> end\<close>.\<close>

definition slice_range :: "'a list \<Rightarrow> nat \<Rightarrow> nat \<Rightarrow> 'a list option" where
  "slice_range bs start stop =
     (if start \<le> stop \<and> stop \<le> length bs then Some (take (stop - start) (drop start bs)) else None)"

definition read_cstr :: "bytes \<Rightarrow> nat \<Rightarrow> wire_error + rstr \<times> nat" where
  "read_cstr bs start =
     and_then (ok_or (slice_from bs start) IncompleteFrame) (\<lambda>remaining.
     and_then (ok_or (position (\<lambda>byte. byte = 0) remaining) IncompleteFrame) (\<lambda>terminator.
     and_then (ok_or (from_utf8 (take terminator remaining)) InvalidUtf8) (\<lambda>value.
     Inr (value, start + terminator + 1))))"

definition rewrite_read_cstr :: "bytes \<Rightarrow> nat \<Rightarrow> wire_error + rstr \<times> nat" where
  "rewrite_read_cstr bs start =
     (if start > length bs then Inl IncompleteFrame
      else
        and_then (ok_or (position (\<lambda>byte. byte = 0) (drop start bs)) IncompleteFrame) (\<lambda>relative_end.
        let end_pos = start + relative_end in
        and_then (ok_or (from_utf8 (take (end_pos - start) (drop start bs))) InvalidUtf8) (\<lambda>value.
        Inr (value, end_pos + 1))))"

definition write_cstr :: "bytes \<Rightarrow> rstr \<Rightarrow> bytes" where
  "write_cstr buffer value = buffer @ as_bytes value @ [0]"

section \<open>Message readers\<close>

definition STATEMENT_KIND :: u8 where
  "STATEMENT_KIND = of_char CHR ''S''"

definition PORTAL_KIND :: u8 where
  "PORTAL_KIND = of_char CHR ''P''"

record parse_message =
  pm_statement_name :: rstr
  pm_query :: rstr
  pm_parameter_type_oids :: "i32 list"

datatype describe_target = DT_Statement rstr | DT_Portal rstr

datatype close_target = CT_Statement rstr | CT_Portal rstr

definition parse_simple_query :: "frontend_frame \<Rightarrow> wire_error + rstr option" where
  "parse_simple_query frame =
     (if ff_tag frame \<noteq> frontend_tag_byte FE_Query then Inr None
      else and_then (read_cstr (ff_payload frame) 0) (\<lambda>(query, _). Inr (Some query)))"

text \<open>\<open>chunks_exact(4)\<close> decoded; a shorter tail is dropped.\<close>

fun oid_chunks :: "bytes \<Rightarrow> i32 list" where
  "oid_chunks (a # b # c # d # rest) = i32_from_be a b c d # oid_chunks rest"
| "oid_chunks _ = []"

definition parse_parse_message :: "frontend_frame \<Rightarrow> wire_error + parse_message option" where
  "parse_parse_message frame =
     (if ff_tag frame \<noteq> frontend_tag_byte FE_Parse then Inr None
      else
        let payload = ff_payload frame in
        and_then (read_cstr payload 0) (\<lambda>(statement_name, offset).
        and_then (read_cstr payload offset) (\<lambda>(query, offset).
        and_then (ok_or (slice_range payload offset (offset + 2)) IncompleteFrame) (\<lambda>count_bytes.
        let parameter_count = i16_from_be (count_bytes ! 0) (count_bytes ! 1) in
        if sint parameter_count < 0 then Inl IncompleteFrame
        else
          let offset = offset + 2;
              parameter_bytes = nat (sint parameter_count) * 4
          in and_then (ok_or (slice_range payload offset (offset + parameter_bytes)) IncompleteFrame)
               (\<lambda>oids. Inr (Some \<lparr>pm_statement_name = statement_name, pm_query = query,
                                  pm_parameter_type_oids = oid_chunks oids\<rparr>))))))"

definition parse_bind_statement_name :: "frontend_frame \<Rightarrow> wire_error + rstr option" where
  "parse_bind_statement_name frame =
     (if ff_tag frame \<noteq> frontend_tag_byte FE_Bind then Inr None
      else
        let payload = ff_payload frame in
        and_then (read_cstr payload 0) (\<lambda>(_, statement_offset).
        and_then (read_cstr payload statement_offset) (\<lambda>(statement_name, _).
        Inr (Some statement_name))))"

definition first_byte :: "bytes \<Rightarrow> u8 option" where
  "first_byte bs = (case bs of [] \<Rightarrow> None | b # _ \<Rightarrow> Some b)"

definition parse_describe_target :: "frontend_frame \<Rightarrow> wire_error + describe_target option" where
  "parse_describe_target frame =
     (if ff_tag frame \<noteq> frontend_tag_byte FE_Describe then Inr None
      else
        let payload = ff_payload frame in
        and_then (ok_or (first_byte payload) IncompleteFrame) (\<lambda>target_kind.
        and_then (read_cstr payload 1) (\<lambda>(target_name, _).
        if target_kind = STATEMENT_KIND then Inr (Some (DT_Statement target_name))
        else if target_kind = PORTAL_KIND then Inr (Some (DT_Portal target_name))
        else Inr None)))"

definition parse_close_target :: "frontend_frame \<Rightarrow> wire_error + close_target option" where
  "parse_close_target frame =
     (if ff_tag frame \<noteq> frontend_tag_byte FE_Close then Inr None
      else
        let payload = ff_payload frame in
        and_then (ok_or (first_byte payload) IncompleteFrame) (\<lambda>target_kind.
        and_then (read_cstr payload 1) (\<lambda>(target_name, _).
        if target_kind = STATEMENT_KIND then Inr (Some (CT_Statement target_name))
        else if target_kind = PORTAL_KIND then Inr (Some (CT_Portal target_name))
        else Inr None)))"

section \<open>Rewriting\<close>

definition rewrite_parse_statement_name ::
  "frontend_frame \<Rightarrow> rstr \<Rightarrow> wire_error + frontend_frame" where
  "rewrite_parse_statement_name frame backend_name =
     (if ff_tag frame \<noteq> frontend_tag_byte FE_Parse then Inr frame
      else
        and_then (rewrite_read_cstr (ff_payload frame) 0) (\<lambda>(_, after_name).
        let payload = write_cstr [] backend_name @ drop after_name (ff_payload frame)
        in Inr \<lparr>ff_tag = ff_tag frame, ff_payload = payload\<rparr>))"

definition rewrite_bind_statement_name ::
  "frontend_frame \<Rightarrow> rstr \<Rightarrow> wire_error + frontend_frame" where
  "rewrite_bind_statement_name frame backend_name =
     (if ff_tag frame \<noteq> frontend_tag_byte FE_Bind then Inr frame
      else
        and_then (rewrite_read_cstr (ff_payload frame) 0) (\<lambda>(_, after_portal).
        and_then (rewrite_read_cstr (ff_payload frame) after_portal) (\<lambda>(_, after_statement).
        let payload = write_cstr (take after_portal (ff_payload frame)) backend_name
                        @ drop after_statement (ff_payload frame)
        in Inr \<lparr>ff_tag = ff_tag frame, ff_payload = payload\<rparr>)))"

definition rewrite_statement_target ::
  "frontend_frame \<Rightarrow> u8 \<Rightarrow> rstr \<Rightarrow> wire_error + frontend_frame" where
  "rewrite_statement_target frame expected_tag backend_name =
     (if ff_tag frame \<noteq> expected_tag then Inr frame
      else if first_byte (ff_payload frame) \<noteq> Some STATEMENT_KIND then Inr frame
      else Inr \<lparr>ff_tag = ff_tag frame, ff_payload = write_cstr [STATEMENT_KIND] backend_name\<rparr>)"

definition rewrite_describe_statement_name ::
  "frontend_frame \<Rightarrow> rstr \<Rightarrow> wire_error + frontend_frame" where
  "rewrite_describe_statement_name frame backend_name =
     rewrite_statement_target frame (frontend_tag_byte FE_Describe) backend_name"

definition rewrite_close_statement_name ::
  "frontend_frame \<Rightarrow> rstr \<Rightarrow> wire_error + frontend_frame" where
  "rewrite_close_statement_name frame backend_name =
     rewrite_statement_target frame (frontend_tag_byte FE_Close) backend_name"

definition build_parse_frame :: "rstr \<Rightarrow> rstr \<Rightarrow> i32 list \<Rightarrow> frontend_frame" where
  "build_parse_frame backend_name query parameter_type_oids =
     (let payload = write_cstr [] backend_name;
          payload = write_cstr payload query;
          payload = payload @ put_i16 (usize_as_i16 (length parameter_type_oids));
          payload = payload @ concat (map put_i32 parameter_type_oids)
      in \<lparr>ff_tag = frontend_tag_byte FE_Parse, ff_payload = payload\<rparr>)"

section \<open>Laws of C strings\<close>

text \<open>A string that survives a trip through a C string.\<close>

definition cstr_ok :: "rstr \<Rightarrow> bool" where
  "cstr_ok s \<longleftrightarrow> scalars s \<and> 0 \<notin> set s"

lemma cstr_no_zero: "cstr_ok s \<Longrightarrow> \<forall>b\<in>set (as_bytes s). b \<noteq> 0"
  using zero_in_as_bytes [of s] by (auto simp: cstr_ok_def)

lemma rewrite_read_cstr_eq: "rewrite_read_cstr bs start = read_cstr bs start"
  by (auto simp: rewrite_read_cstr_def read_cstr_def slice_from_def Let_def)

lemma read_cstr_at:
  assumes "cstr_ok s" "start = length pre"
  shows "read_cstr (pre @ as_bytes s @ 0 # rest) start = Inr (s, start + str_len s + 1)"
proof -
  have "position (\<lambda>b. b = 0) (as_bytes s @ 0 # rest) = Some (length (as_bytes s))"
    using assms zero_in_as_bytes by (intro position_append_hit) (auto simp: cstr_ok_def)
  then show ?thesis
    using assms by (simp add: read_cstr_def slice_from_def cstr_ok_def)
qed

lemma read_cstr_Inr:
  assumes "read_cstr bs start = Inr (s, next)"
  shows "cstr_ok s \<and> start + str_len s + 1 = next \<and> next \<le> length bs \<and>
         bs = take start bs @ as_bytes s @ 0 # drop next bs"
proof -
  obtain t where st: "start \<le> length bs" and pos: "position (\<lambda>b. b = 0) (drop start bs) = Some t"
    and utf: "from_utf8 (take t (drop start bs)) = Some s" and nx: "next = start + t + 1"
    using assms by (auto simp: read_cstr_def slice_from_def and_then_eq_Inr split: if_splits)
  have s: "scalars s" "as_bytes s = take t (drop start bs)" using from_utf8_Some [OF utf] by auto
  have t: "t < length bs - start" using position_less [OF pos] by simp
  have "0 \<notin> set (take t (drop start bs))" using pos by (auto simp: position_Some)
  then have "cstr_ok s" using s zero_in_as_bytes [of s] by (simp add: cstr_ok_def)
  moreover have "str_len s = t" using s(2) t length_as_bytes [of s] by simp
  moreover have "drop start bs = as_bytes s @ 0 # drop next bs"
    using position_split [OF pos] pos s(2) st nx by (auto simp: position_Some add.commute)
  then have "bs = take start bs @ as_bytes s @ 0 # drop next bs"
    by (metis append_take_drop_id)
  ultimately show ?thesis using nx t by simp
qed

lemma oid_chunks_put: "oid_chunks (concat (map put_i32 ws)) = ws"
  by (induction ws) (simp_all add: put_i32_def)

text \<open>The payload of a \<open>Parse\<close> message after its statement name.\<close>

lemma parse_parse_message_eq:
  assumes "cstr_ok n"
  shows "parse_parse_message \<lparr>ff_tag = frontend_tag_byte FE_Parse, ff_payload = as_bytes n @ 0 # rest\<rparr> =
    and_then (parse_parse_message \<lparr>ff_tag = frontend_tag_byte FE_Parse, ff_payload = 0 # rest\<rparr>)
      (\<lambda>m. Inr (map_option (\<lambda>m. m\<lparr>pm_statement_name := n\<rparr>) m))"
proof -
  define k where "k = str_len n"
  have n0: "read_cstr (as_bytes n @ 0 # rest) 0 = Inr (n, k + 1)"
    using read_cstr_at [OF assms, of 0 "[]" rest] by (simp add: k_def)
  have e0: "read_cstr (0 # rest) 0 = Inr ([], 1)"
    using read_cstr_at [of "[]" 0 "[]" rest] by (simp add: cstr_ok_def str_len_def)
  have d: "drop (k + j) (as_bytes n @ 0 # rest) = drop j (0 # rest)" for j
    by (simp add: k_def)
  have sh: "read_cstr (as_bytes n @ 0 # rest) (k + j) =
      and_then (read_cstr (0 # rest) j) (\<lambda>(v, nx). Inr (v, k + nx))" for j
    unfolding read_cstr_def slice_from_def d
    by (cases "position (\<lambda>b. b = 0) (drop j (0 # rest))";
        cases "from_utf8 (take (the (position (\<lambda>b. b = 0) (drop j (0 # rest)))) (drop j (0 # rest)))")
       (auto simp: k_def)
  have sr: "slice_range (as_bytes n @ 0 # rest) (k + i) (k + j) = slice_range (0 # rest) i j" for i j
    unfolding slice_range_def d by (auto simp: k_def)
  have sr1: "slice_range (as_bytes n @ 0 # rest) (k + b) (k + b + 2) = slice_range (0 # rest) b (b + 2)"
    and sr2: "slice_range (as_bytes n @ 0 # rest) (k + b + 2) (k + b + 2 + m) =
      slice_range (0 # rest) (b + 2) (b + 2 + m)" for b m
    using sr [of b "b + 2"] sr [of "b + 2" "b + 2 + m"] by (simp_all only: add.assoc)
  show ?thesis
    unfolding parse_parse_message_def Let_def frontend_frame.simps n0 e0
    using sh [of 1]
    by (cases "read_cstr (0 # rest) 1"; cases "slice_range (0 # rest) (snd (projr (read_cstr (0 # rest) 1)))
          (snd (projr (read_cstr (0 # rest) 1)) + 2)")
       (auto simp del: add_2_eq_Suc add_2_eq_Suc' simp: sr1 sr2 ok_or_def split: option.splits)
qed

section \<open>Reading back what was written\<close>

lemma read_cstr_0 [codec_simps]: "cstr_ok s \<Longrightarrow> read_cstr (as_bytes s @ 0 # rest) 0 = Inr (s, str_len s + 1)"
  using read_cstr_at [of s 0 "[]" rest] by simp

lemma read_cstr_after [codec_simps]:
  "cstr_ok t \<Longrightarrow> read_cstr (as_bytes s @ 0 # as_bytes t @ 0 # rest) (str_len s + 1) =
     Inr (t, str_len s + str_len t + 2)"
  using read_cstr_at [of t "str_len s + 1" "as_bytes s @ [0]" rest] by simp

lemma read_cstr_1 [codec_simps]: "cstr_ok s \<Longrightarrow> read_cstr (k # as_bytes s @ 0 # rest) 1 = Inr (s, str_len s + 2)"
  using read_cstr_at [of s 1 "[k]" rest] by simp

lemma slice_range_at: "i = length pre \<Longrightarrow> j = i + length mid \<Longrightarrow> slice_range (pre @ mid @ post) i j = Some mid"
  by (simp add: slice_range_def)

lemmas message_eval =
  lit_def cstr_ok_def is_scalar_def from_utf8.simps byte_of_def encode_char_def
  read_cstr_def slice_from_def slice_range_def write_cstr_def Let_def
  parse_parse_message_def build_parse_frame_def parse_bind_statement_name_def
  put_i16_def put_i32_def i16_from_be_def i32_from_be_def usize_as_i16_def usize_as_i32_def

text \<open>A \<open>Parse\<close> message the proxy builds for a backend is read back as the same statement
  name, query text and parameter type list.\<close>

lemma parse_build_parse_frame:
  assumes "cstr_ok name" "cstr_ok query" "length oids < 2 ^ 15"
  shows "parse_parse_message (build_parse_frame name query oids) =
    Inr (Some \<lparr>pm_statement_name = name, pm_query = query, pm_parameter_type_oids = oids\<rparr>)"
proof -
  define pre where "pre = as_bytes name @ 0 # as_bytes query @ [0]"
  define tail where "tail = concat (map put_i32 oids)"
  have len: "length tail = length oids * 4" by (simp add: tail_def length_concat comp_def sum_list_triv)
  have pl: "ff_payload (build_parse_frame name query oids) =
      pre @ put_i16 (usize_as_i16 (length oids)) @ tail"
    by (simp add: build_parse_frame_def write_cstr_def pre_def tail_def Let_def)
  have plen: "length pre = str_len name + str_len query + 2" by (simp add: pre_def)
  have c: "slice_range (pre @ put_i16 (usize_as_i16 (length oids)) @ tail) (length pre) (length pre + 2) =
      Some (put_i16 (usize_as_i16 (length oids)))"
    by (rule slice_range_at) simp_all
  have t: "slice_range (pre @ put_i16 (usize_as_i16 (length oids)) @ tail) (length pre + 2)
      (length pre + 2 + length oids * 4) = Some tail"
    using slice_range_at [of _ "pre @ put_i16 (usize_as_i16 (length oids))" _ tail "[]"] len by simp
  have r1: "read_cstr (pre @ x) 0 = Inr (name, str_len name + 1)" for x
    using assms(1) by (simp add: pre_def codec_simps)
  have r2: "read_cstr (pre @ x) (str_len name + 1) = Inr (query, length pre)" for x
    unfolding plen using read_cstr_after [OF assms(2), of name x] by (simp add: pre_def)
  have i: "i16_from_be (put_i16 w ! 0) (put_i16 w ! 1) = w" for w by (simp add: put_i16_def)
  have tag: "ff_tag (build_parse_frame name query oids) = frontend_tag_byte FE_Parse"
    by (simp add: build_parse_frame_def Let_def)
  show ?thesis
    unfolding parse_parse_message_def Let_def pl r1 and_then_simps prod.case r2 c ok_or_simps i tag
    using assms(3) t oid_chunks_put [of oids] by (simp add: tail_def)
qed

text \<open>Rewriting the statement name of a \<open>Parse\<close> message that the proxy could read succeeds
  and replaces the name and nothing else: the query text and the parameter types read from the
  rewritten message are those of the original.\<close>

lemma rewrite_parse_only_renames:
  assumes "parse_parse_message f = Inr (Some m)" "cstr_ok name"
  shows "\<exists>f'. rewrite_parse_statement_name f name = Inr f' \<and>
    parse_parse_message f' = Inr (Some (m\<lparr>pm_statement_name := name\<rparr>))"
proof -
  have tag: "ff_tag f = frontend_tag_byte FE_Parse"
    using assms(1) by (auto simp: parse_parse_message_def split: if_splits)
  then obtain old nx where rd: "read_cstr (ff_payload f) 0 = Inr (old, nx)"
    using assms(1) by (auto simp: parse_parse_message_def Let_def and_then_eq_Inr)
  define rest where "rest = drop nx (ff_payload f)"
  have pl: "cstr_ok old" "ff_payload f = as_bytes old @ 0 # rest"
    using read_cstr_Inr [OF rd] by (auto simp: rest_def)
  have f: "f = \<lparr>ff_tag = frontend_tag_byte FE_Parse, ff_payload = as_bytes old @ 0 # rest\<rparr>"
    using tag pl(2) by simp
  have "and_then (parse_parse_message \<lparr>ff_tag = frontend_tag_byte FE_Parse, ff_payload = 0 # rest\<rparr>)
      (\<lambda>m. Inr (map_option (\<lambda>m. m\<lparr>pm_statement_name := old\<rparr>) m)) = Inr (Some m)"
    using parse_parse_message_eq [OF pl(1), of rest] assms(1) unfolding f by (simp only:)
  then obtain m0 where "parse_parse_message \<lparr>ff_tag = frontend_tag_byte FE_Parse, ff_payload = 0 # rest\<rparr> =
      Inr (Some m0)" "m = m0\<lparr>pm_statement_name := old\<rparr>"
    by (auto simp: and_then_eq_Inr)
  moreover have "rewrite_parse_statement_name f name =
      Inr \<lparr>ff_tag = frontend_tag_byte FE_Parse, ff_payload = as_bytes name @ 0 # rest\<rparr>"
    using tag rd by (simp add: rewrite_parse_statement_name_def rewrite_read_cstr_eq write_cstr_def rest_def)
  ultimately show ?thesis using parse_parse_message_eq [OF assms(2), of rest] by simp
qed

text \<open>Rewriting the statement name of a \<open>Bind\<close> message keeps the portal name before it and
  the parameter formats and values after it, byte for byte.\<close>

lemma rewrite_bind_only_renames:
  assumes "parse_bind_statement_name f = Inr (Some old)" "cstr_ok name"
  shows "\<exists>f' portal rest. rewrite_bind_statement_name f name = Inr f' \<and>
    ff_payload f = as_bytes portal @ 0 # as_bytes old @ 0 # rest \<and>
    ff_payload f' = as_bytes portal @ 0 # as_bytes name @ 0 # rest \<and>
    ff_tag f' = ff_tag f \<and> parse_bind_statement_name f' = Inr (Some name)"
proof -
  have tag: "ff_tag f = frontend_tag_byte FE_Bind"
    using assms(1) by (auto simp: parse_bind_statement_name_def split: if_splits)
  then obtain portal n1 n2 where r1: "read_cstr (ff_payload f) 0 = Inr (portal, n1)"
    and r2: "read_cstr (ff_payload f) n1 = Inr (old, n2)"
    using assms(1) by (auto simp: parse_bind_statement_name_def Let_def and_then_eq_Inr)
  define rest where "rest = drop n2 (ff_payload f)"
  have p1: "cstr_ok portal" "ff_payload f = as_bytes portal @ 0 # drop n1 (ff_payload f)"
      "n1 = str_len portal + 1"
    using read_cstr_Inr [OF r1] by auto
  have tk: "take n1 (ff_payload f) = as_bytes portal @ [0]"
    by (subst p1(2)) (simp add: p1(3))
  have pl: "ff_payload f = as_bytes portal @ 0 # as_bytes old @ 0 # rest"
    using read_cstr_Inr [OF r2] tk by (auto simp: rest_def)
  let ?f' = "\<lparr>ff_tag = ff_tag f, ff_payload = as_bytes portal @ 0 # as_bytes name @ 0 # rest\<rparr>"
  have "rewrite_bind_statement_name f name = Inr ?f'"
    using tag r1 r2 tk
    by (simp add: rewrite_bind_statement_name_def rewrite_read_cstr_eq write_cstr_def rest_def)
  moreover have "parse_bind_statement_name ?f' = Inr (Some name)"
    using tag p1(1) assms(2) read_cstr_0 [OF p1(1)] read_cstr_after [OF assms(2), of portal rest]
    by (simp add: parse_bind_statement_name_def)
  ultimately show ?thesis using pl by (intro exI [of _ ?f'] exI [of _ portal] exI [of _ rest]) simp
qed

text \<open>\<open>Describe\<close> and \<open>Close\<close> messages that name a statement are redirected to the backend's
  name; those that name a portal pass through unchanged.\<close>

lemma rewrite_targets:
  assumes "cstr_ok name"
  shows "(case parse_describe_target f of
      Inr (Some (DT_Statement old)) \<Rightarrow>
        (\<exists>f'. rewrite_describe_statement_name f name = Inr f' \<and> parse_describe_target f' = Inr (Some (DT_Statement name)))
    | Inr (Some (DT_Portal old)) \<Rightarrow> rewrite_describe_statement_name f name = Inr f
    | _ \<Rightarrow> True) \<and>
    (case parse_close_target f of
      Inr (Some (CT_Statement old)) \<Rightarrow>
        (\<exists>f'. rewrite_close_statement_name f name = Inr f' \<and> parse_close_target f' = Inr (Some (CT_Statement name)))
    | Inr (Some (CT_Portal old)) \<Rightarrow> rewrite_close_statement_name f name = Inr f
    | _ \<Rightarrow> True)"
  using assms read_cstr_1 [OF assms, of STATEMENT_KIND "[]"]
  by (auto simp: parse_describe_target_def parse_close_target_def rewrite_describe_statement_name_def
      rewrite_close_statement_name_def rewrite_statement_target_def write_cstr_def and_then_eq_Inr
      first_byte_def STATEMENT_KIND_def PORTAL_KIND_def Let_def
      split: if_splits list.splits sum.splits option.splits describe_target.splits close_target.splits)

section \<open>The startup packet\<close>

definition SSL_REQUEST_CODE :: i32 where
  "SSL_REQUEST_CODE = 80877103"

definition CANCEL_REQUEST_CODE :: i32 where
  "CANCEL_REQUEST_CODE = 80877102"

definition GSSENC_REQUEST_CODE :: i32 where
  "GSSENC_REQUEST_CODE = 80877104"

definition protocol_version_to_i32 :: i32 where
  "protocol_version_to_i32 = 196608"

datatype startup_packet =
    Startup i16 i16 "(rstr \<times> rstr) list"
  | SslRequest
  | GssEncRequest
  | CancelRequest i32 i32

definition find_null :: "bytes \<Rightarrow> nat \<Rightarrow> nat option" where
  "find_null bs start = map_option (\<lambda>offset. start + offset) (position (\<lambda>byte. byte = 0) (drop start bs))"

lemma find_null_bounds: "find_null bs start = Some i \<Longrightarrow> start \<le> i \<and> i < length bs"
  by (auto simp: find_null_def dest!: position_less)

function parse_parameters_loop :: "bytes \<Rightarrow> nat \<Rightarrow> wire_error + (rstr \<times> rstr) list" where
  "parse_parameters_loop bs start =
     (if \<not> start < length bs then Inr []
      else if bs ! start = 0 then Inr []
      else case find_null bs start of
        None \<Rightarrow> Inl UnterminatedStartupParameters
      | Some key_end \<Rightarrow>
          (case from_utf8 (take (key_end - start) (drop start bs)) of
             None \<Rightarrow> Inl InvalidUtf8
           | Some key \<Rightarrow>
               let value_start = key_end + 1 in
               if value_start \<ge> length bs then Inl (MissingStartupParameterValue key)
               else case find_null bs value_start of
                 None \<Rightarrow> Inl UnterminatedStartupParameters
               | Some value_end \<Rightarrow>
                   (case from_utf8 (take (value_end - value_start) (drop value_start bs)) of
                      None \<Rightarrow> Inl InvalidUtf8
                    | Some value \<Rightarrow>
                        and_then (parse_parameters_loop bs (value_end + 1))
                          (\<lambda>parameters. Inr ((key, value) # parameters)))))"
  by pat_completeness auto
termination
  by (relation "measure (\<lambda>(bs, start). length bs - start)")
     (auto dest!: sym [of _ "find_null _ _"] find_null_bounds)

declare parse_parameters_loop.simps [simp del]

definition parse_parameters :: "bytes \<Rightarrow> wire_error + (rstr \<times> rstr) list" where
  "parse_parameters bs =
     (if bs = [] \<or> bs ! (length bs - 1) \<noteq> 0 then Inl UnterminatedStartupParameters
      else parse_parameters_loop bs 0)"

text \<open>\<open>get_i32\<close> of a cursor at offset \<open>n\<close>; every call site has checked that four bytes are there.\<close>

definition i32_at :: "bytes \<Rightarrow> nat \<Rightarrow> i32" where
  "i32_at bs n = i32_from_be (bs ! n) (bs ! (n + 1)) (bs ! (n + 2)) (bs ! (n + 3))"

definition parse_startup_packet :: "bytes \<Rightarrow> wire_error + startup_packet" where
  "parse_startup_packet packet =
     (if length packet < 4 then Inl IncompleteStartupPacket
      else
        let len = i32_at packet 0 in
        if sint len < 8 then Inl (InvalidStartupLength len)
        else if length packet \<noteq> nat (sint len) then Inl IncompleteStartupPacket
        else
          let code = i32_at packet 4;
              cursor = drop 8 packet
          in if code = SSL_REQUEST_CODE then Inr SslRequest
             else if code = GSSENC_REQUEST_CODE then Inr GssEncRequest
             else if code = CANCEL_REQUEST_CODE then
               (if length cursor \<noteq> 8 then Inl (InvalidStartupLength len)
                else Inr (CancelRequest (i32_at cursor 0) (i32_at cursor 4)))
             else
               let protocol_major = ucast (signed_drop_bit 16 code AND 0xffff);
                   protocol_minor = ucast (code AND 0xffff)
               in and_then (parse_parameters cursor)
                    (\<lambda>parameters. Inr (Startup protocol_major protocol_minor parameters)))"

definition is_ssl_request :: "bytes \<Rightarrow> bool" where
  "is_ssl_request packet \<longleftrightarrow>
     length packet = 8 \<and> i32_at packet 0 = 8 \<and> i32_at packet 4 = SSL_REQUEST_CODE"

definition ssl_request_packet :: bytes where
  "ssl_request_packet = put_i32 8 @ put_i32 SSL_REQUEST_CODE"

datatype ssl_response = SSL_Accept | SSL_Deny

fun ssl_response_byte :: "ssl_response \<Rightarrow> u8" where
  "ssl_response_byte SSL_Accept = of_char CHR ''S''"
| "ssl_response_byte SSL_Deny = of_char CHR ''N''"

definition encode_cancel_request :: "i32 \<Rightarrow> i32 \<Rightarrow> bytes" where
  "encode_cancel_request process_id secret_key =
     put_i32 16 @ put_i32 CANCEL_REQUEST_CODE @ put_i32 process_id @ put_i32 secret_key"

section \<open>Laws of the startup packet\<close>

text \<open>Parameters as they stand on the wire, without the terminating empty key.\<close>

definition enc_params :: "(rstr \<times> rstr) list \<Rightarrow> bytes" where
  "enc_params ps = concat (map (\<lambda>(k, v). as_bytes k @ [0] @ as_bytes v @ [0]) ps)"

definition param_ok :: "rstr \<times> rstr \<Rightarrow> bool" where
  "param_ok p \<longleftrightarrow> fst p \<noteq> [] \<and> cstr_ok (fst p) \<and> cstr_ok (snd p)"

lemma enc_params_simps [simp]:
  "enc_params [] = []"
  "enc_params ((k, v) # ps) = as_bytes k @ 0 # as_bytes v @ 0 # enc_params ps"
  by (simp_all add: enc_params_def)

lemma find_null_at:
  "cstr_ok s \<Longrightarrow> start = length pre \<Longrightarrow> find_null (pre @ as_bytes s @ 0 # rest) start = Some (start + str_len s)"
  using position_append_hit [of "as_bytes s" "\<lambda>b. b = 0" 0 rest] zero_in_as_bytes [of s]
  by (auto simp: find_null_def cstr_ok_def)

lemma nth_first_byte: "cstr_ok s \<Longrightarrow> s \<noteq> [] \<Longrightarrow> (pre @ as_bytes s @ rest) ! length pre \<noteq> 0"
proof -
  assume ok: "cstr_ok s" and ne: "s \<noteq> []"
  have n: "as_bytes s \<noteq> []" using ne by (cases s) auto
  then have "(pre @ as_bytes s @ rest) ! length pre = hd (as_bytes s)"
    by (cases "as_bytes s") auto
  moreover have "hd (as_bytes s) \<in> set (as_bytes s)" using n by simp
  ultimately show ?thesis using ok zero_in_as_bytes [of s] by (auto simp: cstr_ok_def)
qed

lemma parse_parameters_loop_enc:
  assumes "\<forall>p\<in>set ps. param_ok p" "start = length pre"
  shows "parse_parameters_loop (pre @ enc_params ps @ 0 # rest) start = Inr ps"
  using assms
proof (induction ps arbitrary: pre start)
  case Nil
  then show ?case by (simp add: parse_parameters_loop.simps)
next
  case (Cons p ps)
  obtain k v where p: "p = (k, v)" by force
  with Cons.prems have ok: "k \<noteq> []" "cstr_ok k" "cstr_ok v" by (auto simp: param_ok_def)
  define tail where "tail = enc_params ps @ 0 # rest"
  have s: "start = length pre" by (rule Cons.prems)
  have bs: "pre @ enc_params (p # ps) @ 0 # rest = pre @ as_bytes k @ 0 # as_bytes v @ 0 # tail"
    by (simp add: p tail_def)
  have fk: "find_null (pre @ as_bytes k @ 0 # as_bytes v @ 0 # tail) start = Some (start + str_len k)"
    using ok s by (simp add: find_null_at)
  have fv: "find_null (pre @ as_bytes k @ 0 # as_bytes v @ 0 # tail) (start + str_len k + 1) =
      Some (start + str_len k + 1 + str_len v)"
    using find_null_at [OF ok(3), of _ "pre @ as_bytes k @ [0]" tail] s by simp
  have ih: "parse_parameters_loop (pre @ as_bytes k @ 0 # as_bytes v @ 0 # tail)
      (start + str_len k + 1 + str_len v + 1) = Inr ps"
    using Cons.IH [of _ "pre @ as_bytes k @ 0 # as_bytes v @ [0]"] Cons.prems s by (simp add: tail_def add.assoc)
  have nz: "(pre @ as_bytes k @ 0 # as_bytes v @ 0 # tail) ! start \<noteq> 0"
    using nth_first_byte [OF ok(2,1)] s by simp
  have u: "from_utf8 (as_bytes k) = Some k" "from_utf8 (as_bytes v) = Some v"
    using ok by (simp_all add: cstr_ok_def)
  show ?case
    unfolding bs by (subst parse_parameters_loop.simps) (use nz fk fv ih u s in \<open>simp add: p Let_def\<close>)
qed

lemma parse_parameters_enc:
  "\<forall>p\<in>set ps. param_ok p \<Longrightarrow> parse_parameters (enc_params ps @ [0]) = Inr ps"
  using parse_parameters_loop_enc [of ps 0 "[]" "[]"] by (simp add: parse_parameters_def nth_append)

lemma find_null_Some:
  assumes "find_null bs start = Some e" "start \<le> length bs" "from_utf8 (take (e - start) (drop start bs)) = Some s"
  shows "cstr_ok s \<and> drop start bs = as_bytes s @ 0 # drop (Suc e) bs"
proof -
  obtain t where t: "position (\<lambda>b. b = 0) (drop start bs) = Some t" "e = start + t"
    using assms(1) by (auto simp: find_null_def)
  then have "read_cstr bs start = Inr (s, Suc e)"
    using assms(2,3) by (simp add: read_cstr_def slice_from_def)
  from read_cstr_Inr [OF this] show ?thesis
    by (metis append_eq_conv_conj append_take_drop_id assms(2) length_take min.absorb2)
qed

lemma parse_parameters_loop_sound:
  "parse_parameters_loop bs start = Inr ps \<Longrightarrow> start \<le> length bs \<Longrightarrow>
     (\<forall>p\<in>set ps. param_ok p) \<and> (\<exists>rest. drop start bs = enc_params ps @ rest \<and> (rest = [] \<or> hd rest = 0))"
proof (induction bs start arbitrary: ps rule: parse_parameters_loop.induct)
  case (1 bs start)
  show ?case
  proof (cases "start < length bs \<and> bs ! start \<noteq> 0")
    case False
    with "1.prems" have "ps = []" by (subst (asm) parse_parameters_loop.simps) (auto split: if_splits)
    with False "1.prems"(2) show ?thesis by (cases "start < length bs") (auto simp: hd_drop_conv_nth)
  next
    case True
    obtain ke k ve v ps' where k: "find_null bs start = Some ke" "from_utf8 (take (ke - start) (drop start bs)) = Some k"
      and v: "find_null bs (ke + 1) = Some ve" "from_utf8 (take (ve - (ke + 1)) (drop (ke + 1) bs)) = Some v"
      and lt: "ke + 1 < length bs" and rec: "parse_parameters_loop bs (ve + 1) = Inr ps'" and ps: "ps = (k, v) # ps'"
      using "1.prems"(1) True
      by (subst (asm) parse_parameters_loop.simps)
         (auto simp: Let_def and_then_eq_Inr split: if_splits option.splits)
    have kd: "cstr_ok k" "drop start bs = as_bytes k @ 0 # drop (Suc ke) bs"
      using find_null_Some [OF k(1) _ k(2)] True by auto
    have vd: "cstr_ok v" "drop (Suc ke) bs = as_bytes v @ 0 # drop (Suc ve) bs"
      using find_null_Some [OF v(1) _ v(2)] lt by auto
    have kn: "k \<noteq> []"
    proof
      assume "k = []"
      with kd(2) True show False by (metis Cons_nth_drop_Suc as_bytes_simps(1) append_Nil list.inject)
    qed
    have "ve + 1 \<le> length bs" using find_null_bounds [OF v(1)] by simp
    from "1.IH" [OF _ _ k(1) k(2) refl _ v(1) v(2) rec this] True lt obtain rest where
      "\<forall>p\<in>set ps'. param_ok p" "drop (ve + 1) bs = enc_params ps' @ rest" "rest = [] \<or> hd rest = 0" by auto
    with ps kd vd kn show ?thesis by (auto simp: param_ok_def)
  qed
qed

text \<open>\<open>AUTH_QUERY_APPLICATION_NAME\<close> and the startup packet of the auth-query connection.\<close>

definition AUTH_QUERY_APPLICATION_NAME :: rstr where
  "AUTH_QUERY_APPLICATION_NAME = lit ''pg-kinetic-auth-query''"

definition auth_query_startup_packet :: "rstr \<Rightarrow> bytes" where
  "auth_query_startup_packet username =
     (let body = put_i32 protocol_version_to_i32
                   @ as_bytes (lit ''user'') @ [0] @ as_bytes username @ [0]
                   @ as_bytes (lit ''application_name'') @ [0] @ as_bytes AUTH_QUERY_APPLICATION_NAME @ [0]
                   @ [0]
      in put_i32 (usize_as_i32 (length body + 4)) @ body)"

lemma i32_at_put [simp]:
  "i32_at (put_i32 w @ rest) 0 = w"
  "i32_at (put_i32 v @ put_i32 w @ rest) 4 = w"
  "i32_at (put_i32 v @ put_i32 w) 4 = w"
  by (simp_all add: i32_at_def put_i32_def)

lemma parse_startup_enc:
  assumes "\<forall>p\<in>set ps. param_ok p" "length (enc_params ps) + 9 < 2 ^ 31"
  shows "parse_startup_packet (put_i32 (usize_as_i32 (length (enc_params ps) + 9)) @
    put_i32 protocol_version_to_i32 @ enc_params ps @ [0]) = Inr (Startup 3 0 ps)"
  using assms parse_parameters_enc [OF assms(1)]
  by (simp add: parse_startup_packet_def Let_def nat_add_distrib protocol_version_to_i32_def SSL_REQUEST_CODE_def
      GSSENC_REQUEST_CODE_def CANCEL_REQUEST_CODE_def)

text \<open>Every packet the proxy sends at connection start is one its own startup parser reads back:
  the TLS request, a cancel request with its process id and secret key, and the startup packet of
  the auth-query connection with the user name it was built for.\<close>

lemma startup_packets_read_back:
  assumes "cstr_ok username" "str_len username + 100 < 2 ^ 31"
  shows "parse_startup_packet ssl_request_packet = Inr SslRequest \<and> is_ssl_request ssl_request_packet \<and>
    parse_startup_packet (encode_cancel_request pid key) = Inr (CancelRequest pid key) \<and>
    parse_startup_packet (auth_query_startup_packet username) =
      Inr (Startup 3 0 [(lit ''user'', username), (lit ''application_name'', AUTH_QUERY_APPLICATION_NAME)])"
proof (intro conjI)
  show "parse_startup_packet (auth_query_startup_packet username) =
      Inr (Startup 3 0 [(lit ''user'', username), (lit ''application_name'', AUTH_QUERY_APPLICATION_NAME)])"
    using assms parse_startup_enc
      [of "[(lit ''user'', username), (lit ''application_name'', AUTH_QUERY_APPLICATION_NAME)]"]
    by (simp add: auth_query_startup_packet_def AUTH_QUERY_APPLICATION_NAME_def param_ok_def cstr_ok_def
        lit_def is_scalar_def str_len_def utf8_len_def)
qed (simp_all add: ssl_request_packet_def encode_cancel_request_def is_ssl_request_def
    parse_startup_packet_def SSL_REQUEST_CODE_def CANCEL_REQUEST_CODE_def GSSENC_REQUEST_CODE_def)

lemma startup_packets_read_back_witness:
  "parse_startup_packet ssl_request_packet = Inr SslRequest \<and> is_ssl_request ssl_request_packet \<and>
    parse_startup_packet (encode_cancel_request 7 9) = Inr (CancelRequest 7 9) \<and>
    parse_startup_packet (auth_query_startup_packet (lit ''alice'')) =
      Inr (Startup 3 0 [(lit ''user'', lit ''alice''), (lit ''application_name'', AUTH_QUERY_APPLICATION_NAME)])"
  by (rule startup_packets_read_back) (simp_all add: cstr_ok_def lit_def is_scalar_def str_len_def utf8_len_def)

text \<open>A startup packet the parser accepts is exactly as long as it declares, its parameters are
  valid UTF-8 with non-empty keys and no embedded NUL, and they stand in the packet in that order;
  what follows them is nothing or begins with the terminating NUL.\<close>

lemma startup_packet_sound:
  assumes "parse_startup_packet p = Inr (Startup major minor ps)"
  shows "int (length p) = sint (i32_at p 0) \<and> (\<forall>(k, v)\<in>set ps. k \<noteq> [] \<and> cstr_ok k \<and> cstr_ok v) \<and>
    (\<exists>rest. drop 8 p = enc_params ps @ rest \<and> (rest = [] \<or> hd rest = 0))"
proof -
  have len: "int (length p) = sint (i32_at p 0)" and pp: "parse_parameters (drop 8 p) = Inr ps"
    using assms
    by (auto simp: parse_startup_packet_def Let_def and_then_eq_Inr split: if_splits)
  then have "parse_parameters_loop (drop 8 p) 0 = Inr ps"
    by (auto simp: parse_parameters_def split: if_splits)
  from parse_parameters_loop_sound [OF this] len show ?thesis by (auto simp: param_ok_def)
qed

lemma startup_packet_sound_witness:
  "let p = auth_query_startup_packet (lit ''bob'') in
    \<exists>ps. parse_startup_packet p = Inr (Startup 3 0 ps) \<and> (\<forall>(k, v)\<in>set ps. k \<noteq> [] \<and> cstr_ok k \<and> cstr_ok v)"
proof -
  let ?ps = "[(lit ''user'', lit ''bob''), (lit ''application_name'', AUTH_QUERY_APPLICATION_NAME)]"
  have p: "parse_startup_packet (auth_query_startup_packet (lit ''bob'')) = Inr (Startup 3 0 ?ps)"
    using parse_startup_enc [of ?ps]
    by (simp add: auth_query_startup_packet_def AUTH_QUERY_APPLICATION_NAME_def param_ok_def cstr_ok_def
        lit_def is_scalar_def str_len_def utf8_len_def)
  from startup_packet_sound [OF p] p show ?thesis by (auto simp: Let_def)
qed

end
