(* ===== verification/Rust_Str.thy ===== *)
theory Rust_Str
  imports Rust_Text
begin

text \<open>
  The string functions of Rust's standard library that the SQL layer uses: prefixes, searches,
  splits, trimming and byte-indexed slicing. A position found by a search lies on a character
  boundary, so it is a character index here; \<open>str_split_at\<close> is slicing at a byte offset that
  the program computed itself, \<open>None\<close> where \<open>str::get\<close> returns \<open>None\<close> and indexing panics.
\<close>

section \<open>Prefixes and searches\<close>

definition starts_with :: "rstr \<Rightarrow> rstr \<Rightarrow> bool" where
  "starts_with s p \<longleftrightarrow> take (length p) s = p"

definition ends_with :: "rstr \<Rightarrow> rstr \<Rightarrow> bool" where
  "ends_with s p \<longleftrightarrow> length p \<le> length s \<and> drop (length s - length p) s = p"

definition strip_prefix :: "rstr \<Rightarrow> rstr \<Rightarrow> rstr option" where
  "strip_prefix s p = (if starts_with s p then Some (drop (length p) s) else None)"

text \<open>\<open>s.find(p)\<close> for a string pattern.\<close>

fun find_str :: "rstr \<Rightarrow> rstr \<Rightarrow> nat option" where
  "find_str [] p = (if p = [] then Some 0 else None)"
| "find_str (c # s) p = (if starts_with (c # s) p then Some 0 else map_option Suc (find_str s p))"

definition contains_str :: "rstr \<Rightarrow> rstr \<Rightarrow> bool" where
  "contains_str s p \<longleftrightarrow> find_str s p \<noteq> None"

text \<open>\<open>s.find(pred)\<close> for a character predicate is \<open>position\<close>.\<close>

definition split_once_char :: "rstr \<Rightarrow> rchar \<Rightarrow> (rstr \<times> rstr) option" where
  "split_once_char s d = map_option (\<lambda>i. (take i s, drop (Suc i) s)) (position (\<lambda>c. c = d) s)"

lemma starts_with_iff: "starts_with s p \<longleftrightarrow> (\<exists>r. s = p @ r)"
  unfolding starts_with_def by (metis append_eq_conv_conj append_take_drop_id)

lemma starts_with_Nil [simp]: "starts_with s []"
  by (simp add: starts_with_def)

lemma starts_with_append [simp]: "starts_with (p @ r) p"
  by (simp add: starts_with_def)

lemma starts_with_length: "starts_with s p \<Longrightarrow> length p \<le> length s"
  by (auto simp: starts_with_iff)

lemma ends_with_set: "ends_with s p \<Longrightarrow> set p \<subseteq> set s"
  unfolding ends_with_def by (metis set_drop_subset)

lemma strip_prefix_Some: "strip_prefix s p = Some r \<longleftrightarrow> s = p @ r"
  by (auto simp: strip_prefix_def starts_with_def) (metis append_take_drop_id)

lemma strip_prefix_length: "strip_prefix s p = Some r \<Longrightarrow> length s = length p + length r"
  by (simp add: strip_prefix_Some)

lemma find_str_Some: "find_str s p = Some i \<Longrightarrow> i + length p \<le> length s \<and> starts_with (drop i s) p"
  by (induction s p arbitrary: i rule: find_str.induct)
     (auto dest: starts_with_length split: if_splits)

lemma find_str_shrinks: "find_str s p = Some i \<Longrightarrow> p \<noteq> [] \<Longrightarrow> length s - (i + length p) < length s"
  using find_str_Some [of s p i] by (cases p) auto

lemma find_str_None: "find_str s p = None \<longleftrightarrow> (\<forall>i \<le> length s. \<not> starts_with (drop i s) p)"
proof (induction s p rule: find_str.induct)
  case (1 p)
  then show ?case by (auto simp: starts_with_def)
next
  case (2 c s p)
  show ?case
  proof
    assume "find_str (c # s) p = None"
    with 2 show "\<forall>i \<le> length (c # s). \<not> starts_with (drop i (c # s)) p"
      by (auto simp: drop_Cons' split: if_splits)
  next
    assume a: "\<forall>i \<le> length (c # s). \<not> starts_with (drop i (c # s)) p"
    then have "\<not> starts_with (c # s) p" by force
    moreover have "\<forall>i \<le> length s. \<not> starts_with (drop i s) p"
      using a by (metis Suc_le_mono drop_Suc_Cons length_Cons)
    ultimately show "find_str (c # s) p = None" using 2 by simp
  qed
qed

lemma contains_str_iff: "contains_str s p \<longleftrightarrow> (\<exists>a b. s = a @ p @ b)"
proof
  assume "contains_str s p"
  then obtain i where "find_str s p = Some i" by (auto simp: contains_str_def)
  from find_str_Some [OF this] show "\<exists>a b. s = a @ p @ b"
    by (metis append_take_drop_id starts_with_iff)
next
  assume "\<exists>a b. s = a @ p @ b"
  then obtain a b where s: "s = a @ p @ b" by blast
  then have "starts_with (drop (length a) s) p" "length a \<le> length s" by simp_all
  then show "contains_str s p" unfolding contains_str_def using find_str_None by blast
qed

lemma split_once_char_Some:
  "split_once_char s d = Some (a, b) \<longleftrightarrow> s = a @ d # b \<and> d \<notin> set a"
proof
  assume "split_once_char s d = Some (a, b)"
  then obtain i where i: "position (\<lambda>c. c = d) s = Some i" "a = take i s" "b = drop (Suc i) s"
    by (auto simp: split_once_char_def)
  from position_split [OF i(1)] i show "s = a @ d # b \<and> d \<notin> set a" by (auto simp: position_Some)
next
  assume s: "s = a @ d # b \<and> d \<notin> set a"
  then have "position (\<lambda>c. c = d) s = Some (length a)"
    using position_append_hit [of a "\<lambda>c. c = d" d b] by blast
  with s show "split_once_char s d = Some (a, b)" by (simp add: split_once_char_def)
qed

section \<open>Trimming and splitting\<close>

definition trim_start :: "rstr \<Rightarrow> rstr" where
  "trim_start s = dropWhile is_whitespace s"

definition trim_end_pred :: "(rchar \<Rightarrow> bool) \<Rightarrow> rstr \<Rightarrow> rstr" where
  "trim_end_pred P s = rev (dropWhile P (rev s))"

definition trim_end :: "rstr \<Rightarrow> rstr" where
  "trim_end s = trim_end_pred is_whitespace s"

definition trim :: "rstr \<Rightarrow> rstr" where
  "trim s = trim_end (trim_start s)"

definition trim_end_matches_char :: "rstr \<Rightarrow> rchar \<Rightarrow> rstr" where
  "trim_end_matches_char s d = trim_end_pred (\<lambda>c. c = d) s"

text \<open>\<open>trim_start_matches\<close> with a string pattern removes it as often as it occurs in front.\<close>

function trim_start_matches :: "rstr \<Rightarrow> rstr \<Rightarrow> rstr" where
  "trim_start_matches s p =
     (if p \<noteq> [] \<and> starts_with s p then trim_start_matches (drop (length p) s) p else s)"
  by pat_completeness auto
termination
  by (relation "measure (\<lambda>(s, p). length s)") (auto simp: starts_with_iff)

declare trim_start_matches.simps [simp del]

function split_whitespace :: "rstr \<Rightarrow> rstr list" where
  "split_whitespace s =
     (let t = dropWhile is_whitespace s in
      if t = [] then []
      else takeWhile (\<lambda>c. \<not> is_whitespace c) t # split_whitespace (dropWhile (\<lambda>c. \<not> is_whitespace c) t))"
  by pat_completeness auto
termination
proof (relation "measure length", goal_cases)
  case (2 s t)
  then have t: "t = dropWhile is_whitespace s" "t \<noteq> []" by auto
  then have "\<not> is_whitespace (hd t)" by (simp add: hd_dropWhile)
  then have "length (dropWhile (\<lambda>c. \<not> is_whitespace c) t) < length t"
    using t(2) by (cases t) (auto simp: le_imp_less_Suc length_dropWhile_le)
  also have "\<dots> \<le> length s" by (simp add: t(1) length_dropWhile_le)
  finally show ?case by simp
qed simp

declare split_whitespace.simps [simp del]

fun join :: "rstr \<Rightarrow> rstr list \<Rightarrow> rstr" where
  "join sep [] = []"
| "join sep [w] = w"
| "join sep (w # ws) = w @ sep @ join sep ws"

text \<open>\<open>split(pred)\<close> on a slice: at least one part, one more than there are separators.\<close>

fun split_on :: "('a \<Rightarrow> bool) \<Rightarrow> 'a list \<Rightarrow> 'a list list" where
  "split_on P [] = [[]]"
| "split_on P (x # xs) =
     (if P x then [] # split_on P xs
      else (case split_on P xs of [] \<Rightarrow> [[x]] | part # parts \<Rightarrow> (x # part) # parts))"

lemma split_on_neq_Nil [simp]: "split_on P xs \<noteq> []"
  by (induction xs) (auto split: list.splits)

lemma split_on_append:
  "\<forall>x\<in>set a. \<not> P x \<Longrightarrow> P d \<Longrightarrow> split_on P (a @ d # b) = a # split_on P b"
  by (induction a) auto

lemma trim_start_length [simp]: "length (trim_start s) \<le> length s"
  by (simp add: trim_start_def length_dropWhile_le)

lemma trim_start_suffix: "\<exists>p. s = p @ trim_start s \<and> (\<forall>c\<in>set p. is_whitespace c)"
  unfolding trim_start_def by (metis takeWhile_dropWhile_id set_takeWhileD)

lemma trim_start_hd: "trim_start s \<noteq> [] \<Longrightarrow> \<not> is_whitespace (hd (trim_start s))"
  unfolding trim_start_def by (rule hd_dropWhile)

lemma trim_start_same: "trim_start s = s \<longleftrightarrow> s = [] \<or> \<not> is_whitespace (hd s)"
  unfolding trim_start_def by (auto simp: dropWhile_eq_self_iff)

lemma trim_end_prefix: "\<exists>q. s = trim_end s @ q \<and> (\<forall>c\<in>set q. is_whitespace c)"
proof -
  have "rev s = takeWhile is_whitespace (rev s) @ dropWhile is_whitespace (rev s)" by simp
  then have "s = rev (dropWhile is_whitespace (rev s)) @ rev (takeWhile is_whitespace (rev s))"
    by (metis rev_append rev_rev_ident)
  then show ?thesis unfolding trim_end_def trim_end_pred_def
    by (intro exI [of _ "rev (takeWhile is_whitespace (rev s))"]) (auto dest: set_takeWhileD)
qed

section \<open>Slicing at a byte offset\<close>

fun str_split_at :: "nat \<Rightarrow> rstr \<Rightarrow> (rstr \<times> rstr) option" where
  "str_split_at n [] = (if n = 0 then Some ([], []) else None)"
| "str_split_at n (c # s) =
     (if n = 0 then Some ([], c # s)
      else if utf8_len c \<le> n then map_option (\<lambda>(a, b). (c # a, b)) (str_split_at (n - utf8_len c) s)
      else None)"

lemma utf8_len_pos [simp]: "0 < utf8_len c" "utf8_len c \<noteq> 0"
  by (simp_all add: utf8_len_def)

lemma str_len_simps [simp]:
  "str_len [] = 0"
  "str_len (c # s) = utf8_len c + str_len s"
  "str_len (s @ t) = str_len s + str_len t"
  by (simp_all add: str_len_def)

lemma str_split_at_append [simp]: "str_split_at (str_len a) (a @ b) = Some (a, b)"
  by (induction a) (cases b; simp)+

lemma str_split_at_skip:
  "str_split_at (str_len x + n) (x @ y) = map_option (\<lambda>(a, b). (x @ a, b)) (str_split_at n y)"
  by (induction x) (auto simp: option.map_comp comp_def split_def option.map_ident)

lemma str_split_at_SomeD: "str_split_at n s = Some (a, b) \<Longrightarrow> s = a @ b \<and> str_len a = n"
  by (induction n s arbitrary: a b rule: str_split_at.induct) (auto split: if_splits)

lemma str_split_at_Some: "str_split_at n s = Some (a, b) \<longleftrightarrow> s = a @ b \<and> str_len a = n"
  using str_split_at_SomeD str_split_at_append by blast

definition is_ascii_str :: "rstr \<Rightarrow> bool" where
  "is_ascii_str s \<longleftrightarrow> (\<forall>c\<in>set s. c < 128)"

lemma str_len_ascii: "is_ascii_str s \<Longrightarrow> str_len s = length s"
  by (induction s) (auto simp: is_ascii_str_def utf8_len_def)

lemma utf8_len_lower [simp]: "utf8_len (char_lower c) = utf8_len c"
  by (auto simp: char_lower_def is_ascii_upper_def utf8_len_def)

lemma str_len_lower [simp]: "str_len (to_ascii_lowercase s) = str_len s"
  by (induction s) (auto simp: to_ascii_lowercase_def)

lemma eq_ignore_ascii_case_len: "eq_ignore_ascii_case a b \<Longrightarrow> length a = length b \<and> str_len a = str_len b"
  unfolding eq_ignore_ascii_case_def by (metis length_to_ascii_lowercase str_len_lower)

text \<open>The check \<open>rest.get(..word.len())\<close> followed by a case-insensitive comparison is a
  case-insensitive prefix test.\<close>

lemma get_prefix_ignore_case:
  "(case str_split_at (str_len w) s of None \<Rightarrow> False | Some (a, _) \<Rightarrow> eq_ignore_ascii_case a w) \<longleftrightarrow>
     (\<exists>a b. s = a @ b \<and> eq_ignore_ascii_case a w)"
proof
  assume "\<exists>a b. s = a @ b \<and> eq_ignore_ascii_case a w"
  then obtain a b where "s = a @ b" "eq_ignore_ascii_case a w" by blast
  then have "str_split_at (str_len w) s = Some (a, b)"
    by (auto simp: str_split_at_Some dest: eq_ignore_ascii_case_len)
  then show "case str_split_at (str_len w) s of None \<Rightarrow> False | Some (a, _) \<Rightarrow> eq_ignore_ascii_case a w"
    using \<open>eq_ignore_ascii_case a w\<close> by simp
qed (fastforce simp: str_split_at_Some split: option.splits)

section \<open>Decimal numbers\<close>

fun decimal_value :: "nat \<Rightarrow> rstr \<Rightarrow> nat" where
  "decimal_value acc [] = acc"
| "decimal_value acc (c # cs) = decimal_value (acc * 10 + (c - 48)) cs"

text \<open>\<open>str::parse::<u32>\<close>: an optional plus sign and at least one digit, without overflow.\<close>

definition parse_u32 :: "rstr \<Rightarrow> nat option" where
  "parse_u32 s =
     (let digits = (if s \<noteq> [] \<and> hd s = 43 then tl s else s) in
      if digits = [] \<or> \<not> list_all is_ascii_digit digits then None
      else if decimal_value 0 digits < 2 ^ 32 then Some (decimal_value 0 digits) else None)"

fun fmt_decimal :: "nat \<Rightarrow> rstr" where
  "fmt_decimal n = (if n < 10 then [48 + n] else fmt_decimal (n div 10) @ [48 + n mod 10])"

declare fmt_decimal.simps [simp del]

lemma decimal_value_append: "decimal_value acc (a @ b) = decimal_value (decimal_value acc a) b"
  by (induction acc a rule: decimal_value.induct) auto

lemma fmt_decimal_digits: "fmt_decimal n \<noteq> [] \<and> (\<forall>c\<in>set (fmt_decimal n). is_ascii_digit c)"
proof (induction n rule: fmt_decimal.induct)
  case (1 n)
  then show ?case
    by (subst fmt_decimal.simps, subst (2) fmt_decimal.simps) (auto simp: is_ascii_digit_def)
qed

lemma decimal_value_fmt: "decimal_value 0 (fmt_decimal n) = n"
proof (induction n rule: fmt_decimal.induct)
  case (1 n)
  then show ?case by (subst fmt_decimal.simps) (simp add: decimal_value_append)
qed

lemma parse_u32_fmt: "n < 2 ^ 32 \<Longrightarrow> parse_u32 (fmt_decimal n) = Some n"
proof -
  have d: "fmt_decimal n \<noteq> []" "\<forall>c\<in>set (fmt_decimal n). is_ascii_digit c"
    using fmt_decimal_digits by auto
  then have "is_ascii_digit (hd (fmt_decimal n))" by simp
  then have "hd (fmt_decimal n) \<noteq> 43" by (auto simp: is_ascii_digit_def)
  moreover assume "n < 2 ^ 32"
  ultimately show ?thesis
    using d by (simp add: parse_u32_def decimal_value_fmt list_all_iff)
qed

end
