(* ===== verification/Wire_Backend.thy ===== *)
theory Wire_Backend
  imports Wire_Message Rust_Str
begin

text \<open>
  Backend messages: \<open>backend.rs\<close> (error responses, parameter status, key data, ready status, the
  SQLSTATE of an error), \<open>sqlstate.rs\<close>, \<open>auth.rs\<close> (authentication requests) and \<open>admin.rs\<close> (the
  tables the admin console returns). Shown: every message the proxy builds is one complete
  backend frame, its content is what the readers of the same crate extract, and an admin table
  is a row description, one data row per row and an idle \<open>ReadyForQuery\<close>.
\<close>

section \<open>SQLSTATE\<close>

datatype sql_state =
    TooManyConnections | InsufficientPrivilege | QueryCanceled | OperatorIntervention
  | CannotConnectNow | InvalidSqlStatementName | FeatureNotSupported | UndefinedTable
  | UndefinedColumn | UniqueViolation

fun sqlstate_as_str :: "sql_state \<Rightarrow> rstr" where
  "sqlstate_as_str TooManyConnections = lit ''53300''"
| "sqlstate_as_str InsufficientPrivilege = lit ''42501''"
| "sqlstate_as_str QueryCanceled = lit ''57014''"
| "sqlstate_as_str OperatorIntervention = lit ''57000''"
| "sqlstate_as_str CannotConnectNow = lit ''57P03''"
| "sqlstate_as_str InvalidSqlStatementName = lit ''26000''"
| "sqlstate_as_str FeatureNotSupported = lit ''0A000''"
| "sqlstate_as_str UndefinedTable = lit ''42P01''"
| "sqlstate_as_str UndefinedColumn = lit ''42703''"
| "sqlstate_as_str UniqueViolation = lit ''23505''"

definition sqlstate_parse :: "rstr \<Rightarrow> sql_state option" where
  "sqlstate_parse code =
     (if code = lit ''53300'' then Some TooManyConnections
      else if code = lit ''42501'' then Some InsufficientPrivilege
      else if code = lit ''57014'' then Some QueryCanceled
      else if code = lit ''57000'' then Some OperatorIntervention
      else if code = lit ''57P03'' then Some CannotConnectNow
      else if code = lit ''26000'' then Some InvalidSqlStatementName
      else if code = lit ''0A000'' then Some FeatureNotSupported
      else if code = lit ''42P01'' then Some UndefinedTable
      else if code = lit ''42703'' then Some UndefinedColumn
      else if code = lit ''23505'' then Some UniqueViolation
      else None)"

lemma sqlstate_parse_as_str [codec_simps]: "sqlstate_parse (sqlstate_as_str s) = Some s"
  by (cases s) (simp_all add: sqlstate_parse_def lit_def)

lemma cstr_ok_sqlstate [simp]: "cstr_ok (sqlstate_as_str s)"
  by (cases s) (simp_all add: cstr_ok_def lit_def is_scalar_def)

section \<open>Building and reading messages\<close>

datatype ready_status = RS_Idle | RS_InTransaction | RS_FailedTransaction

definition SQLSTATE_FIELD_KIND :: u8 where
  "SQLSTATE_FIELD_KIND = of_char CHR ''C''"

definition SEVERITY_FIELD_KIND :: u8 where
  "SEVERITY_FIELD_KIND = of_char CHR ''S''"

definition MESSAGE_FIELD_KIND :: u8 where
  "MESSAGE_FIELD_KIND = of_char CHR ''M''"

lemmas field_kinds [simp] = SQLSTATE_FIELD_KIND_def SEVERITY_FIELD_KIND_def MESSAGE_FIELD_KIND_def

definition build_error_response :: "rstr \<Rightarrow> rstr \<Rightarrow> bytes" where
  "build_error_response code message =
     (let payload = [SEVERITY_FIELD_KIND] @ as_bytes (lit ''ERROR'') @ [0]
                      @ [SQLSTATE_FIELD_KIND] @ as_bytes code @ [0]
                      @ [MESSAGE_FIELD_KIND] @ as_bytes message @ [0] @ [0]
      in [backend_tag_byte BE_ErrorResponse] @ put_i32 (usize_as_i32 (length payload + 4)) @ payload)"

definition encode_parameter_status :: "rstr \<Rightarrow> rstr \<Rightarrow> bytes" where
  "encode_parameter_status name value =
     (let payload = as_bytes name @ [0] @ as_bytes value @ [0]
      in [backend_tag_byte BE_ParameterStatus] @ put_i32 (usize_as_i32 (length payload + 4)) @ payload)"

definition encode_backend_key_data :: "i32 \<Rightarrow> i32 \<Rightarrow> bytes" where
  "encode_backend_key_data process_id secret_key =
     [backend_tag_byte BE_BackendKeyData] @ put_i32 12 @ put_i32 process_id @ put_i32 secret_key"

definition parse_parameter_status :: "bytes \<Rightarrow> (rstr \<times> rstr) option" where
  "parse_parameter_status payload =
     (case split_on (\<lambda>byte. byte = 0) payload of
        name # value # trailing # extra \<Rightarrow>
          if name = [] \<or> trailing \<noteq> [] \<or> extra \<noteq> [] then None
          else (case from_utf8 name of
                  None \<Rightarrow> None
                | Some name \<Rightarrow> map_option (\<lambda>value. (name, value)) (from_utf8 value))
      | _ \<Rightarrow> None)"

definition frame_ready_status :: "backend_frame \<Rightarrow> ready_status option" where
  "frame_ready_status frame =
     (if bf_tag frame \<noteq> backend_tag_byte BE_ReadyForQuery \<or> length (bf_payload frame) \<noteq> 1 then None
      else
        let byte = bf_payload frame ! 0 in
        if byte = ready_status_byte_code RSB_Idle then Some RS_Idle
        else if byte = ready_status_byte_code RSB_InTransaction then Some RS_InTransaction
        else if byte = ready_status_byte_code RSB_FailedTransaction then Some RS_FailedTransaction
        else None)"

text \<open>The field loop of \<open>BackendFrame::sqlstate\<close> over what is left of the payload.\<close>

function sqlstate_fields :: "bytes \<Rightarrow> sql_state option" where
  "sqlstate_fields [] = None"
| "sqlstate_fields (field_type # remaining) =
     (if field_type = 0 then None
      else case position (\<lambda>byte. byte = 0) remaining of
        None \<Rightarrow> None
      | Some terminator \<Rightarrow>
          (case from_utf8 (take terminator remaining) of
             None \<Rightarrow> None
           | Some value \<Rightarrow>
               if field_type = SQLSTATE_FIELD_KIND then sqlstate_parse value
               else sqlstate_fields (drop (terminator + 1) remaining)))"
  by pat_completeness auto
termination
  by (relation "measure length") auto

definition frame_sqlstate :: "backend_frame \<Rightarrow> sql_state option" where
  "frame_sqlstate frame =
     (if bf_tag frame \<noteq> backend_tag_byte BE_ErrorResponse then None
      else sqlstate_fields (bf_payload frame))"

section \<open>Authentication requests\<close>

datatype auth_request =
    AR_Ok
  | AR_CleartextPassword
  | AR_Md5Password bytes
  | AR_Sasl "rstr list"
  | AR_SaslContinue bytes
  | AR_SaslFinal bytes

fun auth_payload :: "auth_request \<Rightarrow> bytes" where
  "auth_payload AR_Ok = put_i32 0"
| "auth_payload AR_CleartextPassword = put_i32 3"
| "auth_payload (AR_Md5Password salt) = put_i32 5 @ salt"
| "auth_payload (AR_Sasl mechanisms) =
     put_i32 10 @ concat (map (\<lambda>mechanism. as_bytes mechanism @ [0]) mechanisms) @ [0]"
| "auth_payload (AR_SaslContinue data) = put_i32 11 @ data"
| "auth_payload (AR_SaslFinal data) = put_i32 12 @ data"

definition build_auth_message :: "auth_request \<Rightarrow> bytes" where
  "build_auth_message request =
     (let payload = auth_payload request
      in [backend_tag_byte BE_Authentication] @ put_i32 (usize_as_i32 (length payload + 4)) @ payload)"

definition authentication_sasl_scram_sha_256 :: bytes where
  "authentication_sasl_scram_sha_256 = build_auth_message (AR_Sasl [lit ''SCRAM-SHA-256''])"

section \<open>Admin tables\<close>

datatype admin_wire_type = AWT_Text | AWT_Int8 | AWT_Float8 | AWT_Bool | AWT_Timestamp

fun admin_oid :: "admin_wire_type \<Rightarrow> i32" where
  "admin_oid AWT_Text = 25"
| "admin_oid AWT_Int8 = 20"
| "admin_oid AWT_Float8 = 701"
| "admin_oid AWT_Bool = 16"
| "admin_oid AWT_Timestamp = 1114"

fun admin_type_size :: "admin_wire_type \<Rightarrow> i16" where
  "admin_type_size AWT_Text = - 1"
| "admin_type_size AWT_Int8 = 8"
| "admin_type_size AWT_Float8 = 8"
| "admin_type_size AWT_Bool = 1"
| "admin_type_size AWT_Timestamp = 8"

record admin_wire_column =
  awc_name :: rstr
  awc_type :: admin_wire_type

definition encode_backend_message :: "backend_tag \<Rightarrow> bytes \<Rightarrow> bytes" where
  "encode_backend_message tag payload =
     [backend_tag_byte tag] @ put_i32 (usize_as_i32 (length payload + 4)) @ payload"

definition encode_backend_message_raw :: "u8 \<Rightarrow> bytes \<Rightarrow> bytes" where
  "encode_backend_message_raw tag payload =
     [tag] @ put_i32 (usize_as_i32 (length payload + 4)) @ payload"

definition build_row_description :: "admin_wire_column list \<Rightarrow> bytes" where
  "build_row_description columns =
     encode_backend_message_raw (of_char CHR ''T'')
       (put_i16 (usize_as_i16 (length columns))
        @ concat (map (\<lambda>column. as_bytes (awc_name column) @ [0] @ put_i32 0 @ put_i16 0
            @ put_i32 (admin_oid (awc_type column)) @ put_i16 (admin_type_size (awc_type column))
            @ put_i32 (- 1) @ put_i16 0) columns))"

definition data_row_payload :: "admin_wire_column list \<Rightarrow> rstr list \<Rightarrow> bytes" where
  "data_row_payload columns row =
     put_i16 (usize_as_i16 (length columns))
     @ concat (map (\<lambda>value. put_i32 (usize_as_i32 (str_len value)) @ as_bytes value) row)"

text \<open>\<open>None\<close> where the row width assertion fails.\<close>

fun build_data_row :: "admin_wire_column list \<Rightarrow> rstr list list \<Rightarrow> bytes option" where
  "build_data_row columns [] = Some []"
| "build_data_row columns (row # rows) =
     (if length row \<noteq> length columns then None
      else map_option (\<lambda>message. encode_backend_message BE_DataRow (data_row_payload columns row) @ message)
             (build_data_row columns rows))"

definition build_command_complete :: "rstr \<Rightarrow> bytes" where
  "build_command_complete command_tag =
     encode_backend_message BE_CommandComplete (as_bytes command_tag @ [0])"

definition build_ready_for_query :: bytes where
  "build_ready_for_query = encode_backend_message BE_ReadyForQuery [ready_status_byte_code RSB_Idle]"

definition build_admin_table_response :: "admin_wire_column list \<Rightarrow> rstr list list \<Rightarrow> bytes option" where
  "build_admin_table_response columns rows =
     map_option (\<lambda>data. build_row_description columns @ data @ build_command_complete (lit ''SHOW'')
                  @ build_ready_for_query)
       (build_data_row columns rows)"

definition build_command_response :: "rstr \<Rightarrow> bytes" where
  "build_command_response command_tag = build_command_complete command_tag @ build_ready_for_query"

section \<open>Every message is one frame\<close>

lemma backend_builders:
  "build_error_response code message = backend_message (backend_tag_byte BE_ErrorResponse)
     (SEVERITY_FIELD_KIND # as_bytes (lit ''ERROR'') @ 0 # SQLSTATE_FIELD_KIND # as_bytes code @ 0
        # MESSAGE_FIELD_KIND # as_bytes message @ [0, 0])"
  "encode_parameter_status name value = backend_message (backend_tag_byte BE_ParameterStatus)
     (as_bytes name @ 0 # as_bytes value @ [0])"
  "build_auth_message request = backend_message (backend_tag_byte BE_Authentication) (auth_payload request)"
  "encode_backend_message tag payload = backend_message (backend_tag_byte tag) payload"
  "encode_backend_message_raw tg payload = backend_message tg payload"
  by (simp_all add: build_error_response_def encode_parameter_status_def build_auth_message_def
      encode_backend_message_def encode_backend_message_raw_def backend_message_def Let_def)

lemma sqlstate_fields_cstr:
  assumes "cstr_ok s" "k \<noteq> 0"
  shows "sqlstate_fields (k # as_bytes s @ 0 # rest) =
    (if k = SQLSTATE_FIELD_KIND then sqlstate_parse s else sqlstate_fields rest)"
proof -
  have "position (\<lambda>b. b = 0) (as_bytes s @ 0 # rest) = Some (length (as_bytes s))"
    using assms(1) by (intro position_append_hit cstr_no_zero) simp_all
  then show ?thesis using assms by (simp add: cstr_ok_def)
qed

text \<open>The error responses the proxy sends are complete backend frames, and the SQLSTATE a reader
  extracts from one is the state it was built with, whatever the message text.\<close>

lemma error_response_carries_sqlstate:
  assumes "str_len message + 32 < 2 ^ 31"
  shows "\<exists>f. parse_backend_frame (build_error_response (sqlstate_as_str st) message @ rest) = (Inr (Some f), rest) \<and>
    bf_tag f = backend_tag_byte BE_ErrorResponse \<and> frame_sqlstate f = Some st"
proof -
  let ?p = "SEVERITY_FIELD_KIND # as_bytes (lit ''ERROR'') @ 0 # SQLSTATE_FIELD_KIND #
    as_bytes (sqlstate_as_str st) @ 0 # MESSAGE_FIELD_KIND # as_bytes message @ [0, 0]"
  let ?f = "\<lparr>bf_tag = backend_tag_byte BE_ErrorResponse, bf_payload = ?p\<rparr>"
  have "str_len (sqlstate_as_str st) = 5" by (cases st) (simp_all add: lit_def utf8_len_def)
  then have "payload_fits ?p"
    using assms by (simp add: payload_fits_def lit_def utf8_len_def)
  then have "parse_backend_frame (build_error_response (sqlstate_as_str st) message @ rest) = (Inr (Some ?f), rest)"
    unfolding backend_builders(1) by (rule parse_backend_message)
  moreover have "frame_sqlstate ?f = Some st"
  proof -
    have "cstr_ok (lit ''ERROR'')" by (simp add: cstr_ok_def lit_def is_scalar_def)
    then have "sqlstate_fields ?p = sqlstate_parse (sqlstate_as_str st)"
      by (subst sqlstate_fields_cstr) (simp_all add: sqlstate_fields_cstr del: sqlstate_fields.simps)
    then show ?thesis by (simp add: frame_sqlstate_def codec_simps del: sqlstate_fields.simps)
  qed
  ultimately show ?thesis by (intro exI [of _ ?f]) simp
qed

lemma error_response_carries_sqlstate_witness:
  "\<exists>f. parse_backend_frame (build_error_response (sqlstate_as_str QueryCanceled) (lit ''statement timeout'') @ [90]) =
      (Inr (Some f), [90]) \<and>
    bf_tag f = backend_tag_byte BE_ErrorResponse \<and> frame_sqlstate f = Some QueryCanceled"
  by (rule error_response_carries_sqlstate) (simp add: lit_def utf8_len_def)

text \<open>A parameter status the proxy replays to a client is read back as the same name and value.\<close>

lemma parameter_status_roundtrip:
  assumes "cstr_ok name" "name \<noteq> []" "cstr_ok value" "str_len name + str_len value + 6 < 2 ^ 31"
  shows "\<exists>f. parse_backend_frame (encode_parameter_status name value @ rest) = (Inr (Some f), rest) \<and>
    parse_parameter_status (bf_payload f) = Some (name, value)"
proof -
  let ?p = "as_bytes name @ 0 # as_bytes value @ [0]"
  have "parse_backend_frame (encode_parameter_status name value @ rest) =
      (Inr (Some \<lparr>bf_tag = backend_tag_byte BE_ParameterStatus, bf_payload = ?p\<rparr>), rest)"
    unfolding backend_builders(2) using assms(4) by (intro parse_backend_message) (simp add: payload_fits_def)
  moreover have "split_on (\<lambda>b. b = 0) ?p = [as_bytes name, as_bytes value, []]"
    using assms(1,3) by (simp add: split_on_append cstr_no_zero)
  moreover have "as_bytes name \<noteq> []" using assms(2) by (cases name) auto
  ultimately show ?thesis using assms(1,3) by (simp add: parse_parameter_status_def cstr_ok_def)
qed

lemma parameter_status_roundtrip_witness:
  "\<exists>f. parse_backend_frame (encode_parameter_status (lit ''server_version'') (lit ''16.4'') @ []) = (Inr (Some f), []) \<and>
    parse_parameter_status (bf_payload f) = Some (lit ''server_version'', lit ''16.4'')"
  by (rule parameter_status_roundtrip) (simp_all add: cstr_ok_def lit_def is_scalar_def utf8_len_def)

section \<open>Admin tables are well-formed responses\<close>

lemma backend_loop_message:
  "payload_fits p \<Longrightarrow> backend_frames_loop (backend_message t p @ r) =
     (case backend_frames_loop r of (Inl e, r') \<Rightarrow> (Inl e, r')
      | (Inr fs, r') \<Rightarrow> (Inr (\<lparr>bf_tag = t, bf_payload = p\<rparr> # fs), r'))"
  by (subst be_loop.loop_unfold) (simp add: parse_backend_message)

lemma backend_loop_Nil [simp]: "backend_frames_loop [] = (Inr [], [])"
  by (subst be_loop.loop_unfold) (simp add: parse_backend_frame_def)

text \<open>The frames of an admin table: description, rows, command tag, ready.\<close>

definition admin_table_frames :: "admin_wire_column list \<Rightarrow> rstr list list \<Rightarrow> backend_frame list" where
  "admin_table_frames columns rows =
     \<lparr>bf_tag = backend_tag_byte BE_RowDescription, bf_payload = drop 5 (build_row_description columns)\<rparr>
     # map (\<lambda>row. \<lparr>bf_tag = backend_tag_byte BE_DataRow, bf_payload = data_row_payload columns row\<rparr>) rows
     @ [\<lparr>bf_tag = backend_tag_byte BE_CommandComplete, bf_payload = as_bytes (lit ''SHOW'') @ [0]\<rparr>,
        \<lparr>bf_tag = backend_tag_byte BE_ReadyForQuery, bf_payload = [ready_status_byte_code RSB_Idle]\<rparr>]"

lemma build_data_row_None: "build_data_row columns rows = None \<longleftrightarrow> (\<exists>row\<in>set rows. length row \<noteq> length columns)"
  by (induction rows) auto

lemma build_data_row_loop:
  "build_data_row columns rows = Some data \<Longrightarrow> \<forall>row\<in>set rows. payload_fits (data_row_payload columns row) \<Longrightarrow>
     backend_frames_loop (data @ r) =
       (case backend_frames_loop r of (Inl e, r') \<Rightarrow> (Inl e, r')
        | (Inr fs, r') \<Rightarrow> (Inr (map (\<lambda>row. \<lparr>bf_tag = backend_tag_byte BE_DataRow,
              bf_payload = data_row_payload columns row\<rparr>) rows @ fs), r'))"
proof (induction rows arbitrary: data)
  case Nil
  then show ?case by (auto split: prod.splits sum.splits)
next
  case (Cons row rows)
  then obtain data' where "build_data_row columns rows = Some data'"
      "data = encode_backend_message BE_DataRow (data_row_payload columns row) @ data'"
    by (auto split: if_splits)
  with Cons show ?case
    by (auto simp: backend_builders backend_loop_message split: prod.splits sum.splits)
qed

lemma admin_table_frames_loop:
  assumes "\<forall>row\<in>set rows. length row = length columns"
    and "payload_fits (drop 5 (build_row_description columns))"
    and "\<forall>row\<in>set rows. payload_fits (data_row_payload columns row)"
    and "build_admin_table_response columns rows = Some response"
  shows "backend_frames_loop response = (Inr (admin_table_frames columns rows), [])"
proof -
  obtain data where d: "build_data_row columns rows = Some data" and r: "response =
      build_row_description columns @ data @ build_command_complete (lit ''SHOW'') @ build_ready_for_query"
    using assms(4) by (auto simp: build_admin_table_response_def)
  have rd: "build_row_description columns =
      backend_message (backend_tag_byte BE_RowDescription) (drop 5 (build_row_description columns))"
    by (simp add: build_row_description_def encode_backend_message_raw_def backend_message_def)
  have tail: "backend_frames_loop (build_command_complete (lit ''SHOW'') @ build_ready_for_query) =
      (Inr [\<lparr>bf_tag = backend_tag_byte BE_CommandComplete, bf_payload = as_bytes (lit ''SHOW'') @ [0]\<rparr>,
        \<lparr>bf_tag = backend_tag_byte BE_ReadyForQuery, bf_payload = [ready_status_byte_code RSB_Idle]\<rparr>], [])"
    using backend_loop_message [of "[ready_status_byte_code RSB_Idle]" "backend_tag_byte BE_ReadyForQuery" "[]"]
    by (simp add: build_command_complete_def build_ready_for_query_def backend_builders backend_loop_message
        payload_fits_def lit_def utf8_len_def)
  show ?thesis
    unfolding r
    by (subst rd) (simp add: backend_loop_message assms(2) build_data_row_loop [OF d assms(3)] tail admin_table_frames_def)
qed

text \<open>An admin table is answered with exactly one row description, one data row per row, the
  command tag and an idle \<open>ReadyForQuery\<close>; the builder aborts only when a row does not have one
  value per column.\<close>

lemma admin_table_response_frames:
  assumes "\<forall>row\<in>set rows. length row = length columns"
    and "payload_fits (drop 5 (build_row_description columns))"
    and "\<forall>row\<in>set rows. payload_fits (data_row_payload columns row)"
  shows "\<exists>response. build_admin_table_response columns rows = Some response \<and>
    backend_frames_loop response = (Inr (admin_table_frames columns rows), []) \<and>
    frame_ready_status (last (admin_table_frames columns rows)) = Some RS_Idle"
proof -
  obtain response where r: "build_admin_table_response columns rows = Some response"
    using assms(1) build_data_row_None [of columns rows] by (auto simp: build_admin_table_response_def)
  with admin_table_frames_loop [OF assms r] show ?thesis
    by (simp add: admin_table_frames_def frame_ready_status_def)
qed

lemma admin_table_response_frames_witness:
  "let columns = [\<lparr>awc_name = lit ''pool'', awc_type = AWT_Text\<rparr>, \<lparr>awc_name = lit ''n'', awc_type = AWT_Int8\<rparr>];
       rows = [[lit ''main'', lit ''3''], [lit ''ro'', []]]
   in \<exists>response. build_admin_table_response columns rows = Some response \<and>
     backend_frames_loop response = (Inr (admin_table_frames columns rows), []) \<and>
     frame_ready_status (last (admin_table_frames columns rows)) = Some RS_Idle"
  unfolding Let_def
  by (rule admin_table_response_frames)
     (simp_all add: payload_fits_def build_row_description_def encode_backend_message_raw_def
        data_row_payload_def lit_def utf8_len_def)

end
