(* ===== verification/Secrets.thy ===== *)
theory Secrets
  imports Rust_Str
begin

text \<open>
  User secrets, \<open>security/secrets.rs\<close>: MD5 and SCRAM-SHA-256 verifiers in PostgreSQL's text form,
  the key derivation and the user store. Base64, HMAC-SHA-256 and SHA-256 are library code and
  enter as parameters (\<open>decode\<close>, \<open>encode\<close>, \<open>hmac\<close>, \<open>sha256\<close>). Shown: a verifier printed in
  PostgreSQL's format is parsed back unchanged, every parsed verifier has a positive iteration
  count and 32-byte keys, a verifier accepts exactly the passwords that derive its stored key,
  and the user store finds what was stored under the user's name, up to case where configured.
\<close>

section \<open>Verifiers\<close>

datatype secret_error =
    InvalidPrefix rstr
  | MissingField
  | InvalidIterations
  | InvalidBase64 rstr
  | InvalidKeyLength rstr nat nat
  | NonceGeneration
  | InvalidMd5Secret

record scram_verifier =
  sv_iterations :: nat
  sv_salt :: bytes
  sv_stored_key :: bytes
  sv_server_key :: bytes

record md5_secret =
  md5_hex :: rstr

datatype user_secret = US_Trust | US_ScramSha256 scram_verifier | US_Md5 md5_secret

definition SCRAM_SHA_256_PREFIX :: rstr where
  "SCRAM_SHA_256_PREFIX = lit ''SCRAM-SHA-256''"

definition SCRAM_SHA_256_KEY_LEN :: nat where
  "SCRAM_SHA_256_KEY_LEN = 32"

definition md5_secret_parse :: "rstr \<Rightarrow> secret_error + md5_secret" where
  "md5_secret_parse secret =
     and_then (ok_or (strip_prefix secret (lit ''md5'')) InvalidMd5Secret) (\<lambda>hex.
     if str_len hex \<noteq> 32 \<or>
        \<not> list_all (\<lambda>byte. in_range 48 57 byte \<or> in_range 97 102 byte) (as_bytes hex)
     then Inl InvalidMd5Secret
     else Inr \<lparr>md5_hex = hex\<rparr>)"

definition validate_scram_key_length :: "rstr \<Rightarrow> bytes \<Rightarrow> secret_error + unit" where
  "validate_scram_key_length field value =
     (if length value = SCRAM_SHA_256_KEY_LEN then Inr ()
      else Inl (InvalidKeyLength field SCRAM_SHA_256_KEY_LEN (length value)))"

definition scram_verifier_parse :: "(rstr \<Rightarrow> bytes option) \<Rightarrow> rstr \<Rightarrow> secret_error + scram_verifier" where
  "scram_verifier_parse decode verifier =
     and_then (ok_or (split_once_char verifier (chr CHR ''$'')) MissingField) (\<lambda>(pre, rest).
     if pre \<noteq> SCRAM_SHA_256_PREFIX then Inl (InvalidPrefix SCRAM_SHA_256_PREFIX)
     else
       and_then (ok_or (split_once_char rest (chr CHR ''$'')) MissingField) (\<lambda>(iteration_and_salt, keys).
       and_then (ok_or (split_once_char iteration_and_salt (chr CHR '':'')) MissingField) (\<lambda>(iterations, salt).
       and_then (ok_or (split_once_char keys (chr CHR '':'')) MissingField) (\<lambda>(stored_key, server_key).
       and_then (ok_or (case parse_u32 iterations of
                          None \<Rightarrow> None
                        | Some value \<Rightarrow> if value > 0 then Some value else None) InvalidIterations) (\<lambda>iterations.
       and_then (ok_or (decode salt) (InvalidBase64 (lit ''salt''))) (\<lambda>salt.
       and_then (ok_or (decode stored_key) (InvalidBase64 (lit ''stored_key''))) (\<lambda>stored_key.
       and_then (ok_or (decode server_key) (InvalidBase64 (lit ''server_key''))) (\<lambda>server_key.
       and_then (validate_scram_key_length (lit ''stored_key'') stored_key) (\<lambda>_.
       and_then (validate_scram_key_length (lit ''server_key'') server_key) (\<lambda>_.
       Inr \<lparr>sv_iterations = iterations, sv_salt = salt, sv_stored_key = stored_key,
             sv_server_key = server_key\<rparr>))))))))))"

definition to_postgres_verifier :: "(bytes \<Rightarrow> rstr) \<Rightarrow> scram_verifier \<Rightarrow> rstr" where
  "to_postgres_verifier encode v =
     SCRAM_SHA_256_PREFIX @ lit ''$'' @ fmt_decimal (sv_iterations v) @ lit '':'' @ encode (sv_salt v)
     @ lit ''$'' @ encode (sv_stored_key v) @ lit '':'' @ encode (sv_server_key v)"

section \<open>Key derivation\<close>

definition xor_in_place :: "bytes \<Rightarrow> bytes \<Rightarrow> bytes" where
  "xor_in_place left right = map2 (XOR) left right"

fun pbkdf2_rounds :: "(bytes \<Rightarrow> bytes \<Rightarrow> bytes) \<Rightarrow> bytes \<Rightarrow> nat \<Rightarrow> bytes \<Rightarrow> bytes \<Rightarrow> bytes" where
  "pbkdf2_rounds hmac password 0 u output = output"
| "pbkdf2_rounds hmac password (Suc n) u output =
     (let u = hmac password u in pbkdf2_rounds hmac password n u (xor_in_place output u))"

definition pbkdf2_hmac_sha256 :: "(bytes \<Rightarrow> bytes \<Rightarrow> bytes) \<Rightarrow> bytes \<Rightarrow> bytes \<Rightarrow> nat \<Rightarrow> bytes" where
  "pbkdf2_hmac_sha256 hmac password salt iterations =
     (let block = salt @ put_i32 1;
          u = hmac password block
      in pbkdf2_rounds hmac password (iterations - 1) u u)"

definition derive_scram_stored_key ::
  "(bytes \<Rightarrow> bytes \<Rightarrow> bytes) \<Rightarrow> (bytes \<Rightarrow> bytes) \<Rightarrow> bytes \<Rightarrow> bytes \<Rightarrow> nat \<Rightarrow> bytes" where
  "derive_scram_stored_key hmac sha256 password salt iterations =
     (let salted_password = pbkdf2_hmac_sha256 hmac password salt iterations;
          client_key = hmac salted_password (as_bytes (lit ''Client Key''))
      in sha256 client_key)"

definition verify_password ::
  "(bytes \<Rightarrow> bytes \<Rightarrow> bytes) \<Rightarrow> (bytes \<Rightarrow> bytes) \<Rightarrow> scram_verifier \<Rightarrow> bytes \<Rightarrow> bool" where
  "verify_password hmac sha256 v password \<longleftrightarrow>
     derive_scram_stored_key hmac sha256 password (sv_salt v) (sv_iterations v) = sv_stored_key v"

section \<open>The user store\<close>

record user_store =
  us_case_sensitive :: bool
  us_secrets :: "rstr \<rightharpoonup> user_secret"

definition user_store_new :: "bool \<Rightarrow> user_store" where
  "user_store_new case_sensitive = \<lparr>us_case_sensitive = case_sensitive, us_secrets = Map.empty\<rparr>"

definition user_store_normalize :: "user_store \<Rightarrow> rstr \<Rightarrow> rstr" where
  "user_store_normalize store username =
     (if us_case_sensitive store then username else to_ascii_lowercase username)"

definition user_store_insert :: "user_store \<Rightarrow> rstr \<Rightarrow> user_secret \<Rightarrow> user_store \<times> user_secret option" where
  "user_store_insert store username secret =
     (let username = user_store_normalize store username
      in (store\<lparr>us_secrets := (us_secrets store)(username \<mapsto> secret)\<rparr>, us_secrets store username))"

definition user_store_get :: "user_store \<Rightarrow> rstr \<Rightarrow> user_secret option" where
  "user_store_get store username =
     (if us_case_sensitive store then us_secrets store username
      else us_secrets store (to_ascii_lowercase username))"

section \<open>Laws\<close>

lemma dollar_colon_digits: "36 \<notin> set (fmt_decimal n)" "58 \<notin> set (fmt_decimal n)"
  using fmt_decimal_digits [of n] by (auto simp: is_ascii_digit_def)

text \<open>A SCRAM verifier written in PostgreSQL's format is parsed back as the same verifier, for
  any Base64 codec that decodes what it encodes and does not use the two separators.\<close>

lemma scram_verifier_roundtrip:
  assumes "\<And>bs. decode (encode bs) = Some bs" "\<And>bs. chr CHR ''$'' \<notin> set (encode bs) \<and> chr CHR '':'' \<notin> set (encode bs)"
    and "0 < sv_iterations v" "sv_iterations v < 2 ^ 32"
    and "length (sv_stored_key v) = 32" "length (sv_server_key v) = 32"
  shows "scram_verifier_parse decode (to_postgres_verifier encode v) = Inr v"
proof -
  have s1: "split_once_char (to_postgres_verifier encode v) 36 = Some (SCRAM_SHA_256_PREFIX,
      fmt_decimal (sv_iterations v) @ 58 # encode (sv_salt v) @ 36 # encode (sv_stored_key v) @ 58 # encode (sv_server_key v))"
    unfolding split_once_char_Some by (simp add: to_postgres_verifier_def SCRAM_SHA_256_PREFIX_def lit_def)
  have s2: "split_once_char (fmt_decimal (sv_iterations v) @ 58 # encode (sv_salt v) @ 36 # encode (sv_stored_key v) @ 58 # encode (sv_server_key v)) 36 =
      Some (fmt_decimal (sv_iterations v) @ 58 # encode (sv_salt v), encode (sv_stored_key v) @ 58 # encode (sv_server_key v))"
    unfolding split_once_char_Some using assms(2) dollar_colon_digits by simp
  have s3: "split_once_char (fmt_decimal (sv_iterations v) @ 58 # encode (sv_salt v)) 58 = Some (fmt_decimal (sv_iterations v), encode (sv_salt v))"
      "split_once_char (encode (sv_stored_key v) @ 58 # encode (sv_server_key v)) 58 = Some (encode (sv_stored_key v), encode (sv_server_key v))"
    unfolding split_once_char_Some using assms(2) dollar_colon_digits by simp_all
  show ?thesis
    using assms by (simp add: scram_verifier_parse_def s1 s2 s3 parse_u32_fmt validate_scram_key_length_def SCRAM_SHA_256_KEY_LEN_def)
qed

lemma scram_verifier_roundtrip_witness:
  "let encode = (\<lambda>bs :: bytes. map (\<lambda>b. unat b + 1000) bs);
       decode = (\<lambda>s :: rstr. Some (map (\<lambda>c. word_of_nat (c - 1000) :: u8) s));
       v = \<lparr>sv_iterations = 4096, sv_salt = [1, 2, 3], sv_stored_key = replicate 32 7, sv_server_key = replicate 32 9\<rparr>
   in scram_verifier_parse decode (to_postgres_verifier encode v) = Inr v"
  unfolding Let_def by (rule scram_verifier_roundtrip) (auto simp: comp_def)

lemma scram_verifier_parse_sound:
  assumes "scram_verifier_parse decode s = Inr v"
  shows "0 < sv_iterations v \<and> sv_iterations v < 2 ^ 32 \<and> length (sv_stored_key v) = 32 \<and> length (sv_server_key v) = 32"
  using assms
  by (auto simp: scram_verifier_parse_def and_then_eq_Inr validate_scram_key_length_def SCRAM_SHA_256_KEY_LEN_def
      parse_u32_def Let_def split: if_splits option.splits)

text \<open>What a store of secrets promises: names are looked up modulo the store's notion of sameness.\<close>

locale secret_store =
  fixes same :: "'k \<Rightarrow> 'k \<Rightarrow> bool" and put :: "'s \<Rightarrow> 'k \<Rightarrow> 'v \<Rightarrow> 's" and find :: "'s \<Rightarrow> 'k \<Rightarrow> 'v option"
    and ok :: "'s \<Rightarrow> bool"
  assumes find_put: "ok s \<Longrightarrow> find (put s k v) k' = (if same k k' then Some v else find s k')"
    and put_ok: "ok s \<Longrightarrow> ok (put s k v)"
begin

text \<open>After any sequence of updates the last one for a name decides.\<close>

lemma find_puts:
  "ok s \<Longrightarrow> find (fold (\<lambda>(k, v) s. put s k v) kvs s) k =
     (case List.find (\<lambda>(k', v). same k' k) (rev kvs) of Some (_, v) \<Rightarrow> Some v | None \<Rightarrow> find s k)"
proof (induction kvs rule: rev_induct)
  case (snoc kv kvs)
  obtain k' v where kv: "kv = (k', v)" by force
  have "ok (fold (\<lambda>(k, v) s. put s k v) kvs s)"
    using snoc.prems by (induction kvs arbitrary: s) (auto simp: put_ok)
  then show ?case using snoc kv by (simp add: find_put)
qed simp

end

interpretation users: secret_store eq_ignore_ascii_case "\<lambda>s k v. fst (user_store_insert s k v)" user_store_get
    "\<lambda>s. \<not> us_case_sensitive s"
  by unfold_locales
     (auto simp: user_store_insert_def user_store_get_def user_store_normalize_def eq_ignore_ascii_case_def Let_def)

interpretation exact_users: secret_store "(=)" "\<lambda>s k v. fst (user_store_insert s k v)" user_store_get
    us_case_sensitive
  by unfold_locales
     (auto simp: user_store_insert_def user_store_get_def user_store_normalize_def Let_def)

text \<open>In a case-insensitive user store loaded with any list of users, the secret found for a name
  is the one stored last under a name that equals it up to ASCII case, and none if there is no
  such name.\<close>

lemma user_store_lookup:
  "user_store_get (fold (\<lambda>(k, v) s. fst (user_store_insert s k v)) users (user_store_new False)) name =
     (case List.find (\<lambda>(k, v). eq_ignore_ascii_case k name) (rev users) of Some (_, v) \<Rightarrow> Some v | None \<Rightarrow> None)"
proof -
  have "\<not> us_case_sensitive (user_store_new False)" "user_store_get (user_store_new False) name = None"
    by (simp_all add: user_store_new_def user_store_get_def)
  with users.find_puts [of "user_store_new False" users name] show ?thesis by (auto split: option.splits)
qed

end
