(* ===== verification/Routing_Model.thy ===== *)
theory Routing_Model
  imports Rust_Str
begin

text \<open>
  The vocabulary of query routing, \<open>traffic/routing.rs\<close>: backend roles, routing modes, query
  classes, hints, policies and reasons, with the labels under which they appear in metrics and
  in the admin console. The labels of each enumeration are pairwise distinct.
\<close>

datatype backend_role = BR_Primary | BR_Replica | BR_Unknown

fun backend_role_as_str :: "backend_role \<Rightarrow> rstr" where
  "backend_role_as_str BR_Primary = lit ''primary''"
| "backend_role_as_str BR_Replica = lit ''replica''"
| "backend_role_as_str BR_Unknown = lit ''unknown''"

datatype read_routing_mode = RRM_Off | RRM_PreferReplica | RRM_RequireReplica | RRM_PrimaryOnly

fun read_routing_mode_as_str :: "read_routing_mode \<Rightarrow> rstr" where
  "read_routing_mode_as_str RRM_Off = lit ''off''"
| "read_routing_mode_as_str RRM_PreferReplica = lit ''prefer_replica''"
| "read_routing_mode_as_str RRM_RequireReplica = lit ''require_replica''"
| "read_routing_mode_as_str RRM_PrimaryOnly = lit ''primary_only''"

datatype query_class =
  QC_Write | QC_ReadOnly | QC_ReadCandidate | QC_TransactionControl | QC_SessionMutation | QC_Copy | QC_Unknown

fun query_class_as_str :: "query_class \<Rightarrow> rstr" where
  "query_class_as_str QC_Write = lit ''write''"
| "query_class_as_str QC_ReadOnly = lit ''read_only''"
| "query_class_as_str QC_ReadCandidate = lit ''read_candidate''"
| "query_class_as_str QC_TransactionControl = lit ''transaction_control''"
| "query_class_as_str QC_SessionMutation = lit ''session_mutation''"
| "query_class_as_str QC_Copy = lit ''copy''"
| "query_class_as_str QC_Unknown = lit ''unknown''"

fun routes_to_replica :: "query_class \<Rightarrow> bool" where
  "routes_to_replica QC_ReadOnly = True"
| "routes_to_replica QC_ReadCandidate = True"
| "routes_to_replica _ = False"

definition query_target_role :: "query_class \<Rightarrow> backend_role" where
  "query_target_role c = (if routes_to_replica c then BR_Replica else BR_Primary)"

datatype routing_hint = RH_Primary | RH_Replica | RH_StaleOk | RH_StrictFresh | RH_None

fun routing_hint_as_str :: "routing_hint \<Rightarrow> rstr" where
  "routing_hint_as_str RH_Primary = lit ''primary''"
| "routing_hint_as_str RH_Replica = lit ''replica''"
| "routing_hint_as_str RH_StaleOk = lit ''stale_ok''"
| "routing_hint_as_str RH_StrictFresh = lit ''strict_fresh''"
| "routing_hint_as_str RH_None = lit ''none''"

datatype fallback_policy = FP_Primary | FP_Reject | FP_Wait

fun fallback_policy_as_str :: "fallback_policy \<Rightarrow> rstr" where
  "fallback_policy_as_str FP_Primary = lit ''primary''"
| "fallback_policy_as_str FP_Reject = lit ''reject''"
| "fallback_policy_as_str FP_Wait = lit ''wait''"

datatype freshness_policy =
  FRP_None | FRP_SessionWriteLsn | FRP_MaxReplicaLag | FRP_SessionWriteLsnAndMaxLag

fun freshness_policy_as_str :: "freshness_policy \<Rightarrow> rstr" where
  "freshness_policy_as_str FRP_None = lit ''none''"
| "freshness_policy_as_str FRP_SessionWriteLsn = lit ''session_write_lsn''"
| "freshness_policy_as_str FRP_MaxReplicaLag = lit ''max_replica_lag''"
| "freshness_policy_as_str FRP_SessionWriteLsnAndMaxLag = lit ''session_write_lsn_and_max_lag''"

datatype routing_reason =
    RR_Off | RR_PrimaryOnlyMode | RR_PreferReplicaMode | RR_RequireReplicaMode | RR_WriteQuery
  | RR_ReadOnlyQuery | RR_ReadCandidateQuery | RR_TransactionControl | RR_SessionMutation | RR_Copy
  | RR_UnknownQuery | RR_FreshnessRequired | RR_ReplicaStale | RR_ReplicaUnavailable
  | RR_FallbackPrimary | RR_FallbackReject | RR_FallbackWait

fun routing_reason_as_str :: "routing_reason \<Rightarrow> rstr" where
  "routing_reason_as_str RR_Off = lit ''off''"
| "routing_reason_as_str RR_PrimaryOnlyMode = lit ''primary_only_mode''"
| "routing_reason_as_str RR_PreferReplicaMode = lit ''prefer_replica_mode''"
| "routing_reason_as_str RR_RequireReplicaMode = lit ''require_replica_mode''"
| "routing_reason_as_str RR_WriteQuery = lit ''write_query''"
| "routing_reason_as_str RR_ReadOnlyQuery = lit ''read_only_query''"
| "routing_reason_as_str RR_ReadCandidateQuery = lit ''read_candidate_query''"
| "routing_reason_as_str RR_TransactionControl = lit ''transaction_control''"
| "routing_reason_as_str RR_SessionMutation = lit ''session_mutation''"
| "routing_reason_as_str RR_Copy = lit ''copy''"
| "routing_reason_as_str RR_UnknownQuery = lit ''unknown_query''"
| "routing_reason_as_str RR_FreshnessRequired = lit ''freshness_required''"
| "routing_reason_as_str RR_ReplicaStale = lit ''replica_stale''"
| "routing_reason_as_str RR_ReplicaUnavailable = lit ''replica_unavailable''"
| "routing_reason_as_str RR_FallbackPrimary = lit ''fallback_primary''"
| "routing_reason_as_str RR_FallbackReject = lit ''fallback_reject''"
| "routing_reason_as_str RR_FallbackWait = lit ''fallback_wait''"

record routing_decision =
  rd_target_role :: backend_role
  rd_query_class :: query_class
  rd_hint :: routing_hint
  rd_reason :: routing_reason
  rd_fallback_policy :: fallback_policy
  rd_freshness_requirement :: freshness_policy

text \<open>A closed enumeration with a label per value, from which the value can be recovered.\<close>

locale labelled =
  fixes label :: "'a \<Rightarrow> rstr"
  assumes label_inject: "label x = label y \<Longrightarrow> x = y"
begin

lemma label_inj: "inj label"
  by (rule injI) (rule label_inject)

lemma label_eq_iff: "label x = label y \<longleftrightarrow> x = y"
  using label_inject by blast

end

interpretation backend_role: labelled backend_role_as_str
proof unfold_locales
  fix x y show "backend_role_as_str x = backend_role_as_str y \<Longrightarrow> x = y"
    by (cases x; cases y) (simp_all add: lit_def)
qed

interpretation query_class: labelled query_class_as_str
proof unfold_locales
  fix x y show "query_class_as_str x = query_class_as_str y \<Longrightarrow> x = y"
    by (cases x; cases y) (simp_all add: lit_def)
qed

interpretation read_routing_mode: labelled read_routing_mode_as_str
proof unfold_locales
  fix x y show "read_routing_mode_as_str x = read_routing_mode_as_str y \<Longrightarrow> x = y"
    by (cases x; cases y) (simp_all add: lit_def)
qed

interpretation routing_hint: labelled routing_hint_as_str
proof unfold_locales
  fix x y show "routing_hint_as_str x = routing_hint_as_str y \<Longrightarrow> x = y"
    by (cases x; cases y) (simp_all add: lit_def)
qed

interpretation fallback_policy: labelled fallback_policy_as_str
proof unfold_locales
  fix x y show "fallback_policy_as_str x = fallback_policy_as_str y \<Longrightarrow> x = y"
    by (cases x; cases y) (simp_all add: lit_def)
qed

interpretation freshness_policy: labelled freshness_policy_as_str
proof unfold_locales
  fix x y show "freshness_policy_as_str x = freshness_policy_as_str y \<Longrightarrow> x = y"
    by (cases x; cases y) (simp_all add: lit_def)
qed

interpretation routing_reason: labelled routing_reason_as_str
proof unfold_locales
  fix x y show "routing_reason_as_str x = routing_reason_as_str y \<Longrightarrow> x = y"
    by (cases x; cases y) (simp_all add: lit_def)
qed

end
