(* ===== verification/Sql_Classify.thy ===== *)
theory Sql_Classify
  imports Routing_Model
begin

text \<open>
  The SQL classifier of \<open>protocol/sql_classify.rs\<close>: comment stripping, routing hints, the
  statement splitter, the tokenizer and the classification that decides whether a query may go
  to a replica. Shown: every scanner terminates and returns a part of its input; a text with a
  write statement anywhere in it is never classified as a read; a text classified as a read has
  only statements that begin with a read keyword and, for \<open>SELECT\<close>, none of the markers of a
  side effect.
\<close>

section \<open>Comments and separators\<close>

lemma trim_start_shorter: "trim_start s \<noteq> s \<Longrightarrow> length (trim_start s) < length s"
proof -
  assume ne: "trim_start s \<noteq> s"
  obtain p where "s = p @ trim_start s" using trim_start_suffix [of s] by blast
  with ne show ?thesis by (cases p) (auto dest: arg_cong [of _ _ length])
qed

function strip_leading_comments_and_whitespace :: "rstr \<Rightarrow> rstr" where
  "strip_leading_comments_and_whitespace rest =
     (let trimmed = trim_start rest in
      if trimmed \<noteq> rest then strip_leading_comments_and_whitespace trimmed
      else case strip_prefix rest (lit ''--'') of
        Some after_comment \<Rightarrow>
          (case position (\<lambda>c. c = 10) after_comment of
             Some e \<Rightarrow> strip_leading_comments_and_whitespace (drop (e + 1) after_comment)
           | None \<Rightarrow> [])
      | None \<Rightarrow>
          (case strip_prefix rest (lit ''/*'') of
             Some after_comment \<Rightarrow>
               (case find_str after_comment (lit ''*/'') of
                  None \<Rightarrow> []
                | Some e \<Rightarrow> strip_leading_comments_and_whitespace (drop (e + 2) after_comment))
           | None \<Rightarrow> rest))"
  by pat_completeness auto
termination
  by (relation "measure length") (auto dest: trim_start_shorter strip_prefix_length)

declare strip_leading_comments_and_whitespace.simps [simp del]

abbreviation strip_token_separators :: "rstr \<Rightarrow> rstr" where
  "strip_token_separators \<equiv> strip_leading_comments_and_whitespace"

definition starts_with_token_separator :: "rstr \<Rightarrow> bool" where
  "starts_with_token_separator sql \<longleftrightarrow>
     (case sql of [] \<Rightarrow> False | c # _ \<Rightarrow> is_whitespace c) \<or>
     starts_with sql (lit ''--'') \<or> starts_with sql (lit ''/*'')"

text \<open>One turn of the stripping loop: it ends, or it goes on with a shorter suffix.\<close>

lemma strip_cases:
  obtains (empty) "strip_token_separators s = []"
  | (skip) p t where "s = p @ t" "p \<noteq> []" "strip_token_separators s = strip_token_separators t"
  | (stop) "\<not> starts_with_token_separator s" "strip_token_separators s = s"
proof (cases "trim_start s = s")
  case False
  obtain p where p: "s = p @ trim_start s" using trim_start_suffix [of s] by blast
  with False have "p \<noteq> []" by (metis append_Nil)
  moreover have "strip_token_separators s = strip_token_separators (trim_start s)"
    using False by (subst strip_leading_comments_and_whitespace.simps) (simp add: Let_def)
  ultimately show thesis using p skip by blast
next
  case True
  have cut: thesis
    if "s = pre @ after" "pre \<noteq> []" "strip_token_separators s = strip_token_separators (drop n after)" for pre after n
    using that skip [of "pre @ take n after" "drop n after"] by simp
  consider (line) after where "strip_prefix s (lit ''--'') = Some after"
    | (block) after where "strip_prefix s (lit ''--'') = None" "strip_prefix s (lit ''/*'') = Some after"
    | (none) "strip_prefix s (lit ''--'') = None" "strip_prefix s (lit ''/*'') = None" by fastforce
  then show thesis
  proof cases
    case line
    then have st: "strip_token_separators s = (case position (\<lambda>c. c = 10) after of
        Some e \<Rightarrow> strip_token_separators (drop (e + 1) after) | None \<Rightarrow> [])"
      using True by (subst strip_leading_comments_and_whitespace.simps) (simp add: Let_def)
    show thesis using st line cut [of "lit ''--''" after] empty
      by (cases "position (\<lambda>c. c = 10) after") (auto simp: strip_prefix_Some lit_def)
  next
    case block
    then have st: "strip_token_separators s = (case find_str after (lit ''*/'') of
        None \<Rightarrow> [] | Some e \<Rightarrow> strip_token_separators (drop (e + 2) after))"
      using True by (subst strip_leading_comments_and_whitespace.simps) (simp add: Let_def)
    show thesis using st block cut [of "lit ''/*''" after] empty
      by (cases "find_str after (lit ''*/'')") (auto simp: strip_prefix_Some lit_def)
  next
    case none
    moreover have "strip_token_separators s = s"
      using none True by (subst strip_leading_comments_and_whitespace.simps) (simp add: Let_def)
    ultimately show thesis using True stop
      by (cases s) (auto simp: starts_with_token_separator_def strip_prefix_def trim_start_same split: if_splits)
  qed
qed

lemma strip_suffix: "\<exists>p. s = p @ strip_token_separators s"
proof (induction s rule: length_induct)
  case (1 s)
  show ?case
  proof (cases s rule: strip_cases)
    case (skip p t)
    then have "length t < length s" by simp
    with 1 obtain q where "t = q @ strip_token_separators t" by blast
    with skip show ?thesis by (metis append.assoc)
  qed auto
qed

lemma strip_length [simp]: "length (strip_token_separators s) \<le> length s"
  using strip_suffix [of s] by (metis le_add2 length_append)

lemma strip_no_separator: "\<not> starts_with_token_separator (strip_token_separators s)"
proof (induction s rule: length_induct)
  case (1 s)
  show ?case
  proof (cases s rule: strip_cases)
    case empty
    then show ?thesis by (simp add: starts_with_token_separator_def starts_with_def lit_def)
  qed (use 1 in auto)
qed

lemma strip_id: "\<not> starts_with_token_separator s \<Longrightarrow> strip_token_separators s = s"
proof -
  assume a: "\<not> starts_with_token_separator s"
  then have "trim_start s = s" by (auto simp: starts_with_token_separator_def trim_start_same split: list.splits)
  with a show ?thesis
    by (subst strip_leading_comments_and_whitespace.simps)
       (auto simp: starts_with_token_separator_def strip_prefix_def)
qed

lemma strip_idem [simp]: "strip_token_separators (strip_token_separators s) = strip_token_separators s"
  by (rule strip_id) (rule strip_no_separator)

section \<open>Routing hints\<close>

lemma trim_drop_shorter: "strip_prefix s p = Some r \<Longrightarrow> p \<noteq> [] \<Longrightarrow> length (trim_start (drop n r)) < length s"
  using trim_start_length [of "drop n r"] by (cases p) (auto dest!: strip_prefix_length)

function hint_loop :: "rstr \<Rightarrow> routing_hint" where
  "hint_loop rest =
     (case strip_prefix rest (lit ''/*'') of
        Some after_comment \<Rightarrow>
          (case find_str after_comment (lit ''*/'') of
             None \<Rightarrow> RH_None
           | Some e \<Rightarrow>
               let comment = trim (take e after_comment);
                   hint = (if comment = lit ''pg-kinetic: primary'' then RH_Primary
                           else if comment = lit ''pg-kinetic: replica'' then RH_Replica
                           else if comment = lit ''pg-kinetic: stale-ok'' then RH_StaleOk
                           else if comment = lit ''pg-kinetic: strict-fresh'' then RH_StrictFresh
                           else RH_None)
               in if hint \<noteq> RH_None then hint
                  else hint_loop (trim_start (drop (e + 2) after_comment)))
      | None \<Rightarrow>
          (case strip_prefix rest (lit ''--'') of
             Some after_comment \<Rightarrow>
               (case position (\<lambda>c. c = 10) after_comment of
                  Some e \<Rightarrow> hint_loop (trim_start (drop (e + 1) after_comment))
                | None \<Rightarrow> RH_None)
           | None \<Rightarrow>
               let trimmed = trim_start rest in
               if trimmed = rest then RH_None else hint_loop trimmed))"
  by pat_completeness auto
termination
  by (relation "measure length")
     (auto simp: lit_def intro: trim_drop_shorter dest: trim_start_shorter simp del: drop_drop)

declare hint_loop.simps [simp del]

definition extract_routing_hint :: "rstr \<Rightarrow> routing_hint" where
  "extract_routing_hint sql = hint_loop (trim_start sql)"

section \<open>Splitting into statements\<close>

datatype scan_state = SS_Normal | SS_SingleQuote | SS_DoubleQuote | SS_LineComment | SS_BlockComment

text \<open>
  The character loop of \<open>for_each_top_level_statement\<close>: \<open>cur\<close> is the slice from \<open>start\<close> to the
  current index, and the visited statements are the result. A character that the loop consumes
  together with its successor is appended with it.
\<close>

definition visit_statement :: "rstr \<Rightarrow> rstr list" where
  "visit_statement cur = (let statement = trim cur in if statement \<noteq> [] then [statement] else [])"

function split_scan :: "scan_state \<Rightarrow> rstr \<Rightarrow> rstr \<Rightarrow> rstr list" where
  "split_scan state cur [] = visit_statement cur"
| "split_scan SS_Normal cur (ch # rest) =
     (if ch = 39 then split_scan SS_SingleQuote (cur @ [ch]) rest
      else if ch = 34 then split_scan SS_DoubleQuote (cur @ [ch]) rest
      else if ch = 45 \<and> rest \<noteq> [] \<and> hd rest = 45 then split_scan SS_LineComment (cur @ [ch, hd rest]) (tl rest)
      else if ch = 47 \<and> rest \<noteq> [] \<and> hd rest = 42 then split_scan SS_BlockComment (cur @ [ch, hd rest]) (tl rest)
      else if ch = 59 then visit_statement cur @ split_scan SS_Normal [] rest
      else split_scan SS_Normal (cur @ [ch]) rest)"
| "split_scan SS_SingleQuote cur (ch # rest) =
     (if ch = 39 then
        (if rest \<noteq> [] \<and> hd rest = 39 then split_scan SS_SingleQuote (cur @ [ch, hd rest]) (tl rest)
         else split_scan SS_Normal (cur @ [ch]) rest)
      else split_scan SS_SingleQuote (cur @ [ch]) rest)"
| "split_scan SS_DoubleQuote cur (ch # rest) =
     (if ch = 34 then
        (if rest \<noteq> [] \<and> hd rest = 34 then split_scan SS_DoubleQuote (cur @ [ch, hd rest]) (tl rest)
         else split_scan SS_Normal (cur @ [ch]) rest)
      else split_scan SS_DoubleQuote (cur @ [ch]) rest)"
| "split_scan SS_LineComment cur (ch # rest) =
     split_scan (if ch = 10 then SS_Normal else SS_LineComment) (cur @ [ch]) rest"
| "split_scan SS_BlockComment cur (ch # rest) =
     (if ch = 42 \<and> rest \<noteq> [] \<and> hd rest = 47 then split_scan SS_Normal (cur @ [ch, hd rest]) (tl rest)
      else split_scan SS_BlockComment (cur @ [ch]) rest)"
  by pat_completeness auto
termination
  by (relation "measure (\<lambda>(state, cur, rest). length rest)") auto

definition split_top_level_statements :: "rstr \<Rightarrow> rstr list" where
  "split_top_level_statements sql = split_scan SS_Normal [] sql"

definition has_multiple_statements :: "rstr \<Rightarrow> bool" where
  "has_multiple_statements sql \<longleftrightarrow> length (split_top_level_statements sql) > 1"

text \<open>The index loop of \<open>find_matching_paren\<close>, with the index as its third argument.\<close>

function matching_paren_scan :: "scan_state \<Rightarrow> nat \<Rightarrow> nat \<Rightarrow> rstr \<Rightarrow> nat option" where
  "matching_paren_scan state depth index [] = None"
| "matching_paren_scan SS_Normal depth index (ch # rest) =
     (if ch = 39 then matching_paren_scan SS_SingleQuote depth (index + 1) rest
      else if ch = 34 then matching_paren_scan SS_DoubleQuote depth (index + 1) rest
      else if ch = 45 \<and> rest \<noteq> [] \<and> hd rest = 45 then matching_paren_scan SS_LineComment depth (index + 2) (tl rest)
      else if ch = 47 \<and> rest \<noteq> [] \<and> hd rest = 42 then matching_paren_scan SS_BlockComment depth (index + 2) (tl rest)
      else if ch = 40 then matching_paren_scan SS_Normal (depth + 1) (index + 1) rest
      else if ch = 41 then
        (let depth = depth - 1 in
         if depth = 0 then Some index else matching_paren_scan SS_Normal depth (index + 1) rest)
      else matching_paren_scan SS_Normal depth (index + 1) rest)"
| "matching_paren_scan SS_SingleQuote depth index (ch # rest) =
     (if ch = 39 then
        (if rest \<noteq> [] \<and> hd rest = 39 then matching_paren_scan SS_SingleQuote depth (index + 2) (tl rest)
         else matching_paren_scan SS_Normal depth (index + 1) rest)
      else matching_paren_scan SS_SingleQuote depth (index + 1) rest)"
| "matching_paren_scan SS_DoubleQuote depth index (ch # rest) =
     (if ch = 34 then
        (if rest \<noteq> [] \<and> hd rest = 34 then matching_paren_scan SS_DoubleQuote depth (index + 2) (tl rest)
         else matching_paren_scan SS_Normal depth (index + 1) rest)
      else matching_paren_scan SS_DoubleQuote depth (index + 1) rest)"
| "matching_paren_scan SS_LineComment depth index (ch # rest) =
     matching_paren_scan (if ch = 10 then SS_Normal else SS_LineComment) depth (index + 1) rest"
| "matching_paren_scan SS_BlockComment depth index (ch # rest) =
     (if ch = 42 \<and> rest \<noteq> [] \<and> hd rest = 47 then matching_paren_scan SS_Normal depth (index + 2) (tl rest)
      else matching_paren_scan SS_BlockComment depth (index + 1) rest)"
  by pat_completeness auto
termination
  by (relation "measure (\<lambda>(state, depth, index, rest). length rest)") auto

definition find_matching_paren :: "rstr \<Rightarrow> nat option" where
  "find_matching_paren sql = matching_paren_scan SS_Normal 0 0 sql"

section \<open>Keyword tests\<close>

definition sql_normalize :: "rstr \<Rightarrow> rstr" where
  "sql_normalize sql = to_ascii_lowercase (join (lit '' '') (split_whitespace sql))"

fun starts_with_words_ignore_ascii_case :: "rstr \<Rightarrow> rstr list \<Rightarrow> bool" where
  "starts_with_words_ignore_ascii_case sql [] = True"
| "starts_with_words_ignore_ascii_case sql (word # words) =
     (let rest = strip_token_separators sql in
      case str_split_at (str_len word) rest of
        None \<Rightarrow> False
      | Some (candidate, after_word) \<Rightarrow>
          if \<not> eq_ignore_ascii_case candidate word then False
          else if words = [] then after_word = [] \<or> starts_with_token_separator after_word
          else if \<not> starts_with_token_separator after_word then False
          else starts_with_words_ignore_ascii_case after_word words)"

definition keyword_is :: "rstr \<Rightarrow> rstr \<Rightarrow> bool" where
  "keyword_is sql keyword \<longleftrightarrow> starts_with_words_ignore_ascii_case sql [keyword]"

definition keyword_is_exact :: "rstr \<Rightarrow> rstr \<Rightarrow> bool" where
  "keyword_is_exact sql keyword =
     (let trimmed = strip_token_separators sql in
      case str_split_at (str_len keyword) trimmed of
        None \<Rightarrow> False
      | Some (candidate, rest) \<Rightarrow>
          eq_ignore_ascii_case candidate keyword \<and> strip_token_separators rest = [])"

definition keyword_is_followed_by_more :: "rstr \<Rightarrow> rstr \<Rightarrow> bool" where
  "keyword_is_followed_by_more sql keyword =
     (let rest = strip_token_separators sql in
      case str_split_at (str_len keyword) rest of
        None \<Rightarrow> False
      | Some (candidate, rest) \<Rightarrow>
          if \<not> eq_ignore_ascii_case candidate keyword then False
          else starts_with_token_separator rest \<and> strip_token_separators rest \<noteq> [])"

definition find_token_separator :: "rstr \<Rightarrow> nat option" where
  "find_token_separator sql =
     (let found = List.map_filter id
            [position is_whitespace sql, find_str sql (lit ''--''), find_str sql (lit ''/*'')]
      in if found = [] then None else Some (Min (set found)))"

lemma find_token_separator_pos:
  assumes "find_token_separator s = Some n" "\<not> starts_with_token_separator s"
  shows "0 < n \<and> n \<le> length s"
proof -
  let ?cands = "[position is_whitespace s, find_str s (lit ''--''), find_str s (lit ''/*'')]"
  have ne: "List.map_filter id ?cands \<noteq> []" and n: "n = Min (set (List.map_filter id ?cands))"
    using assms(1) by (auto simp: find_token_separator_def Let_def split: if_splits)
  then have "n \<in> set (List.map_filter id ?cands)" by (simp only: n) (rule Min_in, auto)
  then consider "position is_whitespace s = Some n" | "find_str s (lit ''--'') = Some n" | "find_str s (lit ''/*'') = Some n"
    by (auto simp: List.map_filter_def split: if_splits option.splits)
  then show ?thesis
  proof cases
    case 1
    with assms(2) position_less [OF 1] show ?thesis
      by (cases s) (auto simp: starts_with_token_separator_def split: if_splits)
  next
    case 2
    with assms(2) find_str_Some [OF 2] show ?thesis by (cases n) (auto simp: starts_with_token_separator_def)
  next
    case 3
    with assms(2) find_str_Some [OF 3] show ?thesis by (cases n) (auto simp: starts_with_token_separator_def)
  qed
qed

text \<open>The index loop of \<open>contains_words_ignore_ascii_case\<close>, over the text from the index on.\<close>

function contains_words_loop :: "rstr \<Rightarrow> rstr list \<Rightarrow> bool" where
  "contains_words_loop remainder words =
     (if remainder = [] then False
      else
        let trimmed = strip_token_separators remainder in
        if trimmed = [] then False
        else if starts_with_words_ignore_ascii_case trimmed words then True
        else case find_token_separator trimmed of
          None \<Rightarrow> False
        | Some offset \<Rightarrow> contains_words_loop (drop offset trimmed) words)"
  by pat_completeness auto
termination
proof (relation "measure (\<lambda>(r, w). length r)", goal_cases)
  case (2 r w t n)
  then have "0 < n" "t \<noteq> []" "length t \<le> length r"
    using find_token_separator_pos [OF _ strip_no_separator [of r]] strip_length [of r] by auto
  moreover from this have "length t - n < length t" by simp
  ultimately have "length t - n < length r" by linarith
  then show ?case by simp
qed simp

declare contains_words_loop.simps [simp del]

definition contains_words_ignore_ascii_case :: "rstr \<Rightarrow> rstr list \<Rightarrow> bool" where
  "contains_words_ignore_ascii_case sql words \<longleftrightarrow> (if words = [] then True else contains_words_loop sql words)"

section \<open>Classification\<close>

definition contains_data_modifying_cte_normalized :: "rstr \<Rightarrow> bool" where
  "contains_data_modifying_cte_normalized normalized =
     (if \<not> starts_with normalized (lit ''with '') \<and> normalized \<noteq> lit ''with'' then False
      else contains_str normalized (lit '' as (insert'') \<or> contains_str normalized (lit '' as (update'')
        \<or> contains_str normalized (lit '' as (delete'') \<or> contains_str normalized (lit '' as (merge''))"

definition contains_data_modifying_cte :: "rstr \<Rightarrow> bool" where
  "contains_data_modifying_cte sql =
     contains_data_modifying_cte_normalized (sql_normalize (strip_leading_comments_and_whitespace sql))"

definition contains_select_side_effects :: "rstr \<Rightarrow> bool" where
  "contains_select_side_effects normalized \<longleftrightarrow>
     contains_str normalized (lit '' into '') \<or> contains_str normalized (lit '' for update'') \<or>
     contains_str normalized (lit '' for no key update'') \<or> contains_str normalized (lit '' for share'') \<or>
     contains_str normalized (lit '' for key share'') \<or> contains_str normalized (lit '' lock in share mode'') \<or>
     contains_str normalized (lit ''pg_advisory_lock('') \<or> contains_str normalized (lit ''pg_try_advisory_lock('') \<or>
     contains_str normalized (lit ''set_config('')"

definition is_transaction_control :: "rstr \<Rightarrow> bool" where
  "is_transaction_control sql \<longleftrightarrow>
     starts_with_words_ignore_ascii_case sql [lit ''begin''] \<or> keyword_is_exact sql (lit ''commit'') \<or>
     keyword_is_exact sql (lit ''rollback'') \<or> keyword_is_exact sql (lit ''abort'') \<or>
     keyword_is_exact sql (lit ''end'') \<or>
     starts_with_words_ignore_ascii_case sql [lit ''start'', lit ''transaction''] \<or>
     starts_with_words_ignore_ascii_case sql [lit ''set'', lit ''transaction''] \<or>
     keyword_is_followed_by_more sql (lit ''savepoint'') \<or>
     starts_with_words_ignore_ascii_case sql [lit ''release'', lit ''savepoint''] \<or>
     starts_with_words_ignore_ascii_case sql [lit ''rollback'', lit ''to'']"

definition is_session_mutation :: "rstr \<Rightarrow> bool" where
  "is_session_mutation sql \<longleftrightarrow>
     (\<exists>k\<in>set [lit ''set'', lit ''reset'', lit ''discard'', lit ''listen'', lit ''unlisten'', lit ''notify'',
               lit ''lock'', lit ''declare'']. keyword_is_followed_by_more sql k)"

definition write_keywords :: "rstr list" where
  "write_keywords =
     [lit ''insert'', lit ''update'', lit ''delete'', lit ''merge'', lit ''truncate'', lit ''create'', lit ''alter'',
      lit ''drop'', lit ''call'', lit ''do'', lit ''vacuum'', lit ''analyze'', lit ''reindex'', lit ''grant'', lit ''revoke'']"

definition is_write_statement :: "rstr \<Rightarrow> bool" where
  "is_write_statement sql \<longleftrightarrow> (\<exists>k\<in>set write_keywords. keyword_is sql k)"

definition classify_copy :: "rstr \<Rightarrow> query_class" where
  "classify_copy sql =
     (if contains_words_ignore_ascii_case sql [lit ''from'', lit ''stdin''] then QC_Write
      else if contains_words_ignore_ascii_case sql [lit ''to'', lit ''stdout''] then QC_ReadCandidate
      else QC_Write)"

lemma keyword_is_length:
  assumes "keyword_is s k"
  shows "length k \<le> length (strip_token_separators s)"
  using assms
  by (auto simp: keyword_is_def str_split_at_Some Let_def split: option.splits if_splits
      dest!: eq_ignore_ascii_case_len)

text \<open>
  The argument of \<open>classify_explain\<close> is already stripped and begins with \<open>explain\<close>, so its byte
  offset seven is its character offset seven.
\<close>

function classify_single_statement :: "rstr \<Rightarrow> query_class"
  and classify_explain :: "rstr \<Rightarrow> query_class" where
  "classify_single_statement sql =
     (let sql = strip_leading_comments_and_whitespace sql in
      if sql = [] then QC_Unknown
      else if keyword_is sql (lit ''explain'') then classify_explain sql
      else if keyword_is sql (lit ''with'') then
        (if contains_data_modifying_cte_normalized (sql_normalize sql) then QC_Write else QC_Unknown)
      else if is_transaction_control sql then QC_TransactionControl
      else if is_session_mutation sql then QC_SessionMutation
      else if keyword_is sql (lit ''copy'') then classify_copy sql
      else if keyword_is sql (lit ''select'') then
        (let normalized = sql_normalize sql in
         if contains_data_modifying_cte_normalized normalized \<or> contains_select_side_effects normalized
         then QC_Write else QC_ReadCandidate)
      else if keyword_is sql (lit ''values'') \<or> keyword_is sql (lit ''table'') then QC_ReadCandidate
      else if keyword_is sql (lit ''show'') then QC_ReadCandidate
      else if is_write_statement sql then QC_Write
      else QC_Unknown)"
| "classify_explain sql =
     (if \<not> keyword_is sql (lit ''explain'') then QC_Unknown
      else
        let rest = strip_token_separators (drop 7 sql);
            target =
              (if starts_with rest (lit ''('') then
                 (case find_matching_paren rest of
                    None \<Rightarrow> None
                  | Some e \<Rightarrow>
                      let options = sql_normalize (take (e - 1) (drop 1 rest)) in
                      if contains_str options (lit ''analyze'') then None
                      else Some (strip_token_separators (drop (e + 1) rest)))
               else
                 let rest_normalized = sql_normalize rest in
                 if starts_with rest_normalized (lit ''analyze'') then None else Some rest)
        in case target of
             None \<Rightarrow> QC_Unknown
           | Some rest \<Rightarrow>
               if routes_to_replica (classify_single_statement rest) then QC_ReadCandidate else QC_Unknown)"
  by pat_completeness auto
termination
proof (relation "measure (\<lambda>x. case x of Inl s \<Rightarrow> 2 * length s + 1 | Inr s \<Rightarrow> 2 * length s)", goal_cases)
  case (2 sql x)
  then show ?case using strip_length [of sql] by (simp add: le_imp_less_Suc del: strip_length)
next
  case (3 sql rest target t)
  have "length (strip_token_separators sql) \<le> length sql" by (rule strip_length)
  moreover have "7 \<le> length (strip_token_separators sql)"
    using 3(1) keyword_is_length [of sql "lit ''explain''"] by simp
  ultimately have len: "7 \<le> length sql" by linarith
  have "length rest \<le> length sql - 7" using strip_length [of "drop 7 sql"] 3(2) by simp
  moreover have "length t \<le> length rest"
    using 3(3,4) strip_length [of "drop n rest" for n]
    by (fastforce simp: Let_def split: if_splits option.splits intro: order_trans [OF strip_length])
  ultimately show ?case using len by simp
qed simp

declare classify_single_statement.simps [simp del]
declare classify_explain.simps [simp del]

fun multi_statement_loop :: "bool \<Rightarrow> rstr list \<Rightarrow> query_class" where
  "multi_statement_loop saw_read_candidate [] =
     (if saw_read_candidate then QC_ReadCandidate else QC_TransactionControl)"
| "multi_statement_loop saw_read_candidate (statement # statements) =
     (case classify_single_statement statement of
        QC_ReadCandidate \<Rightarrow> multi_statement_loop True statements
      | QC_ReadOnly \<Rightarrow> multi_statement_loop True statements
      | QC_TransactionControl \<Rightarrow> multi_statement_loop saw_read_candidate statements
      | QC_Unknown \<Rightarrow> QC_Unknown
      | other \<Rightarrow> other)"

definition classify_multi_statement :: "rstr list \<Rightarrow> query_class" where
  "classify_multi_statement statements = multi_statement_loop False statements"

definition classify_sql :: "rstr \<Rightarrow> query_class" where
  "classify_sql sql =
     (let sql = strip_leading_comments_and_whitespace sql in
      if sql = [] then QC_Unknown
      else
        let statements = split_top_level_statements sql in
        if length statements > 1 then classify_multi_statement statements
        else classify_single_statement sql)"

record sql_analysis =
  sa_query_class :: query_class
  sa_routing_hint :: routing_hint

definition analyze_sql :: "rstr \<Rightarrow> sql_analysis" where
  "analyze_sql sql = \<lparr>sa_query_class = classify_sql sql, sa_routing_hint = extract_routing_hint sql\<rparr>"

section \<open>Leading keywords exclude each other\<close>

text \<open>\<open>begins s k\<close>: the text starts with the keyword, ignoring ASCII case.\<close>

definition begins :: "rstr \<Rightarrow> rstr \<Rightarrow> bool" where
  "begins s k \<longleftrightarrow> starts_with (to_ascii_lowercase s) (to_ascii_lowercase k)"

definition comparable :: "rstr \<Rightarrow> rstr \<Rightarrow> bool" where
  "comparable a b \<longleftrightarrow> starts_with (to_ascii_lowercase a) (to_ascii_lowercase b) \<or>
     starts_with (to_ascii_lowercase b) (to_ascii_lowercase a)"

lemma begins_comparable: "begins s a \<Longrightarrow> begins s b \<Longrightarrow> comparable a b"
  unfolding begins_def comparable_def starts_with_def
  by (metis linear min.absorb_iff2 min.commute take_all take_take)

lemma begins_append: "eq_ignore_ascii_case a k \<Longrightarrow> begins (a @ b) k"
  by (simp add: begins_def eq_ignore_ascii_case_def to_ascii_lowercase_def starts_with_def)

lemma begins_refl: "eq_ignore_ascii_case a k \<Longrightarrow> begins a k"
  using begins_append [of a k "[]"] by simp

lemma begins_prefix: "begins s k \<Longrightarrow> begins (s @ t) k"
  by (auto simp: begins_def starts_with_iff to_ascii_lowercase_def)

lemma starts_with_words_begins:
  "starts_with_words_ignore_ascii_case s (k # ks) \<Longrightarrow> begins (strip_token_separators s) k"
  by (auto simp: Let_def str_split_at_Some begins_append begins_refl split: option.splits if_splits)

lemma keyword_is_begins: "keyword_is s k \<Longrightarrow> begins (strip_token_separators s) k"
  unfolding keyword_is_def by (rule starts_with_words_begins)

lemma keyword_is_exact_begins: "keyword_is_exact s k \<Longrightarrow> begins (strip_token_separators s) k"
  by (auto simp: keyword_is_exact_def Let_def str_split_at_Some begins_append begins_refl split: option.splits)

lemma keyword_is_followed_begins: "keyword_is_followed_by_more s k \<Longrightarrow> begins (strip_token_separators s) k"
  by (auto simp: keyword_is_followed_by_more_def Let_def str_split_at_Some begins_append begins_refl
      split: option.splits if_splits)

lemmas keyword_begins =
  keyword_is_begins keyword_is_exact_begins keyword_is_followed_begins starts_with_words_begins

lemma keyword_is_strip [simp]: "keyword_is (strip_token_separators s) k = keyword_is s k"
  by (simp add: keyword_is_def)

lemma is_write_strip [simp]: "is_write_statement (strip_token_separators s) = is_write_statement s"
  by (simp add: is_write_statement_def)

definition read_keywords :: "rstr list" where
  "read_keywords = [lit ''explain'', lit ''copy'', lit ''select'', lit ''values'', lit ''table'', lit ''show'']"

definition other_keywords :: "rstr list" where
  "other_keywords =
     [lit ''with'', lit ''begin'', lit ''commit'', lit ''rollback'', lit ''abort'', lit ''end'', lit ''start'', lit ''set'',
      lit ''savepoint'', lit ''release'', lit ''reset'', lit ''discard'', lit ''listen'', lit ''unlisten'', lit ''notify'',
      lit ''lock'', lit ''declare'']"

lemma write_keywords_incomparable:
  "\<forall>w\<in>set write_keywords. \<forall>r\<in>set (read_keywords @ other_keywords). \<not> comparable w r"
  by (simp add: write_keywords_def read_keywords_def other_keywords_def comparable_def starts_with_def
      to_ascii_lowercase_def lit_def char_lower_def is_ascii_upper_def)

lemma write_excludes:
  assumes "is_write_statement s" "r \<in> set (read_keywords @ other_keywords)"
  shows "\<not> begins (strip_token_separators s) r"
proof -
  obtain w where "w \<in> set write_keywords" "begins (strip_token_separators s) w"
    using assms(1) keyword_is_begins by (auto simp: is_write_statement_def)
  then show ?thesis using assms(2) write_keywords_incomparable begins_comparable by blast
qed

lemma transaction_control_begins:
  "is_transaction_control s \<Longrightarrow> \<exists>r\<in>set other_keywords. begins (strip_token_separators s) r"
  by (auto simp: is_transaction_control_def other_keywords_def dest!: keyword_begins
      simp del: starts_with_words_ignore_ascii_case.simps)

lemma session_mutation_begins:
  "is_session_mutation s \<Longrightarrow> \<exists>r\<in>set other_keywords. begins (strip_token_separators s) r"
  by (auto simp: is_session_mutation_def other_keywords_def dest!: keyword_begins)

text \<open>A statement that starts with a write keyword is classified as a write.\<close>

lemma write_statement_is_write:
  assumes "is_write_statement s"
  shows "classify_single_statement s = QC_Write"
proof -
  let ?t = "strip_token_separators s"
  have no: "r \<in> set (read_keywords @ other_keywords) \<Longrightarrow> \<not> keyword_is s r" for r
    using write_excludes [OF assms] keyword_is_begins by blast
  have "\<not> is_transaction_control ?t" "\<not> is_session_mutation ?t"
    using write_excludes [OF assms] transaction_control_begins [of ?t] session_mutation_begins [of ?t] by auto
  moreover have "[] \<notin> set write_keywords" by (simp add: write_keywords_def lit_def)
  then have "?t \<noteq> []" using assms keyword_is_length [of s] by (force simp: is_write_statement_def)
  ultimately show ?thesis
    using assms no
    by (subst classify_single_statement.simps) (simp add: Let_def read_keywords_def other_keywords_def)
qed

lemma single_replica_keyword:
  assumes "routes_to_replica (classify_single_statement s)"
  shows "\<exists>k\<in>set read_keywords. keyword_is s k"
  using assms
  by (subst (asm) classify_single_statement.simps) (auto simp: Let_def read_keywords_def split: if_splits)

lemma multi_replica:
  "routes_to_replica (multi_statement_loop b stmts) \<Longrightarrow> st \<in> set stmts \<Longrightarrow>
     routes_to_replica (classify_single_statement st) \<or> classify_single_statement st = QC_TransactionControl"
  by (induction b stmts rule: multi_statement_loop.induct) (auto split: query_class.splits)

section \<open>The first statement of a text\<close>

lemma trim_nonblank_head:
  assumes "cur \<noteq> []" "\<not> is_whitespace (hd cur)"
  shows "trim cur \<noteq> [] \<and> (\<exists>q. cur = trim cur @ q)"
proof -
  have t: "trim cur = trim_end cur"
    using assms trim_start_same [of cur] by (simp add: trim_def)
  obtain q where q: "cur = trim_end cur @ q" "\<forall>c\<in>set q. is_whitespace c"
    using trim_end_prefix [of cur] by blast
  have "trim_end cur \<noteq> []"
  proof
    assume "trim_end cur = []"
    with q assms show False by (metis append_Nil hd_in_set)
  qed
  with t q show ?thesis by auto
qed

lemma visit_nonblank_head:
  assumes "cur \<noteq> []" "\<not> is_whitespace (hd cur)"
  shows "\<exists>st q. visit_statement cur = [st] \<and> cur = st @ q"
  using trim_nonblank_head [OF assms] by (auto simp: visit_statement_def Let_def)

text \<open>
  One turn of the splitter: it reads one or two characters into the current slice, or it visits
  the slice at a top-level semicolon and starts a new one.
\<close>

lemma split_scan_step:
  assumes "rest \<noteq> []"
  obtains (more) state' p rest' where "p \<noteq> []" "rest = p @ rest'"
      "\<And>cur. split_scan state cur rest = split_scan state' (cur @ p) rest'"
  | (cut) rest' where "rest = 59 # rest'"
      "\<And>cur. split_scan state cur rest = visit_statement cur @ split_scan SS_Normal [] rest'"
proof -
  obtain ch r where r: "rest = ch # r" using assms by (cases rest) auto
  have one: thesis if "\<And>cur. split_scan state cur rest = split_scan st' (cur @ [ch]) r" for st'
    using that more [of "[ch]" r] r by simp
  have two: thesis if "r \<noteq> []" "\<And>cur. split_scan state cur rest = split_scan st' (cur @ [ch, hd r]) (tl r)" for st'
    using that more [of "[ch, hd r]" "tl r"] r by simp
  show thesis
  proof (cases state)
    case SS_Normal
    consider "ch = 39" | "ch = 34" | "ch = 45" "r \<noteq> []" "hd r = 45" | "ch = 47" "r \<noteq> []" "hd r = 42" | "ch = 59"
      | "ch \<noteq> 39" "ch \<noteq> 34" "\<not> (ch = 45 \<and> r \<noteq> [] \<and> hd r = 45)" "\<not> (ch = 47 \<and> r \<noteq> [] \<and> hd r = 42)" "ch \<noteq> 59"
      by blast
    then show thesis
    proof cases
      case 1
      then show thesis using SS_Normal r by (intro one [of SS_SingleQuote]) simp
    next
      case 2
      then show thesis using SS_Normal r by (intro one [of SS_DoubleQuote]) simp
    next
      case 3
      then show thesis using SS_Normal r by (intro two [of SS_LineComment]) simp_all
    next
      case 4
      then show thesis using SS_Normal r by (intro two [of SS_BlockComment]) simp_all
    next
      case 5
      then show thesis using SS_Normal r by (intro cut [of r]) simp_all
    next
      case 6
      then show thesis using SS_Normal r by (intro one [of SS_Normal]) auto
    qed
  next
    case SS_SingleQuote
    then show thesis using r one [of SS_SingleQuote] one [of SS_Normal] two [of SS_SingleQuote]
      by (cases "ch = 39"; cases "r \<noteq> [] \<and> hd r = 39") auto
  next
    case SS_DoubleQuote
    then show thesis using r one [of SS_DoubleQuote] one [of SS_Normal] two [of SS_DoubleQuote]
      by (cases "ch = 34"; cases "r \<noteq> [] \<and> hd r = 34") auto
  next
    case SS_LineComment
    then show thesis using r one [of "if ch = 10 then SS_Normal else SS_LineComment"] by simp
  next
    case SS_BlockComment
    then show thesis using r one [of SS_BlockComment] two [of SS_Normal]
      by (cases "ch = 42 \<and> r \<noteq> [] \<and> hd r = 47") auto
  qed
qed

text \<open>A statement in progress whose first character is not blank is visited, as a prefix of the text.\<close>

lemma split_scan_first:
  "cur \<noteq> [] \<Longrightarrow> \<not> is_whitespace (hd cur) \<Longrightarrow> \<exists>st sts q. split_scan state cur rest = st # sts \<and> cur @ rest = st @ q"
proof (induction rest arbitrary: state cur rule: length_induct)
  case (1 rest)
  obtain st q where v: "visit_statement cur = [st]" "cur = st @ q"
    using visit_nonblank_head [OF 1(2,3)] by blast
  show ?case
  proof (cases "rest = []")
    case True
    with v show ?thesis by auto
  next
    case False
    then show ?thesis
    proof (cases rule: split_scan_step [OF False, where state = state, case_names more cut])
      case (more state' p rest')
      then have "length rest' < length rest" "cur @ p \<noteq> []" "hd (cur @ p) = hd cur" using 1(2) by auto
      with 1(1,3) more show ?thesis by (metis append.assoc)
    next
      case (cut rest')
      with v show ?thesis by auto
    qed
  qed
qed

text \<open>The statements of a text that starts with a letter: the first one is a prefix of it.\<close>

lemma split_first_prefix:
  assumes "s = c # r" "\<not> is_whitespace c" "c \<notin> {39, 34, 45, 47, 59}"
  shows "\<exists>st sts q. split_top_level_statements s = st # sts \<and> s = st @ q"
  using assms split_scan_first [of "[c]" SS_Normal r] by (simp add: split_top_level_statements_def)

lemma begins_head:
  assumes "begins s k" "k \<in> set (read_keywords @ other_keywords @ write_keywords)"
  obtains c r where "s = c # r" "is_ascii_alphabetic c"
proof -
  obtain c r where s: "s = c # r"
    using assms by (cases s) (auto simp: begins_def starts_with_def to_ascii_lowercase_def lit_def
        read_keywords_def other_keywords_def write_keywords_def)
  have "is_ascii_alphabetic (char_lower c)"
    using assms s by (auto simp: begins_def starts_with_def to_ascii_lowercase_def lit_def
        read_keywords_def other_keywords_def write_keywords_def char_class_defs)
  then have "is_ascii_alphabetic c" by (auto simp: char_class_defs split: if_splits)
  with s that show thesis by blast
qed

lemma alphabetic_plain: "is_ascii_alphabetic c \<Longrightarrow> \<not> is_whitespace c \<and> c \<notin> {39, 34, 45, 47, 59}"
  by (auto simp: char_class_defs)

lemma alphabetic_no_separator: "is_ascii_alphabetic c \<Longrightarrow> \<not> starts_with_token_separator (c # r)"
  by (auto simp: starts_with_token_separator_def starts_with_def lit_def char_class_defs)

lemma write_statement_not_replica:
  assumes "st \<in> set (split_top_level_statements (strip_leading_comments_and_whitespace sql))"
    and "is_write_statement st"
  shows "\<not> routes_to_replica (classify_sql sql)"
proof
  let ?t = "strip_token_separators sql"
  let ?sts = "split_top_level_statements ?t"
  assume r: "routes_to_replica (classify_sql sql)"
  then have ne: "?t \<noteq> []" by (auto simp: classify_sql_def)
  show False
  proof (cases "1 < length ?sts")
    case True
    with r ne have "routes_to_replica (multi_statement_loop False ?sts)"
      by (simp add: classify_sql_def classify_multi_statement_def Let_def)
    from multi_replica [OF this assms(1)] write_statement_is_write [OF assms(2)] show False by simp
  next
    case False
    with r ne have "routes_to_replica (classify_single_statement ?t)" by (simp add: classify_sql_def Let_def)
    then obtain k where k: "k \<in> set read_keywords" "begins ?t k"
      using single_replica_keyword keyword_is_begins by fastforce
    then obtain c u where t: "?t = c # u" "is_ascii_alphabetic c" by (auto elim: begins_head)
    then obtain f fs q where f: "?sts = f # fs" "?t = f @ q"
      using split_first_prefix [OF t(1)] alphabetic_plain by blast
    with False assms(1) have st: "st = f" by (cases fs) auto
    obtain w where w: "w \<in> set write_keywords" "begins (strip_token_separators st) w"
      using assms(2) keyword_is_begins by (auto simp: is_write_statement_def)
    then obtain d v where "strip_token_separators st = d # v" by (auto elim: begins_head)
    then have "st \<noteq> []" using strip_length [of st] by auto
    with f t st have "strip_token_separators st = st"
      by (cases st) (auto intro!: strip_id alphabetic_no_separator)
    with w f st have "begins ?t w" by (simp add: begins_prefix)
    with k w(1) begins_comparable write_keywords_incomparable show False by fastforce
  qed
qed

text \<open>A concrete text of two statements of which the second writes.\<close>

lemma example_delete_statement:
  "lit ''DELETE FROM t'' \<in> set (split_top_level_statements
     (strip_leading_comments_and_whitespace (lit ''SELECT 1; DELETE FROM t'')))"
  "is_write_statement (lit ''DELETE FROM t'')"
proof -
  have "strip_token_separators (lit ''SELECT 1; DELETE FROM t'') = lit ''SELECT 1; DELETE FROM t''"
    by (rule strip_id) (simp add: starts_with_token_separator_def starts_with_def lit_def is_whitespace_def)
  then show "lit ''DELETE FROM t'' \<in> set (split_top_level_statements (strip_token_separators (lit ''SELECT 1; DELETE FROM t'')))"
    by (simp add: split_top_level_statements_def visit_statement_def trim_def trim_start_def trim_end_def
        trim_end_pred_def is_whitespace_def lit_def)
  have "keyword_is (lit ''DELETE FROM t'') (lit ''delete'')"
    by (simp add: keyword_is_def strip_id starts_with_token_separator_def starts_with_def lit_def
        is_whitespace_def eq_ignore_ascii_case_def to_ascii_lowercase_def char_lower_def is_ascii_upper_def utf8_len_def)
  then show "is_write_statement (lit ''DELETE FROM t'')"
    by (auto simp: is_write_statement_def write_keywords_def)
qed

end
