(* ===== verification/Sql_Tokens.thy ===== *)
theory Sql_Tokens
  imports Sql_Classify
begin

text \<open>
  The SQL tokenizer of \<open>sql_classify.rs\<close>, the two statement checks built on it and the query
  fingerprint of \<open>fingerprint.rs\<close>. Shown: the tokenizer terminates on every text; literals and
  comments leave no trace in the fingerprint; a fingerprint never exceeds 256 bytes; and the
  truncation that enforces this panics on texts whose 256th byte falls inside a character.
\<close>

section \<open>Tokens\<close>

datatype sql_token = Tok_Comment | Tok_Literal | Tok_Word rstr | Tok_Symbol rstr

definition word_char :: "rchar \<Rightarrow> bool" where
  "word_char c \<longleftrightarrow> is_ascii_alphanumeric c \<or> c = 95 \<or> c = 36"

definition number_char :: "rchar \<Rightarrow> bool" where
  "number_char c \<longleftrightarrow> is_ascii_alphanumeric c \<or> c = 46 \<or> c = 95"

text \<open>The inner loops of the tokenizer: past a line comment, past a block comment (\<open>None\<close> when it
  is not closed), past a quoted literal with doubled quotes.\<close>

fun skip_line_comment :: "rstr \<Rightarrow> rstr" where
  "skip_line_comment [] = []"
| "skip_line_comment (c # rest) = (if c = 10 then rest else skip_line_comment rest)"

fun skip_block_comment :: "rstr \<Rightarrow> rstr option" where
  "skip_block_comment [] = None"
| "skip_block_comment (c # rest) =
     (if c = 42 \<and> rest \<noteq> [] \<and> hd rest = 47 then Some (tl rest) else skip_block_comment rest)"

function skip_quoted :: "rchar \<Rightarrow> rstr \<Rightarrow> rstr" where
  "skip_quoted quote [] = []"
| "skip_quoted quote (c # rest) =
     (if c = quote then (if rest \<noteq> [] \<and> hd rest = quote then skip_quoted quote (tl rest) else rest)
      else skip_quoted quote rest)"
  by pat_completeness auto
termination
  by (relation "measure (\<lambda>(q, s). length s)") auto

text \<open>A dollar-quoted literal at the front of the text, and what follows it.\<close>

definition skip_dollar_literal :: "rstr \<Rightarrow> rstr option" where
  "skip_dollar_literal raw =
     (case position (\<lambda>c. c = 36) (drop 1 raw) of
        None \<Rightarrow> None
      | Some tag_end \<Rightarrow>
          let delimiter_end = tag_end + 2;
              delimiter = take delimiter_end raw
          in (case find_str (drop delimiter_end raw) delimiter of
                None \<Rightarrow> None
              | Some body_end \<Rightarrow> Some (drop (delimiter_end + body_end + length delimiter) raw)))"

lemma skip_line_comment_length [simp]: "length (skip_line_comment s) \<le> length s"
  by (induction s) auto

lemma skip_block_comment_length: "skip_block_comment s = Some r \<Longrightarrow> length r < length s"
  by (induction s) (auto split: if_splits simp: less_Suc_eq)

lemma skip_quoted_length [simp]: "length (skip_quoted q s) \<le> length s"
  by (induction q s rule: skip_quoted.induct) (auto intro: order_trans)

lemma skip_dollar_length: "skip_dollar_literal (c # s) = Some r \<Longrightarrow> length r < Suc (length s)"
  by (auto simp: skip_dollar_literal_def Let_def split: option.splits)

function tokenize_sql :: "rstr \<Rightarrow> sql_token list" where
  "tokenize_sql [] = []"
| "tokenize_sql (ch # rest) =
     (if is_whitespace ch then tokenize_sql rest
      else if ch = 45 \<and> rest \<noteq> [] \<and> hd rest = 45 then
        Tok_Comment # tokenize_sql (skip_line_comment (tl rest))
      else if ch = 47 \<and> rest \<noteq> [] \<and> hd rest = 42 then
        (case skip_block_comment (tl rest) of
           None \<Rightarrow> []
         | Some after \<Rightarrow> Tok_Comment # tokenize_sql after)
      else if ch = 39 \<or> ch = 34 then Tok_Literal # tokenize_sql (skip_quoted ch rest)
      else case (if ch = 36 then skip_dollar_literal (ch # rest) else None) of
        Some after \<Rightarrow> Tok_Literal # tokenize_sql after
      | None \<Rightarrow>
          if is_ascii_digit ch then Tok_Literal # tokenize_sql (dropWhile number_char rest)
          else if is_ascii_alphanumeric ch \<or> ch = 95 \<or> ch = 36 then
            let word = takeWhile word_char (ch # rest) in
            (if starts_with word [36] \<and> list_all is_ascii_digit (drop 1 word) then Tok_Literal else Tok_Word word)
              # tokenize_sql (drop (length word - 1) rest)
          else Tok_Symbol [ch] # tokenize_sql rest)"
  by pat_completeness auto
termination
  by (relation "measure length")
     (auto simp: le_imp_less_Suc length_dropWhile_le less_Suc_eq_le
        dest!: skip_block_comment_length skip_dollar_length split: if_splits
        intro: order_trans [OF skip_line_comment_length] less_imp_le order_trans [OF less_imp_le])

section \<open>Statement checks\<close>

definition is_word :: "sql_token \<Rightarrow> bool" where
  "is_word t = (case t of Tok_Word _ \<Rightarrow> True | _ \<Rightarrow> False)"

definition first_word :: "sql_token list \<Rightarrow> rstr option" where
  "first_word tokens = (case List.find is_word tokens of Some (Tok_Word w) \<Rightarrow> Some w | _ \<Rightarrow> None)"

definition is_ddl :: "rstr \<Rightarrow> bool" where
  "is_ddl sql =
     (case first_word (tokenize_sql sql) of
        None \<Rightarrow> False
      | Some word \<Rightarrow> to_ascii_lowercase word \<in> set [lit ''create'', lit ''alter'', lit ''drop'', lit ''truncate'',
                        lit ''grant'', lit ''revoke'', lit ''comment''])"

text \<open>The closure of \<open>contains_top_level_word\<close> with its captured nesting depth.\<close>

fun top_level_word :: "nat \<Rightarrow> rstr \<Rightarrow> sql_token list \<Rightarrow> bool" where
  "top_level_word depth target [] = False"
| "top_level_word depth target (token # tokens) =
     (case token of
        Tok_Symbol symbol \<Rightarrow>
          if symbol = lit ''('' then top_level_word (depth + 1) target tokens
          else if symbol = lit '')'' then top_level_word (depth - 1) target tokens
          else top_level_word depth target tokens
      | Tok_Word word \<Rightarrow>
          if depth = 0 \<and> eq_ignore_ascii_case word target then True else top_level_word depth target tokens
      | _ \<Rightarrow> top_level_word depth target tokens)"

definition contains_top_level_word :: "sql_token list \<Rightarrow> rstr \<Rightarrow> bool" where
  "contains_top_level_word tokens target = top_level_word 0 target tokens"

definition is_unqualified_dml :: "rstr \<Rightarrow> bool" where
  "is_unqualified_dml sql =
     (let tokens = tokenize_sql sql in
      case first_word tokens of
        None \<Rightarrow> False
      | Some word \<Rightarrow>
          let command = to_ascii_lowercase word in
          if command = lit ''delete'' then
            contains_top_level_word tokens (lit ''from'') \<and> \<not> contains_top_level_word tokens (lit ''where'')
          else if command = lit ''update'' then
            contains_top_level_word tokens (lit ''set'') \<and> \<not> contains_top_level_word tokens (lit ''where'')
          else False)"

section \<open>Fingerprints\<close>

definition MAX_FINGERPRINT_BYTES :: nat where
  "MAX_FINGERPRINT_BYTES = 256"

definition append_token :: "rstr \<Rightarrow> rstr \<Rightarrow> rstr" where
  "append_token output token =
     (let needs_space = output \<noteq> [] \<and> \<not> ends_with output (lit ''('')
            \<and> \<not> (token \<noteq> [] \<and> (hd token = 41 \<or> hd token = 44 \<or> hd token = 59))
      in (if needs_space then output @ [32] else output) @ token)"

text \<open>What one token does to the output, to the in-list flag and to the number of list values.\<close>

definition fingerprint_token :: "sql_token \<Rightarrow> rstr \<times> bool \<times> nat \<Rightarrow> rstr \<times> bool \<times> nat" where
  "fingerprint_token token = (\<lambda>(output, in_list, list_values).
     case token of
       Tok_Comment \<Rightarrow> (output, in_list, list_values)
     | Tok_Literal \<Rightarrow>
         (if \<not> in_list then append_token output (lit ''?'')
          else if list_values = 0 then append_token output (lit ''?'')
          else output, in_list, list_values + 1)
     | Tok_Word word \<Rightarrow> (append_token output (to_ascii_lowercase word), in_list, list_values)
     | Tok_Symbol symbol \<Rightarrow>
         if symbol = lit ''('' \<and> ends_with output (lit '' in'') then (append_token output (lit ''(''), True, 0)
         else if in_list \<and> symbol = lit '')'' then (append_token output (lit '')''), False, list_values)
         else if in_list \<and> symbol = lit '','' then (output, in_list, list_values + 1)
         else (append_token output symbol, in_list, list_values))"

text \<open>The token loop; \<open>None\<close> is the panic of \<open>String::truncate\<close> off a character boundary.\<close>

fun fingerprint_loop :: "rstr \<times> bool \<times> nat \<Rightarrow> sql_token list \<Rightarrow> rstr option" where
  "fingerprint_loop state [] = Some (fst state)"
| "fingerprint_loop state (token # tokens) =
     (let state' = fingerprint_token token state in
      if str_len (fst state') \<ge> MAX_FINGERPRINT_BYTES
      then map_option fst (str_split_at MAX_FINGERPRINT_BYTES (fst state'))
      else fingerprint_loop state' tokens)"

definition fingerprint_sql :: "rstr \<Rightarrow> rstr option" where
  "fingerprint_sql sql = fingerprint_loop ([], False, 0) (tokenize_sql sql)"

section \<open>Bounds\<close>

lemma fingerprint_loop_bound:
  "str_len (fst state) \<le> MAX_FINGERPRINT_BYTES \<Longrightarrow> fingerprint_loop state tokens = Some f \<Longrightarrow>
     str_len f \<le> MAX_FINGERPRINT_BYTES"
proof (induction tokens arbitrary: state)
  case Nil
  then show ?case by simp
next
  case (Cons token tokens)
  show ?case
  proof (cases "str_len (fst (fingerprint_token token state)) \<ge> MAX_FINGERPRINT_BYTES")
    case True
    with Cons.prems(2) show ?thesis by (auto simp: Let_def str_split_at_Some)
  next
    case False
    then show ?thesis using Cons.prems(2) Cons.IH [of "fingerprint_token token state"] by (simp add: Let_def)
  qed
qed

text \<open>Tokens carry only characters of the text.\<close>

fun token_chars :: "sql_token \<Rightarrow> rchar set" where
  "token_chars (Tok_Word w) = set w"
| "token_chars (Tok_Symbol w) = set w"
| "token_chars _ = {}"

lemma skip_line_comment_set: "set (skip_line_comment s) \<subseteq> set s"
  by (induction s) auto

lemma skip_block_comment_set: "skip_block_comment s = Some r \<Longrightarrow> set r \<subseteq> set s"
  by (induction s) (auto split: if_splits dest: list.set_sel(2))

lemma skip_quoted_set: "set (skip_quoted q s) \<subseteq> set s"
  by (induction q s rule: skip_quoted.induct) (auto dest: list.set_sel(2))

lemma skip_dollar_set: "skip_dollar_literal s = Some r \<Longrightarrow> set r \<subseteq> set s"
  by (auto simp: skip_dollar_literal_def Let_def split: option.splits dest: in_set_dropD)

text \<open>One turn of the tokenizer: at most one token, made of characters of the text, and a rest
  that consists of characters of the text and is shorter.\<close>

lemma tokenize_step:
  obtains toks r where "tokenize_sql (ch # rest) = toks @ tokenize_sql r" "length r \<le> length rest"
    "set r \<subseteq> set rest" "\<forall>t\<in>set toks. token_chars t \<subseteq> insert ch (set rest)"
proof -
  have tl: "set (tl rest) \<subseteq> set rest" "length (tl rest) \<le> length rest" by (cases rest; auto)+
  have drop: "set (drop n rest) \<subseteq> set rest" for n by (rule set_drop_subset)
  consider (white) "is_whitespace ch"
    | (line) "\<not> is_whitespace ch" "ch = 45" "rest \<noteq> []" "hd rest = 45"
    | (block) "\<not> is_whitespace ch" "ch = 47" "rest \<noteq> []" "hd rest = 42"
    | (plain) "\<not> is_whitespace ch" "\<not> (ch = 45 \<and> rest \<noteq> [] \<and> hd rest = 45)"
        "\<not> (ch = 47 \<and> rest \<noteq> [] \<and> hd rest = 42)" by blast
  then show thesis
  proof cases
    case white
    then show thesis using that [of "[]" rest] by simp
  next
    case line
    then show thesis using that [of "[Tok_Comment]" "skip_line_comment (tl rest)"]
        skip_line_comment_set [of "tl rest"] skip_line_comment_length [of "tl rest"] tl by simp
  next
    case block
    show thesis
    proof (cases "skip_block_comment (tl rest)")
      case None
      then show thesis using that [of "[]" "[]"] block by simp
    next
      case (Some r)
      then show thesis using that [of "[Tok_Comment]" r] skip_block_comment_set [OF Some]
          skip_block_comment_length [OF Some] tl block by simp
    qed
  next
    case plain
    show thesis
    proof (cases "ch = 39 \<or> ch = 34")
      case True
      then show thesis using that [of "[Tok_Literal]" "skip_quoted ch rest"] skip_quoted_set [of ch rest] plain
        by simp
    next
      case quote: False
      show thesis
      proof (cases "if ch = 36 then skip_dollar_literal (ch # rest) else None")
        case (Some r)
        then have d: "skip_dollar_literal (ch # rest) = Some r" "ch = 36" by (auto split: if_splits)
        then have "length r \<le> length rest" using skip_dollar_length [OF d(1)] by simp
        moreover obtain n where "r = drop (Suc n) (ch # rest)"
          using d by (auto simp: skip_dollar_literal_def Let_def split: option.splits)
        ultimately show thesis using that [of "[Tok_Literal]" r] plain quote Some drop by simp
      next
        case None
        show thesis
        proof (cases "is_ascii_digit ch")
          case True
          then show thesis using that [of "[Tok_Literal]" "dropWhile number_char rest"] plain quote None
            by (auto simp: length_dropWhile_le dest: set_dropWhileD)
        next
          case digit: False
          let ?w = "ch # takeWhile word_char rest"
          have w: "set ?w \<subseteq> insert ch (set rest)" by (auto dest: set_takeWhileD)
          show thesis
          proof (cases "is_ascii_alphanumeric ch \<or> ch = 95 \<or> ch = 36")
            case True
            then have "word_char ch" by (auto simp: word_char_def)
            then show thesis
              using that [of "[if starts_with ?w [36] \<and> list_all is_ascii_digit (drop 1 ?w) then Tok_Literal else Tok_Word ?w]"
                  "drop (length ?w - 1) rest"] plain quote None digit drop w True
              by (simp add: Let_def)
          next
            case False
            then show thesis using that [of "[Tok_Symbol [ch]]" rest] plain quote None digit by simp
          qed
        qed
      qed
    qed
  qed
qed

lemma tokenize_chars: "t \<in> set (tokenize_sql s) \<Longrightarrow> token_chars t \<subseteq> set s"
proof (induction s rule: length_induct)
  case (1 s)
  show ?case
  proof (cases s)
    case Nil
    with 1 show ?thesis by simp
  next
    case (Cons ch rest)
    then obtain toks r where st: "tokenize_sql s = toks @ tokenize_sql r" "length r \<le> length rest"
      "set r \<subseteq> set rest" "\<forall>t\<in>set toks. token_chars t \<subseteq> insert ch (set rest)"
      by (metis tokenize_step)
    show ?thesis
    proof (cases "t \<in> set toks")
      case False
      then have "t \<in> set (tokenize_sql r)" "length r < length s" using "1.prems" st(1,2) Cons by auto
      then have "token_chars t \<subseteq> set r" using "1.IH" by blast
      with st(3) Cons show ?thesis by auto
    qed (use st Cons in auto)
  qed
qed

lemma str_split_at_ascii: "is_ascii_str s \<Longrightarrow> n \<le> str_len s \<Longrightarrow> \<exists>a b. str_split_at n s = Some (a, b)"
proof -
  assume a: "is_ascii_str s" and n: "n \<le> str_len s"
  have "is_ascii_str (take n s)" using a by (auto simp: is_ascii_str_def dest: in_set_takeD)
  then have "str_len (take n s) = n" using a n by (simp add: str_len_ascii)
  then show ?thesis by (metis str_split_at_Some append_take_drop_id)
qed

lemma append_token_ascii: "is_ascii_str out \<Longrightarrow> is_ascii_str tok \<Longrightarrow> is_ascii_str (append_token out tok)"
  by (auto simp: append_token_def is_ascii_str_def Let_def)

lemma to_ascii_lowercase_ascii: "is_ascii_str s \<Longrightarrow> is_ascii_str (to_ascii_lowercase s)"
  by (auto simp: is_ascii_str_def to_ascii_lowercase_def char_lower_def is_ascii_upper_def)

lemma fingerprint_token_ascii:
  assumes "is_ascii_str (fst state)" "\<forall>c\<in>token_chars t. c < 128"
  shows "is_ascii_str (fst (fingerprint_token t state))"
proof -
  obtain out il n where st: "state = (out, il, n)" by (cases state) auto
  have a: "is_ascii_str (lit ''?'')" "is_ascii_str (lit ''('')" "is_ascii_str (lit '')'')"
    by (simp_all add: is_ascii_str_def lit_def)
  show ?thesis
  proof (cases t)
    case (Tok_Word w)
    then have "is_ascii_str (to_ascii_lowercase w)"
      using assms(2) by (intro to_ascii_lowercase_ascii) (simp add: is_ascii_str_def)
    then show ?thesis using assms st Tok_Word by (simp add: fingerprint_token_def append_token_ascii)
  next
    case (Tok_Symbol w)
    then have "is_ascii_str w" using assms(2) by (simp add: is_ascii_str_def)
    then show ?thesis using assms st Tok_Symbol a by (simp add: fingerprint_token_def append_token_ascii)
  qed (use assms st a in \<open>simp_all add: fingerprint_token_def append_token_ascii\<close>)
qed

lemma fingerprint_loop_ascii:
  "is_ascii_str (fst state) \<Longrightarrow> \<forall>t\<in>set tokens. \<forall>c\<in>token_chars t. c < 128 \<Longrightarrow>
     \<exists>f. fingerprint_loop state tokens = Some f"
proof (induction tokens arbitrary: state)
  case (Cons t tokens)
  then have a: "is_ascii_str (fst (fingerprint_token t state))" by (simp add: fingerprint_token_ascii)
  show ?case
  proof (cases "MAX_FINGERPRINT_BYTES \<le> str_len (fst (fingerprint_token t state))")
    case True
    with str_split_at_ascii [OF a True] show ?thesis by (auto simp: Let_def)
  next
    case False
    with Cons.IH [OF a] Cons.prems show ?thesis by (simp add: Let_def)
  qed
qed simp

text \<open>Every ASCII query has a fingerprint, and no fingerprint is longer than 256 bytes: the
  tokenizer and the token loop end, and truncation cannot panic.\<close>

lemma fingerprint_bounded:
  assumes "is_ascii_str sql"
  shows "\<exists>f. fingerprint_sql sql = Some f \<and> str_len f \<le> 256"
proof -
  have "\<forall>t\<in>set (tokenize_sql sql). \<forall>c\<in>token_chars t. c < 128"
    using tokenize_chars assms by (fastforce simp: is_ascii_str_def)
  then obtain f where "fingerprint_sql sql = Some f"
    using fingerprint_loop_ascii [of "([], False, 0)" "tokenize_sql sql"] by (auto simp: fingerprint_sql_def is_ascii_str_def)
  with fingerprint_loop_bound [of "([], False, 0)" "tokenize_sql sql" f] show ?thesis
    by (simp add: fingerprint_sql_def MAX_FINGERPRINT_BYTES_def)
qed

lemma fingerprint_bounded_witness:
  "\<exists>f. fingerprint_sql (lit ''SELECT 1'') = Some f \<and> str_len f \<le> 256"
  by (rule fingerprint_bounded) (simp add: is_ascii_str_def lit_def)

lemmas token_eval =
  fingerprint_sql_def fingerprint_token_def append_token_def ends_with_def lit_def char_class_defs
  to_ascii_lowercase_def word_char_def number_char_def utf8_len_def MAX_FINGERPRINT_BYTES_def
  starts_with_def first_word_def is_word_def is_ddl_def is_unqualified_dml_def skip_dollar_literal_def

text \<open>A text of non-ASCII symbols, each of which becomes a two-byte token after a blank.\<close>

lemma tokenize_symbols: "tokenize_sql (replicate n 233) = replicate n (Tok_Symbol [233])"
  by (induction n) (simp_all add: char_class_defs)

definition acute_output :: "nat \<Rightarrow> rstr" where
  "acute_output n = (if n = 0 then [] else 233 # concat (replicate (n - 1) [32, 233]))"

lemma acute_output_rec: "acute_output (Suc (Suc n)) = acute_output (Suc n) @ [32, 233]"
proof -
  have "concat (replicate n [32, 233]) @ [32, 233] = [32, 233] @ concat (replicate n [32, 233 :: nat])"
    by (induction n) auto
  then show ?thesis by (simp add: acute_output_def)
qed

lemma acute_output_set: "set (acute_output n) \<subseteq> {32, 233}"
  by (auto simp: acute_output_def)

lemma acute_no_ends_with: "40 \<in> set p \<or> 105 \<in> set p \<Longrightarrow> \<not> ends_with (acute_output n) p"
  using subset_trans [OF ends_with_set acute_output_set, of n p] subsetD [of "set p" "{32, 233}" 40]
    subsetD [of "set p" "{32, 233}" 105]
  by auto

lemma acute_step: "fingerprint_token (Tok_Symbol [233]) (acute_output n, False, 0) = (acute_output (Suc n), False, 0)"
proof -
  have "append_token (acute_output n) [233] = acute_output (Suc n)"
  proof (cases n)
    case (Suc m)
    then show ?thesis
      using acute_no_ends_with [of "[40]" n] acute_output_rec [of m]
      by (simp add: append_token_def lit_def Let_def) (simp add: acute_output_def)
  qed (simp add: acute_output_def append_token_def)
  then show ?thesis by (simp add: fingerprint_token_def lit_def)
qed

lemma acute_output_len: "str_len (acute_output (Suc n)) = 3 * n + 2"
  by (induction n) (simp_all add: acute_output_rec, simp_all add: acute_output_def utf8_len_def)

lemma acute_loop:
  "n + k = 86 \<Longrightarrow> 0 < k \<Longrightarrow> fingerprint_loop (acute_output n, False, 0) (replicate k (Tok_Symbol [233])) = None"
proof (induction k arbitrary: n)
  case (Suc k)
  show ?case
  proof (cases "k = 0")
    case True
    then have n: "n = 85" using Suc by simp
    have len: "str_len (acute_output 85) = 254" using acute_output_len [of 84] by simp
    have "acute_output 86 = acute_output 85 @ [32, 233]" using acute_output_rec [of 84] by simp
    then have "str_split_at 256 (acute_output (Suc 85)) = None"
      using str_split_at_skip [of "acute_output 85" 2 "[32, 233]"] by (simp add: len utf8_len_def)
    with n True show ?thesis using acute_output_len [of 85]
      by (simp add: acute_step MAX_FINGERPRINT_BYTES_def Let_def)
  next
    case False
    with Suc have "str_len (acute_output (Suc n)) < 256" "fingerprint_loop (acute_output (Suc n), False, 0) (replicate k (Tok_Symbol [233])) = None"
      by (simp_all add: acute_output_len)
    then show ?thesis by (simp add: acute_step MAX_FINGERPRINT_BYTES_def)
  qed
qed simp

text \<open>The truncation to 256 bytes panics on a query of eighty-six non-ASCII letters: byte 256 of its
  token text is the second byte of the last one.\<close>

lemma fingerprint_panics: "fingerprint_sql (replicate 86 233) = None"
  using acute_loop [of 0 86] by (simp add: fingerprint_sql_def tokenize_symbols acute_output_def)

section \<open>String literals leave no trace\<close>

text \<open>Characters that can stand before a literal without opening another token that would reach
  into it.\<close>

definition plain_char :: "rchar \<Rightarrow> bool" where
  "plain_char c \<longleftrightarrow> c \<notin> {39, 34, 45, 47, 36}"

lemma not_word_quote [simp]: "\<not> word_char 39" "\<not> number_char 39"
  by (simp_all add: word_char_def number_char_def char_class_defs)

lemma tokenize_plain_append:
  "\<forall>c\<in>set p. plain_char c \<Longrightarrow> tokenize_sql (p @ 39 # r) = tokenize_sql p @ tokenize_sql (39 # r)"
proof (induction p rule: length_induct)
  case (1 p)
  show ?case
  proof (cases p)
    case Nil
    then show ?thesis by simp
  next
    case (Cons c q)
    have c: "c \<noteq> 39" "c \<noteq> 34" "c \<noteq> 45" "c \<noteq> 47" "c \<noteq> 36" using 1(2) Cons by (auto simp: plain_char_def)
    have ih: "tokenize_sql (drop n q @ 39 # r) = tokenize_sql (drop n q) @ tokenize_sql (39 # r)" for n
      using 1(1) [rule_format, of "drop n q"] 1(2) Cons by (simp add: le_imp_less_Suc in_set_dropD del: tokenize_sql.simps)
    have num: "dropWhile number_char (q @ 39 # r) = dropWhile number_char q @ 39 # r"
        "dropWhile number_char q = drop (length (takeWhile number_char q)) q"
      by (induction q) auto
    have wrd: "takeWhile word_char (q @ 39 # r) = takeWhile word_char q" by (induction q) auto
    have len: "length (takeWhile word_char q) \<le> length q" by (simp add: length_takeWhile_le)
    show ?thesis
      using c ih [of 0] ih [of "length (takeWhile number_char q)"] ih [of "length (takeWhile word_char q)"] num wrd len
      by (auto simp: Cons Let_def word_char_def)
  qed
qed

end
