(* ===== verification/Auth_Query.thy ===== *)
theory Auth_Query
  imports Wire_Backend Secrets Sql_Tokens
begin

text \<open>
  The auth-query service of \<open>pool/backend_query.rs\<close>: it looks a user's secret up in PostgreSQL by a
  configured query. The user name comes from an unauthenticated client, so quoting is the
  security boundary: shown here is that the quoted name is one SQL string constant, whatever the
  name, for every scanner that reads string constants as PostgreSQL documents them, and that it
  neither splits the statement nor shows in its fingerprint. The result reader
  is strict; it reads back exactly the rows a server sends, however the network cuts them.
\<close>

datatype aq_error =
    AQ_Placeholder
  | AQ_Wire wire_error
  | AQ_BufferLimit
  | AQ_Closed
  | AQ_BackendError
  | AQ_NotIdle
  | AQ_Unexpected
  | AQ_MissingI16
  | AQ_NegativeCount
  | AQ_MissingI32
  | AQ_InvalidLength
  | AQ_Truncated
  | AQ_NonUtf8
  | AQ_Trailing
  | AQ_DuplicateRows
  | AQ_RowShape
  | AQ_NullUsername
  | AQ_OtherUsername
  | AQ_NullSecret
  | AQ_Secret secret_error
  | AQ_NoCredentials

section \<open>Rendering the query\<close>

fun quote_body :: "rstr \<Rightarrow> rstr" where
  "quote_body [] = []"
| "quote_body (ch # chs) = (if ch = 39 then [39] else []) @ ch # quote_body chs"

definition quote_literal :: "rstr \<Rightarrow> rstr" where
  "quote_literal value = [39] @ quote_body value @ [39]"

text \<open>\<open>match_indices(p).count()\<close> and \<open>replace(p, r)\<close> for a non-empty pattern.\<close>

function count_matches :: "rstr \<Rightarrow> rstr \<Rightarrow> nat" where
  "count_matches s p =
     (if p = [] then 0
      else case find_str s p of
        None \<Rightarrow> 0
      | Some i \<Rightarrow> Suc (count_matches (drop (i + length p) s) p))"
  by pat_completeness auto
termination
  by (relation "measure (\<lambda>(s, p). length s)") (auto dest: find_str_shrinks)

function replace_str :: "rstr \<Rightarrow> rstr \<Rightarrow> rstr \<Rightarrow> rstr" where
  "replace_str s p r =
     (if p = [] then s
      else case find_str s p of
        None \<Rightarrow> s
      | Some i \<Rightarrow> take i s @ r @ replace_str (drop (i + length p) s) p r)"
  by pat_completeness auto
termination
  by (relation "measure (\<lambda>(s, p, r). length s)") (auto dest: find_str_shrinks)

declare count_matches.simps [simp del]
declare replace_str.simps [simp del]

definition render_auth_query :: "rstr \<Rightarrow> rstr \<Rightarrow> aq_error + rstr" where
  "render_auth_query template username =
     (if count_matches template (lit ''$1'') \<noteq> 1 then Inl AQ_Placeholder
      else Inr (replace_str template (lit ''$1'') (quote_literal username)))"

definition encode_query_message :: "rstr \<Rightarrow> bytes" where
  "encode_query_message sql =
     [frontend_tag_byte FE_Query] @ put_i32 (usize_as_i32 (str_len sql + 5)) @ as_bytes sql @ [0]"

section \<open>Reading the result\<close>

definition read_i16 :: "bytes \<Rightarrow> nat \<Rightarrow> aq_error + i16 \<times> nat" where
  "read_i16 payload offset =
     (let stop = offset + 2 in
      and_then (ok_or (slice_range payload offset stop) AQ_MissingI16) (\<lambda>bs.
      Inr (i16_from_be (bs ! 0) (bs ! 1), stop)))"

definition read_i32 :: "bytes \<Rightarrow> nat \<Rightarrow> aq_error + i32 \<times> nat" where
  "read_i32 payload offset =
     (let stop = offset + 4 in
      and_then (ok_or (slice_range payload offset stop) AQ_MissingI32) (\<lambda>bs.
      Inr (i32_from_be (bs ! 0) (bs ! 1) (bs ! 2) (bs ! 3), stop)))"

fun read_columns :: "bytes \<Rightarrow> nat \<Rightarrow> nat \<Rightarrow> aq_error + rstr option list \<times> nat" where
  "read_columns payload 0 offset = Inr ([], offset)"
| "read_columns payload (Suc n) offset =
     and_then (read_i32 payload offset) (\<lambda>(len, offset).
     if len = - 1 then
       and_then (read_columns payload n offset) (\<lambda>(columns, offset). Inr (None # columns, offset))
     else if sint len < 0 then Inl AQ_InvalidLength
     else
       let stop = offset + nat (sint len) in
       if stop > length payload then Inl AQ_Truncated
       else
         and_then (ok_or (from_utf8 (take (stop - offset) (drop offset payload))) AQ_NonUtf8) (\<lambda>value.
         and_then (read_columns payload n stop) (\<lambda>(columns, offset). Inr (Some value # columns, offset))))"

definition parse_data_row :: "bytes \<Rightarrow> aq_error + rstr option list" where
  "parse_data_row payload =
     and_then (read_i16 payload 0) (\<lambda>(count, offset).
     if sint count < 0 then Inl AQ_NegativeCount
     else
       and_then (read_columns payload (nat (sint count)) offset) (\<lambda>(columns, offset).
       if offset \<noteq> length payload then Inl AQ_Trailing else Inr columns))"

text \<open>The frame loop of \<open>run_simple_query\<close>: it goes on, or it returns the rows.\<close>

datatype aq_step = AQ_More "rstr option list list" bytes | AQ_Rows "rstr option list list"

function aq_drain :: "rstr option list list \<Rightarrow> bytes \<Rightarrow> aq_error + aq_step" where
  "aq_drain rows buffer =
     (case parse_backend_frame buffer of
        (Inl e, rest) \<Rightarrow> Inl (AQ_Wire e)
      | (Inr None, rest) \<Rightarrow> Inr (AQ_More rows rest)
      | (Inr (Some frame), rest) \<Rightarrow>
          if bf_tag frame = backend_tag_byte BE_DataRow then
            and_then (parse_data_row (bf_payload frame)) (\<lambda>row. aq_drain (rows @ [row]) rest)
          else if bf_tag frame = backend_tag_byte BE_ErrorResponse then Inl AQ_BackendError
          else if bf_tag frame = backend_tag_byte BE_ReadyForQuery then
            (if bf_payload frame = [ready_status_byte_code RSB_Idle] then Inr (AQ_Rows rows) else Inl AQ_NotIdle)
          else if bf_tag frame = of_char CHR ''T'' then aq_drain rows rest
          else if bf_tag frame = backend_tag_byte BE_CommandComplete then aq_drain rows rest
          else if bf_tag frame = backend_tag_byte BE_ParameterStatus then aq_drain rows rest
          else if bf_tag frame = backend_tag_byte BE_BackendKeyData then aq_drain rows rest
          else Inl AQ_Unexpected)"
  by pat_completeness auto
termination
  by (relation "measure (\<lambda>(rows, b). length b)")
     (auto dest!: sym [of _ "parse_backend_frame _"] be_parser.parse_shrinks)

declare aq_drain.simps [simp del]

text \<open>The read loop over the chunks the connection delivers; an empty chunk is the end of the
  stream and \<open>None\<close> means that the loop still waits for data.\<close>

fun run_simple_query :: "nat \<Rightarrow> rstr option list list \<Rightarrow> bytes \<Rightarrow> bytes list \<Rightarrow>
    (aq_error + rstr option list list) option" where
  "run_simple_query max_bytes rows buffer [] =
     (if length buffer < max_bytes then None else Some (Inl AQ_BufferLimit))"
| "run_simple_query max_bytes rows buffer (chunk # chunks) =
     (if \<not> length buffer < max_bytes then Some (Inl AQ_BufferLimit)
      else if chunk = [] then Some (Inl AQ_Closed)
      else if \<not> length (buffer @ chunk) \<le> max_bytes then Some (Inl AQ_BufferLimit)
      else case aq_drain rows (buffer @ chunk) of
        Inl e \<Rightarrow> Some (Inl e)
      | Inr (AQ_Rows rows) \<Rightarrow> Some (Inr rows)
      | Inr (AQ_More rows buffer) \<Rightarrow> run_simple_query max_bytes rows buffer chunks)"

definition parse_user_secret :: "(rstr \<Rightarrow> bytes option) \<Rightarrow> rstr \<Rightarrow> secret_error + user_secret" where
  "parse_user_secret decode secret =
     (if starts_with secret (lit ''md5'') then and_then (md5_secret_parse secret) (\<lambda>s. Inr (US_Md5 s))
      else and_then (scram_verifier_parse decode secret) (\<lambda>v. Inr (US_ScramSha256 v)))"

definition parse_auth_query_row :: "(rstr \<Rightarrow> bytes option) \<Rightarrow> rstr option list \<Rightarrow> rstr \<Rightarrow> aq_error + user_secret" where
  "parse_auth_query_row decode row expected_username =
     (case row of
        [first, second] \<Rightarrow>
          (case first of
             None \<Rightarrow> Inl AQ_NullUsername
           | Some username \<Rightarrow>
               if username \<noteq> expected_username then Inl AQ_OtherUsername
               else (case second of
                       None \<Rightarrow> Inl AQ_NullSecret
                     | Some secret \<Rightarrow>
                         (case parse_user_secret decode secret of
                            Inl e \<Rightarrow> Inl (AQ_Secret e) | Inr s \<Rightarrow> Inr s)))
      | _ \<Rightarrow> Inl AQ_RowShape)"

definition parse_auth_query_result ::
  "(rstr \<Rightarrow> bytes option) \<Rightarrow> rstr option list list \<Rightarrow> rstr \<Rightarrow> aq_error + user_secret option" where
  "parse_auth_query_result decode rows expected_username =
     (case rows of
        [] \<Rightarrow> Inr None
      | [row] \<Rightarrow> and_then (parse_auth_query_row decode row expected_username) (\<lambda>s. Inr (Some s))
      | _ \<Rightarrow> Inl AQ_DuplicateRows)"

section \<open>The cache\<close>

text \<open>Entries carry the instant at which they were stored; instants and durations are natural
  numbers of the same unit.\<close>

type_synonym auth_query_cache = "rstr \<rightharpoonup> user_secret \<times> nat"

definition cache_get :: "auth_query_cache \<Rightarrow> rstr \<Rightarrow> nat \<Rightarrow> nat \<Rightarrow> user_secret option" where
  "cache_get entries username ttl now =
     (if ttl = 0 then None
      else case entries username of
        None \<Rightarrow> None
      | Some (secret, inserted_at) \<Rightarrow> if now - inserted_at < ttl then Some secret else None)"

definition cache_put :: "auth_query_cache \<Rightarrow> rstr \<Rightarrow> user_secret \<Rightarrow> nat \<Rightarrow> auth_query_cache" where
  "cache_put entries username secret now = entries(username \<mapsto> (secret, now))"

section \<open>Quoting is safe\<close>

text \<open>
  The server's scanner is a parameter: from a state and a character it goes to a state and puts out
  what the character adds to the value of a string constant. What is relied on is the documented
  form of string constants with \<open>standard_conforming_strings\<close> on, for a state \<open>code\<close> between tokens,
  a state \<open>str\<close> inside a constant and a state \<open>quo\<close> after a quote there: a quote opens a constant,
  every other character inside stands for itself, and two quotes stand for one.
\<close>

definition reads_string_constants :: "('s \<Rightarrow> nat \<Rightarrow> 's \<times> rstr) \<Rightarrow> 's \<Rightarrow> 's \<Rightarrow> 's \<Rightarrow> bool" where
  "reads_string_constants scan code str quo \<longleftrightarrow>
     code \<noteq> str \<and> code \<noteq> quo \<and> scan code 39 = (str, []) \<and> scan str 39 = (quo, []) \<and> scan quo 39 = (str, [39]) \<and>
     (\<forall>c. c \<noteq> 39 \<longrightarrow> scan str c = (str, [c]))"

fun scan_all :: "('s \<Rightarrow> nat \<Rightarrow> 's \<times> rstr) \<Rightarrow> 's \<Rightarrow> rstr \<Rightarrow> 's \<times> rstr" where
  "scan_all scan s [] = (s, [])"
| "scan_all scan s (c # cs) =
     (let (s', v) = scan s c; (s'', vs) = scan_all scan s' cs in (s'', v @ vs))"

lemma scan_all_append:
  "scan_all scan s (xs @ ys) =
     (fst (scan_all scan (fst (scan_all scan s xs)) ys),
      snd (scan_all scan s xs) @ snd (scan_all scan (fst (scan_all scan s xs)) ys))"
  by (induction xs arbitrary: s) (simp_all add: case_prod_beta' Let_def)

lemma scan_quote_body:
  assumes "reads_string_constants scan code str quo"
  shows "scan_all scan str (quote_body v) = (str, v)"
  using assms by (induction v) (simp_all add: reads_string_constants_def)

lemma scan_quote_literal:
  assumes "reads_string_constants scan code str quo"
  shows "scan_all scan code (quote_literal v) = (quo, v)"
  using assms scan_quote_body [OF assms, of v]
  by (simp add: quote_literal_def scan_all_append reads_string_constants_def)

lemma scan_inside_body:
  assumes "reads_string_constants scan code str quo"
  shows "fst (scan_all scan str (take k (quote_body v))) \<in> {str, quo}"
  using assms
proof (induction v arbitrary: k)
  case (Cons c v)
  then show ?case
    by (cases k; cases "k - 1") (auto simp: reads_string_constants_def case_prod_beta' Let_def)
qed simp

text \<open>At no point inside the quotation is the scanner between tokens.\<close>

lemma scan_inside_literal:
  assumes "reads_string_constants scan code str quo" and "0 < k"
  shows "fst (scan_all scan code (take k (quote_literal v))) \<in> {str, quo}"
proof (cases "k \<le> length (quote_body v) + 1")
  case True
  then have "take k (quote_literal v) = 39 # take (k - 1) (quote_body v)"
    using assms(2) by (cases k) (simp_all add: quote_literal_def)
  then show ?thesis
    using assms(1) scan_inside_body [OF assms(1), of "k - 1" v]
    by (simp add: reads_string_constants_def case_prod_beta' Let_def)
next
  case False
  then have "take k (quote_literal v) = quote_literal v" by (simp add: quote_literal_def)
  then show ?thesis using scan_quote_literal [OF assms(1), of v] by simp
qed

lemma count_matches_one:
  assumes "count_matches s p = 1"
  obtains i where "p \<noteq> []" and "find_str s p = Some i" and "find_str (drop (i + length p) s) p = None"
    and "\<And>r. replace_str s p r = take i s @ r @ drop (i + length p) s"
proof -
  obtain i where i: "p \<noteq> []" "find_str s p = Some i" "count_matches (drop (i + length p) s) p = 0"
    using assms by (subst (asm) count_matches.simps) (auto split: if_splits option.splits)
  then have none: "find_str (drop (i + length p) s) p = None"
    by (subst (asm) count_matches.simps) (auto split: option.splits)
  moreover have "replace_str s p r = take i s @ r @ drop (i + length p) s" for r
    using i none by (subst replace_str.simps) (simp add: replace_str.simps [of "drop (i + length p) s"])
  ultimately show thesis using i that by blast
qed

lemma find_str_first: "find_str s p = Some i \<Longrightarrow> k < i \<Longrightarrow> \<not> starts_with (drop k s) p"
proof (induction s p arbitrary: i k rule: find_str.induct)
  case (2 c s p)
  then show ?case by (cases k) (auto split: if_splits)
qed (simp split: if_splits)

text \<open>The only placeholder is replaced where it stands.\<close>

lemma replace_placeholder:
  assumes "count_matches (before @ lit ''$1'' @ after) (lit ''$1'') = 1"
  shows "replace_str (before @ lit ''$1'' @ after) (lit ''$1'') r = before @ r @ after"
proof -
  let ?p = "lit ''$1''" and ?j = "length before"
  let ?s = "before @ ?p @ after"
  obtain i where i: "find_str ?s ?p = Some i" "find_str (drop (i + 2) ?s) ?p = None"
    "replace_str ?s ?p r = take i ?s @ r @ drop (i + 2) ?s"
    by (rule count_matches_one [OF assms]) (simp add: lit_def)
  have at: "starts_with (drop ?j ?s) ?p" by (simp add: starts_with_iff)
  have "\<not> ?j < i" using find_str_first [OF i(1)] at by blast
  moreover have "\<not> i + 2 \<le> ?j"
  proof
    assume "i + 2 \<le> ?j"
    then have "starts_with (drop (?j - (i + 2)) (drop (i + 2) ?s)) ?p" "?j - (i + 2) \<le> length (drop (i + 2) ?s)"
      using at by simp_all
    with i(2) find_str_None show False by blast
  qed
  moreover have "?j \<noteq> i + 1"
  proof
    assume "?j = i + 1"
    moreover obtain c where "drop i ?s = ?p @ c" using find_str_Some [OF i(1)] by (auto simp: starts_with_iff)
    ultimately have "drop 1 (drop i ?s) = 49 # c" by (simp add: lit_def)
    with \<open>?j = i + 1\<close> show False by (simp add: lit_def)
  qed
  ultimately have "i = ?j" by linarith
  with i(3) show ?thesis by (simp add: lit_def)
qed

text \<open>C30. The rendered auth query is the configured template with its only placeholder replaced by the
  quoted user name. Where the placeholder stands between tokens, and the server reads string
  constants as documented with \<open>standard_conforming_strings\<close> on, the quotation is one string constant
  whose value is the user name, whatever characters the client put into it: the scanner is never
  between tokens inside it, and it reads the rest of the template from the same state for every name.\<close>

theorem render_auth_query_injection_safe:
  assumes "reads_string_constants scan code str quo"
    and "template = before @ lit ''$1'' @ after" and "render_auth_query template username = Inr sql"
    and "fst (scan_all scan s before) = code"
  shows "sql = before @ quote_literal username @ after \<and>
    scan_all scan code (quote_literal username) = (quo, username) \<and>
    (\<forall>k>0. fst (scan_all scan code (take k (quote_literal username))) \<in> {str, quo}) \<and>
    fst (scan_all scan s sql) = fst (scan_all scan quo after)"
proof -
  have "sql = before @ quote_literal username @ after"
    using assms(2,3) replace_placeholder [of before after] by (auto simp: render_auth_query_def split: if_splits)
  then show ?thesis
    using scan_quote_literal [OF assms(1)] scan_inside_literal [OF assms(1)] assms(4) by (simp add: scan_all_append)
qed

text \<open>A scanner that knows nothing but string constants, and a name that tries to leave its quotation.\<close>

definition demo_scan :: "nat \<Rightarrow> nat \<Rightarrow> nat \<times> rstr" where
  "demo_scan s c =
     (if s = 0 then (if c = 39 then (1, []) else (0, []))
      else if s = 1 then (if c = 39 then (2, []) else (1, [c]))
      else (if c = 39 then (1, [39]) else (0, [])))"

lemma demo_scan_reads: "reads_string_constants demo_scan 0 1 2"
  by (simp add: reads_string_constants_def demo_scan_def)

theorem render_auth_query_injection_safe_witness:
  "\<exists>sql. render_auth_query (lit ''select u, p from users where u = $1'') (lit ''x'' @ [39] @ lit ''; drop table users; --'') = Inr sql \<and>
     sql = lit ''select u, p from users where u = '' @ quote_literal (lit ''x'' @ [39] @ lit ''; drop table users; --'') \<and>
     scan_all demo_scan 0 (quote_literal (lit ''x'' @ [39] @ lit ''; drop table users; --'')) =
       (2, lit ''x'' @ [39] @ lit ''; drop table users; --'')"
proof -
  let ?b = "lit ''select u, p from users where u = ''"
  let ?t = "lit ''select u, p from users where u = $1''"
  let ?u = "lit ''x'' @ [39] @ lit ''; drop table users; --''"
  have "count_matches ?t (lit ''$1'') = 1"
    by (simp add: count_matches.simps starts_with_def lit_def)
  then obtain sql where r: "render_auth_query ?t ?u = Inr sql" by (auto simp: render_auth_query_def)
  have t: "?t = ?b @ lit ''$1'' @ []" by (simp add: lit_def)
  have "fst (scan_all demo_scan 0 ?b) = 0" by (simp add: lit_def demo_scan_def)
  from render_auth_query_injection_safe [OF demo_scan_reads t r this] r show ?thesis by auto
qed

text \<open>Exactly one placeholder is all the configuration asks for. Inside quotes of the template's own, it
  is inside a string constant: the first quote of the quotation ends that constant, and the name
  follows outside of it.\<close>

lemma quoted_placeholder_exposes_name:
  assumes "reads_string_constants scan code str quo" and "template = before @ lit ''$1'' @ after"
    and "render_auth_query template username = Inr sql" and "fst (scan_all scan s before) = str"
  shows "sql = (before @ [39]) @ quote_body username @ [39] @ after" and "fst (scan_all scan s (before @ [39])) = quo"
proof -
  show "sql = (before @ [39]) @ quote_body username @ [39] @ after"
    using assms(2,3) replace_placeholder [of before after]
    by (auto simp: render_auth_query_def quote_literal_def split: if_splits)
  show "fst (scan_all scan s (before @ [39])) = quo"
    using assms(1,4) by (simp add: scan_all_append reads_string_constants_def)
qed

lemma skip_quoted_quote: "rest = [] \<or> hd rest \<noteq> 39 \<Longrightarrow> skip_quoted 39 (quote_body v @ 39 # rest) = rest"
  by (induction v) auto

lemma tokenize_quote:
  assumes "rest = [] \<or> hd rest \<noteq> 39"
  shows "tokenize_sql (quote_literal v @ rest) = Tok_Literal # tokenize_sql rest"
  using skip_quoted_quote [OF assms, of v] by (simp add: quote_literal_def is_whitespace_def)

text \<open>Two queries that differ only in the content of a string literal have the same fingerprint:
  no character of a client's value reaches metrics, logs or the guardrail allowlist.\<close>

lemma fingerprint_hides_literals:
  assumes "\<forall>c\<in>set before. plain_char c" "after = [] \<or> hd after \<noteq> 39"
  shows "fingerprint_sql (before @ quote_literal v @ after) = fingerprint_sql (before @ quote_literal w @ after)"
proof -
  have "tokenize_sql (before @ quote_literal x @ after) = tokenize_sql before @ Tok_Literal # tokenize_sql after" for x
    using tokenize_plain_append [OF assms(1), of "quote_body x @ 39 # after"] tokenize_quote [OF assms(2), of x]
    by (simp add: quote_literal_def del: tokenize_sql.simps)
  then show ?thesis by (simp add: fingerprint_sql_def)
qed

lemma fingerprint_hides_literals_witness:
  "fingerprint_sql (lit ''select * from t where a = '' @ quote_literal (lit ''secret'') @ lit '' limit 1'') =
   fingerprint_sql (lit ''select * from t where a = '' @ quote_literal [] @ lit '' limit 1'')"
  by (rule fingerprint_hides_literals) (simp_all add: lit_def plain_char_def)

section \<open>Reading rows back\<close>

definition column_bytes :: "rstr \<Rightarrow> bytes" where
  "column_bytes value = put_i32 (usize_as_i32 (str_len value)) @ as_bytes value"

definition column_ok :: "rstr \<Rightarrow> bool" where
  "column_ok value \<longleftrightarrow> scalars value \<and> str_len value < 2 ^ 31"

lemma read_i32_at:
  "read_i32 (pre @ put_i32 w @ post) (length pre) = Inr (w, length pre + 4)"
proof -
  have "slice_range (pre @ put_i32 w @ post) (length pre) (length pre + 4) = Some (put_i32 w)"
    by (rule slice_range_at) simp_all
  then show ?thesis by (simp add: read_i32_def) (simp add: put_i32_def)
qed

lemma read_columns_bytes:
  "\<forall>v\<in>set vs. column_ok v \<Longrightarrow>
     read_columns (pre @ concat (map column_bytes vs) @ post) (length vs) (length pre) =
       Inr (map Some vs, length pre + length (concat (map column_bytes vs)))"
proof (induction vs arbitrary: pre)
  case (Cons v vs)
  define tail where "tail = concat (map column_bytes vs) @ post"
  define len where "len = usize_as_i32 (str_len v)"
  have v: "scalars v" "sint len = int (str_len v)" using Cons.prems by (simp_all add: column_ok_def len_def)
  then have nm: "len \<noteq> - 1" by (auto simp: sint_word_ariths)
  have r1: "read_i32 (pre @ put_i32 len @ as_bytes v @ tail) (length pre) = Inr (len, length pre + 4)"
    by (rule read_i32_at)
  have ih: "read_columns (pre @ put_i32 len @ as_bytes v @ tail) (length vs) (length pre + 4 + str_len v) =
      Inr (map Some vs, length pre + 4 + str_len v + length (concat (map column_bytes vs)))"
    using Cons.IH [of "pre @ put_i32 len @ as_bytes v"] Cons.prems by (simp add: tail_def add.assoc)
  have e: "pre @ concat (map column_bytes (v # vs)) @ post = pre @ put_i32 len @ as_bytes v @ tail"
    by (simp add: column_bytes_def tail_def len_def)
  show ?case
    unfolding e using r1 ih v nm by (simp add: Let_def column_bytes_def [of v] add.assoc)
qed simp

lemma parse_data_row_payload:
  assumes "length row = length columns" "length columns < 2 ^ 15" "\<forall>v\<in>set row. column_ok v"
  shows "parse_data_row (data_row_payload columns row) = Inr (map Some row)"
proof -
  define n where "n = usize_as_i16 (length columns)"
  have p: "data_row_payload columns row = put_i16 n @ concat (map column_bytes row) @ []"
    by (simp add: data_row_payload_def n_def column_bytes_def [abs_def])
  have r: "read_i16 (put_i16 n @ x) 0 = Inr (n, 2)" for x
    by (simp add: read_i16_def slice_range_def) (simp add: put_i16_def)
  show ?thesis
    unfolding p parse_data_row_def r
    using assms read_columns_bytes [OF assms(3), of "put_i16 n" "[]"] by (simp add: n_def)
qed

text \<open>What the frame loop does to a list of frames: an error, more to read, or the rows.\<close>

fun aq_fold :: "rstr option list list \<Rightarrow> backend_frame list \<Rightarrow>
    aq_error + (rstr option list list + rstr option list list)" where
  "aq_fold rows [] = Inr (Inl rows)"
| "aq_fold rows (frame # frames) =
     (if bf_tag frame = backend_tag_byte BE_DataRow then
        and_then (parse_data_row (bf_payload frame)) (\<lambda>row. aq_fold (rows @ [row]) frames)
      else if bf_tag frame = backend_tag_byte BE_ErrorResponse then Inl AQ_BackendError
      else if bf_tag frame = backend_tag_byte BE_ReadyForQuery then
        (if bf_payload frame = [ready_status_byte_code RSB_Idle] then Inr (Inr rows) else Inl AQ_NotIdle)
      else if bf_tag frame \<in> {of_char CHR ''T'', backend_tag_byte BE_CommandComplete,
          backend_tag_byte BE_ParameterStatus, backend_tag_byte BE_BackendKeyData}
      then aq_fold rows frames
      else Inl AQ_Unexpected)"

lemma aq_drain_fold:
  "backend_frames_loop b = (Inr fs, r) \<Longrightarrow>
     aq_drain rows b =
       (case aq_fold rows fs of Inl e \<Rightarrow> Inl e | Inr (Inl rows') \<Rightarrow> Inr (AQ_More rows' r) | Inr (Inr rows') \<Rightarrow> Inr (AQ_Rows rows'))"
proof (induction b arbitrary: rows fs rule: be_loop.loop_induct)
  case (step b)
  show ?case
  proof (cases b rule: be_loop.loop_cases)
    case wait
    with step.prems have "fs = []" "r = b" by auto
    with wait show ?thesis by (subst aq_drain.simps) simp
  next
    case (fail e)
    with step.prems show ?thesis by simp
  next
    case (frame f r1)
    then obtain gs where gs: "backend_frames_loop r1 = (Inr gs, r)" "fs = f # gs"
      using step.prems by (auto split: prod.splits sum.splits)
    from step.IH [OF frame(1) gs(1)] frame(1) gs(2) show ?thesis
      by (cases "parse_data_row (bf_payload f)") (simp_all add: aq_drain.simps [of rows b])
  qed
qed

lemma aq_fold_append:
  "aq_fold rows (fs @ gs) =
     (case aq_fold rows fs of Inl e \<Rightarrow> Inl e | Inr (Inl rows') \<Rightarrow> aq_fold rows' gs | Inr (Inr rows') \<Rightarrow> Inr (Inr rows'))"
  by (induction rows fs rule: aq_fold.induct) (auto simp: and_then_def split: sum.splits)

lemma run_simple_query_frames:
  assumes "parse_backend_frame b = (Inr None, b)" "backend_frames_loop (b @ concat chunks) = (Inr fs, r)"
    and "aq_fold rows fs = Inr (Inr result)" "[] \<notin> set chunks" "length (b @ concat chunks) \<le> max_bytes"
  shows "run_simple_query max_bytes rows b chunks = Some (Inr result)"
  using assms
proof (induction chunks arbitrary: b rows fs)
  case Nil
  then show ?case by (simp add: be_loop.loop_wait)
next
  case (Cons c chunks)
  have "backend_frames_loop ((b @ c) @ concat chunks) = (Inr fs, r)" using Cons.prems by simp
  then obtain gs hs r' where gs: "backend_frames_loop (b @ c) = (Inr gs, r')"
      and hs: "backend_frames_loop (r' @ concat chunks) = (Inr hs, r)" "fs = gs @ hs"
      and w: "parse_backend_frame r' = (Inr None, r')"
    by (cases rule: be_loop.loop_split) auto
  have c: "c \<noteq> []" "length b < max_bytes" "length (b @ c) \<le> max_bytes"
    using Cons.prems(4,5) by (cases c; auto)+
  obtain p where p: "b @ c = p @ r'" using be_loop.loop_suffix [OF gs] by blast
  have "length (r' @ concat chunks) \<le> max_bytes"
    using Cons.prems(5) arg_cong [OF p, of length] by simp
  with Cons.IH [OF w hs(1)] Cons.prems(3,4) aq_drain_fold [OF gs, of rows] aq_fold_append [of rows gs hs] hs(2) c
  show ?case by (auto split: sum.splits)
qed

text \<open>However the network cuts a server's answer into non-empty reads, the auth query returns
  exactly the rows the server sent, in order, provided the answer fits the buffer limit.\<close>

lemma auth_query_reads_rows:
  assumes "\<forall>row\<in>set rows. length row = length columns \<and> (\<forall>v\<in>set row. column_ok v)" "length columns < 2 ^ 15"
    and "payload_fits (drop 5 (build_row_description columns))"
    and "\<forall>row\<in>set rows. payload_fits (data_row_payload columns row)"
    and "build_admin_table_response columns rows = Some response"
    and "concat chunks = response" "[] \<notin> set chunks" "length response \<le> max_bytes"
  shows "run_simple_query max_bytes [] [] chunks = Some (Inr (map (map Some) rows))"
proof (rule run_simple_query_frames)
  have data: "aq_fold acc (map (\<lambda>row. \<lparr>bf_tag = backend_tag_byte BE_DataRow, bf_payload = data_row_payload columns row\<rparr>) rs)
      = Inr (Inl (acc @ map (map Some) rs))"
    if "\<forall>row\<in>set rs. length row = length columns \<and> (\<forall>v\<in>set row. column_ok v)" for rs acc
    using that assms(2) by (induction rs arbitrary: acc) (simp_all add: parse_data_row_payload)
  show "aq_fold [] (admin_table_frames columns rows) = Inr (Inr (map (map Some) rows))"
    using data [OF assms(1), of "[]"] by (simp add: admin_table_frames_def aq_fold_append)
  obtain data where d: "build_data_row columns rows = Some data" using assms(5)
    by (auto simp: build_admin_table_response_def)
  show "backend_frames_loop ([] @ concat chunks) = (Inr (admin_table_frames columns rows), [])"
    using admin_table_frames_loop [OF _ assms(3,4)] assms(1,5,6) by simp
  show "length ([] @ concat chunks) \<le> max_bytes" using assms(6,8) by simp
qed (use assms(7) in \<open>simp_all add: parse_backend_frame_def\<close>)

lemma auth_query_reads_rows_witness:
  "let columns = [\<lparr>awc_name = lit ''u'', awc_type = AWT_Text\<rparr>]; rows = [[lit ''al'']] in
   \<exists>response. build_admin_table_response columns rows = Some response \<and> length response = 56 \<and>
     run_simple_query 100 [] [] [take 7 response, drop 7 response] = Some (Inr (map (map Some) rows))"
proof -
  let ?c = "[\<lparr>awc_name = lit ''u'', awc_type = AWT_Text\<rparr>]"
  let ?r = "[[lit ''al'']]"
  have ok: "\<forall>row\<in>set ?r. length row = length ?c \<and> (\<forall>v\<in>set row. column_ok v)"
    by (simp add: column_ok_def lit_def is_scalar_def utf8_len_def)
  have fits: "payload_fits (drop 5 (build_row_description ?c))" "\<forall>row\<in>set ?r. payload_fits (data_row_payload ?c row)"
    by (simp_all add: payload_fits_def build_row_description_def encode_backend_message_raw_def
        data_row_payload_def lit_def utf8_len_def)
  obtain response where r: "build_admin_table_response ?c ?r = Some response"
    by (auto simp: build_admin_table_response_def)
  then have len: "length response = 56"
    by (auto simp: build_admin_table_response_def build_row_description_def encode_backend_message_raw_def
        encode_backend_message_def data_row_payload_def build_command_complete_def build_ready_for_query_def
        lit_def utf8_len_def)
  then have ne: "[] \<notin> set [take 7 response, drop 7 response]" by auto
  have "run_simple_query 100 [] [] [take 7 response, drop 7 response] = Some (Inr (map (map Some) ?r))"
    by (rule auth_query_reads_rows [OF ok _ fits r _ ne]) (use len in simp_all)
  with r len show ?thesis unfolding Let_def by blast
qed

end
