(* ===== verification/Guardrails.thy ===== *)
theory Guardrails
  imports Sql_Tokens
begin

text \<open>
  The query guardrails of \<open>guardrails.rs\<close>: an optional allowlist of fingerprints and two hard rules,
  evaluated for every query. The allowlist file is an input of each evaluation (its modification
  time, size and content, where they can be read), and so is the key that \<open>keys().next()\<close> of the
  observation table returns. Shown: in enforcing mode only allowlisted queries that break no
  configured rule pass; the observation table never holds more than 256 entries; a loaded
  allowlist has at most 256 entries of at most 256 bytes.
\<close>

datatype guardrail_mode = GM_Off | GM_Observe | GM_Enforce

fun guardrail_mode_as_str :: "guardrail_mode \<Rightarrow> rstr" where
  "guardrail_mode_as_str GM_Off = lit ''off''"
| "guardrail_mode_as_str GM_Observe = lit ''observe''"
| "guardrail_mode_as_str GM_Enforce = lit ''enforce''"

record guardrails_config =
  gc_mode :: guardrail_mode
  gc_block_unqualified_dml :: bool
  gc_block_ddl :: bool
  gc_allowlist_file :: "rstr option"

datatype guardrail_rule = GR_UnqualifiedDml | GR_Ddl | GR_UnknownFingerprint

fun guardrail_rule_as_str :: "guardrail_rule \<Rightarrow> rstr" where
  "guardrail_rule_as_str GR_UnqualifiedDml = lit ''unqualified_dml''"
| "guardrail_rule_as_str GR_Ddl = lit ''ddl''"
| "guardrail_rule_as_str GR_UnknownFingerprint = lit ''unknown_fingerprint''"

datatype guardrail_decision = GD_Allow | GD_Deny guardrail_rule

record guardrail_registry =
  gr_config :: guardrails_config
  gr_allowlist :: "rstr set"
  gr_observations :: "rstr \<rightharpoonup> nat"
  gr_loaded_mtime :: "nat option"

text \<open>What the file system answers: the modification time, the size and the text, each if readable.\<close>

record allowlist_view =
  av_mtime :: "nat option"
  av_len :: "nat option"
  av_content :: "rstr option"

definition MAX_ALLOWLIST_ENTRIES :: nat where
  "MAX_ALLOWLIST_ENTRIES = 256"

definition MAX_OBSERVATIONS :: nat where
  "MAX_OBSERVATIONS = 256"

definition MAX_ALLOWLIST_BYTES :: nat where
  "MAX_ALLOWLIST_BYTES = 128 * 1024"

section \<open>The allowlist file\<close>

definition is_control :: "rchar \<Rightarrow> bool" where
  "is_control c \<longleftrightarrow> c < 32 \<or> 127 \<le> c \<and> c < 160"

definition str_lines :: "rstr \<Rightarrow> rstr list" where
  "str_lines s =
     (let parts = split_on (\<lambda>c. c = 10) s;
          parts = (if last parts = [] then butlast parts else parts)
      in map (\<lambda>p. if p \<noteq> [] \<and> last p = 13 then butlast p else p) parts)"

fun allowlist_entries :: "rstr set \<Rightarrow> rstr list \<Rightarrow> rstr set option" where
  "allowlist_entries entries [] = Some entries"
| "allowlist_entries entries (line # rest) =
     (if card entries \<ge> MAX_ALLOWLIST_ENTRIES then None
      else if str_len line > MAX_FINGERPRINT_BYTES \<or> list_ex is_control line then None
      else allowlist_entries (insert line entries) rest)"

definition load_allowlist :: "allowlist_view \<Rightarrow> (rstr set \<times> nat) option" where
  "load_allowlist view =
     (case (av_len view, av_content view, av_mtime view) of
        (Some len, Some content, Some mtime) \<Rightarrow>
          if len > MAX_ALLOWLIST_BYTES then None
          else map_option (\<lambda>entries. (entries, mtime))
                 (allowlist_entries {}
                    (filter (\<lambda>line. line \<noteq> [] \<and> \<not> starts_with line (lit ''#'')) (map trim (str_lines content))))
      | _ \<Rightarrow> None)"

definition reload_allowlist :: "allowlist_view \<Rightarrow> guardrail_registry \<Rightarrow> guardrail_registry option" where
  "reload_allowlist view reg =
     (case gc_allowlist_file (gr_config reg) of
        None \<Rightarrow> Some reg
      | Some _ \<Rightarrow>
          map_option (\<lambda>(entries, mtime). reg\<lparr>gr_allowlist := entries, gr_loaded_mtime := Some mtime\<rparr>)
            (load_allowlist view))"

definition refresh_allowlist_if_changed :: "allowlist_view \<Rightarrow> guardrail_registry \<Rightarrow> guardrail_registry" where
  "refresh_allowlist_if_changed view reg =
     (case gc_allowlist_file (gr_config reg) of
        None \<Rightarrow> reg
      | Some _ \<Rightarrow>
          (case av_mtime view of
             None \<Rightarrow> reg
           | Some mtime \<Rightarrow>
               if gr_loaded_mtime reg \<noteq> Some mtime then
                 (case reload_allowlist view reg of None \<Rightarrow> reg | Some reg' \<Rightarrow> reg')
               else reg))"

definition registry_from_config :: "guardrails_config \<Rightarrow> allowlist_view \<Rightarrow> guardrail_registry option" where
  "registry_from_config config view =
     reload_allowlist view
       \<lparr>gr_config = config, gr_allowlist = {}, gr_observations = Map.empty, gr_loaded_mtime = None\<rparr>"

section \<open>Evaluation\<close>

definition observe :: "((rstr \<rightharpoonup> nat) \<Rightarrow> rstr) \<Rightarrow> (rstr \<rightharpoonup> nat) \<Rightarrow> rstr \<Rightarrow> (rstr \<rightharpoonup> nat)" where
  "observe next_key observations fingerprint =
     (let observations =
            (if card (dom observations) \<ge> MAX_OBSERVATIONS \<and> fingerprint \<notin> dom observations
             then (if dom observations \<noteq> {} then observations(next_key observations := None) else observations)
             else observations)
      in observations(fingerprint \<mapsto>
           (case observations fingerprint of None \<Rightarrow> 1 | Some n \<Rightarrow> n + 1)))"

text \<open>\<open>None\<close> is the panic of the fingerprint.\<close>

definition evaluate :: "((rstr \<rightharpoonup> nat) \<Rightarrow> rstr) \<Rightarrow> allowlist_view \<Rightarrow> guardrail_registry \<Rightarrow> sql_analysis \<Rightarrow> rstr
    \<Rightarrow> (guardrail_decision \<times> guardrail_registry) option" where
  "evaluate next_key view reg analysis sql =
     (if gc_mode (gr_config reg) = GM_Off then Some (GD_Allow, reg)
      else
        let reg = refresh_allowlist_if_changed view reg in
        case fingerprint_sql sql of
          None \<Rightarrow> None
        | Some fingerprint \<Rightarrow>
            let config = gr_config reg;
                reg = (if fingerprint \<noteq> []
                       then reg\<lparr>gr_observations := observe next_key (gr_observations reg) fingerprint\<rparr> else reg)
            in if gc_block_unqualified_dml config \<and> sa_query_class analysis = QC_Write
                  \<and> is_unqualified_dml sql \<and> gc_mode config = GM_Enforce
               then Some (GD_Deny GR_UnqualifiedDml, reg)
               else if gc_block_ddl config \<and> is_ddl sql \<and> gc_mode config = GM_Enforce
               then Some (GD_Deny GR_Ddl, reg)
               else if gc_mode config = GM_Enforce \<and> (fingerprint = [] \<or> fingerprint \<notin> gr_allowlist reg)
               then Some (GD_Deny GR_UnknownFingerprint, reg)
               else Some (GD_Allow, reg))"

section \<open>Laws\<close>

lemma refresh_config [simp]: "gr_config (refresh_allowlist_if_changed view reg) = gr_config reg"
  by (auto simp: refresh_allowlist_if_changed_def reload_allowlist_def split: option.splits)

lemma refresh_observations [simp]:
  "gr_observations (refresh_allowlist_if_changed view reg) = gr_observations reg"
  by (auto simp: refresh_allowlist_if_changed_def reload_allowlist_def split: option.splits)

text \<open>In enforcing mode a query passes only if its fingerprint is non-empty and allowlisted and it
  breaks neither of the configured hard rules.\<close>

lemma enforce_allows_only_allowlisted:
  assumes "gc_mode (gr_config reg) = GM_Enforce"
    and "evaluate next_key view reg analysis sql = Some (GD_Allow, reg')"
  shows "\<exists>f. fingerprint_sql sql = Some f \<and> f \<noteq> [] \<and> f \<in> gr_allowlist reg' \<and>
    \<not> (gc_block_ddl (gr_config reg) \<and> is_ddl sql) \<and>
    \<not> (gc_block_unqualified_dml (gr_config reg) \<and> sa_query_class analysis = QC_Write \<and> is_unqualified_dml sql)"
  using assms by (auto simp: evaluate_def Let_def split: option.splits if_splits)

lemma observe_bound:
  assumes "finite (dom obs)" "card (dom obs) \<le> MAX_OBSERVATIONS" "dom obs \<noteq> {} \<Longrightarrow> next_key obs \<in> dom obs"
  shows "finite (dom (observe next_key obs f)) \<and> card (dom (observe next_key obs f)) \<le> MAX_OBSERVATIONS"
proof (cases "card (dom obs) \<ge> MAX_OBSERVATIONS \<and> f \<notin> dom obs")
  case True
  then have ne: "dom obs \<noteq> {}" by (auto simp: MAX_OBSERVATIONS_def)
  then have "card (insert f (dom obs - {next_key obs})) \<le> MAX_OBSERVATIONS"
    using assms True by (simp add: card_Diff_singleton card_insert_if MAX_OBSERVATIONS_def)
  moreover have "dom (observe next_key obs f) = insert f (dom obs - {next_key obs})"
    using True ne by (auto simp: observe_def Let_def)
  ultimately show ?thesis using assms(1) by simp
next
  case False
  then have "dom (observe next_key obs f) = insert f (dom obs)" by (auto simp: observe_def Let_def)
  then show ?thesis using False assms by (auto simp: card_insert_if insert_absorb)
qed

definition observations_bounded :: "guardrail_registry \<Rightarrow> bool" where
  "observations_bounded reg \<longleftrightarrow>
     finite (dom (gr_observations reg)) \<and> card (dom (gr_observations reg)) \<le> MAX_OBSERVATIONS"

lemma enforce_allows_only_allowlisted_witness:
  "let reg = \<lparr>gr_config = \<lparr>gc_mode = GM_Enforce, gc_block_unqualified_dml = True, gc_block_ddl = True, gc_allowlist_file = None\<rparr>,
         gr_allowlist = {lit ''select ?''}, gr_observations = Map.empty, gr_loaded_mtime = None\<rparr>;
       view = \<lparr>av_mtime = None, av_len = None, av_content = None\<rparr>;
       analysis = \<lparr>sa_query_class = QC_ReadCandidate, sa_routing_hint = RH_None\<rparr>
   in \<exists>reg'. evaluate (\<lambda>_. []) view reg analysis (lit ''SELECT 1'') = Some (GD_Allow, reg') \<and>
        (\<exists>f. fingerprint_sql (lit ''SELECT 1'') = Some f \<and> f \<noteq> [] \<and> f \<in> gr_allowlist reg')"
proof -
  let ?reg = "\<lparr>gr_config = \<lparr>gc_mode = GM_Enforce, gc_block_unqualified_dml = True, gc_block_ddl = True, gc_allowlist_file = None\<rparr>,
         gr_allowlist = {lit ''select ?''}, gr_observations = Map.empty, gr_loaded_mtime = None\<rparr>"
  let ?view = "\<lparr>av_mtime = None, av_len = None, av_content = None\<rparr>"
  let ?analysis = "\<lparr>sa_query_class = QC_ReadCandidate, sa_routing_hint = RH_None\<rparr>"
  have "\<exists>reg'. evaluate (\<lambda>_. []) ?view ?reg ?analysis (lit ''SELECT 1'') = Some (GD_Allow, reg')"
    by (simp add: evaluate_def refresh_allowlist_if_changed_def Let_def token_eval)
  then obtain reg' where e: "evaluate (\<lambda>_. []) ?view ?reg ?analysis (lit ''SELECT 1'') = Some (GD_Allow, reg')" ..
  from enforce_allows_only_allowlisted [OF _ e] e show ?thesis unfolding Let_def by auto
qed

text \<open>Whatever queries arrive, the observation table stays within its limit of 256 entries: every
  evaluation preserves the bound, evicting an entry where the table is full.\<close>

lemma evaluate_keeps_observations_bounded:
  assumes "observations_bounded reg"
    and "dom (gr_observations reg) \<noteq> {} \<Longrightarrow> next_key (gr_observations reg) \<in> dom (gr_observations reg)"
    and "evaluate next_key view reg analysis sql = Some (decision, reg')"
  shows "observations_bounded reg'"
proof -
  have "gr_observations reg' = gr_observations reg \<or>
      (\<exists>f. gr_observations reg' = observe next_key (gr_observations reg) f)"
    using assms(3) by (auto simp: evaluate_def Let_def split: option.splits if_splits)
  then show ?thesis using assms(1,2) observe_bound unfolding observations_bounded_def by metis
qed

lemma evaluate_keeps_observations_bounded_witness:
  "let reg = \<lparr>gr_config = \<lparr>gc_mode = GM_Observe, gc_block_unqualified_dml = True, gc_block_ddl = True, gc_allowlist_file = None\<rparr>,
         gr_allowlist = {}, gr_observations = [lit ''show x'' \<mapsto> 3], gr_loaded_mtime = None\<rparr>;
       view = \<lparr>av_mtime = None, av_len = None, av_content = None\<rparr>;
       analysis = \<lparr>sa_query_class = QC_ReadCandidate, sa_routing_hint = RH_None\<rparr>
   in \<exists>d reg'. evaluate (\<lambda>_. lit ''show x'') view reg analysis (lit ''SELECT 1'') = Some (d, reg') \<and> observations_bounded reg'"
proof -
  let ?reg = "\<lparr>gr_config = \<lparr>gc_mode = GM_Observe, gc_block_unqualified_dml = True, gc_block_ddl = True, gc_allowlist_file = None\<rparr>,
         gr_allowlist = {}, gr_observations = [lit ''show x'' \<mapsto> 3], gr_loaded_mtime = None\<rparr>"
  let ?view = "\<lparr>av_mtime = None, av_len = None, av_content = None\<rparr>"
  let ?analysis = "\<lparr>sa_query_class = QC_ReadCandidate, sa_routing_hint = RH_None\<rparr>"
  have b: "observations_bounded ?reg" by (simp add: observations_bounded_def MAX_OBSERVATIONS_def)
  have "\<exists>d reg'. evaluate (\<lambda>_. lit ''show x'') ?view ?reg ?analysis (lit ''SELECT 1'') = Some (d, reg')"
    by (simp add: evaluate_def refresh_allowlist_if_changed_def Let_def token_eval)
  then obtain d reg' where e: "evaluate (\<lambda>_. lit ''show x'') ?view ?reg ?analysis (lit ''SELECT 1'') = Some (d, reg')" by blast
  from evaluate_keeps_observations_bounded [OF b _ e] e show ?thesis unfolding Let_def by auto
qed

lemma allowlist_entries_bound:
  "allowlist_entries entries lines = Some es \<Longrightarrow> finite entries \<Longrightarrow> card entries \<le> MAX_ALLOWLIST_ENTRIES \<Longrightarrow>
     \<forall>e\<in>entries. str_len e \<le> MAX_FINGERPRINT_BYTES \<Longrightarrow>
     finite es \<and> card es \<le> MAX_ALLOWLIST_ENTRIES \<and> (\<forall>e\<in>es. str_len e \<le> MAX_FINGERPRINT_BYTES)"
  by (induction entries lines rule: allowlist_entries.induct) (auto simp: card_insert_if split: if_splits)

lemma load_allowlist_bound:
  "load_allowlist view = Some (es, mtime) \<Longrightarrow>
     finite es \<and> card es \<le> MAX_ALLOWLIST_ENTRIES \<and> (\<forall>e\<in>es. str_len e \<le> MAX_FINGERPRINT_BYTES)"
  using allowlist_entries_bound [of "{}"]
  by (fastforce simp: load_allowlist_def split: option.splits if_splits)

end
