(* ===== verification/Rust_Std.thy ===== *)
theory Rust_Std
  imports Rust_Str
begin

text \<open>
  Further parts of Rust's standard library that the policy, routing and operations layers use:
  \<open>str::parse\<close> for an unsigned integer of a given width, the \<open>Debug\<close> text of a \<open>Duration\<close>
  (kept in nanoseconds), \<open>Iterator::min_by_key\<close>, and joining texts with a separator.
\<close>

section \<open>Integers\<close>

definition parse_uint :: "nat \<Rightarrow> rstr \<Rightarrow> nat option" where
  "parse_uint w s =
     (let digits = (if s \<noteq> [] \<and> hd s = 43 then tl s else s) in
      if digits = [] \<or> \<not> list_all is_ascii_digit digits then None
      else if decimal_value 0 digits < 2 ^ w then Some (decimal_value 0 digits) else None)"

lemma parse_uint_fmt: "n < 2 ^ w \<Longrightarrow> parse_uint w (fmt_decimal n) = Some n"
proof -
  have d: "fmt_decimal n \<noteq> []" "\<forall>c\<in>set (fmt_decimal n). is_ascii_digit c"
    using fmt_decimal_digits by auto
  then have "is_ascii_digit (hd (fmt_decimal n))" by simp
  then have "hd (fmt_decimal n) \<noteq> 43" by (auto simp: is_ascii_digit_def)
  moreover assume "n < 2 ^ w"
  ultimately show ?thesis
    using d by (simp add: parse_uint_def decimal_value_fmt list_all_iff)
qed

lemma parse_uint_bound: "parse_uint w s = Some n \<Longrightarrow> n < 2 ^ w"
  by (auto simp: parse_uint_def Let_def split: if_splits)

lemma parse_u32_uint: "parse_u32 = parse_uint 32"
  by (rule ext) (simp add: parse_u32_def parse_uint_def)

definition u64_max :: nat where
  "u64_max = 2 ^ 64 - 1"

definition sat_add64 :: "nat \<Rightarrow> nat \<Rightarrow> nat" where
  "sat_add64 a b = min u64_max (a + b)"

lemma sat_add64_bound [simp]: "sat_add64 a b \<le> u64_max"
  by (simp add: sat_add64_def)

lemma sat_add64_exact: "a + b \<le> u64_max \<Longrightarrow> sat_add64 a b = a + b"
  by (simp add: sat_add64_def)

section \<open>Durations\<close>

text \<open>The fractional digits of a number below \<open>10 ^ w\<close>, trailing zeros removed.\<close>

fun pad_digits :: "nat \<Rightarrow> nat \<Rightarrow> rstr" where
  "pad_digits 0 n = []"
| "pad_digits (Suc w) n = pad_digits w (n div 10) @ [48 + n mod 10]"

definition fmt_fraction :: "nat \<Rightarrow> nat \<Rightarrow> rstr" where
  "fmt_fraction w n =
     (let digits = trim_end_matches_char (pad_digits w n) 48 in
      if digits = [] then [] else 46 # digits)"

definition fmt_duration_debug :: "nat \<Rightarrow> rstr" where
  "fmt_duration_debug ns =
     (if ns \<ge> 1000000000 then fmt_decimal (ns div 1000000000) @ fmt_fraction 9 (ns mod 1000000000) @ lit ''s''
      else if ns \<ge> 1000000 then fmt_decimal (ns div 1000000) @ fmt_fraction 6 (ns mod 1000000) @ lit ''ms''
      else if ns \<ge> 1000 then fmt_decimal (ns div 1000) @ fmt_fraction 3 (ns mod 1000) @ [181, 115]
      else fmt_decimal ns @ lit ''ns'')"

definition millis :: "nat \<Rightarrow> nat" where
  "millis n = n * 1000000"

section \<open>Lists\<close>

text \<open>\<open>min_by_key\<close> returns the first of the elements with the least key.\<close>

fun min_by_key :: "('a \<Rightarrow> 'k::linorder) \<Rightarrow> 'a list \<Rightarrow> 'a option" where
  "min_by_key k [] = None"
| "min_by_key k (x # xs) =
     (case min_by_key k xs of None \<Rightarrow> Some x | Some y \<Rightarrow> Some (if k x \<le> k y then x else y))"

lemma min_by_key_None [simp]: "min_by_key k xs = None \<longleftrightarrow> xs = []"
  by (induction xs) (auto split: option.splits)

lemma min_by_key_in: "min_by_key k xs = Some y \<Longrightarrow> y \<in> set xs"
  by (induction xs arbitrary: y) (auto split: option.splits if_splits)

lemma min_by_key_least: "min_by_key k xs = Some y \<Longrightarrow> x \<in> set xs \<Longrightarrow> k y \<le> k x"
proof (induction xs arbitrary: y)
  case (Cons a xs)
  show ?case
  proof (cases "min_by_key k xs")
    case None
    with Cons show ?thesis by simp
  next
    case (Some z)
    have "k z \<le> k x" if "x \<in> set xs" using Cons.IH [OF Some that] .
    with Cons.prems Some show ?thesis by (auto split: if_splits)
  qed
qed simp

text \<open>\<open>max_by_key\<close> returns the last of the elements with the greatest key.\<close>

fun max_by_key :: "('a \<Rightarrow> 'k::linorder) \<Rightarrow> 'a list \<Rightarrow> 'a option" where
  "max_by_key k [] = None"
| "max_by_key k (x # xs) =
     (case max_by_key k xs of None \<Rightarrow> Some x | Some y \<Rightarrow> Some (if k y < k x then x else y))"

lemma max_by_key_in: "max_by_key k xs = Some y \<Longrightarrow> y \<in> set xs"
  by (induction xs arbitrary: y) (auto split: option.splits if_splits)

fun join_with :: "rstr \<Rightarrow> rstr list \<Rightarrow> rstr" where
  "join_with sep [] = []"
| "join_with sep [x] = x"
| "join_with sep (x # y # xs) = x @ sep @ join_with sep (y # xs)"

lemma str_len_append [simp]: "str_len (a @ b) = str_len a + str_len b"
  by (simp add: str_len_def)

lemma str_len_Cons [simp]: "str_len (c # s) = utf8_len c + str_len s"
  by (simp add: str_len_def)

lemma str_len_Nil [simp]: "str_len [] = 0"
  by (simp add: str_len_def)

lemma str_len_eq_0 [simp]: "str_len s = 0 \<longleftrightarrow> s = []"
  by (cases s) (auto simp: utf8_len_def)

lemma join_with_Cons: "join_with sep (x # xs) = x @ concat (map (\<lambda>y. sep @ y) xs)"
  by (induction xs arbitrary: x) auto

lemma str_len_concat: "str_len (concat xs) = sum_list (map str_len xs)"
  by (induction xs) auto

end
