(* ===== verification/Policy_Model.thy ===== *)
theory Policy_Model
  imports Rust_Std Routing_Model
begin

text \<open>
  The policy vocabulary of \<open>traffic/policy.rs\<close>: validated identifiers and versions, modes and
  their failure behaviour, the plugin interface with its size accounting, the actions and
  decisions, and the context that is rendered into audit events. Secret context fields keep
  their value in memory but render as a fixed text; the byte count the limits are checked
  against is the length of the rendered text.
\<close>

section \<open>Labels\<close>

datatype policy_validation_error_code =
    PVE_EmptyPolicyId
  | PVE_InvalidPolicyVersion
  | PVE_EmptyTargetId

fun policy_validation_error_code_as_str :: "policy_validation_error_code \<Rightarrow> rstr" where
  "policy_validation_error_code_as_str PVE_EmptyPolicyId = lit ''empty_policy_id''"
| "policy_validation_error_code_as_str PVE_InvalidPolicyVersion = lit ''invalid_policy_version''"
| "policy_validation_error_code_as_str PVE_EmptyTargetId = lit ''empty_target_id''"

interpretation policy_validation_error_code: labelled policy_validation_error_code_as_str
proof unfold_locales
  fix x y show "policy_validation_error_code_as_str x = policy_validation_error_code_as_str y \<Longrightarrow> x = y"
    by (cases x; cases y) (simp_all add: lit_def)
qed

datatype policy_mode = PMD_Disabled | PMD_Enforce | PMD_DryRun

fun policy_mode_as_str :: "policy_mode \<Rightarrow> rstr" where
  "policy_mode_as_str PMD_Disabled = lit ''disabled''"
| "policy_mode_as_str PMD_Enforce = lit ''enforce''"
| "policy_mode_as_str PMD_DryRun = lit ''dry_run''"

interpretation policy_mode: labelled policy_mode_as_str
proof unfold_locales
  fix x y show "policy_mode_as_str x = policy_mode_as_str y \<Longrightarrow> x = y"
    by (cases x; cases y) (simp_all add: lit_def)
qed

datatype policy_failure_mode = PFM_FailClosed | PFM_FailOpen | PFM_DisablePolicy

fun policy_failure_mode_as_str :: "policy_failure_mode \<Rightarrow> rstr" where
  "policy_failure_mode_as_str PFM_FailClosed = lit ''fail_closed''"
| "policy_failure_mode_as_str PFM_FailOpen = lit ''fail_open''"
| "policy_failure_mode_as_str PFM_DisablePolicy = lit ''disable_policy''"

interpretation policy_failure_mode: labelled policy_failure_mode_as_str
proof unfold_locales
  fix x y show "policy_failure_mode_as_str x = policy_failure_mode_as_str y \<Longrightarrow> x = y"
    by (cases x; cases y) (simp_all add: lit_def)
qed

datatype policy_plugin_error_code =
    PPE_UnknownAbiVersion
  | PPE_InputTooLarge
  | PPE_OutputTooLarge
  | PPE_EvaluationTimeout
  | PPE_FilesystemAccessDenied
  | PPE_NetworkAccessDenied
  | PPE_SecretAccessDenied
  | PPE_UnsupportedAction
  | PPE_OutputValidationFailed

fun policy_plugin_error_code_as_str :: "policy_plugin_error_code \<Rightarrow> rstr" where
  "policy_plugin_error_code_as_str PPE_UnknownAbiVersion = lit ''unknown_abi_version''"
| "policy_plugin_error_code_as_str PPE_InputTooLarge = lit ''input_too_large''"
| "policy_plugin_error_code_as_str PPE_OutputTooLarge = lit ''output_too_large''"
| "policy_plugin_error_code_as_str PPE_EvaluationTimeout = lit ''evaluation_timeout''"
| "policy_plugin_error_code_as_str PPE_FilesystemAccessDenied = lit ''filesystem_access_denied''"
| "policy_plugin_error_code_as_str PPE_NetworkAccessDenied = lit ''network_access_denied''"
| "policy_plugin_error_code_as_str PPE_SecretAccessDenied = lit ''secret_access_denied''"
| "policy_plugin_error_code_as_str PPE_UnsupportedAction = lit ''unsupported_action''"
| "policy_plugin_error_code_as_str PPE_OutputValidationFailed = lit ''output_validation_failed''"

interpretation policy_plugin_error_code: labelled policy_plugin_error_code_as_str
proof unfold_locales
  fix x y show "policy_plugin_error_code_as_str x = policy_plugin_error_code_as_str y \<Longrightarrow> x = y"
    by (cases x; cases y) (simp_all add: lit_def)
qed

datatype policy_hook_point = PHP_BeforeRouting | PHP_AfterRouting | PHP_BeforeCheckout

fun policy_hook_point_as_str :: "policy_hook_point \<Rightarrow> rstr" where
  "policy_hook_point_as_str PHP_BeforeRouting = lit ''before_routing''"
| "policy_hook_point_as_str PHP_AfterRouting = lit ''after_routing''"
| "policy_hook_point_as_str PHP_BeforeCheckout = lit ''before_checkout''"

interpretation policy_hook_point: labelled policy_hook_point_as_str
proof unfold_locales
  fix x y show "policy_hook_point_as_str x = policy_hook_point_as_str y \<Longrightarrow> x = y"
    by (cases x; cases y) (simp_all add: lit_def)
qed

datatype policy_decision_reason =
    PDR_PolicyDenied
  | PDR_ValidationFailed
  | PDR_TargetIdInvalid
  | PDR_ContextRedacted

fun policy_decision_reason_as_str :: "policy_decision_reason \<Rightarrow> rstr" where
  "policy_decision_reason_as_str PDR_PolicyDenied = lit ''policy_denied''"
| "policy_decision_reason_as_str PDR_ValidationFailed = lit ''validation_failed''"
| "policy_decision_reason_as_str PDR_TargetIdInvalid = lit ''target_id_invalid''"
| "policy_decision_reason_as_str PDR_ContextRedacted = lit ''context_redacted''"

interpretation policy_decision_reason: labelled policy_decision_reason_as_str
proof unfold_locales
  fix x y show "policy_decision_reason_as_str x = policy_decision_reason_as_str y \<Longrightarrow> x = y"
    by (cases x; cases y) (simp_all add: lit_def)
qed

datatype policy_effect =
    PEF_NoChange
  | PEF_Deny
  | PEF_RequirePrimary
  | PEF_RequireReplica
  | PEF_RouteOverride
  | PEF_ShardOverride

fun policy_effect_as_str :: "policy_effect \<Rightarrow> rstr" where
  "policy_effect_as_str PEF_NoChange = lit ''no_change''"
| "policy_effect_as_str PEF_Deny = lit ''deny''"
| "policy_effect_as_str PEF_RequirePrimary = lit ''require_primary''"
| "policy_effect_as_str PEF_RequireReplica = lit ''require_replica''"
| "policy_effect_as_str PEF_RouteOverride = lit ''route_override''"
| "policy_effect_as_str PEF_ShardOverride = lit ''shard_override''"

interpretation policy_effect: labelled policy_effect_as_str
proof unfold_locales
  fix x y show "policy_effect_as_str x = policy_effect_as_str y \<Longrightarrow> x = y"
    by (cases x; cases y) (simp_all add: lit_def)
qed

datatype policy_outcome = PO_Applied | PO_DryRun | PO_Rejected | PO_Skipped | PO_Redacted

fun policy_outcome_as_str :: "policy_outcome \<Rightarrow> rstr" where
  "policy_outcome_as_str PO_Applied = lit ''applied''"
| "policy_outcome_as_str PO_DryRun = lit ''dry_run''"
| "policy_outcome_as_str PO_Rejected = lit ''rejected''"
| "policy_outcome_as_str PO_Skipped = lit ''skipped''"
| "policy_outcome_as_str PO_Redacted = lit ''redacted''"

interpretation policy_outcome: labelled policy_outcome_as_str
proof unfold_locales
  fix x y show "policy_outcome_as_str x = policy_outcome_as_str y \<Longrightarrow> x = y"
    by (cases x; cases y) (simp_all add: lit_def)
qed

datatype policy_audit_kind = PAK_Decision | PAK_Validation | PAK_Redaction | PAK_Error

fun policy_audit_kind_as_str :: "policy_audit_kind \<Rightarrow> rstr" where
  "policy_audit_kind_as_str PAK_Decision = lit ''decision''"
| "policy_audit_kind_as_str PAK_Validation = lit ''validation''"
| "policy_audit_kind_as_str PAK_Redaction = lit ''redaction''"
| "policy_audit_kind_as_str PAK_Error = lit ''error''"

interpretation policy_audit_kind: labelled policy_audit_kind_as_str
proof unfold_locales
  fix x y show "policy_audit_kind_as_str x = policy_audit_kind_as_str y \<Longrightarrow> x = y"
    by (cases x; cases y) (simp_all add: lit_def)
qed

section \<open>Identifiers and versions\<close>

record policy_validation_error =
  pve_code :: policy_validation_error_code
  pve_message :: rstr

definition validate_non_empty ::
  "rstr \<Rightarrow> policy_validation_error_code \<Rightarrow> rstr \<Rightarrow> policy_validation_error + rstr" where
  "validate_non_empty value code label =
     (if value = [] then Inl \<lparr>pve_code = code, pve_message = label @ lit '' cannot be empty''\<rparr>
      else Inr value)"

datatype policy_id = PolicyId rstr

fun policy_id_as_str :: "policy_id \<Rightarrow> rstr" where
  "policy_id_as_str (PolicyId s) = s"

definition policy_id_new :: "rstr \<Rightarrow> policy_validation_error + policy_id" where
  "policy_id_new value =
     and_then (validate_non_empty value PVE_EmptyPolicyId (lit ''policy id'')) (\<lambda>v. Inr (PolicyId v))"

datatype policy_version = PolicyVersion nat

fun policy_version_as_u64 :: "policy_version \<Rightarrow> nat" where
  "policy_version_as_u64 (PolicyVersion n) = n"

definition policy_version_new :: "nat \<Rightarrow> policy_validation_error + policy_version" where
  "policy_version_new value =
     (if value = 0 then
        Inl \<lparr>pve_code = PVE_InvalidPolicyVersion,
             pve_message = lit ''policy version must be greater than zero''\<rparr>
      else Inr (PolicyVersion value))"

definition policy_version_display :: "policy_version \<Rightarrow> rstr" where
  "policy_version_display v = fmt_decimal (policy_version_as_u64 v)"

definition policy_version_from_str :: "rstr \<Rightarrow> policy_validation_error + policy_version" where
  "policy_version_from_str value =
     and_then
       (ok_or (parse_uint 64 value)
          \<lparr>pve_code = PVE_InvalidPolicyVersion,
           pve_message = lit ''policy version must be a positive integer''\<rparr>)
       policy_version_new"

datatype policy_route_target_id = PolicyRouteTargetId rstr

fun policy_route_target_id_as_str :: "policy_route_target_id \<Rightarrow> rstr" where
  "policy_route_target_id_as_str (PolicyRouteTargetId s) = s"

definition policy_route_target_id_new :: "rstr \<Rightarrow> policy_validation_error + policy_route_target_id" where
  "policy_route_target_id_new value =
     and_then (validate_non_empty value PVE_EmptyTargetId (lit ''route target id''))
       (\<lambda>v. Inr (PolicyRouteTargetId v))"

datatype policy_shard_target_id = PolicyShardTargetId rstr

fun policy_shard_target_id_as_str :: "policy_shard_target_id \<Rightarrow> rstr" where
  "policy_shard_target_id_as_str (PolicyShardTargetId s) = s"

definition policy_shard_target_id_new :: "rstr \<Rightarrow> policy_validation_error + policy_shard_target_id" where
  "policy_shard_target_id_new value =
     and_then (validate_non_empty value PVE_EmptyTargetId (lit ''shard target id''))
       (\<lambda>v. Inr (PolicyShardTargetId v))"

section \<open>Actions\<close>

datatype policy_action =
    PA_Allow
  | PA_Deny policy_decision_reason rstr
  | PA_RequirePrimary
  | PA_RequireReplica
  | PA_RouteOverride policy_route_target_id
  | PA_ShardOverride policy_shard_target_id

definition POLICY_DENY_SQLSTATE :: rstr where
  "POLICY_DENY_SQLSTATE = lit ''P0001''"

definition policy_action_deny :: policy_action where
  "policy_action_deny = PA_Deny PDR_PolicyDenied POLICY_DENY_SQLSTATE"

fun would_reason :: "policy_action \<Rightarrow> rstr" where
  "would_reason PA_Allow = lit ''would_allow''"
| "would_reason (PA_Deny r s) = lit ''would_deny''"
| "would_reason PA_RequirePrimary = lit ''would_require_primary''"
| "would_reason PA_RequireReplica = lit ''would_require_replica''"
| "would_reason (PA_RouteOverride t) = lit ''would_override''"
| "would_reason (PA_ShardOverride t) = lit ''would_override''"

fun effective_reason :: "policy_action \<Rightarrow> rstr" where
  "effective_reason PA_Allow = lit ''allow''"
| "effective_reason (PA_Deny r s) = policy_decision_reason_as_str r"
| "effective_reason PA_RequirePrimary = lit ''require_primary''"
| "effective_reason PA_RequireReplica = lit ''require_replica''"
| "effective_reason (PA_RouteOverride t) = lit ''route_override''"
| "effective_reason (PA_ShardOverride t) = lit ''shard_override''"

definition audit_reason :: "policy_action \<Rightarrow> policy_outcome \<Rightarrow> rstr" where
  "audit_reason action outcome =
     (if outcome = PO_DryRun then would_reason action else effective_reason action)"

fun policy_action_as_str :: "policy_action \<Rightarrow> rstr" where
  "policy_action_as_str PA_Allow = lit ''allow''"
| "policy_action_as_str (PA_Deny r s) = lit ''deny''"
| "policy_action_as_str PA_RequirePrimary = lit ''require_primary''"
| "policy_action_as_str PA_RequireReplica = lit ''require_replica''"
| "policy_action_as_str (PA_RouteOverride t) = lit ''route_override''"
| "policy_action_as_str (PA_ShardOverride t) = lit ''shard_override''"

fun policy_action_effect :: "policy_action \<Rightarrow> policy_effect" where
  "policy_action_effect PA_Allow = PEF_NoChange"
| "policy_action_effect (PA_Deny r s) = PEF_Deny"
| "policy_action_effect PA_RequirePrimary = PEF_RequirePrimary"
| "policy_action_effect PA_RequireReplica = PEF_RequireReplica"
| "policy_action_effect (PA_RouteOverride t) = PEF_RouteOverride"
| "policy_action_effect (PA_ShardOverride t) = PEF_ShardOverride"

fun overrides_routing :: "policy_action \<Rightarrow> bool" where
  "overrides_routing PA_Allow = False"
| "overrides_routing (PA_Deny r s) = False"
| "overrides_routing _ = True"

fun default_for_policy_mode :: "policy_mode \<Rightarrow> policy_failure_mode" where
  "default_for_policy_mode PMD_Enforce = PFM_FailClosed"
| "default_for_policy_mode PMD_Disabled = PFM_DisablePolicy"
| "default_for_policy_mode PMD_DryRun = PFM_DisablePolicy"

fun fallback_action :: "policy_failure_mode \<Rightarrow> policy_action option" where
  "fallback_action PFM_FailClosed = Some policy_action_deny"
| "fallback_action PFM_FailOpen = Some PA_Allow"
| "fallback_action PFM_DisablePolicy = None"

record policy_decision =
  pd_policy_id :: policy_id
  pd_policy_version :: policy_version
  pd_action :: policy_action
  pd_outcome :: policy_outcome
  pd_hook_point :: policy_hook_point
  pd_latency :: nat

section \<open>Context\<close>

datatype policy_context_field = PCF_Public rstr rstr | PCF_Secret rstr rstr

definition REDACTED_VALUE :: rstr where
  "REDACTED_VALUE = lit ''<redacted>''"

fun pcf_name :: "policy_context_field \<Rightarrow> rstr" where
  "pcf_name (PCF_Public n v) = n"
| "pcf_name (PCF_Secret n v) = n"

fun pcf_value :: "policy_context_field \<Rightarrow> rstr" where
  "pcf_value (PCF_Public n v) = v"
| "pcf_value (PCF_Secret n v) = v"

fun pcf_rendered_value :: "policy_context_field \<Rightarrow> rstr" where
  "pcf_rendered_value (PCF_Public n v) = v"
| "pcf_rendered_value (PCF_Secret n v) = REDACTED_VALUE"

definition pcf_rendered_len_bytes :: "policy_context_field \<Rightarrow> nat" where
  "pcf_rendered_len_bytes f = str_len (pcf_name f) + 1 + str_len (pcf_rendered_value f)"

fun pcf_is_secret :: "policy_context_field \<Rightarrow> bool" where
  "pcf_is_secret (PCF_Public n v) = False"
| "pcf_is_secret (PCF_Secret n v) = True"

definition pcf_display :: "policy_context_field \<Rightarrow> rstr" where
  "pcf_display f = pcf_name f @ lit ''='' @ pcf_rendered_value f"

record policy_context =
  pc_fields :: "policy_context_field list"

definition pc_push_field :: "policy_context \<Rightarrow> policy_context_field \<Rightarrow> policy_context" where
  "pc_push_field c f = c\<lparr>pc_fields := pc_fields c @ [f]\<rparr>"

fun fields_len_bytes :: "policy_context_field list \<Rightarrow> nat" where
  "fields_len_bytes [] = 0"
| "fields_len_bytes (f # rest) =
     pcf_rendered_len_bytes f + sum_list (map pcf_rendered_len_bytes rest) + length rest * 2"

definition pc_rendered_len_bytes :: "policy_context \<Rightarrow> nat" where
  "pc_rendered_len_bytes c = fields_len_bytes (pc_fields c)"

definition pc_display :: "policy_context \<Rightarrow> rstr" where
  "pc_display c = join_with (lit '', '') (map pcf_display (pc_fields c))"

definition context_field_value :: "policy_context \<Rightarrow> rstr \<Rightarrow> rstr option" where
  "context_field_value c field_name =
     map_option pcf_rendered_value (find (\<lambda>f. pcf_name f = field_name) (pc_fields c))"

record policy_audit_event =
  pae_kind :: policy_audit_kind
  pae_policy_id :: policy_id
  pae_policy_version :: policy_version
  pae_hook_point :: policy_hook_point
  pae_action :: policy_action
  pae_outcome :: policy_outcome
  pae_reason :: "rstr option"
  pae_route :: "rstr option"
  pae_shard :: "rstr option"
  pae_target_role :: "rstr option"
  pae_decision :: policy_decision
  pae_context :: policy_context

definition policy_audit_event_new ::
  "policy_audit_kind \<Rightarrow> policy_decision \<Rightarrow> policy_context \<Rightarrow> policy_audit_event" where
  "policy_audit_event_new kind d c =
     \<lparr>pae_kind = kind,
      pae_policy_id = pd_policy_id d,
      pae_policy_version = pd_policy_version d,
      pae_hook_point = pd_hook_point d,
      pae_action = pd_action d,
      pae_outcome = pd_outcome d,
      pae_reason = Some (audit_reason (pd_action d) (pd_outcome d)),
      pae_route = context_field_value c (lit ''route''),
      pae_shard = context_field_value c (lit ''shard''),
      pae_target_role = context_field_value c (lit ''backend_role''),
      pae_decision = d,
      pae_context = c\<rparr>"

section \<open>The plugin interface\<close>

datatype policy_plugin_abi_version = PPAV_V1

fun abi_version_as_u16 :: "policy_plugin_abi_version \<Rightarrow> nat" where
  "abi_version_as_u16 PPAV_V1 = 1"

record policy_plugin_error =
  ppe_code :: policy_plugin_error_code
  ppe_message :: rstr

fun error_code_outcome :: "policy_plugin_error_code \<Rightarrow> policy_outcome" where
  "error_code_outcome PPE_UnknownAbiVersion = PO_Rejected"
| "error_code_outcome PPE_UnsupportedAction = PO_Rejected"
| "error_code_outcome PPE_OutputValidationFailed = PO_Rejected"
| "error_code_outcome PPE_InputTooLarge = PO_Skipped"
| "error_code_outcome PPE_OutputTooLarge = PO_Skipped"
| "error_code_outcome PPE_EvaluationTimeout = PO_Skipped"
| "error_code_outcome PPE_FilesystemAccessDenied = PO_Skipped"
| "error_code_outcome PPE_NetworkAccessDenied = PO_Skipped"
| "error_code_outcome PPE_SecretAccessDenied = PO_Skipped"

definition plugin_error_outcome :: "policy_plugin_error \<Rightarrow> policy_outcome" where
  "plugin_error_outcome e = error_code_outcome (ppe_code e)"

definition unknown_abi_version :: "nat \<Rightarrow> policy_plugin_error" where
  "unknown_abi_version version =
     \<lparr>ppe_code = PPE_UnknownAbiVersion,
      ppe_message = lit ''unknown policy plugin ABI version '' @ fmt_decimal version\<rparr>"

definition input_too_large :: "nat \<Rightarrow> nat \<Rightarrow> policy_plugin_error" where
  "input_too_large n limit =
     \<lparr>ppe_code = PPE_InputTooLarge,
      ppe_message = lit ''policy plugin input exceeds '' @ fmt_decimal limit @ lit '' bytes (got ''
        @ fmt_decimal n @ lit '')''\<rparr>"

definition output_too_large :: "nat \<Rightarrow> nat \<Rightarrow> policy_plugin_error" where
  "output_too_large n limit =
     \<lparr>ppe_code = PPE_OutputTooLarge,
      ppe_message = lit ''policy plugin output exceeds '' @ fmt_decimal limit @ lit '' bytes (got ''
        @ fmt_decimal n @ lit '')''\<rparr>"

definition evaluation_timeout :: "nat \<Rightarrow> nat \<Rightarrow> policy_plugin_error" where
  "evaluation_timeout elapsed limit =
     \<lparr>ppe_code = PPE_EvaluationTimeout,
      ppe_message = lit ''policy plugin evaluation exceeded '' @ fmt_duration_debug limit
        @ lit '' (elapsed '' @ fmt_duration_debug elapsed @ lit '')''\<rparr>"

definition filesystem_access_denied :: policy_plugin_error where
  "filesystem_access_denied =
     \<lparr>ppe_code = PPE_FilesystemAccessDenied,
      ppe_message = lit ''policy plugin filesystem access is not allowed''\<rparr>"

definition network_access_denied :: policy_plugin_error where
  "network_access_denied =
     \<lparr>ppe_code = PPE_NetworkAccessDenied,
      ppe_message = lit ''policy plugin network access is not allowed''\<rparr>"

definition secret_access_denied :: policy_plugin_error where
  "secret_access_denied =
     \<lparr>ppe_code = PPE_SecretAccessDenied,
      ppe_message = lit ''policy plugin secret access is not allowed''\<rparr>"

definition unsupported_action :: "rstr \<Rightarrow> policy_plugin_error" where
  "unsupported_action action =
     \<lparr>ppe_code = PPE_UnsupportedAction,
      ppe_message = lit ''policy plugin action '' @ [39] @ action @ [39] @ lit '' is not supported''\<rparr>"

definition output_validation_failed :: "rstr \<Rightarrow> policy_plugin_error" where
  "output_validation_failed message =
     \<lparr>ppe_code = PPE_OutputValidationFailed, ppe_message = message\<rparr>"

definition abi_version_try_from :: "nat \<Rightarrow> policy_plugin_error + policy_plugin_abi_version" where
  "abi_version_try_from value =
     (if value = 1 then Inr PPAV_V1 else Inl (unknown_abi_version value))"

record policy_plugin_access_request =
  ppar_filesystem :: bool
  ppar_network :: bool
  ppar_secret :: bool

definition access_request_none :: policy_plugin_access_request where
  "access_request_none = \<lparr>ppar_filesystem = False, ppar_network = False, ppar_secret = False\<rparr>"

record policy_plugin_input =
  ppi_abi_version :: policy_plugin_abi_version
  ppi_policy_id :: policy_id
  ppi_policy_version :: policy_version
  ppi_hook_point :: policy_hook_point
  ppi_context :: policy_context
  ppi_requested_access :: policy_plugin_access_request

definition plugin_input_new ::
  "nat \<Rightarrow> policy_id \<Rightarrow> policy_version \<Rightarrow> policy_hook_point \<Rightarrow> policy_context
    \<Rightarrow> policy_plugin_access_request \<Rightarrow> policy_plugin_error + policy_plugin_input" where
  "plugin_input_new abi pid ver hook ctx access =
     and_then (abi_version_try_from abi) (\<lambda>a.
       Inr \<lparr>ppi_abi_version = a, ppi_policy_id = pid, ppi_policy_version = ver,
            ppi_hook_point = hook, ppi_context = ctx, ppi_requested_access = access\<rparr>)"

definition plugin_input_len_bytes :: "policy_plugin_input \<Rightarrow> nat" where
  "plugin_input_len_bytes i =
     str_len (fmt_decimal (abi_version_as_u16 (ppi_abi_version i)))
     + str_len (policy_id_as_str (ppi_policy_id i))
     + str_len (fmt_decimal (policy_version_as_u64 (ppi_policy_version i)))
     + str_len (policy_hook_point_as_str (ppi_hook_point i))
     + pc_rendered_len_bytes (ppi_context i)
     + 3"

datatype policy_plugin_action =
    PPA_Allow
  | PPA_Deny rstr
  | PPA_RequirePrimary
  | PPA_RequireReplica
  | PPA_RouteOverride policy_route_target_id
  | PPA_ShardOverride policy_shard_target_id
  | PPA_Unsupported rstr

fun plugin_action_is_supported :: "policy_plugin_action \<Rightarrow> bool" where
  "plugin_action_is_supported (PPA_Unsupported n) = False"
| "plugin_action_is_supported _ = True"

fun plugin_action_as_str :: "policy_plugin_action \<Rightarrow> rstr" where
  "plugin_action_as_str PPA_Allow = lit ''allow''"
| "plugin_action_as_str (PPA_Deny r) = lit ''deny''"
| "plugin_action_as_str PPA_RequirePrimary = lit ''require_primary''"
| "plugin_action_as_str PPA_RequireReplica = lit ''require_replica''"
| "plugin_action_as_str (PPA_RouteOverride t) = lit ''route_override''"
| "plugin_action_as_str (PPA_ShardOverride t) = lit ''shard_override''"
| "plugin_action_as_str (PPA_Unsupported n) = n"

fun plugin_action_len_bytes :: "policy_plugin_action \<Rightarrow> nat" where
  "plugin_action_len_bytes (PPA_Deny r) = str_len (plugin_action_as_str (PPA_Deny r)) + str_len r"
| "plugin_action_len_bytes (PPA_RouteOverride t) =
     str_len (plugin_action_as_str (PPA_RouteOverride t)) + str_len (policy_route_target_id_as_str t)"
| "plugin_action_len_bytes (PPA_ShardOverride t) =
     str_len (plugin_action_as_str (PPA_ShardOverride t)) + str_len (policy_shard_target_id_as_str t)"
| "plugin_action_len_bytes (PPA_Unsupported n) = str_len n"
| "plugin_action_len_bytes a = str_len (plugin_action_as_str a)"

record policy_plugin_output =
  ppo_abi_version :: policy_plugin_abi_version
  ppo_policy_id :: policy_id
  ppo_policy_version :: policy_version
  ppo_hook_point :: policy_hook_point
  ppo_action :: policy_plugin_action
  ppo_outcome :: policy_outcome

definition plugin_output_new ::
  "nat \<Rightarrow> policy_id \<Rightarrow> policy_version \<Rightarrow> policy_hook_point \<Rightarrow> policy_plugin_action
    \<Rightarrow> policy_outcome \<Rightarrow> policy_plugin_error + policy_plugin_output" where
  "plugin_output_new abi pid ver hook action outcome =
     and_then (abi_version_try_from abi) (\<lambda>a.
       Inr \<lparr>ppo_abi_version = a, ppo_policy_id = pid, ppo_policy_version = ver,
            ppo_hook_point = hook, ppo_action = action, ppo_outcome = outcome\<rparr>)"

definition plugin_output_len_bytes :: "policy_plugin_output \<Rightarrow> nat" where
  "plugin_output_len_bytes p =
     str_len (fmt_decimal (abi_version_as_u16 (ppo_abi_version p)))
     + str_len (policy_id_as_str (ppo_policy_id p))
     + str_len (fmt_decimal (policy_version_as_u64 (ppo_policy_version p)))
     + str_len (policy_hook_point_as_str (ppo_hook_point p))
     + plugin_action_len_bytes (ppo_action p)
     + str_len (policy_outcome_as_str (ppo_outcome p))"

section \<open>Identifiers\<close>

lemma policy_id_new_iff: "policy_id_new s = Inr p \<longleftrightarrow> s \<noteq> [] \<and> p = PolicyId s"
  by (auto simp: policy_id_new_def validate_non_empty_def)

lemma policy_version_new_iff: "policy_version_new n = Inr v \<longleftrightarrow> 0 < n \<and> v = PolicyVersion n"
  by (auto simp: policy_version_new_def)

text \<open>Printing a version and reading it back gives the version, for every version \<open>new\<close> accepts.\<close>

lemma policy_version_text_roundtrip:
  "policy_version_new n = Inr v \<Longrightarrow> n \<le> u64_max
    \<Longrightarrow> policy_version_from_str (policy_version_display v) = Inr v"
  by (auto simp: policy_version_new_iff policy_version_from_str_def policy_version_display_def
      parse_uint_fmt u64_max_def)

lemma policy_version_from_str_range:
  "policy_version_from_str s = Inr v \<Longrightarrow> 0 < policy_version_as_u64 v \<and> policy_version_as_u64 v \<le> u64_max"
  by (auto simp: policy_version_from_str_def and_then_eq_Inr policy_version_new_iff u64_max_def
      dest: parse_uint_bound)

section \<open>Rendering\<close>

lemma pcf_display_len [simp]: "str_len (pcf_display f) = pcf_rendered_len_bytes f"
  by (simp add: pcf_display_def pcf_rendered_len_bytes_def lit_def utf8_len_def)

lemma fields_len_display: "fields_len_bytes fs = str_len (join_with (lit '', '') (map pcf_display fs))"
proof (cases fs)
  case (Cons f rest)
  have "str_len (concat (map (\<lambda>y. lit '', '' @ y) (map pcf_display rest)))
      = sum_list (map pcf_rendered_len_bytes rest) + length rest * 2"
    by (induction rest) (simp_all add: lit_def utf8_len_def)
  then show ?thesis by (simp add: Cons join_with_Cons)
qed simp

lemma pc_rendered_len_display: "pc_rendered_len_bytes c = str_len (pc_display c)"
  by (simp add: pc_rendered_len_bytes_def pc_display_def fields_len_display)

lemma fields_len_snoc:
  "fields_len_bytes (fs @ [f]) = fields_len_bytes fs + (if fs = [] then 0 else 2) + pcf_rendered_len_bytes f"
  by (cases fs) simp_all

text \<open>What a reader of the rendered context can tell apart: the secret values are erased.\<close>

fun pcf_erase :: "policy_context_field \<Rightarrow> policy_context_field" where
  "pcf_erase (PCF_Public n v) = PCF_Public n v"
| "pcf_erase (PCF_Secret n v) = PCF_Secret n []"

lemma pcf_erase_simps [simp]:
  "pcf_name (pcf_erase f) = pcf_name f"
  "pcf_rendered_value (pcf_erase f) = pcf_rendered_value f"
  "pcf_display (pcf_erase f) = pcf_display f"
  "pcf_rendered_len_bytes (pcf_erase f) = pcf_rendered_len_bytes f"
  by (cases f; simp add: pcf_display_def pcf_rendered_len_bytes_def)+

definition pc_erase :: "policy_context \<Rightarrow> policy_context" where
  "pc_erase c = c\<lparr>pc_fields := map pcf_erase (pc_fields c)\<rparr>"

lemma pc_display_erase: "pc_display (pc_erase c) = pc_display c"
  by (simp add: pc_display_def pc_erase_def comp_def)

lemma context_field_value_erase: "context_field_value (pc_erase c) n = context_field_value c n"
proof -
  have "map_option pcf_rendered_value (find (\<lambda>f. pcf_name f = n) (map pcf_erase fs))
      = map_option pcf_rendered_value (find (\<lambda>f. pcf_name f = n) fs)" for fs
    by (induction fs) auto
  then show ?thesis by (simp add: context_field_value_def pc_erase_def)
qed

text \<open>
  An audit event exposes no secret: whatever text and labels it carries outside the context
  it stores are the same for two contexts that differ in secret values only.
\<close>

lemma audit_event_hides_secrets:
  assumes "pc_erase c = pc_erase c'"
  shows "policy_audit_event_new k d c\<lparr>pae_context := x\<rparr> = policy_audit_event_new k d c'\<lparr>pae_context := x\<rparr>"
    and "pc_display c = pc_display c'"
  using context_field_value_erase [of c] context_field_value_erase [of c'] pc_display_erase [of c]
    pc_display_erase [of c'] assms
  by (simp_all add: policy_audit_event_new_def)

text \<open>A policy that fails closes the gate exactly when it is enforced.\<close>

lemma fallback_denies_iff_enforced:
  "fallback_action (default_for_policy_mode m) = Some policy_action_deny \<longleftrightarrow> m = PMD_Enforce"
  "fallback_action (default_for_policy_mode m) \<noteq> Some PA_Allow"
  by (cases m; simp add: policy_action_deny_def)+

end
