(* ===== verification/Policy_Rule.thy ===== *)
theory Policy_Rule
  imports Policy_Model
begin

text \<open>
  Declarative policy rules, \<open>traffic/policy_rule.rs\<close>: the context a rule is matched against,
  the match criteria with their builder methods, the rule actions with their audit and terminal
  flags, the evaluation of a rule set and its validation. The evaluation loop is proved equal to
  a reference that takes the matching rules up to the first terminal one; the validator accepts
  exactly the rule sets that are well formed.
\<close>

section \<open>Contexts and matches\<close>

record policy_rule_context =
  prc_database :: rstr
  prc_user :: rstr
  prc_application_name :: "rstr option"
  prc_route :: "rstr option"
  prc_shard :: "rstr option"
  prc_backend_role :: backend_role
  prc_query_class :: query_class
  prc_hook_point :: policy_hook_point
  prc_read_only_transaction :: bool
  prc_has_shard_key :: bool
  prc_policy_tags :: "rstr list"

definition policy_rule_context_default :: policy_rule_context where
  "policy_rule_context_default =
     \<lparr>prc_database = [], prc_user = [], prc_application_name = None, prc_route = None,
      prc_shard = None, prc_backend_role = BR_Unknown, prc_query_class = QC_Unknown,
      prc_hook_point = PHP_BeforeRouting, prc_read_only_transaction = False,
      prc_has_shard_key = False, prc_policy_tags = []\<rparr>"

record policy_rule_match =
  prm_databases :: "rstr list"
  prm_users :: "rstr list"
  prm_application_names :: "rstr list"
  prm_routes :: "rstr list"
  prm_shards :: "rstr list"
  prm_backend_roles :: "backend_role list"
  prm_query_classes :: "query_class list"
  prm_hook_points :: "policy_hook_point list"
  prm_read_only_transaction :: "bool option"
  prm_has_shard_key :: "bool option"
  prm_policy_tags :: "rstr list"
  prm_raw_sql_text :: "rstr list"

definition policy_rule_match_new :: policy_rule_match where
  "policy_rule_match_new =
     \<lparr>prm_databases = [], prm_users = [], prm_application_names = [], prm_routes = [],
      prm_shards = [], prm_backend_roles = [], prm_query_classes = [], prm_hook_points = [],
      prm_read_only_transaction = None, prm_has_shard_key = None, prm_policy_tags = [],
      prm_raw_sql_text = []\<rparr>"

definition match_database :: "rstr \<Rightarrow> policy_rule_match \<Rightarrow> policy_rule_match" where
  "match_database v m = m\<lparr>prm_databases := prm_databases m @ [v]\<rparr>"

definition match_user :: "rstr \<Rightarrow> policy_rule_match \<Rightarrow> policy_rule_match" where
  "match_user v m = m\<lparr>prm_users := prm_users m @ [v]\<rparr>"

definition match_application_name :: "rstr \<Rightarrow> policy_rule_match \<Rightarrow> policy_rule_match" where
  "match_application_name v m = m\<lparr>prm_application_names := prm_application_names m @ [v]\<rparr>"

definition match_route :: "rstr \<Rightarrow> policy_rule_match \<Rightarrow> policy_rule_match" where
  "match_route v m = m\<lparr>prm_routes := prm_routes m @ [v]\<rparr>"

definition match_shard :: "rstr \<Rightarrow> policy_rule_match \<Rightarrow> policy_rule_match" where
  "match_shard v m = m\<lparr>prm_shards := prm_shards m @ [v]\<rparr>"

definition match_backend_role :: "backend_role \<Rightarrow> policy_rule_match \<Rightarrow> policy_rule_match" where
  "match_backend_role v m = m\<lparr>prm_backend_roles := prm_backend_roles m @ [v]\<rparr>"

definition match_query_class :: "query_class \<Rightarrow> policy_rule_match \<Rightarrow> policy_rule_match" where
  "match_query_class v m = m\<lparr>prm_query_classes := prm_query_classes m @ [v]\<rparr>"

definition match_hook_point :: "policy_hook_point \<Rightarrow> policy_rule_match \<Rightarrow> policy_rule_match" where
  "match_hook_point v m = m\<lparr>prm_hook_points := prm_hook_points m @ [v]\<rparr>"

definition match_read_only_transaction :: "bool \<Rightarrow> policy_rule_match \<Rightarrow> policy_rule_match" where
  "match_read_only_transaction v m = m\<lparr>prm_read_only_transaction := Some v\<rparr>"

definition match_has_shard_key :: "bool \<Rightarrow> policy_rule_match \<Rightarrow> policy_rule_match" where
  "match_has_shard_key v m = m\<lparr>prm_has_shard_key := Some v\<rparr>"

definition match_policy_tag :: "rstr \<Rightarrow> policy_rule_match \<Rightarrow> policy_rule_match" where
  "match_policy_tag v m = m\<lparr>prm_policy_tags := prm_policy_tags m @ [v]\<rparr>"

definition match_raw_sql_text :: "rstr \<Rightarrow> policy_rule_match \<Rightarrow> policy_rule_match" where
  "match_raw_sql_text v m = m\<lparr>prm_raw_sql_text := prm_raw_sql_text m @ [v]\<rparr>"

definition match_is_empty :: "policy_rule_match \<Rightarrow> bool" where
  "match_is_empty m \<longleftrightarrow>
     prm_databases m = [] \<and> prm_users m = [] \<and> prm_application_names m = []
     \<and> prm_routes m = [] \<and> prm_shards m = [] \<and> prm_backend_roles m = []
     \<and> prm_query_classes m = [] \<and> prm_hook_points m = []
     \<and> prm_read_only_transaction m = None \<and> prm_has_shard_key m = None
     \<and> prm_policy_tags m = [] \<and> prm_raw_sql_text m = []"

definition matches_text_field :: "rstr list \<Rightarrow> rstr \<Rightarrow> bool" where
  "matches_text_field values actual \<longleftrightarrow> values = [] \<or> list_ex (\<lambda>v. v = actual) values"

fun matches_optional_text_field :: "rstr list \<Rightarrow> rstr option \<Rightarrow> bool" where
  "matches_optional_text_field values (Some actual) = matches_text_field values actual"
| "matches_optional_text_field values None = (values = [])"

definition matches_one_of :: "'a list \<Rightarrow> 'a \<Rightarrow> bool" where
  "matches_one_of values actual \<longleftrightarrow> values = [] \<or> actual \<in> set values"

fun matches_optional_bool :: "bool option \<Rightarrow> bool \<Rightarrow> bool" where
  "matches_optional_bool (Some expected) actual = (expected = actual)"
| "matches_optional_bool None actual = True"

definition matches_policy_tags :: "rstr list \<Rightarrow> rstr list \<Rightarrow> bool" where
  "matches_policy_tags expected actual =
     (if expected = [] then True
      else list_ex (\<lambda>actual_tag. list_ex (\<lambda>expected_tag. expected_tag = actual_tag) expected) actual)"

definition rule_matches :: "policy_rule_match \<Rightarrow> policy_rule_context \<Rightarrow> bool" where
  "rule_matches m c \<longleftrightarrow>
     matches_text_field (prm_databases m) (prc_database c)
     \<and> matches_text_field (prm_users m) (prc_user c)
     \<and> matches_optional_text_field (prm_application_names m) (prc_application_name c)
     \<and> matches_optional_text_field (prm_routes m) (prc_route c)
     \<and> matches_optional_text_field (prm_shards m) (prc_shard c)
     \<and> matches_one_of (prm_backend_roles m) (prc_backend_role c)
     \<and> matches_one_of (prm_query_classes m) (prc_query_class c)
     \<and> matches_one_of (prm_hook_points m) (prc_hook_point c)
     \<and> matches_optional_bool (prm_read_only_transaction m) (prc_read_only_transaction c)
     \<and> matches_optional_bool (prm_has_shard_key m) (prc_has_shard_key c)
     \<and> matches_policy_tags (prm_policy_tags m) (prc_policy_tags c)"

section \<open>Rule actions\<close>

text \<open>The two Boolean arguments are \<open>audit\<close> and \<open>terminal\<close>.\<close>

datatype policy_rule_action =
    PRA_Allow bool bool
  | PRA_Deny policy_decision_reason bool bool
  | PRA_RequirePrimary bool bool
  | PRA_RequireReplica bool bool
  | PRA_RouteOverride policy_route_target_id bool bool
  | PRA_ShardOverride policy_shard_target_id bool bool

definition rule_action_allow :: policy_rule_action where
  "rule_action_allow = PRA_Allow False True"

definition rule_action_deny :: policy_rule_action where
  "rule_action_deny = PRA_Deny PDR_PolicyDenied False True"

definition rule_action_deny_with_reason :: "policy_decision_reason \<Rightarrow> policy_rule_action" where
  "rule_action_deny_with_reason reason = PRA_Deny reason False True"

definition rule_action_require_primary :: policy_rule_action where
  "rule_action_require_primary = PRA_RequirePrimary False True"

definition rule_action_require_replica :: policy_rule_action where
  "rule_action_require_replica = PRA_RequireReplica False True"

definition rule_action_route_override :: "policy_route_target_id \<Rightarrow> policy_rule_action" where
  "rule_action_route_override t = PRA_RouteOverride t False True"

definition rule_action_shard_override :: "policy_shard_target_id \<Rightarrow> policy_rule_action" where
  "rule_action_shard_override t = PRA_ShardOverride t False True"

fun with_audit :: "bool \<Rightarrow> policy_rule_action \<Rightarrow> policy_rule_action" where
  "with_audit audit (PRA_Allow _ terminal) = PRA_Allow audit terminal"
| "with_audit audit (PRA_Deny r _ terminal) = PRA_Deny r audit terminal"
| "with_audit audit (PRA_RequirePrimary _ terminal) = PRA_RequirePrimary audit terminal"
| "with_audit audit (PRA_RequireReplica _ terminal) = PRA_RequireReplica audit terminal"
| "with_audit audit (PRA_RouteOverride t _ terminal) = PRA_RouteOverride t audit terminal"
| "with_audit audit (PRA_ShardOverride t _ terminal) = PRA_ShardOverride t audit terminal"

fun with_terminal :: "bool \<Rightarrow> policy_rule_action \<Rightarrow> policy_rule_action" where
  "with_terminal terminal (PRA_Allow audit _) = PRA_Allow audit terminal"
| "with_terminal terminal (PRA_Deny r audit _) = PRA_Deny r audit terminal"
| "with_terminal terminal (PRA_RequirePrimary audit _) = PRA_RequirePrimary audit terminal"
| "with_terminal terminal (PRA_RequireReplica audit _) = PRA_RequireReplica audit terminal"
| "with_terminal terminal (PRA_RouteOverride t audit _) = PRA_RouteOverride t audit terminal"
| "with_terminal terminal (PRA_ShardOverride t audit _) = PRA_ShardOverride t audit terminal"

fun is_terminal :: "policy_rule_action \<Rightarrow> bool" where
  "is_terminal (PRA_Allow _ terminal) = terminal"
| "is_terminal (PRA_Deny _ _ terminal) = terminal"
| "is_terminal (PRA_RequirePrimary _ terminal) = terminal"
| "is_terminal (PRA_RequireReplica _ terminal) = terminal"
| "is_terminal (PRA_RouteOverride _ _ terminal) = terminal"
| "is_terminal (PRA_ShardOverride _ _ terminal) = terminal"

fun records_audit :: "policy_rule_action \<Rightarrow> bool" where
  "records_audit (PRA_Allow audit _) = audit"
| "records_audit (PRA_Deny _ audit _) = audit"
| "records_audit (PRA_RequirePrimary audit _) = audit"
| "records_audit (PRA_RequireReplica audit _) = audit"
| "records_audit (PRA_RouteOverride _ audit _) = audit"
| "records_audit (PRA_ShardOverride _ audit _) = audit"

fun rule_action_effect :: "policy_rule_action \<Rightarrow> policy_effect" where
  "rule_action_effect (PRA_Allow _ _) = PEF_NoChange"
| "rule_action_effect (PRA_Deny _ _ _) = PEF_Deny"
| "rule_action_effect (PRA_RequirePrimary _ _) = PEF_RequirePrimary"
| "rule_action_effect (PRA_RequireReplica _ _) = PEF_RequireReplica"
| "rule_action_effect (PRA_RouteOverride _ _ _) = PEF_RouteOverride"
| "rule_action_effect (PRA_ShardOverride _ _ _) = PEF_ShardOverride"

fun rule_action_as_str :: "policy_rule_action \<Rightarrow> rstr" where
  "rule_action_as_str (PRA_Allow _ _) = lit ''allow''"
| "rule_action_as_str (PRA_Deny _ _ _) = lit ''deny''"
| "rule_action_as_str (PRA_RequirePrimary _ _) = lit ''require_primary''"
| "rule_action_as_str (PRA_RequireReplica _ _) = lit ''require_replica''"
| "rule_action_as_str (PRA_RouteOverride _ _ _) = lit ''route_override''"
| "rule_action_as_str (PRA_ShardOverride _ _ _) = lit ''shard_override''"

section \<open>Evaluation\<close>

record policy_rule =
  pr_id :: rstr
  pr_matches :: policy_rule_match
  pr_action :: policy_rule_action

record policy_rule_set =
  prs_rules :: "policy_rule list"

record policy_rule_eval_result =
  per_matched_rule_indices :: "nat list"
  per_matched_rule_ids :: "rstr list"
  per_audit_rule_ids :: "rstr list"
  per_applied_rule_index :: "nat option"
  per_applied_rule_id :: "rstr option"
  per_applied_action :: "policy_rule_action option"
  per_terminal_rule_index :: "nat option"
  per_terminal_rule_id :: "rstr option"

definition eval_result_default :: policy_rule_eval_result where
  "eval_result_default =
     \<lparr>per_matched_rule_indices = [], per_matched_rule_ids = [], per_audit_rule_ids = [],
      per_applied_rule_index = None, per_applied_rule_id = None, per_applied_action = None,
      per_terminal_rule_index = None, per_terminal_rule_id = None\<rparr>"

definition record_match :: "nat \<Rightarrow> policy_rule \<Rightarrow> policy_rule_eval_result \<Rightarrow> policy_rule_eval_result" where
  "record_match i rule r =
     r\<lparr>per_matched_rule_indices := per_matched_rule_indices r @ [i],
       per_matched_rule_ids := per_matched_rule_ids r @ [pr_id rule],
       per_applied_rule_index := Some i,
       per_applied_rule_id := Some (pr_id rule),
       per_applied_action := Some (pr_action rule),
       per_audit_rule_ids := per_audit_rule_ids r @ (if records_audit (pr_action rule) then [pr_id rule] else [])\<rparr>"

fun evaluate_rules ::
  "policy_rule_context \<Rightarrow> nat \<Rightarrow> policy_rule list \<Rightarrow> policy_rule_eval_result \<Rightarrow> policy_rule_eval_result" where
  "evaluate_rules c i [] r = r"
| "evaluate_rules c i (rule # rules) r =
     (if \<not> rule_matches (pr_matches rule) c then evaluate_rules c (Suc i) rules r
      else
        (let r' = record_match i rule r in
         if is_terminal (pr_action rule) then
           r'\<lparr>per_terminal_rule_index := Some i, per_terminal_rule_id := Some (pr_id rule)\<rparr>
         else evaluate_rules c (Suc i) rules r'))"

definition rule_set_evaluate :: "policy_rule_set \<Rightarrow> policy_rule_context \<Rightarrow> policy_rule_eval_result" where
  "rule_set_evaluate s c = evaluate_rules c 0 (prs_rules s) eval_result_default"

definition was_terminated :: "policy_rule_eval_result \<Rightarrow> bool" where
  "was_terminated r \<longleftrightarrow> per_terminal_rule_index r \<noteq> None"

section \<open>Validation\<close>

datatype policy_rule_validation_error =
    PRV_EmptyRuleSet
  | PRV_EmptyRuleId
  | PRV_DuplicateRuleId rstr
  | PRV_EmptyMatch rstr
  | PRV_EmptyMatchValue rstr rstr
  | PRV_RawSqlTextUnsupported

fun rule_validation_error_display :: "policy_rule_validation_error \<Rightarrow> rstr" where
  "rule_validation_error_display PRV_EmptyRuleSet = lit ''policy rule set cannot be empty''"
| "rule_validation_error_display PRV_EmptyRuleId = lit ''policy rule id cannot be empty''"
| "rule_validation_error_display (PRV_DuplicateRuleId i) =
     lit ''duplicate policy rule id '' @ [39] @ i @ [39]"
| "rule_validation_error_display (PRV_EmptyMatch i) =
     lit ''policy rule '' @ [39] @ i @ [39] @ lit '' must define at least one match criterion''"
| "rule_validation_error_display (PRV_EmptyMatchValue i field) =
     lit ''policy rule '' @ [39] @ i @ [39] @ lit '' match field '' @ [39] @ field @ [39]
       @ lit '' cannot be empty''"
| "rule_validation_error_display PRV_RawSqlTextUnsupported =
     lit ''raw sql text matches are not supported by policy rules''"

definition validate_text_values :: "rstr \<Rightarrow> rstr \<Rightarrow> rstr list \<Rightarrow> policy_rule_validation_error + unit" where
  "validate_text_values rule_id field values =
     (if list_ex (\<lambda>v. trim v = []) values then Inl (PRV_EmptyMatchValue rule_id field) else Inr ())"

definition validate_rule :: "policy_rule \<Rightarrow> policy_rule_validation_error + unit" where
  "validate_rule rule =
     (let m = pr_matches rule; i = pr_id rule in
      if match_is_empty m then Inl (PRV_EmptyMatch i)
      else and_then (validate_text_values i (lit ''database'') (prm_databases m)) (\<lambda>_.
        and_then (validate_text_values i (lit ''user'') (prm_users m)) (\<lambda>_.
        and_then (validate_text_values i (lit ''application_name'') (prm_application_names m)) (\<lambda>_.
        and_then (validate_text_values i (lit ''route'') (prm_routes m)) (\<lambda>_.
        and_then (validate_text_values i (lit ''shard'') (prm_shards m)) (\<lambda>_.
        and_then (validate_text_values i (lit ''policy_tag'') (prm_policy_tags m)) (\<lambda>_.
        if prm_raw_sql_text m \<noteq> [] then Inl PRV_RawSqlTextUnsupported else Inr ())))))))"

fun validate_rules :: "rstr list \<Rightarrow> policy_rule list \<Rightarrow> policy_rule_validation_error + unit" where
  "validate_rules seen [] = Inr ()"
| "validate_rules seen (rule # rules) =
     (if pr_id rule = [] then Inl PRV_EmptyRuleId
      else if list_ex (\<lambda>s. s = pr_id rule) seen then Inl (PRV_DuplicateRuleId (pr_id rule))
      else and_then (validate_rule rule) (\<lambda>_. validate_rules (seen @ [pr_id rule]) rules))"

definition rule_set_validate :: "policy_rule_set \<Rightarrow> policy_rule_validation_error + unit" where
  "rule_set_validate s =
     (if prs_rules s = [] then Inl PRV_EmptyRuleSet else validate_rules [] (prs_rules s))"

section \<open>The evaluation loop against its reference\<close>

text \<open>The rules that take effect: those that match, up to and including the first terminal one.\<close>

fun until_terminal :: "(nat \<times> policy_rule) list \<Rightarrow> (nat \<times> policy_rule) list" where
  "until_terminal [] = []"
| "until_terminal (p # ps) = p # (if is_terminal (pr_action (snd p)) then [] else until_terminal ps)"

definition effective_rules :: "policy_rule_context \<Rightarrow> nat \<Rightarrow> policy_rule list \<Rightarrow> (nat \<times> policy_rule) list" where
  "effective_rules c i rules =
     until_terminal (filter (\<lambda>(_, r). rule_matches (pr_matches r) c) (enumerate i rules))"

definition terminal_of :: "(nat \<times> policy_rule) list \<Rightarrow> (nat \<times> policy_rule) option" where
  "terminal_of ps = find (\<lambda>(_, r). is_terminal (pr_action r)) ps"

definition extend_result :: "policy_rule_eval_result \<Rightarrow> (nat \<times> policy_rule) list \<Rightarrow> policy_rule_eval_result" where
  "extend_result r ps =
     \<lparr>per_matched_rule_indices = per_matched_rule_indices r @ map fst ps,
      per_matched_rule_ids = per_matched_rule_ids r @ map (pr_id \<circ> snd) ps,
      per_audit_rule_ids = per_audit_rule_ids r @ map (pr_id \<circ> snd) (filter (records_audit \<circ> pr_action \<circ> snd) ps),
      per_applied_rule_index = (if ps = [] then per_applied_rule_index r else Some (fst (last ps))),
      per_applied_rule_id = (if ps = [] then per_applied_rule_id r else Some (pr_id (snd (last ps)))),
      per_applied_action = (if ps = [] then per_applied_action r else Some (pr_action (snd (last ps)))),
      per_terminal_rule_index = (case terminal_of ps of None \<Rightarrow> per_terminal_rule_index r | Some p \<Rightarrow> Some (fst p)),
      per_terminal_rule_id = (case terminal_of ps of None \<Rightarrow> per_terminal_rule_id r | Some p \<Rightarrow> Some (pr_id (snd p)))\<rparr>"

lemma effective_rules_Cons:
  "effective_rules c i (rule # rules) =
     (if rule_matches (pr_matches rule) c
      then (i, rule) # (if is_terminal (pr_action rule) then [] else effective_rules c (Suc i) rules)
      else effective_rules c (Suc i) rules)"
  by (simp add: effective_rules_def)

lemma extend_result_terminal:
  "is_terminal (pr_action rule) \<Longrightarrow>
     extend_result r [(i, rule)] =
       record_match i rule r\<lparr>per_terminal_rule_index := Some i, per_terminal_rule_id := Some (pr_id rule)\<rparr>"
  by (simp add: extend_result_def record_match_def terminal_of_def)

lemma extend_result_continue:
  "\<not> is_terminal (pr_action rule) \<Longrightarrow>
     extend_result r ((i, rule) # ps) = extend_result (record_match i rule r) ps"
  by (simp add: extend_result_def record_match_def terminal_of_def comp_def split: option.splits)

lemma evaluate_rules_reference: "evaluate_rules c i rules r = extend_result r (effective_rules c i rules)"
proof (induction rules arbitrary: i r)
  case Nil
  then show ?case by (simp add: effective_rules_def extend_result_def terminal_of_def)
next
  case (Cons rule rules)
  then show ?case by (simp add: effective_rules_Cons extend_result_terminal extend_result_continue Let_def)
qed

section \<open>What validation accepts\<close>

definition policy_rule_well_formed :: "policy_rule \<Rightarrow> bool" where
  "policy_rule_well_formed r \<longleftrightarrow>
     pr_id r \<noteq> [] \<and> \<not> match_is_empty (pr_matches r) \<and> prm_raw_sql_text (pr_matches r) = []
     \<and> (\<forall>v \<in> set (prm_databases (pr_matches r)) \<union> set (prm_users (pr_matches r))
          \<union> set (prm_application_names (pr_matches r)) \<union> set (prm_routes (pr_matches r))
          \<union> set (prm_shards (pr_matches r)) \<union> set (prm_policy_tags (pr_matches r)). trim v \<noteq> [])"

lemma validate_text_values_ok: "validate_text_values i f vs = Inr () \<longleftrightarrow> (\<forall>v\<in>set vs. trim v \<noteq> [])"
  by (auto simp: validate_text_values_def list_ex_iff)

lemma validate_rule_ok: "pr_id r \<noteq> [] \<Longrightarrow> validate_rule r = Inr () \<longleftrightarrow> policy_rule_well_formed r"
  by (auto simp: validate_rule_def policy_rule_well_formed_def and_then_eq_Inr validate_text_values_ok Let_def)

lemma validate_rules_ok:
  "validate_rules seen rules = Inr () \<longleftrightarrow>
     (\<forall>r\<in>set rules. policy_rule_well_formed r) \<and> distinct (map pr_id rules) \<and> set (map pr_id rules) \<inter> set seen = {}"
proof (induction rules arbitrary: seen)
  case (Cons r rules)
  show ?case
  proof (cases "pr_id r = [] \<or> pr_id r \<in> set seen")
    case True
    then show ?thesis by (auto simp: policy_rule_well_formed_def list_ex_iff)
  next
    case False
    then have "validate_rules seen (r # rules) = Inr () \<longleftrightarrow>
        policy_rule_well_formed r \<and> validate_rules (seen @ [pr_id r]) rules = Inr ()"
      by (auto simp: list_ex_iff and_then_eq_Inr validate_rule_ok)
    with Cons.IH [of "seen @ [pr_id r]"] False show ?thesis by auto
  qed
qed simp

text \<open>
  C27. Evaluating a rule set gives exactly what the reference gives: the rules that match the
  context, in order and up to the first terminal one, are reported with their indices and ids,
  the audited ones among them are listed, the last of them is the applied rule, and the
  terminal rule is the one that stopped the evaluation, if any.
\<close>

theorem rule_set_evaluate_reference:
  "rule_set_evaluate s c = extend_result eval_result_default (effective_rules c 0 (prs_rules s))"
  by (simp add: rule_set_evaluate_def evaluate_rules_reference)

text \<open>
  Validation accepts a rule set exactly when it has a rule, the ids are non-empty and
  pairwise distinct, and every rule has a criterion, no blank criterion value and no match on
  raw SQL text.
\<close>

lemma rule_set_validate_exact:
  "rule_set_validate s = Inr () \<longleftrightarrow>
     prs_rules s \<noteq> [] \<and> distinct (map pr_id (prs_rules s)) \<and> list_all policy_rule_well_formed (prs_rules s)"
  by (auto simp: rule_set_validate_def validate_rules_ok list_all_iff)

text \<open>
  A default-constructed match is matched by every context, and each builder only narrows a
  criterion that was already there; the criterion \<open>raw_sql_text\<close> is never consulted.
\<close>

lemma empty_match_matches_all: "match_is_empty m \<Longrightarrow> rule_matches m c"
  by (cases "prc_application_name c"; cases "prc_route c"; cases "prc_shard c")
     (auto simp: match_is_empty_def rule_matches_def matches_text_field_def matches_one_of_def
      matches_policy_tags_def)

lemma raw_sql_never_matched: "rule_matches (match_raw_sql_text v m) c = rule_matches m c"
  by (simp add: match_raw_sql_text_def rule_matches_def)

end
