(* ===== verification/Shard_Strategy.thy ===== *)
theory Shard_Strategy
  imports Rust_Str "HOL-Library.List_Lexorder"
begin

text \<open>
  Shard keys and the three strategies that map a key to a shard rule, the first half of
  \<open>traffic/sharding.rs\<close>: hashing into buckets (64-bit FNV-1a with wrap-around), ranges and value
  lists, with the validation each strategy runs when it is built. \<open>str\<close> and byte slices compare
  lexicographically by bytes, integers as signed 64-bit values.

  Shown: keys of one type are linearly ordered by \<open>compare_shard_keys\<close>; a validated range or list
  strategy matches a key against at most one rule, so the answer does not depend on the order of
  the rules; the hash strategy always names an existing bucket.
\<close>

section \<open>Identifiers, keys and errors\<close>

type_synonym i64 = "64 word"

datatype shard_id = ShardId (shard_id_str: rstr)

datatype shard_key_type = SKT_Text | SKT_Integer | SKT_Bytes

fun shard_key_type_as_str :: "shard_key_type \<Rightarrow> rstr" where
  "shard_key_type_as_str SKT_Text = lit ''text''"
| "shard_key_type_as_str SKT_Integer = lit ''integer''"
| "shard_key_type_as_str SKT_Bytes = lit ''bytes''"

datatype shard_key = SK_Text rstr | SK_Integer i64 | SK_Bytes bytes

fun key_type :: "shard_key \<Rightarrow> shard_key_type" where
  "key_type (SK_Text _) = SKT_Text"
| "key_type (SK_Integer _) = SKT_Integer"
| "key_type (SK_Bytes _) = SKT_Bytes"

datatype shard_validation_error =
    EmptyShardId
  | EmptyShardRouteMap
  | SVE_MultiShardRejected
  | EmptyShardList
  | EmptyShardSet
  | InvalidBucketCount
  | KeyTypeMismatch shard_key_type shard_key_type
  | InvalidRangeBounds
  | OverlappingShardRules
  | DuplicateShardId shard_id

definition shard_id_new :: "rstr \<Rightarrow> shard_validation_error + shard_id" where
  "shard_id_new value = (if value = [] then Inl EmptyShardId else Inr (ShardId value))"

datatype shard_strategy = Strategy_Hash | Strategy_Range | Strategy_List

fun shard_strategy_as_str :: "shard_strategy \<Rightarrow> rstr" where
  "shard_strategy_as_str Strategy_Hash = lit ''hash''"
| "shard_strategy_as_str Strategy_Range = lit ''range''"
| "shard_strategy_as_str Strategy_List = lit ''list''"

section \<open>Comparing keys\<close>

datatype ordering = Less | Equal | Greater

definition ord_cmp :: "'a::linorder \<Rightarrow> 'a \<Rightarrow> ordering" where
  "ord_cmp a b = (if a < b then Less else if a = b then Equal else Greater)"

fun compare_shard_keys :: "shard_key \<Rightarrow> shard_key \<Rightarrow> ordering option" where
  "compare_shard_keys (SK_Text a) (SK_Text b) = Some (ord_cmp (as_bytes a) (as_bytes b))"
| "compare_shard_keys (SK_Integer a) (SK_Integer b) = Some (ord_cmp (sint a) (sint b))"
| "compare_shard_keys (SK_Bytes a) (SK_Bytes b) = Some (ord_cmp a b)"
| "compare_shard_keys _ _ = None"

section \<open>Rules\<close>

record hash_shard_rule =
  hr_shard_key_type :: shard_key_type
  hr_bucket_count :: u64

definition hash_shard_rule_new :: "shard_key_type \<Rightarrow> u64 \<Rightarrow> shard_validation_error + hash_shard_rule" where
  "hash_shard_rule_new kt bucket_count =
     (if bucket_count = 0 then Inl InvalidBucketCount
      else Inr \<lparr>hr_shard_key_type = kt, hr_bucket_count = bucket_count\<rparr>)"

record range_shard_rule =
  rr_lower_bound :: shard_key
  rr_lower_inclusive :: bool
  rr_upper_bound :: shard_key
  rr_upper_inclusive :: bool

definition range_with_bounds ::
  "shard_key \<Rightarrow> bool \<Rightarrow> shard_key \<Rightarrow> bool \<Rightarrow> shard_validation_error + range_shard_rule" where
  "range_with_bounds lower lower_inclusive upper upper_inclusive =
     (if key_type lower \<noteq> key_type upper then Inl (KeyTypeMismatch (key_type lower) (key_type upper))
      else if compare_shard_keys lower upper = Some Greater then Inl InvalidRangeBounds
      else if compare_shard_keys lower upper = Some Equal \<and> \<not> (lower_inclusive \<and> upper_inclusive)
      then Inl InvalidRangeBounds
      else Inr \<lparr>rr_lower_bound = lower, rr_lower_inclusive = lower_inclusive,
                rr_upper_bound = upper, rr_upper_inclusive = upper_inclusive\<rparr>)"

definition range_shard_rule_new :: "shard_key \<Rightarrow> shard_key \<Rightarrow> shard_validation_error + range_shard_rule" where
  "range_shard_rule_new lower upper = range_with_bounds lower True upper True"

definition range_key_type :: "range_shard_rule \<Rightarrow> shard_key_type" where
  "range_key_type r = key_type (rr_lower_bound r)"

record list_shard_rule =
  lr_values :: "shard_key list"

definition list_shard_rule_new :: "shard_key list \<Rightarrow> shard_validation_error + list_shard_rule" where
  "list_shard_rule_new values =
     (case values of [] \<Rightarrow> Inl EmptyShardList
      | first # _ \<Rightarrow>
          if list_ex (\<lambda>v. key_type v \<noteq> key_type first) values
          then Inl (KeyTypeMismatch (key_type first)
                 (case find (\<lambda>v. key_type v \<noteq> key_type first) values of
                    Some v \<Rightarrow> key_type v | None \<Rightarrow> key_type first))
          else Inr \<lparr>lr_values = values\<rparr>)"

text \<open>\<open>values[0]\<close> panics on an empty list, which the constructor rules out.\<close>

definition list_key_type :: "list_shard_rule \<Rightarrow> shard_key_type" where
  "list_key_type r = key_type (hd (lr_values r))"

section \<open>Hashing\<close>

definition SHARD_HASH_SEED :: u64 where
  "SHARD_HASH_SEED = 0xcbf29ce484222325"

definition SHARD_HASH_NAMESPACE :: bytes where
  "SHARD_HASH_NAMESPACE = as_bytes (lit ''pg-kinetic-shard-hash-v1'')"

definition SHARD_HASH_PRIME :: u64 where
  "SHARD_HASH_PRIME = 0x100000001b3"

fun fnv1a_update :: "u64 \<Rightarrow> bytes \<Rightarrow> u64" where
  "fnv1a_update hash [] = hash"
| "fnv1a_update hash (b # bs) = fnv1a_update ((hash XOR ucast b) * SHARD_HASH_PRIME) bs"

definition i64_to_le_bytes :: "i64 \<Rightarrow> bytes" where
  "i64_to_le_bytes v = map (\<lambda>i. ucast (drop_bit (8 * i) v)) [0..<8]"

definition deterministic_shard_hash :: "shard_key \<Rightarrow> u64" where
  "deterministic_shard_hash key =
     (let hash = SHARD_HASH_SEED;
          hash = fnv1a_update hash SHARD_HASH_NAMESPACE;
          hash = fnv1a_update hash [0];
          hash = fnv1a_update hash (as_bytes (shard_key_type_as_str (key_type key)));
          hash = fnv1a_update hash [0]
      in case key of
           SK_Text v \<Rightarrow> fnv1a_update hash (as_bytes v)
         | SK_Integer v \<Rightarrow> fnv1a_update hash (i64_to_le_bytes v)
         | SK_Bytes v \<Rightarrow> fnv1a_update hash v)"

section \<open>Lookup\<close>

definition boundary_satisfies_lower :: "shard_key \<Rightarrow> bool \<Rightarrow> shard_key \<Rightarrow> bool" where
  "boundary_satisfies_lower boundary inclusive key =
     (case compare_shard_keys key boundary of
        Some Greater \<Rightarrow> True | Some Equal \<Rightarrow> inclusive | _ \<Rightarrow> False)"

definition boundary_satisfies_upper :: "shard_key \<Rightarrow> bool \<Rightarrow> shard_key \<Rightarrow> bool" where
  "boundary_satisfies_upper boundary inclusive key =
     (case compare_shard_keys key boundary of
        Some Less \<Rightarrow> True | Some Equal \<Rightarrow> inclusive | _ \<Rightarrow> False)"

definition range_rule_matches :: "range_shard_rule \<Rightarrow> shard_key \<Rightarrow> bool" where
  "range_rule_matches r key \<longleftrightarrow>
     key_type key = range_key_type r \<and>
     boundary_satisfies_lower (rr_lower_bound r) (rr_lower_inclusive r) key \<and>
     boundary_satisfies_upper (rr_upper_bound r) (rr_upper_inclusive r) key"

definition range_lookup :: "range_shard_rule list \<Rightarrow> shard_key \<Rightarrow> nat option" where
  "range_lookup rules key = position (\<lambda>r. range_rule_matches r key) rules"

definition list_rule_matches :: "list_shard_rule \<Rightarrow> shard_key \<Rightarrow> bool" where
  "list_rule_matches r key \<longleftrightarrow>
     list_key_type r = key_type key \<and> list_ex (\<lambda>v. v = key) (lr_values r)"

definition list_lookup :: "list_shard_rule list \<Rightarrow> shard_key \<Rightarrow> nat option" where
  "list_lookup rules key = position (\<lambda>r. list_rule_matches r key) rules"

section \<open>Validation\<close>

definition range_is_before :: "range_shard_rule \<Rightarrow> range_shard_rule \<Rightarrow> bool" where
  "range_is_before left right =
     (case compare_shard_keys (rr_upper_bound left) (rr_lower_bound right) of
        Some Less \<Rightarrow> True
      | Some Equal \<Rightarrow> \<not> (rr_upper_inclusive left \<and> rr_lower_inclusive right)
      | _ \<Rightarrow> False)"

definition range_rules_overlap :: "range_shard_rule \<Rightarrow> range_shard_rule \<Rightarrow> bool" where
  "range_rules_overlap left right \<longleftrightarrow> \<not> range_is_before left right \<and> \<not> range_is_before right left"

text \<open>The nested loop over pairs with \<open>left_index < right_index\<close>.\<close>

fun some_pair :: "('a \<Rightarrow> 'a \<Rightarrow> bool) \<Rightarrow> 'a list \<Rightarrow> bool" where
  "some_pair p [] = False"
| "some_pair p (x # xs) \<longleftrightarrow> list_ex (p x) xs \<or> some_pair p xs"

definition validate_range_rules :: "range_shard_rule list \<Rightarrow> shard_validation_error + unit" where
  "validate_range_rules rules =
     (case rules of [] \<Rightarrow> Inl EmptyShardSet
      | first # rest \<Rightarrow>
          (case find (\<lambda>r. range_key_type r \<noteq> range_key_type first) rest of
             Some r \<Rightarrow> Inl (KeyTypeMismatch (range_key_type first) (range_key_type r))
           | None \<Rightarrow> if some_pair range_rules_overlap rules then Inl OverlappingShardRules else Inr ()))"

text \<open>
  The inner loop of the list validation over one rule's values: \<open>seen\<close> is \<open>seen_values\<close>, the
  rule that last held a value; \<open>own\<close> is \<open>rule_values\<close>. \<open>None\<close> is the early return.
\<close>

fun list_values_loop ::
  "nat \<Rightarrow> shard_key set \<Rightarrow> (shard_key \<rightharpoonup> nat) \<Rightarrow> shard_key list \<Rightarrow> (shard_key \<rightharpoonup> nat) option" where
  "list_values_loop i own seen [] = Some seen"
| "list_values_loop i own seen (v # vs) =
     (if v \<in> own then list_values_loop i own seen vs
      else case seen v of
        Some previous \<Rightarrow>
          if previous \<noteq> i then None
          else list_values_loop i (insert v own) (seen(v \<mapsto> i)) vs
      | None \<Rightarrow> list_values_loop i (insert v own) (seen(v \<mapsto> i)) vs)"

fun list_rules_loop :: "nat \<Rightarrow> (shard_key \<rightharpoonup> nat) \<Rightarrow> list_shard_rule list \<Rightarrow> bool" where
  "list_rules_loop i seen [] = True"
| "list_rules_loop i seen (r # rs) =
     (case list_values_loop i {} seen (lr_values r) of
        None \<Rightarrow> False | Some seen' \<Rightarrow> list_rules_loop (Suc i) seen' rs)"

definition validate_list_rules :: "list_shard_rule list \<Rightarrow> shard_validation_error + unit" where
  "validate_list_rules rules =
     (case rules of [] \<Rightarrow> Inl EmptyShardSet
      | first # rest \<Rightarrow>
          (case find (\<lambda>r. list_key_type r \<noteq> list_key_type first) rest of
             Some r \<Rightarrow> Inl (KeyTypeMismatch (list_key_type first) (list_key_type r))
           | None \<Rightarrow> if list_rules_loop 0 Map.empty rules then Inr () else Inl OverlappingShardRules))"

section \<open>Strategies\<close>

datatype shard_match = HashBucket u64 | RangeRule nat | ListRule nat | SM_NoMatch

datatype shard_strategy_evaluator =
    Eval_Hash hash_shard_rule
  | Eval_Range "range_shard_rule list"
  | Eval_List "list_shard_rule list"

definition evaluator_range :: "range_shard_rule list \<Rightarrow> shard_validation_error + shard_strategy_evaluator" where
  "evaluator_range rules = and_then (validate_range_rules rules) (\<lambda>_. Inr (Eval_Range rules))"

definition evaluator_list :: "list_shard_rule list \<Rightarrow> shard_validation_error + shard_strategy_evaluator" where
  "evaluator_list rules = and_then (validate_list_rules rules) (\<lambda>_. Inr (Eval_List rules))"

fun evaluate_shard_key :: "shard_strategy_evaluator \<Rightarrow> shard_key \<Rightarrow> shard_match" where
  "evaluate_shard_key (Eval_Hash rule) key =
     (if hr_shard_key_type rule \<noteq> key_type key then SM_NoMatch
      else HashBucket (deterministic_shard_hash key mod hr_bucket_count rule))"
| "evaluate_shard_key (Eval_Range rules) key =
     (case range_lookup rules key of Some i \<Rightarrow> RangeRule i | None \<Rightarrow> SM_NoMatch)"
| "evaluate_shard_key (Eval_List rules) key =
     (case list_lookup rules key of Some i \<Rightarrow> ListRule i | None \<Rightarrow> SM_NoMatch)"

section \<open>Pairs of rules\<close>

lemma some_pair_iff:
  "some_pair p xs \<longleftrightarrow> (\<exists>i j. i < j \<and> j < length xs \<and> p (xs ! i) (xs ! j))"
proof (induction xs)
  case Nil
  then show ?case by simp
next
  case (Cons x xs)
  have "list_ex (p x) xs \<longleftrightarrow> (\<exists>j<length xs. p x (xs ! j))"
    by (rule list_ex_length)
  moreover have "(\<exists>i j. i < j \<and> j < length (x # xs) \<and> p ((x # xs) ! i) ((x # xs) ! j)) \<longleftrightarrow>
      (\<exists>j<length xs. p x (xs ! j)) \<or> (\<exists>i j. i < j \<and> j < length xs \<and> p (xs ! i) (xs ! j))"
    (is "?l \<longleftrightarrow> ?r")
  proof
    assume ?l
    then obtain i j where ij: "i < j" "j < length (x # xs)" "p ((x # xs) ! i) ((x # xs) ! j)"
      by blast
    then obtain j' where "j = Suc j'" by (cases j) auto
    with ij show ?r by (cases i) auto
  next
    assume ?r
    then show ?l
    proof
      assume "\<exists>j<length xs. p x (xs ! j)"
      then obtain j where "j < length xs" "p x (xs ! j)" by blast
      then show ?l by (intro exI [of _ 0] exI [of _ "Suc j"]) simp
    next
      assume "\<exists>i j. i < j \<and> j < length xs \<and> p (xs ! i) (xs ! j)"
      then obtain i j where "i < j" "j < length xs" "p (xs ! i) (xs ! j)" by blast
      then show ?l by (intro exI [of _ "Suc i"] exI [of _ "Suc j"]) simp
    qed
  qed
  ultimately show ?case using Cons.IH by simp
qed

lemma find_or_continue:
  "(case find p xs of Some x \<Rightarrow> Inl (f x) | None \<Rightarrow> r) = Inr u \<longleftrightarrow> (\<forall>x\<in>set xs. \<not> p x) \<and> r = Inr u"
proof (cases "find p xs")
  case None
  then have "\<forall>x\<in>set xs. \<not> p x" by (simp add: find_None_iff)
  with None show ?thesis by simp
next
  case (Some x)
  then have "\<exists>x\<in>set xs. p x" by (auto simp: find_Some_iff)
  with Some show ?thesis by simp
qed

text \<open>
  What a validated rule list offers to the lookups: two different rules never match the same
  key. The first match is then the only one, whatever the order of the rules.
\<close>

locale exclusive_rules =
  fixes matches :: "'r \<Rightarrow> 'k \<Rightarrow> bool"
    and valid :: "'r list \<Rightarrow> bool"
  assumes exclusive:
    "valid rules \<Longrightarrow> i < j \<Longrightarrow> j < length rules \<Longrightarrow> \<not> (matches (rules ! i) k \<and> matches (rules ! j) k)"
begin

lemma matches_unique:
  assumes "valid rules" and "i < length rules" and "j < length rules"
    and "matches (rules ! i) k" and "matches (rules ! j) k"
  shows "i = j"
  using assms exclusive [of rules i j k] exclusive [of rules j i k]
  by (metis linorder_neqE_nat)

lemma lookup_iff:
  assumes "valid rules"
  shows "position (\<lambda>r. matches r k) rules = Some i \<longleftrightarrow> i < length rules \<and> matches (rules ! i) k"
proof
  assume "position (\<lambda>r. matches r k) rules = Some i"
  then show "i < length rules \<and> matches (rules ! i) k" by (simp add: position_Some)
next
  assume i: "i < length rules \<and> matches (rules ! i) k"
  then have "position (\<lambda>r. matches r k) rules \<noteq> None"
    by (auto simp: position_None)
  then obtain j where j: "position (\<lambda>r. matches r k) rules = Some j" by blast
  then have "j < length rules" "matches (rules ! j) k" by (simp_all add: position_Some)
  then have "j = i" using matches_unique [OF assms] i by blast
  with j show "position (\<lambda>r. matches r k) rules = Some i" by simp
qed

end

section \<open>Range rules\<close>

lemma range_is_before_disjoint:
  assumes "range_is_before l r"
  shows "\<not> (range_rule_matches l k \<and> range_rule_matches r k)"
proof
  assume m: "range_rule_matches l k \<and> range_rule_matches r k"
  show False
    using assms m
    by (cases k; cases "rr_upper_bound l"; cases "rr_lower_bound r")
      (auto simp: range_is_before_def range_rule_matches_def boundary_satisfies_lower_def
        boundary_satisfies_upper_def ord_cmp_def split: if_splits)
qed

lemma validated_ranges:
  "validate_range_rules rules = Inr () \<longleftrightarrow>
     rules \<noteq> [] \<and> (\<forall>r\<in>set rules. range_key_type r = range_key_type (hd rules)) \<and>
     \<not> some_pair range_rules_overlap rules"
  by (cases rules) (auto simp: validate_range_rules_def find_or_continue simp del: some_pair.simps)

interpretation range_rules: exclusive_rules range_rule_matches
  "\<lambda>rules. validate_range_rules rules = Inr ()"
proof
  fix rules i j k
  assume v: "validate_range_rules rules = Inr ()" and ij: "i < j" "j < length rules"
  then have "\<not> range_rules_overlap (rules ! i) (rules ! j)"
    by (auto simp: validated_ranges some_pair_iff)
  then show "\<not> (range_rule_matches (rules ! i) k \<and> range_rule_matches (rules ! j) k)"
    using range_is_before_disjoint by (auto simp: range_rules_overlap_def)
qed

section \<open>List rules\<close>

lemma list_values_loop_spec:
  "\<forall>v\<in>own. seen v = Some i \<Longrightarrow>
   list_values_loop i own seen vs =
     (if \<forall>v\<in>set vs. seen v = None \<or> seen v = Some i
      then Some (\<lambda>v. if v \<in> set vs then Some i else seen v) else None)"
proof (induction i own seen vs rule: list_values_loop.induct)
  case (1 i own seen)
  then show ?case by simp
next
  case (2 i own seen v vs)
  show ?case
  proof (cases "v \<in> own")
    case True
    then have "seen v = Some i" using 2 by blast
    then show ?thesis using 2 True by (auto simp: fun_eq_iff)
  next
    case False
    have own: "\<forall>w\<in>insert v own. (seen(v \<mapsto> i)) w = Some i" using 2 by auto
    have result: "(\<lambda>w. if w \<in> set vs then Some i else (seen(v \<mapsto> i)) w) =
        (\<lambda>w. if w \<in> set (v # vs) then Some i else seen w)"
      by (auto simp: fun_eq_iff)
    have rest: "list_values_loop i (insert v own) (seen(v \<mapsto> i)) vs =
        (if \<forall>w\<in>set vs. seen w = None \<or> seen w = Some i
         then Some (\<lambda>w. if w \<in> set (v # vs) then Some i else seen w) else None)"
      if "seen v = None \<or> seen v = Some i"
    proof -
      have "(\<forall>w\<in>set vs. (seen(v \<mapsto> i)) w = None \<or> (seen(v \<mapsto> i)) w = Some i) \<longleftrightarrow>
          (\<forall>w\<in>set vs. seen w = None \<or> seen w = Some i)"
        using that by auto
      moreover have "list_values_loop i (insert v own) (seen(v \<mapsto> i)) vs =
          (if \<forall>w\<in>set vs. (seen(v \<mapsto> i)) w = None \<or> (seen(v \<mapsto> i)) w = Some i
           then Some (\<lambda>w. if w \<in> set vs then Some i else (seen(v \<mapsto> i)) w) else None)"
        using that 2(2) [OF False _ own] 2(3) [OF False _ _ own, of i] by blast
      ultimately show ?thesis unfolding result by simp
    qed
    show ?thesis
    proof (cases "seen v = None \<or> seen v = Some i")
      case True
      then have "list_values_loop i own seen (v # vs) =
          list_values_loop i (insert v own) (seen(v \<mapsto> i)) vs"
        using False by auto
      then show ?thesis using rest [OF True] True by simp
    next
      case other: False
      then show ?thesis using False by auto
    qed
  qed
qed

definition share_value :: "list_shard_rule \<Rightarrow> list_shard_rule \<Rightarrow> bool" where
  "share_value a b \<longleftrightarrow> set (lr_values a) \<inter> set (lr_values b) \<noteq> {}"

lemma list_rules_loop_iff:
  "\<forall>v j. seen v = Some j \<longrightarrow> j < i \<Longrightarrow>
   list_rules_loop i seen rs \<longleftrightarrow>
     (\<forall>r\<in>set rs. \<forall>v\<in>set (lr_values r). seen v = None) \<and> \<not> some_pair share_value rs"
proof (induction i seen rs rule: list_rules_loop.induct)
  case (1 i seen)
  then show ?case by simp
next
  case (2 i seen r rs)
  let ?seen = "\<lambda>v. if v \<in> set (lr_values r) then Some i else seen v"
  have fresh: "seen v \<noteq> Some i" for v using 2(2) by blast
  show ?case
  proof (cases "\<forall>v\<in>set (lr_values r). seen v = None")
    case True
    then have loop: "list_values_loop i {} seen (lr_values r) = Some ?seen"
      by (simp add: list_values_loop_spec)
    have "\<forall>v j. ?seen v = Some j \<longrightarrow> j < Suc i" using 2(2) by (auto simp: less_SucI)
    note IH = 2(1) [OF loop this]
    have "(\<forall>r'\<in>set rs. \<forall>v\<in>set (lr_values r'). ?seen v = None) \<longleftrightarrow>
        (\<forall>r'\<in>set rs. \<forall>v\<in>set (lr_values r'). seen v = None) \<and> \<not> list_ex (share_value r) rs"
      by (auto simp: list_ex_iff share_value_def)
    then show ?thesis using True by (auto simp: loop IH)
  next
    case False
    then show ?thesis using fresh by (auto simp: list_values_loop_spec)
  qed
qed

lemma validated_lists:
  "validate_list_rules rules = Inr () \<longleftrightarrow>
     rules \<noteq> [] \<and> (\<forall>r\<in>set rules. list_key_type r = list_key_type (hd rules)) \<and>
     \<not> some_pair share_value rules"
  by (cases rules)
    (auto simp: validate_list_rules_def find_or_continue list_rules_loop_iff
      simp del: some_pair.simps list_rules_loop.simps)

interpretation list_rules: exclusive_rules list_rule_matches
  "\<lambda>rules. validate_list_rules rules = Inr ()"
proof
  fix rules i j k
  assume v: "validate_list_rules rules = Inr ()" and ij: "i < j" "j < length rules"
  then have "\<not> share_value (rules ! i) (rules ! j)"
    by (auto simp: validated_lists some_pair_iff)
  then show "\<not> (list_rule_matches (rules ! i) k \<and> list_rule_matches (rules ! j) k)"
    by (auto simp: share_value_def list_rule_matches_def list_ex_iff)
qed

lemma list_rule_matches_iff:
  assumes "list_shard_rule_new vs = Inr r"
  shows "list_rule_matches r k \<longleftrightarrow> k \<in> set vs"
proof (cases vs)
  case Nil
  then show ?thesis using assms by (simp add: list_shard_rule_new_def)
next
  case (Cons v rest)
  then have "r = \<lparr>lr_values = vs\<rparr>" and "\<forall>w\<in>set vs. key_type w = key_type v"
    using assms by (simp_all add: list_shard_rule_new_def list_ex_iff split: if_splits)
  then show ?thesis
    using Cons by (auto simp: list_rule_matches_def list_key_type_def list_ex_iff)
qed

section \<open>What a strategy answers\<close>

text \<open>A range strategy that passed validation answers with rule \<open>i\<close> exactly when the key lies in
  the range of rule \<open>i\<close>: no second rule can match, so the answer does not depend on the order in
  which the rules are listed, and a key in some range is never left without a shard.\<close>

lemma range_strategy_exact:
  assumes "evaluator_range rules = Inr strategy"
  shows "evaluate_shard_key strategy key = RangeRule i \<longleftrightarrow>
    i < length rules \<and> range_rule_matches (rules ! i) key"
proof -
  have "validate_range_rules rules = Inr ()" and [simp]: "strategy = Eval_Range rules"
    using assms by (auto simp: evaluator_range_def and_then_def split: sum.splits)
  moreover have "evaluate_shard_key strategy key = RangeRule i \<longleftrightarrow> range_lookup rules key = Some i"
    by (simp split: option.splits)
  ultimately show ?thesis
    by (simp add: range_lookup_def range_rules.lookup_iff)
qed

lemma range_strategy_exact_witness:
  "evaluate_shard_key
     (Eval_Range [\<lparr>rr_lower_bound = SK_Integer 0, rr_lower_inclusive = True,
                   rr_upper_bound = SK_Integer 10, rr_upper_inclusive = False\<rparr>,
                  \<lparr>rr_lower_bound = SK_Integer 10, rr_lower_inclusive = True,
                   rr_upper_bound = SK_Integer 20, rr_upper_inclusive = True\<rparr>])
     (SK_Integer 10) = RangeRule 1"
  using range_strategy_exact
    [of "[\<lparr>rr_lower_bound = SK_Integer 0, rr_lower_inclusive = True,
           rr_upper_bound = SK_Integer 10, rr_upper_inclusive = False\<rparr>,
          \<lparr>rr_lower_bound = SK_Integer 10, rr_lower_inclusive = True,
           rr_upper_bound = SK_Integer 20, rr_upper_inclusive = True\<rparr>]" _ "SK_Integer 10" 1]
  by (simp add: evaluator_range_def validate_range_rules_def range_key_type_def
      range_rules_overlap_def range_is_before_def ord_cmp_def range_rule_matches_def
      boundary_satisfies_lower_def boundary_satisfies_upper_def)

text \<open>A list strategy built from list rules and accepted by the validation answers with rule \<open>i\<close>
  exactly when the key is one of the values of rule \<open>i\<close>.\<close>

lemma list_strategy_exact:
  assumes "evaluator_list rules = Inr strategy"
    and "\<forall>r\<in>set rules. list_shard_rule_new (lr_values r) = Inr r"
  shows "evaluate_shard_key strategy key = ListRule i \<longleftrightarrow>
    i < length rules \<and> key \<in> set (lr_values (rules ! i))"
proof -
  have "validate_list_rules rules = Inr ()" and [simp]: "strategy = Eval_List rules"
    using assms(1) by (auto simp: evaluator_list_def and_then_def split: sum.splits)
  moreover have "evaluate_shard_key strategy key = ListRule i \<longleftrightarrow> list_lookup rules key = Some i"
    by (simp split: option.splits)
  moreover have "i < length rules \<Longrightarrow>
      list_rule_matches (rules ! i) key \<longleftrightarrow> key \<in> set (lr_values (rules ! i))"
    using assms(2) list_rule_matches_iff by force
  ultimately show ?thesis
    by (auto simp: list_lookup_def list_rules.lookup_iff)
qed

lemma list_strategy_exact_witness:
  "evaluate_shard_key
     (Eval_List [\<lparr>lr_values = [SK_Text (lit ''eu'')]\<rparr>, \<lparr>lr_values = [SK_Text (lit ''us''), SK_Text (lit ''ca'')]\<rparr>])
     (SK_Text (lit ''ca'')) = ListRule 1"
  using list_strategy_exact
    [of "[\<lparr>lr_values = [SK_Text (lit ''eu'')]\<rparr>, \<lparr>lr_values = [SK_Text (lit ''us''), SK_Text (lit ''ca'')]\<rparr>]"
        _ "SK_Text (lit ''ca'')" 1]
  by (simp add: evaluator_list_def validate_list_rules_def list_key_type_def list_shard_rule_new_def lit_def)

section \<open>The hash strategy\<close>

lemma fnv1a_append: "fnv1a_update h (a @ b) = fnv1a_update (fnv1a_update h a) b"
  by (induction h a rule: fnv1a_update.induct) simp_all

text \<open>The bytes a key contributes after its type label, and the whole byte string that is hashed.\<close>

definition key_payload :: "shard_key \<Rightarrow> bytes" where
  "key_payload k = (case k of SK_Text v \<Rightarrow> as_bytes v | SK_Integer v \<Rightarrow> i64_to_le_bytes v | SK_Bytes v \<Rightarrow> v)"

definition shard_hash_input :: "shard_key \<Rightarrow> bytes" where
  "shard_hash_input k =
     SHARD_HASH_NAMESPACE @ [0] @ as_bytes (shard_key_type_as_str (key_type k)) @ [0] @ key_payload k"

lemma as_bytes_lit_eval: "as_bytes (lit s) = map (\<lambda>c. byte_of (of_char c)) s"
  if "\<forall>c\<in>set s. (of_char c :: nat) < 128"
  using that by (induction s) (simp_all add: as_bytes_def lit_def encode_char_def)

lemma i64_le_bytes_inject: "i64_to_le_bytes a = i64_to_le_bytes b \<Longrightarrow> a = b"
proof (rule bit_word_eqI)
  fix n
  assume eq: "i64_to_le_bytes a = i64_to_le_bytes b" and "n < LENGTH(64)"
  then have n: "n div 8 < 8" by simp
  have "i64_to_le_bytes v ! (n div 8) = ucast (drop_bit (8 * (n div 8)) v)" for v
    using n by (simp add: i64_to_le_bytes_def)
  then have "(ucast (drop_bit (8 * (n div 8)) a) :: u8) = ucast (drop_bit (8 * (n div 8)) b)"
    using eq by metis
  then have "bit (ucast (drop_bit (8 * (n div 8)) a) :: u8) (n mod 8) =
      bit (ucast (drop_bit (8 * (n div 8)) b) :: u8) (n mod 8)" by simp
  then show "bit a n = bit b n" by (simp add: bit_simps)
qed

fun key_scalars :: "shard_key \<Rightarrow> bool" where
  "key_scalars (SK_Text v) = scalars v"
| "key_scalars _ = True"

lemma type_label_bytes:
  "as_bytes (shard_key_type_as_str SKT_Text) = map (\<lambda>c. byte_of (of_char c)) ''text''"
  "as_bytes (shard_key_type_as_str SKT_Integer) = map (\<lambda>c. byte_of (of_char c)) ''integer''"
  "as_bytes (shard_key_type_as_str SKT_Bytes) = map (\<lambda>c. byte_of (of_char c)) ''bytes''"
  by (simp_all add: as_bytes_lit_eval)

lemma as_bytes_inject: "scalars a \<Longrightarrow> scalars b \<Longrightarrow> as_bytes a = as_bytes b \<Longrightarrow> a = b"
  by (metis from_utf8_as_bytes option.inject)

lemma same_type_same_payload:
  assumes "key_scalars a" and "key_scalars b" and "key_type a = key_type b"
    and "key_payload a = key_payload b"
  shows "a = b"
  using assms
  by (cases a; cases b) (auto simp: key_payload_def i64_le_bytes_inject dest: as_bytes_inject)

text \<open>The shard hash is one FNV-1a pass over a byte string that names the hash version, the key
  type and the key, and different keys give different byte strings: the type label separates
  the text, integer and byte keys from each other. A built hash rule answers every key of its type
  with an existing bucket and no key of another type.\<close>

lemma hash_strategy_sound:
  assumes "key_scalars a" and "key_scalars b" and "hash_shard_rule_new kt n = Inr rule"
  shows "deterministic_shard_hash a = fnv1a_update SHARD_HASH_SEED (shard_hash_input a) \<and>
    (shard_hash_input a = shard_hash_input b \<longleftrightarrow> a = b) \<and>
    (case evaluate_shard_key (Eval_Hash rule) a of
       HashBucket bucket \<Rightarrow> key_type a = kt \<and> bucket < n
     | other \<Rightarrow> other = SM_NoMatch \<and> key_type a \<noteq> kt)"
proof (intro conjI)
  show "deterministic_shard_hash a = fnv1a_update SHARD_HASH_SEED (shard_hash_input a)"
    by (cases a) (simp_all add: deterministic_shard_hash_def shard_hash_input_def key_payload_def
        fnv1a_append Let_def)
  show "shard_hash_input a = shard_hash_input b \<longleftrightarrow> a = b"
  proof
    assume "shard_hash_input a = shard_hash_input b"
    then have "as_bytes (shard_key_type_as_str (key_type a)) @ [0] @ key_payload a =
        as_bytes (shard_key_type_as_str (key_type b)) @ [0] @ key_payload b"
      by (simp add: shard_hash_input_def)
    then have "key_type a = key_type b \<and> key_payload a = key_payload b"
      by (cases "key_type a"; cases "key_type b")
        (simp_all add: type_label_bytes byte_of_def del: shard_key_type_as_str.simps)
    then show "a = b" using same_type_same_payload assms by blast
  qed simp
  have "rule = \<lparr>hr_shard_key_type = kt, hr_bucket_count = n\<rparr>" and "n \<noteq> 0"
    using assms(3) by (simp_all add: hash_shard_rule_new_def split: if_splits)
  then show "case evaluate_shard_key (Eval_Hash rule) a of
       HashBucket bucket \<Rightarrow> key_type a = kt \<and> bucket < n
     | other \<Rightarrow> other = SM_NoMatch \<and> key_type a \<noteq> kt"
    by (auto simp: word_mod_less_divisor word_neq_0_conv)
qed

lemma hash_strategy_sound_witness:
  "shard_hash_input (SK_Integer 7) \<noteq> shard_hash_input (SK_Bytes (i64_to_le_bytes 7)) \<and>
   (\<exists>bucket<16. evaluate_shard_key
      (Eval_Hash \<lparr>hr_shard_key_type = SKT_Integer, hr_bucket_count = 16\<rparr>) (SK_Integer 7) =
      HashBucket bucket)"
  using hash_strategy_sound [of "SK_Integer 7" "SK_Bytes (i64_to_le_bytes 7)" SKT_Integer 16
      "\<lparr>hr_shard_key_type = SKT_Integer, hr_bucket_count = 16\<rparr>", THEN conjunct2]
  by (simp add: hash_shard_rule_new_def)

end
