(* ===== verification/Route_Key.thy ===== *)
theory Route_Key
  imports Rust_Str
begin

text \<open>
  The keys under which client traffic is grouped, \<open>traffic/route.rs\<close>: a \<open>RouteKey\<close> caches its
  metric label next to the fields it is built from, and equality ignores the cache. Shown: every
  constructor keeps the cache in step with the fields, so on the keys the program can build the
  hand-written equality is equality of all fields.
\<close>

datatype route_query_class = RQ_Default | RQ_Read | RQ_Write | RQ_Maintenance

fun route_query_class_display :: "route_query_class \<Rightarrow> rstr" where
  "route_query_class_display RQ_Default = lit ''default''"
| "route_query_class_display RQ_Read = lit ''read''"
| "route_query_class_display RQ_Write = lit ''write''"
| "route_query_class_display RQ_Maintenance = lit ''maintenance''"

text \<open>A socket address only ever enters comparisons; it is a type parameter.\<close>

record 'addr route_key =
  rk_database :: rstr
  rk_user :: rstr
  rk_application_name :: "rstr option"
  rk_client_addr :: "'addr option"
  rk_query_class :: route_query_class
  rk_metric_label :: rstr

record pool_key =
  pk_database :: rstr
  pk_user :: rstr
  pk_application_name :: "rstr option"

definition build_metric_label ::
  "rstr \<Rightarrow> rstr \<Rightarrow> rstr option \<Rightarrow> route_query_class \<Rightarrow> rstr" where
  "build_metric_label database user application_name query_class =
     database @ lit ''/'' @ user @ lit ''/'' @
     (case application_name of None \<Rightarrow> lit ''<none>'' | Some n \<Rightarrow> n) @
     lit ''/'' @ route_query_class_display query_class"

definition route_key_eq :: "'addr route_key \<Rightarrow> 'addr route_key \<Rightarrow> bool" where
  "route_key_eq a b \<longleftrightarrow>
     rk_database a = rk_database b \<and> rk_user a = rk_user b \<and>
     rk_application_name a = rk_application_name b \<and> rk_client_addr a = rk_client_addr b \<and>
     rk_query_class a = rk_query_class b"

definition route_key_new ::
  "rstr \<Rightarrow> rstr \<Rightarrow> rstr option \<Rightarrow> 'addr option \<Rightarrow> route_query_class \<Rightarrow> 'addr route_key" where
  "route_key_new database user application_name client_addr query_class =
     \<lparr>rk_database = database, rk_user = user, rk_application_name = application_name,
      rk_client_addr = client_addr, rk_query_class = query_class,
      rk_metric_label = build_metric_label database user application_name query_class\<rparr>"

definition route_pool_key :: "'addr route_key \<Rightarrow> pool_key" where
  "route_pool_key k =
     \<lparr>pk_database = rk_database k, pk_user = rk_user k, pk_application_name = rk_application_name k\<rparr>"

definition route_selection_key :: "'addr route_key \<Rightarrow> pool_key" where
  "route_selection_key k =
     \<lparr>pk_database = rk_database k, pk_user = rk_user k, pk_application_name = None\<rparr>"

definition with_application_name :: "'addr route_key \<Rightarrow> rstr option \<Rightarrow> 'addr route_key" where
  "with_application_name k application_name =
     (if rk_application_name k = application_name then k
      else \<lparr>rk_database = rk_database k, rk_user = rk_user k, rk_application_name = application_name,
            rk_client_addr = rk_client_addr k, rk_query_class = rk_query_class k,
            rk_metric_label =
              build_metric_label (rk_database k) (rk_user k) application_name (rk_query_class k)\<rparr>)"

definition with_query_class :: "'addr route_key \<Rightarrow> route_query_class \<Rightarrow> 'addr route_key" where
  "with_query_class k query_class =
     (if rk_query_class k = query_class then k
      else \<lparr>rk_database = rk_database k, rk_user = rk_user k,
            rk_application_name = rk_application_name k, rk_client_addr = rk_client_addr k,
            rk_query_class = query_class,
            rk_metric_label =
              build_metric_label (rk_database k) (rk_user k) (rk_application_name k) query_class\<rparr>)"

definition pool_key_metric_label :: "pool_key \<Rightarrow> rstr" where
  "pool_key_metric_label k =
     build_metric_label (pk_database k) (pk_user k) (pk_application_name k) RQ_Default"

section \<open>The cached label\<close>

definition label_in_step :: "'addr route_key \<Rightarrow> bool" where
  "label_in_step k \<longleftrightarrow>
     rk_metric_label k =
       build_metric_label (rk_database k) (rk_user k) (rk_application_name k) (rk_query_class k)"

lemmas route_key_defs =
  label_in_step_def route_key_new_def with_application_name_def with_query_class_def
  route_key_eq_def route_pool_key_def route_selection_key_def

lemma route_key_new_in_step [simp]: "label_in_step (route_key_new d u a c q)"
  by (simp add: route_key_defs)

lemma with_application_name_in_step [simp]:
  "label_in_step k \<Longrightarrow> label_in_step (with_application_name k a)"
  by (simp add: route_key_defs)

lemma with_query_class_in_step [simp]:
  "label_in_step k \<Longrightarrow> label_in_step (with_query_class k q)"
  by (simp add: route_key_defs)

lemma route_key_eq_iff:
  "label_in_step a \<Longrightarrow> label_in_step b \<Longrightarrow> route_key_eq a b \<longleftrightarrow> a = b"
  by (cases a, cases b) (auto simp: route_key_defs)

text \<open>The keys the program can build: a fresh key, then any sequence of field changes.\<close>

inductive route_key_built :: "'addr route_key \<Rightarrow> bool" where
  built_new: "route_key_built (route_key_new d u a c q)"
| built_name: "route_key_built k \<Longrightarrow> route_key_built (with_application_name k a)"
| built_class: "route_key_built k \<Longrightarrow> route_key_built (with_query_class k q)"

lemma route_key_built_in_step: "route_key_built k \<Longrightarrow> label_in_step k"
  by (induction rule: route_key_built.induct) simp_all

text \<open>On keys built by the constructors the equality that skips the cached label is equality,
  and the constructors keep database and user, so a session that renames itself or changes its
  query class stays under the same selection key.\<close>

lemma route_keys_agree:
  assumes "route_key_built a" and "route_key_built b"
  shows "(route_key_eq a b \<longleftrightarrow> a = b) \<and>
    route_selection_key (with_application_name a n) = route_selection_key a \<and>
    route_pool_key (with_query_class a q) = route_pool_key a"
  using route_key_eq_iff [OF route_key_built_in_step [OF assms(1)] route_key_built_in_step [OF assms(2)]]
  by (simp add: route_key_defs)

lemma route_keys_agree_witness:
  "route_key_eq (route_key_new (lit ''app'') (lit ''bob'') None (None :: nat option) RQ_Read)
     (with_query_class (route_key_new (lit ''app'') (lit ''bob'') None None RQ_Default) RQ_Read)
   \<longleftrightarrow> True"
  using route_keys_agree [OF built_new [of "lit ''app''" "lit ''bob''" None "None :: nat option" RQ_Read]
      built_class [OF built_new [of "lit ''app''" "lit ''bob''" None "None :: nat option" RQ_Default], of RQ_Read]]
  by (simp add: route_key_defs)

end
