(* ===== verification/Lsn.thy ===== *)
theory Lsn
  imports Rust_Str
begin

text \<open>
  Write-ahead-log positions, \<open>cluster/lsn.rs\<close> of \<open>pg-kinetic-core\<close>: the 64-bit position with its
  two 32-bit halves, its textual form \<open>SEGMENT/OFFSET\<close> in hexadecimal, and the freshness
  requirement that a replica has to meet. Positions are a linear order (the derived \<open>Ord\<close> of the
  source), which is the lexicographic order of the halves.
\<close>

datatype pg_lsn = PgLsn u64

fun as_u64 :: "pg_lsn \<Rightarrow> u64" where
  "as_u64 (PgLsn value) = value"

definition from_parts :: "u32 \<Rightarrow> u32 \<Rightarrow> pg_lsn" where
  "from_parts segment offset = PgLsn (push_bit 32 (ucast segment) OR ucast offset)"

definition lsn_segment :: "pg_lsn \<Rightarrow> u32" where
  "lsn_segment l = ucast (drop_bit 32 (as_u64 l))"

definition lsn_offset :: "pg_lsn \<Rightarrow> u32" where
  "lsn_offset l = ucast (as_u64 l)"

instantiation pg_lsn :: linorder
begin

definition less_eq_pg_lsn :: "pg_lsn \<Rightarrow> pg_lsn \<Rightarrow> bool" where
  "less_eq_pg_lsn a b \<longleftrightarrow> as_u64 a \<le> as_u64 b"

definition less_pg_lsn :: "pg_lsn \<Rightarrow> pg_lsn \<Rightarrow> bool" where
  "less_pg_lsn a b \<longleftrightarrow> as_u64 a < as_u64 b"

instance
proof
  fix x y :: pg_lsn
  assume "x \<le> y" "y \<le> x"
  then show "x = y" by (cases x; cases y) (simp add: less_eq_pg_lsn_def)
qed (auto simp: less_eq_pg_lsn_def less_pg_lsn_def)

end

section \<open>Text form\<close>

text \<open>The \<open>{:X}\<close> formatting of an unsigned integer.\<close>

definition upper_hex_digit :: "nat \<Rightarrow> rchar" where
  "upper_hex_digit d = (if d < 10 then 48 + d else 55 + d)"

fun fmt_upper_hex :: "nat \<Rightarrow> rstr" where
  "fmt_upper_hex n = (if n < 16 then [upper_hex_digit n]
                      else fmt_upper_hex (n div 16) @ [upper_hex_digit (n mod 16)])"

declare fmt_upper_hex.simps [simp del]

definition lsn_display :: "pg_lsn \<Rightarrow> rstr" where
  "lsn_display l = fmt_upper_hex (unat (lsn_segment l)) @ [chr CHR ''/''] @ fmt_upper_hex (unat (lsn_offset l))"

datatype lsn_parse_error =
  MissingSeparator | EmptyPart | InvalidSegment | InvalidOffset | SegmentOverflow | OffsetOverflow

definition hex_digit_of_byte :: "u8 \<Rightarrow> nat option" where
  "hex_digit_of_byte byte =
     (if in_range 48 57 byte then Some (unat byte - 48)
      else if in_range 97 102 byte then Some (unat byte - 97 + 10)
      else if in_range 65 70 byte then Some (unat byte - 65 + 10)
      else None)"

text \<open>\<open>checked_mul(16)\<close> followed by \<open>checked_add(digit)\<close> on a \<open>u32\<close>.\<close>

definition checked_mul_add :: "nat \<Rightarrow> nat \<Rightarrow> nat option" where
  "checked_mul_add value digit =
     (if value * 16 < 2 ^ 32 then (if value * 16 + digit < 2 ^ 32 then Some (value * 16 + digit) else None)
      else None)"

fun parse_hex_u32_loop :: "lsn_parse_error \<Rightarrow> lsn_parse_error \<Rightarrow> nat \<Rightarrow> nat \<Rightarrow> bytes \<Rightarrow> lsn_parse_error + nat" where
  "parse_hex_u32_loop invalid_error overflow_error digits value [] = Inr value"
| "parse_hex_u32_loop invalid_error overflow_error digits value (byte # rest) =
     (if digits = 8 then Inl overflow_error
      else case hex_digit_of_byte byte of
        None \<Rightarrow> Inl invalid_error
      | Some digit \<Rightarrow>
          and_then (ok_or (checked_mul_add value digit) overflow_error) (\<lambda>value.
          parse_hex_u32_loop invalid_error overflow_error (digits + 1) value rest))"

definition parse_hex_u32 :: "rstr \<Rightarrow> lsn_parse_error \<Rightarrow> lsn_parse_error \<Rightarrow> lsn_parse_error + nat" where
  "parse_hex_u32 input invalid_error overflow_error =
     parse_hex_u32_loop invalid_error overflow_error 0 0 (as_bytes input)"

definition lsn_from_str :: "rstr \<Rightarrow> lsn_parse_error + pg_lsn" where
  "lsn_from_str input =
     and_then (ok_or (split_once_char input (chr CHR ''/'')) MissingSeparator) (\<lambda>(segment, offset).
     if segment = [] \<or> offset = [] then Inl EmptyPart
     else
       and_then (parse_hex_u32 segment InvalidSegment SegmentOverflow) (\<lambda>segment.
       and_then (parse_hex_u32 offset InvalidOffset OffsetOverflow) (\<lambda>offset.
       Inr (from_parts (word_of_nat segment) (word_of_nat offset)))))"

section \<open>Freshness\<close>

datatype freshness_status = FS_Satisfied | FS_Waiting | FS_Stale | FS_Unknown | FS_Unavailable

datatype replica_replay_state = RRS_ReplayLsn pg_lsn | RRS_Stale | RRS_Unknown | RRS_Unavailable

record freshness_requirement =
  fr_session_write_lsn :: "pg_lsn option"

fun replay_lsn :: "replica_replay_state \<Rightarrow> pg_lsn option" where
  "replay_lsn (RRS_ReplayLsn l) = Some l"
| "replay_lsn RRS_Stale = None"
| "replay_lsn RRS_Unknown = None"
| "replay_lsn RRS_Unavailable = None"

definition is_satisfied_by :: "freshness_requirement \<Rightarrow> pg_lsn \<Rightarrow> bool" where
  "is_satisfied_by req replica_replay_lsn =
     (case fr_session_write_lsn req of
        Some required_session_write_lsn \<Rightarrow> replica_replay_lsn \<ge> required_session_write_lsn
      | None \<Rightarrow> True)"

definition freshness_status_for :: "freshness_requirement \<Rightarrow> replica_replay_state \<Rightarrow> freshness_status" where
  "freshness_status_for req state =
     (case state of
        RRS_ReplayLsn replica_replay_lsn \<Rightarrow>
          if is_satisfied_by req replica_replay_lsn then FS_Satisfied else FS_Waiting
      | RRS_Stale \<Rightarrow> FS_Stale
      | RRS_Unknown \<Rightarrow> FS_Unknown
      | RRS_Unavailable \<Rightarrow> FS_Unavailable)"

section \<open>Halves and order\<close>

lemma lsn_segment_from_parts [simp]: "lsn_segment (from_parts s f) = s"
  by (rule bit_word_eqI)
     (auto simp: lsn_segment_def from_parts_def bit_simps dest: bit_imp_le_length)

lemma lsn_offset_from_parts [simp]: "lsn_offset (from_parts s f) = f"
  by (rule bit_word_eqI) (auto simp: lsn_offset_def from_parts_def bit_simps)

lemma from_parts_split [simp]: "from_parts (lsn_segment l) (lsn_offset l) = l"
proof (cases l)
  case (PgLsn w)
  have "push_bit 32 (ucast (ucast (drop_bit 32 w) :: u32)) OR ucast (ucast w :: u32) = w"
    by (rule bit_word_eqI) (auto simp: bit_simps)
  with PgLsn show ?thesis by (simp add: from_parts_def lsn_segment_def lsn_offset_def)
qed

lemma unat_lsn: "unat (as_u64 l) = unat (lsn_segment l) * 2 ^ 32 + unat (lsn_offset l)"
proof -
  have "unat (as_u64 l) < 2 ^ 64" using unsigned_less [of "as_u64 l", where ?'a = nat] by simp
  then have "unat (as_u64 l) div 2 ^ 32 < 2 ^ 32" by (simp add: less_mult_imp_div_less)
  then have s: "unat (lsn_segment l) = unat (as_u64 l) div 2 ^ 32"
    unfolding lsn_segment_def unsigned_ucast_eq unsigned_drop_bit_eq
    by (simp add: take_bit_eq_mod drop_bit_eq_div)
  have f: "unat (lsn_offset l) = unat (as_u64 l) mod 2 ^ 32"
    by (simp add: lsn_offset_def unsigned_ucast_eq take_bit_eq_mod)
  show ?thesis unfolding s f by simp
qed

lemma lsn_le_lex:
  "a \<le> b \<longleftrightarrow> lsn_segment a < lsn_segment b \<or> lsn_segment a = lsn_segment b \<and> lsn_offset a \<le> lsn_offset b"
proof -
  have o: "unat (lsn_offset a) < 2 ^ 32" "unat (lsn_offset b) < 2 ^ 32"
    using unsigned_less [of "lsn_offset a"] unsigned_less [of "lsn_offset b"] by simp_all
  show ?thesis
    unfolding less_eq_pg_lsn_def word_le_nat_alt word_less_nat_alt unat_lsn
    using o by (auto simp: word_unat_eq_iff)
qed

section \<open>Text round trip\<close>

lemma fmt_upper_hex_less: "n < 16 \<Longrightarrow> fmt_upper_hex n = [upper_hex_digit n]"
  by (simp add: fmt_upper_hex.simps)

lemma fmt_upper_hex_rec: "16 \<le> n \<Longrightarrow> fmt_upper_hex n = fmt_upper_hex (n div 16) @ [upper_hex_digit (n mod 16)]"
  by (subst fmt_upper_hex.simps) simp

lemma fmt_upper_hex_neq_Nil [simp]: "fmt_upper_hex n \<noteq> []"
  by (subst fmt_upper_hex.simps) simp

lemma upper_hex_digit_no_slash: "d < 16 \<Longrightarrow> upper_hex_digit d \<noteq> 47"
  by (auto simp: upper_hex_digit_def)

lemma fmt_upper_hex_no_slash: "47 \<notin> set (fmt_upper_hex n)"
proof (induction n rule: fmt_upper_hex.induct)
  case (1 n)
  show ?case
  proof (cases "n < 16")
    case True
    then show ?thesis using upper_hex_digit_no_slash [OF True] by (auto simp: fmt_upper_hex_less)
  next
    case False
    then show ?thesis
      using 1 [OF False] upper_hex_digit_no_slash [of "n mod 16"] by (auto simp: fmt_upper_hex_rec)
  qed
qed

lemma fmt_upper_hex_length: "n < 16 ^ k \<Longrightarrow> 0 < k \<Longrightarrow> length (fmt_upper_hex n) \<le> k"
proof (induction n arbitrary: k rule: fmt_upper_hex.induct)
  case (1 n)
  show ?case
  proof (cases "n < 16")
    case True
    with 1 show ?thesis by (simp add: fmt_upper_hex_less)
  next
    case False
    obtain m where k: "k = Suc m" using 1 by (cases k) auto
    with False 1 have "0 < m" by (cases m) auto
    moreover have "n div 16 < 16 ^ m" using 1 k by (simp add: less_mult_imp_div_less mult.commute)
    ultimately show ?thesis using 1(1) [OF False, of m] False k by (simp add: fmt_upper_hex_rec)
  qed
qed

lemma encode_upper_hex: "d < 16 \<Longrightarrow> encode_char (upper_hex_digit d) = [byte_of (upper_hex_digit d)]"
  by (auto simp: encode_char_def upper_hex_digit_def)

lemma hex_digit_of_upper: "d < 16 \<Longrightarrow> hex_digit_of_byte (byte_of (upper_hex_digit d)) = Some d"
  by (auto simp: hex_digit_of_byte_def in_range_def upper_hex_digit_def)

lemma parse_hex_step:
  assumes "d < 16" "k < 8" "v * 16 + d < 2 ^ 32"
  shows "parse_hex_u32_loop ie oe k v (as_bytes [upper_hex_digit d] @ rest) =
    parse_hex_u32_loop ie oe (Suc k) (v * 16 + d) rest"
  using assms by (simp add: encode_upper_hex hex_digit_of_upper checked_mul_add_def)

lemma parse_hex_fmt:
  "k + length (fmt_upper_hex n) \<le> 8 \<Longrightarrow> v * 16 ^ length (fmt_upper_hex n) + n < 2 ^ 32 \<Longrightarrow>
     parse_hex_u32_loop ie oe k v (as_bytes (fmt_upper_hex n) @ rest) =
       parse_hex_u32_loop ie oe (k + length (fmt_upper_hex n)) (v * 16 ^ length (fmt_upper_hex n) + n) rest"
proof (induction n arbitrary: rest rule: fmt_upper_hex.induct)
  case (1 n)
  show ?case
  proof (cases "n < 16")
    case True
    with 1(2,3) parse_hex_step [OF True, of k v ie oe rest] show ?thesis
      by (simp add: fmt_upper_hex_less)
  next
    case False
    define q where "q = n div 16"
    define m where "m = length (fmt_upper_hex q)"
    have f: "fmt_upper_hex n = fmt_upper_hex q @ [upper_hex_digit (n mod 16)]"
      using False by (simp add: fmt_upper_hex_rec q_def)
    have n: "n = q * 16 + n mod 16" by (simp add: q_def)
    have e: "v * 16 ^ Suc m + n = (v * 16 ^ m + q) * 16 + n mod 16" using n by (simp add: algebra_simps)
    have b: "k + m < 8" "(v * 16 ^ m + q) * 16 + n mod 16 < 2 ^ 32"
      using 1(2,3) e by (simp_all add: f m_def)
    moreover have "v * 16 ^ m + q \<le> (v * 16 ^ m + q) * 16 + n mod 16" by simp
    ultimately have "v * 16 ^ m + q < 2 ^ 32" by (meson le_less_trans)
    then have "parse_hex_u32_loop ie oe k v (as_bytes (fmt_upper_hex q) @ as_bytes [upper_hex_digit (n mod 16)] @ rest) =
        parse_hex_u32_loop ie oe (k + m) (v * 16 ^ m + q) (as_bytes [upper_hex_digit (n mod 16)] @ rest)"
      using 1(1) [OF False] b unfolding q_def [symmetric] m_def [symmetric] by simp
    also have "\<dots> = parse_hex_u32_loop ie oe (Suc (k + m)) ((v * 16 ^ m + q) * 16 + n mod 16) rest"
      by (rule parse_hex_step) (use b in auto)
    finally show ?thesis unfolding f e [symmetric] by (simp add: m_def)
  qed
qed

lemma parse_hex_u32_fmt: "parse_hex_u32 (fmt_upper_hex (unat (w :: u32))) ie oe = Inr (unat w)"
proof -
  have lt: "unat w < 2 ^ 32" using unsigned_less [of w, where ?'a = nat] by simp
  then have "length (fmt_upper_hex (unat w)) \<le> 8" by (intro fmt_upper_hex_length) simp_all
  with lt parse_hex_fmt [of 0 "unat w" 0 ie oe "[]"] show ?thesis by (simp add: parse_hex_u32_def)
qed

text \<open>A log position printed by the proxy is parsed back as the same position.\<close>

lemma lsn_roundtrip: "lsn_from_str (lsn_display l) = Inr l"
proof -
  have "split_once_char (lsn_display l) 47 =
      Some (fmt_upper_hex (unat (lsn_segment l)), fmt_upper_hex (unat (lsn_offset l)))"
    unfolding split_once_char_Some by (simp add: lsn_display_def fmt_upper_hex_no_slash)
  then show ?thesis by (simp add: lsn_from_str_def parse_hex_u32_fmt)
qed

text \<open>Every accepted text has two parts of one to eight hexadecimal digits.\<close>

lemma parse_hex_loop_bound:
  "parse_hex_u32_loop ie oe k v bs = Inr r \<Longrightarrow> k \<le> 8 \<Longrightarrow> v < 2 ^ 32 \<Longrightarrow>
     k + length bs \<le> 8 \<and> r < 2 ^ 32 \<and> (\<forall>b\<in>set bs. hex_digit_of_byte b \<noteq> None)"
  by (induction ie oe k v bs rule: parse_hex_u32_loop.induct)
     (auto simp: and_then_eq_Inr checked_mul_add_def split: if_splits option.splits)

lemma lsn_from_str_sound:
  assumes "lsn_from_str s = Inr l"
  shows "\<exists>a b. s = a @ chr CHR ''/'' # b \<and> length (as_bytes a) \<in> {1..8} \<and> length (as_bytes b) \<in> {1..8} \<and>
    (\<forall>x\<in>set (as_bytes a @ as_bytes b). hex_digit_of_byte x \<noteq> None)"
proof -
  obtain a b x y where s: "split_once_char s (chr CHR ''/'') = Some (a, b)" "a \<noteq> []" "b \<noteq> []"
    and p: "parse_hex_u32 a InvalidSegment SegmentOverflow = Inr x" "parse_hex_u32 b InvalidOffset OffsetOverflow = Inr y"
    using assms by (auto simp: lsn_from_str_def and_then_eq_Inr split: if_splits)
  have ne: "as_bytes a \<noteq> []" "as_bytes b \<noteq> []" using s by (cases a; cases b; simp)+
  show ?thesis
    using s(1) ne parse_hex_loop_bound [OF p(1) [unfolded parse_hex_u32_def]]
      parse_hex_loop_bound [OF p(2) [unfolded parse_hex_u32_def]]
    unfolding split_once_char_Some
    by (intro exI [of _ a] exI [of _ b]) (auto simp: Suc_le_eq simp del: length_as_bytes)
qed

end
