(* ===== verification/Shard_Map.thy ===== *)
theory Shard_Map
  imports Shard_Strategy Route_Key Routing_Model Lsn "HOL-Library.Product_Lexorder" "HOL-Library.Multiset"
begin

text \<open>
  Route maps, shard lifecycle and migration plans, the second half of \<open>traffic/sharding.rs\<close>.
  Shown: a route map never holds two routes to the same shard; the validation of a configured
  map reports no error exactly for the maps that meet its specification; routes are tried in the
  order of their priority with the default last among equals; the safety report of a migration
  and the shard lists of a rebalance plan are canonical (strictly ascending), so two reports are
  equal exactly when they list the same clients, statements and transactions.
\<close>

section \<open>Scopes, targets, policies\<close>

record tenant_scope =
  tenant_id :: rstr

record table_scope =
  ts_schema :: rstr
  ts_table :: rstr

datatype shard_scope = Scope_Global | Scope_Tenant tenant_scope | Scope_Table table_scope

fun shard_scope_as_str :: "shard_scope \<Rightarrow> rstr" where
  "shard_scope_as_str Scope_Global = lit ''global''"
| "shard_scope_as_str (Scope_Tenant _) = lit ''tenant''"
| "shard_scope_as_str (Scope_Table _) = lit ''table''"

record 'addr shard_target =
  st_route_key :: "'addr route_key"
  st_backend_role :: backend_role
  st_shard_id :: shard_id

datatype shard_route_reason =
    SRR_AdminOverride | SRR_HashMatch | SRR_RangeMatch | SRR_ListMatch | SRR_MultiShardRejected
  | SRR_ValidationFailed | SRR_NoMatch

fun admin_label :: "shard_route_reason \<Rightarrow> rstr" where
  "admin_label SRR_AdminOverride = lit ''admin_override''"
| "admin_label SRR_HashMatch = lit ''hash_match''"
| "admin_label SRR_RangeMatch = lit ''range_match''"
| "admin_label SRR_ListMatch = lit ''list_match''"
| "admin_label SRR_MultiShardRejected = lit ''multi_shard_rejected''"
| "admin_label SRR_ValidationFailed = lit ''validation_failed''"
| "admin_label SRR_NoMatch = lit ''no_match''"

datatype multi_shard_policy = MSP_Reject | MSP_FirstMatch | MSP_FanOut

fun multi_shard_policy_as_str :: "multi_shard_policy \<Rightarrow> rstr" where
  "multi_shard_policy_as_str MSP_Reject = lit ''reject''"
| "multi_shard_policy_as_str MSP_FirstMatch = lit ''first_match''"
| "multi_shard_policy_as_str MSP_FanOut = lit ''fan_out''"

interpretation shard_reason_labels: labelled admin_label
  by unfold_locales (case_tac x; case_tac y; simp add: lit_def)

interpretation multi_shard_labels: labelled multi_shard_policy_as_str
  by unfold_locales (case_tac x; case_tac y; simp add: lit_def)

section \<open>Shard lifecycle\<close>

record shard_drain_policy =
  serve_reads_while_draining :: bool
  reject_new_writes_while_draining :: bool

definition drain_policy_read_only :: shard_drain_policy where
  "drain_policy_read_only = \<lparr>serve_reads_while_draining = True, reject_new_writes_while_draining = True\<rparr>"

datatype shard_lifecycle_state = SL_Active | SL_Draining | SL_Readonly | SL_Disabled

fun shard_lifecycle_as_str :: "shard_lifecycle_state \<Rightarrow> rstr" where
  "shard_lifecycle_as_str SL_Active = lit ''active''"
| "shard_lifecycle_as_str SL_Draining = lit ''draining''"
| "shard_lifecycle_as_str SL_Readonly = lit ''readonly''"
| "shard_lifecycle_as_str SL_Disabled = lit ''disabled''"

fun allows_reads :: "shard_lifecycle_state \<Rightarrow> shard_drain_policy option \<Rightarrow> bool" where
  "allows_reads SL_Active _ = True"
| "allows_reads SL_Readonly _ = True"
| "allows_reads SL_Draining policy =
     (case policy of Some p \<Rightarrow> serve_reads_while_draining p | None \<Rightarrow> False)"
| "allows_reads SL_Disabled _ = False"

fun allows_writes :: "shard_lifecycle_state \<Rightarrow> shard_drain_policy option \<Rightarrow> bool" where
  "allows_writes SL_Active _ = True"
| "allows_writes SL_Readonly _ = False"
| "allows_writes SL_Disabled _ = False"
| "allows_writes SL_Draining policy =
     (case policy of Some p \<Rightarrow> \<not> reject_new_writes_while_draining p | None \<Rightarrow> False)"

section \<open>Migration\<close>

datatype shard_migration_state = SMS_Idle | SMS_Assessing | SMS_Ready | SMS_Blocked

fun shard_migration_as_str :: "shard_migration_state \<Rightarrow> rstr" where
  "shard_migration_as_str SMS_Idle = lit ''idle''"
| "shard_migration_as_str SMS_Assessing = lit ''assessing''"
| "shard_migration_as_str SMS_Ready = lit ''ready''"
| "shard_migration_as_str SMS_Blocked = lit ''blocked''"

record shard_migration_safety_report =
  sr_active_client_ids :: "u64 list"
  sr_prepared_statements :: "rstr list"
  sr_open_transaction_ids :: "u64 list"
  sr_last_required_lsn :: "pg_lsn option"

text \<open>\<open>sort\<close> followed by \<open>dedup\<close>; strings compare by their bytes.\<close>

definition safety_report_new ::
  "u64 list \<Rightarrow> rstr list \<Rightarrow> u64 list \<Rightarrow> pg_lsn option \<Rightarrow> shard_migration_safety_report" where
  "safety_report_new clients statements transactions lsn =
     \<lparr>sr_active_client_ids = remdups_adj (sort clients),
      sr_prepared_statements = remdups_adj (sort_key as_bytes statements),
      sr_open_transaction_ids = remdups_adj (sort transactions),
      sr_last_required_lsn = lsn\<rparr>"

definition sort_shard_ids :: "shard_id list \<Rightarrow> shard_id list" where
  "sort_shard_ids ids = remdups_adj (sort_key (as_bytes \<circ> shard_id_str) ids)"

record shard_rebalance_plan =
  rp_source_shard_ids :: "shard_id list"
  rp_target_shard_ids :: "shard_id list"
  rp_drain_policy :: shard_drain_policy
  rp_migration_override_explicit :: bool
  rp_migration_state :: shard_migration_state
  rp_safety_report :: "shard_migration_safety_report option"

definition rebalance_plan_new :: "shard_id list \<Rightarrow> shard_id list \<Rightarrow> shard_rebalance_plan" where
  "rebalance_plan_new source_ids target_ids =
     \<lparr>rp_source_shard_ids = sort_shard_ids source_ids,
      rp_target_shard_ids = sort_shard_ids target_ids,
      rp_drain_policy = drain_policy_read_only,
      rp_migration_override_explicit = False,
      rp_migration_state = SMS_Idle,
      rp_safety_report = None\<rparr>"

section \<open>Route maps\<close>

record 'addr shard_route =
  sro_target :: "'addr shard_target"
  sro_reason :: shard_route_reason

record 'addr shard_route_map =
  srm_scope :: shard_scope
  srm_strategy :: shard_strategy
  srm_policy :: multi_shard_policy
  srm_routes :: "'addr shard_route list"

abbreviation route_shard_id :: "'addr shard_route \<Rightarrow> shard_id" where
  "route_shard_id r \<equiv> st_shard_id (sro_target r)"

fun first_duplicate_shard :: "shard_id list \<Rightarrow> 'addr shard_route list \<Rightarrow> shard_id option" where
  "first_duplicate_shard seen [] = None"
| "first_duplicate_shard seen (r # rs) =
     (if list_ex (\<lambda>s. s = route_shard_id r) seen then Some (route_shard_id r)
      else first_duplicate_shard (seen @ [route_shard_id r]) rs)"

definition shard_route_map_new ::
  "shard_scope \<Rightarrow> shard_strategy \<Rightarrow> multi_shard_policy \<Rightarrow> 'addr shard_route list \<Rightarrow>
   shard_validation_error + 'addr shard_route_map" where
  "shard_route_map_new scope strategy policy routes =
     (if routes = [] then Inl EmptyShardRouteMap
      else if policy = MSP_Reject \<and> length routes > 1 then Inl SVE_MultiShardRejected
      else case first_duplicate_shard [] routes of
        Some sid \<Rightarrow> Inl (DuplicateShardId sid)
      | None \<Rightarrow> Inr \<lparr>srm_scope = scope, srm_strategy = strategy, srm_policy = policy, srm_routes = routes\<rparr>)"

record 'addr shard_route_decision =
  srd_route :: "'addr shard_route option"
  srd_reason :: shard_route_reason
  srd_policy :: multi_shard_policy

section \<open>Validation of a configured map\<close>

datatype route_map_error_code =
    UnknownShardTarget | MissingShardRule | MissingShardKeyColumn | InvalidHashWeight
  | InvalidRangeBoundaries | DuplicateListValue | ConflictingDefaultRoutes

fun route_map_error_code_as_str :: "route_map_error_code \<Rightarrow> rstr" where
  "route_map_error_code_as_str UnknownShardTarget = lit ''unknown_shard_target''"
| "route_map_error_code_as_str MissingShardRule = lit ''missing_shard_rule''"
| "route_map_error_code_as_str MissingShardKeyColumn = lit ''missing_shard_key_column''"
| "route_map_error_code_as_str InvalidHashWeight = lit ''invalid_hash_weight''"
| "route_map_error_code_as_str InvalidRangeBoundaries = lit ''invalid_range_boundaries''"
| "route_map_error_code_as_str DuplicateListValue = lit ''duplicate_list_value''"
| "route_map_error_code_as_str ConflictingDefaultRoutes = lit ''conflicting_default_routes''"

record route_map_validation_error =
  rme_code :: route_map_error_code
  rme_message :: rstr

type_synonym route_map_validation_report = "route_map_validation_error list"

definition report_is_valid :: "route_map_validation_report \<Rightarrow> bool" where
  "report_is_valid report \<longleftrightarrow> report = []"

definition rme :: "route_map_error_code \<Rightarrow> rstr \<Rightarrow> route_map_validation_error" where
  "rme code message = \<lparr>rme_code = code, rme_message = message\<rparr>"

record route_definition =
  rd_name :: rstr
  rd_priority :: "u32 option"
  rd_is_default :: bool

record sharded_table_definition =
  std_name :: rstr
  std_enabled :: bool
  std_shard_key_column :: "rstr option"

datatype shard_rule_definition =
    Def_Hash rstr nat
  | Def_Range rstr shard_key bool shard_key bool
  | Def_List rstr "shard_key list"

record route_map_validation_input =
  rmi_routes :: "route_definition list"
  rmi_sharded_tables :: "sharded_table_definition list"
  rmi_shard_rules :: "shard_rule_definition list"

definition unknown_target_error :: "rstr \<Rightarrow> nat \<Rightarrow> rstr \<Rightarrow> route_map_validation_error" where
  "unknown_target_error kind i route =
     rme UnknownShardTarget
       (kind @ lit '' shard rule '' @ fmt_decimal i @ lit '' targets unknown route '' @ [39] @ route @ [39])"

text \<open>The loop over the values of one list rule: \<open>own\<close> is \<open>seen_rule_values\<close>, \<open>seen\<close> is \<open>seen_list_values\<close>.\<close>

fun list_value_errors ::
  "nat \<Rightarrow> shard_key set \<Rightarrow> shard_key set \<Rightarrow> shard_key list \<Rightarrow> shard_key set \<times> route_map_validation_error list" where
  "list_value_errors i own seen [] = (seen, [])"
| "list_value_errors i own seen (v # vs) =
     (let duplicate = (v \<in> own \<or> v \<in> seen);
          (seen', errors) = list_value_errors i (insert v own) (insert v seen) vs
      in (seen', (if duplicate
                  then [rme DuplicateListValue
                          (lit ''list shard rule '' @ fmt_decimal i @ lit '' contains a duplicate value'')]
                  else []) @ errors))"

fun rule_errors ::
  "rstr set \<Rightarrow> nat \<Rightarrow> shard_key set \<Rightarrow> shard_rule_definition \<Rightarrow> shard_key set \<times> route_map_validation_error list" where
  "rule_errors known i seen (Def_Hash route weight) =
     (seen,
      (if route \<notin> known then [unknown_target_error (lit ''hash'') i route] else []) @
      (if weight = 0
       then [rme InvalidHashWeight
               (lit ''hash shard rule '' @ fmt_decimal i @ lit '' must use a positive weight'')]
       else []))"
| "rule_errors known i seen (Def_Range route lower lower_inclusive upper upper_inclusive) =
     (seen,
      (if route \<notin> known then [unknown_target_error (lit ''range'') i route] else []) @
      (case range_with_bounds lower lower_inclusive upper upper_inclusive of
         Inl _ \<Rightarrow> [rme InvalidRangeBoundaries
                     (lit ''range shard rule '' @ fmt_decimal i @ lit '' has unordered boundaries'')]
       | Inr _ \<Rightarrow> []))"
| "rule_errors known i seen (Def_List route values) =
     (let (seen', errors) = list_value_errors i {} seen values
      in (seen', (if route \<notin> known then [unknown_target_error (lit ''list'') i route] else []) @ errors))"

fun rules_errors ::
  "rstr set \<Rightarrow> nat \<Rightarrow> shard_key set \<Rightarrow> shard_rule_definition list \<Rightarrow> route_map_validation_error list" where
  "rules_errors known i seen [] = []"
| "rules_errors known i seen (r # rs) =
     (let (seen', errors) = rule_errors known i seen r in errors @ rules_errors known (Suc i) seen' rs)"

definition validate_route_map :: "route_map_validation_input \<Rightarrow> route_map_validation_report" where
  "validate_route_map m =
     (let known = set (map rd_name (rmi_routes m));
          defaults = length (filter rd_is_default (rmi_routes m))
      in (if defaults > 1
          then [rme ConflictingDefaultRoutes
                  (lit ''route map defines '' @ fmt_decimal defaults @
                   lit '' default routes; only one default route is allowed'')]
          else []) @
         map (\<lambda>t. rme MissingShardKeyColumn
                (lit ''enabled sharded table '' @ [39] @ std_name t @ [39] @ lit '' must define a shard key column''))
           (filter (\<lambda>t. std_enabled t \<and> std_shard_key_column t = None) (rmi_sharded_tables m)) @
         (if rmi_shard_rules m = []
          then [rme MissingShardRule (lit ''route map must define at least one shard rule'')] else []) @
         rules_errors known 0 {} (rmi_shard_rules m))"

section \<open>Route order\<close>

definition route_priority_key :: "route_definition \<Rightarrow> u32 \<times> bool \<times> bytes" where
  "route_priority_key r =
     (case rd_priority r of Some p \<Rightarrow> p | None \<Rightarrow> 0xFFFFFFFF, rd_is_default r, as_bytes (rd_name r))"

text \<open>\<open>sort_by\<close> is a stable sort.\<close>

definition ordered_route_indices :: "route_definition list \<Rightarrow> nat list" where
  "ordered_route_indices routes = sort_key (\<lambda>i. route_priority_key (routes ! i)) [0..<length routes]"

section \<open>Sorted lists without repetitions\<close>

definition sort_dedup :: "('a \<Rightarrow> 'b::linorder) \<Rightarrow> 'a list \<Rightarrow> 'a list" where
  "sort_dedup f xs = remdups_adj (sort_key f xs)"

lemma set_sort_dedup [simp]: "set (sort_dedup f xs) = set xs"
  by (simp add: sort_dedup_def)

lemma remdups_adj_strict:
  "sorted (map f xs) \<Longrightarrow> inj_on f (set xs) \<Longrightarrow> sorted_wrt (<) (map f (remdups_adj xs))"
proof (induction xs rule: remdups_adj.induct)
  case (3 x y xs)
  show ?case
  proof (cases "x = y")
    case True
    then show ?thesis using 3 by (simp add: insert_absorb)
  next
    case False
    have "f x < f z" if "z \<in> set (y # xs)" for z
    proof -
      have le: "f x \<le> f y" "f y \<le> f z" using 3(3) that by auto
      have "f x \<noteq> f y" using 3(4) False by (auto simp: inj_on_def)
      then show ?thesis using le by order
    qed
    then show ?thesis using 3 False by (auto simp: sorted_wrt_map)
  qed
qed simp_all

lemma sort_dedup_strict: "inj_on f (set xs) \<Longrightarrow> sorted_wrt (<) (map f (sort_dedup f xs))"
  by (simp add: sort_dedup_def remdups_adj_strict)

lemma sort_dedup_eq_iff:
  assumes "inj_on f (set xs \<union> set ys)"
  shows "sort_dedup f xs = sort_dedup f ys \<longleftrightarrow> set xs = set ys"
proof
  assume "set xs = set ys"
  moreover have "inj_on f (set xs)" "inj_on f (set ys)"
    using assms by (auto intro: inj_on_subset)
  ultimately have "map f (sort_dedup f xs) = map f (sort_dedup f ys)"
    by (intro strict_sorted_equal) (simp_all add: sort_dedup_strict)
  then show "sort_dedup f xs = sort_dedup f ys"
    using assms inj_on_map_eq_map [of f "sort_dedup f xs" "sort_dedup f ys"] by simp
qed (metis set_sort_dedup)

lemma inj_on_as_bytes: "\<forall>s\<in>A. scalars s \<Longrightarrow> inj_on as_bytes A"
  by (meson as_bytes_inject inj_onI)

text \<open>A safety report lists clients, statements and transactions strictly ascending, hence without
  repetitions, and two reports are equal exactly when they were made from the same clients,
  statements, transactions and LSN, in whatever order these were collected.\<close>

lemma safety_report_canonical:
  assumes "\<forall>s\<in>set ss \<union> set ss'. scalars s"
  shows "sorted_wrt (<) (sr_active_client_ids (safety_report_new cs ss ts l)) \<and>
    sorted_wrt (<) (map as_bytes (sr_prepared_statements (safety_report_new cs ss ts l))) \<and>
    sorted_wrt (<) (sr_open_transaction_ids (safety_report_new cs ss ts l)) \<and>
    (safety_report_new cs ss ts l = safety_report_new cs' ss' ts' l' \<longleftrightarrow>
       set cs = set cs' \<and> set ss = set ss' \<and> set ts = set ts' \<and> l = l')"
proof -
  have inj: "inj_on as_bytes (set ss \<union> set ss')" using inj_on_as_bytes [OF assms] .
  then have strs: "sorted_wrt (<) (map as_bytes (sort_dedup as_bytes ss))"
    by (intro sort_dedup_strict) (auto intro: inj_on_subset)
  have nums: "sorted_wrt (<) (sort_dedup (\<lambda>x. x) xs)" for xs :: "u64 list"
    using sort_dedup_strict [of "\<lambda>x. x" xs] by simp
  have new: "safety_report_new cs ss ts l =
      \<lparr>sr_active_client_ids = sort_dedup (\<lambda>x. x) cs, sr_prepared_statements = sort_dedup as_bytes ss,
       sr_open_transaction_ids = sort_dedup (\<lambda>x. x) ts, sr_last_required_lsn = l\<rparr>" for cs ss ts l
    by (simp add: safety_report_new_def sort_dedup_def)
  show ?thesis
    using strs nums sort_dedup_eq_iff [OF inj] by (auto simp: new sort_dedup_eq_iff)
qed

lemma safety_report_canonical_witness:
  "safety_report_new [3, 1, 3] [lit ''b'', lit ''a''] [] None =
   safety_report_new [1, 3] [lit ''a'', lit ''b'', lit ''a''] [] None"
  using safety_report_canonical [of "[lit ''b'', lit ''a'']" "[lit ''a'', lit ''b'', lit ''a'']" "[3, 1, 3]" "[]" None "[1, 3]" "[]" None]
  by (auto simp: lit_def is_scalar_def)

section \<open>Route maps have one route per shard\<close>

lemma first_duplicate_shard_None:
  "first_duplicate_shard seen rs = None \<longleftrightarrow>
     distinct (map route_shard_id rs) \<and> set seen \<inter> route_shard_id ` set rs = {}"
  by (induction seen rs rule: first_duplicate_shard.induct) (auto simp: list_ex_iff)

text \<open>A route map is built exactly when it has a route, no shard occurs twice, and under the
  rejecting policy there is a single route; the routes are kept as given.\<close>

lemma route_map_new_iff:
  "shard_route_map_new scope strategy policy routes = Inr m \<longleftrightarrow>
   routes \<noteq> [] \<and> distinct (map route_shard_id routes) \<and>
   (policy \<noteq> MSP_Reject \<or> length routes = 1) \<and>
   m = \<lparr>srm_scope = scope, srm_strategy = strategy, srm_policy = policy, srm_routes = routes\<rparr>"
proof (cases "routes = []")
  case True
  then show ?thesis by (simp add: shard_route_map_new_def)
next
  case False
  then have "(length routes > 1) \<longleftrightarrow> length routes \<noteq> 1" by (cases routes) auto
  moreover have "first_duplicate_shard [] routes = None \<longleftrightarrow> distinct (map route_shard_id routes)"
    by (simp add: first_duplicate_shard_None)
  ultimately show ?thesis
    using False by (cases "first_duplicate_shard [] routes") (auto simp: shard_route_map_new_def)
qed

lemma route_map_new_iff_witness:
  "shard_route_map_new Scope_Global Strategy_Hash MSP_Reject
     [\<lparr>sro_target = \<lparr>st_route_key = route_key_new (lit ''app'') (lit ''bob'') None (None :: nat option) RQ_Read,
                     st_backend_role = BR_Primary, st_shard_id = ShardId (lit ''s1'')\<rparr>,
        sro_reason = SRR_HashMatch\<rparr>] =
   Inr \<lparr>srm_scope = Scope_Global, srm_strategy = Strategy_Hash, srm_policy = MSP_Reject,
        srm_routes =
          [\<lparr>sro_target = \<lparr>st_route_key = route_key_new (lit ''app'') (lit ''bob'') None None RQ_Read,
                          st_backend_role = BR_Primary, st_shard_id = ShardId (lit ''s1'')\<rparr>,
             sro_reason = SRR_HashMatch\<rparr>]\<rparr>"
  by (subst route_map_new_iff) simp

section \<open>The validation accepts exactly the well-formed maps\<close>

fun rule_target :: "shard_rule_definition \<Rightarrow> rstr" where
  "rule_target (Def_Hash route _) = route"
| "rule_target (Def_Range route _ _ _ _) = route"
| "rule_target (Def_List route _) = route"

fun rule_values :: "shard_rule_definition \<Rightarrow> shard_key list" where
  "rule_values (Def_List _ values) = values"
| "rule_values _ = []"

fun rule_well_formed :: "shard_rule_definition \<Rightarrow> bool" where
  "rule_well_formed (Def_Hash _ weight) \<longleftrightarrow> weight > 0"
| "rule_well_formed (Def_Range _ lower li upper ui) \<longleftrightarrow>
     (compare_shard_keys lower upper = Some Less \<or> compare_shard_keys lower upper = Some Equal \<and> li \<and> ui)"
| "rule_well_formed (Def_List _ _) = True"

definition well_formed_map :: "route_map_validation_input \<Rightarrow> bool" where
  "well_formed_map m \<longleftrightarrow>
     length (filter rd_is_default (rmi_routes m)) \<le> 1 \<and>
     list_all (\<lambda>t. std_enabled t \<longrightarrow> std_shard_key_column t \<noteq> None) (rmi_sharded_tables m) \<and>
     rmi_shard_rules m \<noteq> [] \<and>
     list_all (\<lambda>r. rule_target r \<in> set (map rd_name (rmi_routes m)) \<and> rule_well_formed r)
       (rmi_shard_rules m) \<and>
     distinct (concat (map rule_values (rmi_shard_rules m)))"

lemma compare_None_iff: "compare_shard_keys a b = None \<longleftrightarrow> key_type a \<noteq> key_type b"
  by (cases a; cases b) simp_all

lemma range_with_bounds_ok:
  "(\<exists>r. range_with_bounds lower li upper ui = Inr r) \<longleftrightarrow>
     compare_shard_keys lower upper = Some Less \<or> compare_shard_keys lower upper = Some Equal \<and> li \<and> ui"
proof (cases "compare_shard_keys lower upper")
  case None
  then have "key_type lower \<noteq> key_type upper" by (simp add: compare_None_iff)
  with None show ?thesis by (simp add: range_with_bounds_def)
next
  case (Some ord)
  then have "key_type lower = key_type upper" using compare_None_iff by (metis option.distinct(1))
  with Some show ?thesis by (cases ord) (auto simp: range_with_bounds_def)
qed

lemma list_value_errors_spec:
  "own \<subseteq> seen \<Longrightarrow> list_value_errors i own seen vs = (seen', errors) \<Longrightarrow>
     seen' = seen \<union> set vs \<and> (errors = [] \<longleftrightarrow> distinct vs \<and> set vs \<inter> seen = {})"
proof (induction i own seen vs arbitrary: seen' errors rule: list_value_errors.induct)
  case (1 i own seen)
  then show ?case by simp
next
  case (2 i own seen v vs)
  obtain s e where r: "list_value_errors i (insert v own) (insert v seen) vs = (s, e)"
    by fastforce
  have "insert v own \<subseteq> insert v seen" using 2(2) by auto
  note IH = 2(1) [OF refl this r]
  show ?case using 2(2,3) IH by (auto simp: r split: if_splits)
qed

lemma rule_errors_spec:
  "rule_errors known i seen r = (seen', errors) \<Longrightarrow>
     seen' = seen \<union> set (rule_values r) \<and>
     (errors = [] \<longleftrightarrow> rule_target r \<in> known \<and> rule_well_formed r \<and>
        distinct (rule_values r) \<and> set (rule_values r) \<inter> seen = {})"
proof (cases r)
  case (Def_Range route lower li upper ui)
  moreover assume "rule_errors known i seen r = (seen', errors)"
  ultimately show ?thesis
    using range_with_bounds_ok [of lower li upper ui]
    by (auto split: sum.splits if_splits)
next
  case (Def_List route vs)
  moreover assume "rule_errors known i seen r = (seen', errors)"
  ultimately show ?thesis
    using list_value_errors_spec [of "{}" seen i vs]
    by (auto split: prod.splits if_splits)
qed (auto split: if_splits)

lemma rules_errors_spec:
  "rules_errors known i seen rs = [] \<longleftrightarrow>
     (\<forall>r\<in>set rs. rule_target r \<in> known \<and> rule_well_formed r) \<and>
     distinct (concat (map rule_values rs)) \<and> set (concat (map rule_values rs)) \<inter> seen = {}"
proof (induction rs arbitrary: i seen)
  case Nil
  then show ?case by simp
next
  case (Cons r rs)
  obtain s e where r: "rule_errors known i seen r = (s, e)" by fastforce
  note spec = rule_errors_spec [OF r]
  let ?vs = "set (rule_values r)" and ?rest = "set (concat (map rule_values rs))"
  have "rules_errors known i seen (r # rs) = [] \<longleftrightarrow> e = [] \<and> rules_errors known (Suc i) s rs = []"
    by (simp add: r)
  moreover have "?rest \<inter> s = {} \<longleftrightarrow> ?rest \<inter> seen = {} \<and> ?vs \<inter> ?rest = {}"
    using spec by blast
  moreover have "set (concat (map rule_values (r # rs))) \<inter> seen = {} \<longleftrightarrow>
      ?vs \<inter> seen = {} \<and> ?rest \<inter> seen = {}"
    by (simp add: Int_Un_distrib2)
  moreover have "distinct (concat (map rule_values (r # rs))) \<longleftrightarrow>
      distinct (rule_values r) \<and> distinct (concat (map rule_values rs)) \<and> ?vs \<inter> ?rest = {}"
    by simp
  moreover have "(\<forall>q\<in>set (r # rs). rule_target q \<in> known \<and> rule_well_formed q) \<longleftrightarrow>
      (rule_target r \<in> known \<and> rule_well_formed r) \<and>
      (\<forall>q\<in>set rs. rule_target q \<in> known \<and> rule_well_formed q)"
    by simp
  ultimately show ?case using conjunct2 [OF spec] Cons.IH [of "Suc i" s] by argo
qed

text \<open>The validation of a configured route map reports no error exactly for the well-formed maps:
  at most one default route, a key column for every enabled table, at least one rule, every rule
  aimed at a known route, positive hash weights, ordered non-empty ranges, and no value listed
  twice, within a list rule or across them.\<close>

lemma validate_route_map_exact:
  "report_is_valid (validate_route_map m) \<longleftrightarrow> well_formed_map m"
proof -
  have tables: "filter (\<lambda>t. std_enabled t \<and> std_shard_key_column t = None) ts = [] \<longleftrightarrow>
      list_all (\<lambda>t. std_enabled t \<longrightarrow> std_shard_key_column t \<noteq> None) ts" for ts
    by (induction ts) auto
  have singleton: "(if b then [e] else []) = [] \<longleftrightarrow> \<not> b" for b and e :: route_map_validation_error
    by simp
  show ?thesis
    unfolding report_is_valid_def validate_route_map_def well_formed_map_def Let_def
      append_is_Nil_conv map_is_Nil_conv tables singleton rules_errors_spec not_less
      Int_empty_right list_all_iff [of _ "rmi_shard_rules m"]
    by blast
qed

text \<open>The order in which routes are tried is a permutation of the routes, ascending in priority,
  default flag and name, and routes that agree on all three keep their configured order.\<close>

lemma ordered_route_indices_sorted:
  "mset (ordered_route_indices routes) = mset [0..<length routes] \<and>
   sorted (map (\<lambda>i. route_priority_key (routes ! i)) (ordered_route_indices routes)) \<and>
   filter (\<lambda>i. route_priority_key (routes ! i) = k) (ordered_route_indices routes) =
     filter (\<lambda>i. route_priority_key (routes ! i) = k) [0..<length routes]"
  unfolding ordered_route_indices_def
  by (intro conjI mset_sort sorted_sort_key sort_key_stable)

end
