(* ===== verification/Sql_Command.thy ===== *)
theory Sql_Command
  imports Sql_Classify
begin

text \<open>
  The commands a session tracks, \<open>protocol/sql.rs\<close>. \<open>classify\<close> is \<open>None\<close> where the program panics: the
  byte slice after \<open>SET\<close> is taken at a fixed offset of the text as the client wrote it, while the
  test that guards it ran on a text with the white space normalised.

  Shown: commands are recognised up to letter case and white space; a \<open>SET\<close> with one blank after
  each keyword is read without panic and yields the key and the value; the panic is reachable.
\<close>

datatype transaction_access_mode = ReadOnly | ReadWrite

datatype set_scope = Scope_Session | Scope_Local

datatype sql_command =
    Cmd_Begin transaction_access_mode
  | Cmd_Commit
  | Cmd_Rollback
  | Cmd_SetTransaction transaction_access_mode
  | Cmd_Set set_scope rstr rstr
  | Cmd_Reset rstr
  | Cmd_DiscardAll
  | Cmd_DiscardTemp
  | Cmd_DiscardPlans
  | Cmd_CreateTemp
  | Cmd_AdvisoryLock
  | Cmd_AdvisoryUnlock
  | Cmd_Copy
  | Cmd_Listen
  | Cmd_Unlisten
  | Cmd_Query

definition cmd_normalize :: "rstr \<Rightarrow> rstr" where
  "cmd_normalize sql = to_ascii_lowercase (join (lit '' '') (split_whitespace sql))"

definition parse_begin_transaction :: "rstr \<Rightarrow> transaction_access_mode option" where
  "parse_begin_transaction n =
     (if n = lit ''begin'' \<or> n = lit ''start transaction'' then Some ReadWrite
      else if n = lit ''begin read only'' \<or> n = lit ''start transaction read only'' then Some ReadOnly
      else if n = lit ''begin read write'' \<or> n = lit ''start transaction read write'' then Some ReadWrite
      else None)"

definition parse_set_transaction :: "rstr \<Rightarrow> transaction_access_mode option" where
  "parse_set_transaction n =
     (if n = lit ''set transaction read only'' then Some ReadOnly
      else if n = lit ''set transaction read write'' then Some ReadWrite
      else None)"

fun set_prefix_len :: "set_scope \<Rightarrow> nat" where
  "set_prefix_len Scope_Session = 4"
| "set_prefix_len Scope_Local = 10"

definition parse_set :: "rstr \<Rightarrow> set_scope \<Rightarrow> sql_command option" where
  "parse_set sql scope =
     (case str_split_at (set_prefix_len scope) sql of
        None \<Rightarrow> None
      | Some (_, tail) \<Rightarrow>
          let rest = trim tail in
          (case split_once_char rest (chr CHR ''='') of
             None \<Rightarrow>
               (case split_whitespace rest of
                  [] \<Rightarrow> Some (Cmd_Set scope [] [])
                | key # parts \<Rightarrow> Some (Cmd_Set scope (to_ascii_lowercase key) (join (lit '' '') parts)))
           | Some (key, value) \<Rightarrow> Some (Cmd_Set scope (to_ascii_lowercase (trim key)) (trim value))))"

text \<open>The body of \<open>classify\<close> below its two \<open>let\<close>s.\<close>

definition classify_normalized :: "rstr \<Rightarrow> rstr \<Rightarrow> sql_command option" where
  "classify_normalized trimmed normalized =
     (case parse_begin_transaction normalized of
        Some access_mode \<Rightarrow> Some (Cmd_Begin access_mode)
      | None \<Rightarrow>
      (case parse_set_transaction normalized of
        Some access_mode \<Rightarrow> Some (Cmd_SetTransaction access_mode)
      | None \<Rightarrow>
        if normalized = lit ''commit'' \<or> normalized = lit ''end'' then Some Cmd_Commit
        else if normalized = lit ''rollback'' then Some Cmd_Rollback
        else if normalized = lit ''discard all'' then Some Cmd_DiscardAll
        else if normalized = lit ''discard temp'' \<or> normalized = lit ''discard temporary'' then Some Cmd_DiscardTemp
        else if normalized = lit ''discard plans'' then Some Cmd_DiscardPlans
        else if starts_with normalized (lit ''set local '') then parse_set trimmed Scope_Local
        else if starts_with normalized (lit ''set '') then parse_set trimmed Scope_Session
        else if starts_with normalized (lit ''reset '')
        then Some (Cmd_Reset (trim (trim_start_matches normalized (lit ''reset ''))))
        else if starts_with normalized (lit ''create temp '') \<or> starts_with normalized (lit ''create temporary '')
        then Some Cmd_CreateTemp
        else if contains_str normalized (lit ''pg_advisory_lock('') then Some Cmd_AdvisoryLock
        else if contains_str normalized (lit ''pg_advisory_unlock'') then Some Cmd_AdvisoryUnlock
        else if starts_with normalized (lit ''copy '') then Some Cmd_Copy
        else if starts_with normalized (lit ''listen '') then Some Cmd_Listen
        else if starts_with normalized (lit ''unlisten '') then Some Cmd_Unlisten
        else Some Cmd_Query))"

definition classify :: "rstr \<Rightarrow> sql_command option" where
  "classify sql =
     (let trimmed = trim (trim_end_matches_char (trim sql) (chr CHR '';''))
      in classify_normalized trimmed (cmd_normalize trimmed))"

lemma classify_normalized_None:
  assumes "classify_normalized t n = None"
  shows "starts_with n (lit ''set local '') \<and> parse_set t Scope_Local = None \<or>
    starts_with n (lit ''set '') \<and> parse_set t Scope_Session = None"
  using assms unfolding classify_normalized_def by (simp split: option.splits if_splits)

section \<open>Words\<close>

abbreviation plain_word :: "rstr \<Rightarrow> bool" where
  "plain_word w \<equiv> w \<noteq> [] \<and> (\<forall>c\<in>set w. \<not> is_whitespace c)"

lemma split_whitespace_Nil [simp]: "split_whitespace [] = []"
  by (simp add: split_whitespace.simps)

lemma split_whitespace_skip [simp]: "is_whitespace d \<Longrightarrow> split_whitespace (d # s) = split_whitespace s"
  by (simp add: split_whitespace.simps [of "d # s"] split_whitespace.simps [of s])

lemma split_whitespace_cons:
  "dropWhile is_whitespace s = t \<Longrightarrow> t \<noteq> [] \<Longrightarrow>
   split_whitespace s =
     takeWhile (\<lambda>c. \<not> is_whitespace c) t # split_whitespace (dropWhile (\<lambda>c. \<not> is_whitespace c) t)"
  by (subst split_whitespace.simps) (simp add: Let_def del: dropWhile_eq_Nil_conv)

lemma split_whitespace_empty: "dropWhile is_whitespace s = [] \<Longrightarrow> split_whitespace s = []"
  by (subst split_whitespace.simps) (simp add: Let_def del: dropWhile_eq_Nil_conv)

lemma split_whitespace_word:
  assumes "plain_word w" and "is_whitespace d"
  shows "split_whitespace (w @ d # s) = w # split_whitespace s"
proof -
  have "dropWhile is_whitespace (w @ d # s) = w @ d # s" using assms(1) by (cases w) auto
  from split_whitespace_cons [OF this] show ?thesis
    using assms by (simp add: takeWhile_append2 dropWhile_append2)
qed

lemma split_whitespace_last:
  assumes "plain_word w" shows "split_whitespace w = [w]"
proof -
  have "dropWhile is_whitespace w = w" using assms by (cases w) auto
  from split_whitespace_cons [OF this] show ?thesis
    using assms by (simp add: takeWhile_eq_all_conv split_whitespace_empty dropWhile_eq_Nil_conv [THEN iffD2])
qed

text \<open>One turn of the splitter: after leading white space the text continues with its first word.\<close>

lemma split_whitespace_step:
  assumes "split_whitespace s = w # ws"
  obtains p r where "s = p @ w @ r" and "\<forall>c\<in>set p. is_whitespace c" and "plain_word w"
    and "r = [] \<or> is_whitespace (hd r)" and "split_whitespace r = ws"
proof -
  let ?t = "dropWhile is_whitespace s"
  let ?r = "dropWhile (\<lambda>c. \<not> is_whitespace c) ?t"
  have t: "?t \<noteq> []" using assms split_whitespace_empty [of s] by auto
  have w: "w = takeWhile (\<lambda>c. \<not> is_whitespace c) ?t" and ws: "ws = split_whitespace ?r"
    using assms split_whitespace_cons [OF refl t] by simp_all
  have "s = takeWhile is_whitespace s @ w @ ?r" by (simp add: w)
  moreover have "w \<noteq> []"
    using t hd_dropWhile [OF t] unfolding w takeWhile_eq_Nil_iff by blast
  moreover have "\<forall>c\<in>set w. \<not> is_whitespace c" unfolding w by (blast dest: set_takeWhileD)
  moreover have "?r = [] \<or> is_whitespace (hd ?r)"
    using hd_dropWhile [of "\<lambda>c. \<not> is_whitespace c" ?t] by blast
  moreover have "\<forall>c\<in>set (takeWhile is_whitespace s). is_whitespace c" by (blast dest: set_takeWhileD)
  ultimately show ?thesis using that ws by blast
qed

lemma split_whitespace_plain: "w \<in> set (split_whitespace s) \<Longrightarrow> plain_word w"
proof (induction "length s" arbitrary: s rule: less_induct)
  case less
  then obtain v vs where v: "split_whitespace s = v # vs" by (cases "split_whitespace s") auto
  then obtain p r where r: "s = p @ v @ r" "plain_word v" "split_whitespace r = vs"
    by (rule split_whitespace_step)
  then have "length r < length s" by simp
  with less r v show ?case by (metis set_ConsD)
qed

text \<open>The white-space test on the normalised text speaks about the first words of the text.\<close>

lemma blank_whitespace [simp]: "is_whitespace 32"
  by (simp add: is_whitespace_def)

lemma lower_plain: "plain_word w \<Longrightarrow> plain_word (to_ascii_lowercase w)"
  by (simp add: to_ascii_lowercase_def)

lemma to_ascii_lowercase_append [simp]:
  "to_ascii_lowercase (a @ b) = to_ascii_lowercase a @ to_ascii_lowercase b"
  by (simp add: to_ascii_lowercase_def)

lemma to_ascii_lowercase_blank [simp]: "to_ascii_lowercase [32] = [32]"
  by (simp add: to_ascii_lowercase_def char_lower_def is_ascii_upper_def)

lemma words_start:
  assumes "\<forall>w\<in>set ws. plain_word w" and "32 \<notin> set p"
    and "starts_with (to_ascii_lowercase (join [32] ws)) (p @ 32 # q)"
  obtains w rest where "ws = w # rest" and "rest \<noteq> []" and "to_ascii_lowercase w = p"
    and "starts_with (to_ascii_lowercase (join [32] rest)) q"
proof -
  obtain tail where tail: "to_ascii_lowercase (join [32] ws) = p @ 32 # q @ tail"
    using assms(3) by (auto simp: starts_with_iff)
  obtain w rest where ws: "ws = w # rest" using tail by (cases ws) (auto simp: to_ascii_lowercase_def)
  have plain: "32 \<notin> set (to_ascii_lowercase w)"
    using lower_plain [of w] assms(1) ws by force
  have "rest \<noteq> []"
    using plain tail ws by (auto simp: in_set_conv_decomp)
  then have "join [32] ws = w @ 32 # join [32] rest" using ws by (cases rest) auto
  then have eq: "to_ascii_lowercase w @ 32 # to_ascii_lowercase (join [32] rest) = p @ 32 # q @ tail"
    using tail by (simp add: to_ascii_lowercase_def char_lower_def is_ascii_upper_def)
  have "split_once_char (p @ 32 # q @ tail) 32 = Some (p, q @ tail)"
    using assms(2) by (simp add: split_once_char_Some)
  moreover have "split_once_char (p @ 32 # q @ tail) 32 =
      Some (to_ascii_lowercase w, to_ascii_lowercase (join [32] rest))"
    using plain by (simp add: split_once_char_Some flip: eq)
  ultimately have "to_ascii_lowercase w = p \<and> to_ascii_lowercase (join [32] rest) = q @ tail" by simp
  then show ?thesis using that ws \<open>rest \<noteq> []\<close> by (simp add: starts_with_iff)
qed

section \<open>Reading SET\<close>

lemma split_at_ascii_text:
  "is_ascii_str p \<Longrightarrow> n \<le> length p \<Longrightarrow> str_split_at n (p @ q) = Some (take n p, drop n p @ q)"
  using str_len_ascii [of "take n p"]
  by (auto simp: str_split_at_Some is_ascii_str_def dest: in_set_takeD)

lemma is_ascii_lower [simp]: "is_ascii_str (to_ascii_lowercase s) = is_ascii_str s"
  by (auto simp: is_ascii_str_def to_ascii_lowercase_def char_lower_def is_ascii_upper_def)

lemma is_ascii_append [simp]: "is_ascii_str (a @ b) \<longleftrightarrow> is_ascii_str a \<and> is_ascii_str b"
  by (auto simp: is_ascii_str_def)

lemma parse_set_total:
  assumes "is_ascii_str p" and "set_prefix_len scope \<le> length p"
  shows "\<exists>key value. parse_set (p @ q) scope = Some (Cmd_Set scope key value)"
  using split_at_ascii_text [OF assms, of q]
  by (auto simp: parse_set_def Let_def split: option.splits list.splits)

abbreviation ascii_blanks :: "rstr \<Rightarrow> bool" where
  "ascii_blanks s \<equiv> \<forall>c\<in>set s. is_whitespace c \<longrightarrow> c < 128"

text \<open>A word that is followed by another one is followed by white space.\<close>

lemma split_whitespace_next:
  assumes "split_whitespace s = w # v # ws" and "ascii_blanks s" and "is_ascii_str w"
  obtains p r where "s = p @ r" and "is_ascii_str p" and "length w < length p"
    and "split_whitespace r = v # ws"
proof -
  obtain b r where s: "s = b @ w @ r" "\<forall>c\<in>set b. is_whitespace c" "r = [] \<or> is_whitespace (hd r)"
    "split_whitespace r = v # ws"
    using assms(1) by (rule split_whitespace_step)
  then obtain d r' where r: "r = d # r'" "is_whitespace d" by (cases r) auto
  have "is_ascii_str (b @ w @ [d])"
    using s r assms(2,3) by (auto simp: is_ascii_str_def)
  moreover have "s = (b @ w @ [d]) @ r'" using s r by simp
  moreover have "split_whitespace r' = v # ws" using s(4) r by simp
  ultimately show ?thesis using that [of "b @ w @ [d]" r'] by simp
qed

lemma set_words:
  assumes "starts_with (cmd_normalize s) (lit ''set '' @ q)"
  obtains w rest where "split_whitespace s = w # rest" and "rest \<noteq> []" and "is_ascii_str w"
    and "length w = 3" and "starts_with (to_ascii_lowercase (join [32] rest)) q"
proof -
  have "\<forall>w\<in>set (split_whitespace s). plain_word w" using split_whitespace_plain by blast
  moreover have "(32::nat) \<notin> set (lit ''set'')" by (simp add: lit_def)
  moreover have "starts_with (to_ascii_lowercase (join [32] (split_whitespace s))) (lit ''set'' @ 32 # q)"
    using assms by (simp add: cmd_normalize_def lit_def)
  ultimately obtain w rest where w: "split_whitespace s = w # rest" "rest \<noteq> []"
    "to_ascii_lowercase w = lit ''set''" "starts_with (to_ascii_lowercase (join [32] rest)) q"
    by (rule words_start)
  have "is_ascii_str (to_ascii_lowercase w)" unfolding w(3) by (simp add: is_ascii_str_def lit_def)
  then have "is_ascii_str w" by simp
  moreover have "length (to_ascii_lowercase w) = 3" unfolding w(3) by simp
  then have "length w = 3" by simp
  ultimately show ?thesis using that w by blast
qed

lemma set_session_total:
  assumes "starts_with (cmd_normalize s) (lit ''set '')" and "ascii_blanks s"
  shows "\<exists>key value. parse_set s Scope_Session = Some (Cmd_Set Scope_Session key value)"
proof -
  have "starts_with (cmd_normalize s) (lit ''set '' @ [])" using assms(1) by simp
  then obtain w rest where w: "split_whitespace s = w # rest" "rest \<noteq> []" "is_ascii_str w" "length w = 3"
    by (rule set_words)
  then obtain v ws where "split_whitespace s = w # v # ws" by (cases rest) auto
  then obtain p r where "s = p @ r" "is_ascii_str p" "length w < length p"
    using assms(2) w(3) by (rule split_whitespace_next)
  then show ?thesis using parse_set_total [of p Scope_Session r] w(4) by simp
qed

lemma set_local_total:
  assumes "starts_with (cmd_normalize s) (lit ''set local '')" and "ascii_blanks s"
  shows "\<exists>key value. parse_set s Scope_Local = Some (Cmd_Set Scope_Local key value)"
proof -
  have "starts_with (cmd_normalize s) (lit ''set '' @ (lit ''local'' @ 32 # []))"
    using assms(1) by (simp add: lit_def)
  then obtain w rest where w: "split_whitespace s = w # rest" "is_ascii_str w" "length w = 3"
    "starts_with (to_ascii_lowercase (join [32] rest)) (lit ''local'' @ 32 # [])"
    by (rule set_words)
  have "\<forall>v\<in>set rest. plain_word v" using w(1) split_whitespace_plain [of _ s] by auto
  moreover have "(32::nat) \<notin> set (lit ''local'')" by (simp add: lit_def)
  ultimately obtain v rest' where v: "rest = v # rest'" "rest' \<noteq> []" "to_ascii_lowercase v = lit ''local''"
    using w(4) by (rule words_start)
  then obtain u us where u: "rest' = u # us" by (cases rest') auto
  have "is_ascii_str (to_ascii_lowercase v)" unfolding v(3) by (simp add: is_ascii_str_def lit_def)
  then have av: "is_ascii_str v" by simp
  have "length (to_ascii_lowercase v) = 5" unfolding v(3) by simp
  then have lv: "length v = 5" by simp
  obtain p r where p: "s = p @ r" "is_ascii_str p" "length w < length p" "split_whitespace r = v # rest'"
    using w(1) v(1) assms(2) w(2) by (metis split_whitespace_next)
  have "ascii_blanks r" using p(1) assms(2) by auto
  then obtain p' r' where "r = p' @ r'" "is_ascii_str p'" "length v < length p'"
    using p(4) u av by (metis split_whitespace_next)
  then show ?thesis using parse_set_total [of "p @ p'" Scope_Local r'] p w(3) lv by simp
qed

lemma set_trim_subset: "set (trim s) \<subseteq> set s"
  unfolding trim_def trim_end_def trim_end_pred_def trim_start_def
  by (auto dest!: set_dropWhileD)

lemma set_trim_end_matches_subset: "set (trim_end_matches_char s d) \<subseteq> set s"
  unfolding trim_end_matches_char_def trim_end_pred_def by (auto dest!: set_dropWhileD)

text \<open>The classification of a command never panics on a text whose white space is ASCII: the fixed
  byte offset after \<open>SET\<close> and \<open>SET LOCAL\<close> is then a character boundary inside the text.\<close>

lemma classify_total:
  assumes "\<forall>c\<in>set sql. is_whitespace c \<longrightarrow> c < 128"
  shows "classify sql \<noteq> None"
proof -
  define t where "t = trim (trim_end_matches_char (trim sql) (chr CHR '';''))"
  have "ascii_blanks t"
    using assms set_trim_subset set_trim_end_matches_subset unfolding t_def by (meson subsetD)
  then have "classify_normalized t (cmd_normalize t) \<noteq> None"
    using classify_normalized_None set_session_total set_local_total
    by (metis option.distinct(1))
  then show ?thesis by (simp add: classify_def Let_def t_def)
qed

lemma classify_total_witness: "classify (lit ''SET  LOCAL  a = b'') \<noteq> None"
  by (rule classify_total) (simp add: lit_def is_whitespace_def)

text \<open>The classification panics on a \<open>SET\<close> that is followed by a no-break space, a two-byte
  character that the normalisation counts as white space: the slice at byte four falls inside it.\<close>

lemma classify_panics: "classify (lit ''SET'' @ [0xA0] @ lit ''a = b'') = None"
proof -
  let ?s = "lit ''SET'' @ [0xA0] @ lit ''a = b''"
  have "trim (trim_end_matches_char (trim ?s) (chr CHR '';'')) = ?s"
    by (simp add: trim_def trim_end_def trim_start_def trim_end_matches_char_def trim_end_pred_def
        lit_def is_whitespace_def)
  moreover have "split_whitespace ?s = [lit ''SET'', lit ''a'', lit ''='', lit ''b'']"
    by (simp add: split_whitespace.simps lit_def is_whitespace_def)
  then have "cmd_normalize ?s = lit ''set a = b''"
    by (simp add: cmd_normalize_def to_ascii_lowercase_def lit_def char_lower_def is_ascii_upper_def)
  moreover have "parse_set ?s Scope_Session = None"
    by (simp add: parse_set_def lit_def utf8_len_def)
  ultimately show ?thesis
    by (simp add: classify_def classify_normalized_def parse_begin_transaction_def parse_set_transaction_def lit_def starts_with_def)
qed

section \<open>Printing and reading a setting\<close>

lemma trim_end_pred_id: "s = [] \<or> \<not> P (last s) \<Longrightarrow> trim_end_pred P s = s"
  by (cases s rule: rev_cases) (auto simp: trim_end_pred_def)

lemma trim_end_pred_snoc [simp]: "P d \<Longrightarrow> trim_end_pred P (s @ [d]) = trim_end_pred P s"
  by (simp add: trim_end_pred_def)

abbreviation trimmed :: "rstr \<Rightarrow> bool" where
  "trimmed s \<equiv> s = [] \<or> \<not> is_whitespace (hd s) \<and> \<not> is_whitespace (last s)"

lemma trim_id: "trimmed s \<Longrightarrow> trim s = s"
  by (auto simp: trim_def trim_end_def trim_start_same [THEN iffD2] intro: trim_end_pred_id)

lemma trim_snoc_blank: "trimmed s \<Longrightarrow> trim (s @ [32]) = s"
  using trim_id [of s]
  by (cases s) (auto simp: trim_def trim_end_def trim_start_def trim_end_pred_def is_whitespace_def)

lemma trim_cons_blank: "trim (32 # s) = trim s"
  by (simp add: trim_def trim_start_def)

text \<open>Keys that \<open>SET\<close> takes in one word, and values that lose nothing when read.\<close>

definition plain_key :: "rstr \<Rightarrow> bool" where
  "plain_key k \<longleftrightarrow> plain_word k \<and> 61 \<notin> set k \<and> to_ascii_lowercase k = k \<and> k \<noteq> lit ''local''"

definition stable_value :: "rstr \<Rightarrow> bool" where
  "stable_value v \<longleftrightarrow> trimmed v \<and> (v = [] \<or> last v \<noteq> chr CHR '';'')"

definition set_statement :: "rstr \<Rightarrow> rstr \<Rightarrow> rstr" where
  "set_statement key value = lit ''SET '' @ key @ lit '' = '' @ value"

definition set_text :: "rstr \<Rightarrow> rstr \<Rightarrow> rstr" where
  "set_text k v = lit ''SET '' @ k @ (if v = [] then lit '' ='' else lit '' = '' @ v)"

lemma set_statement_trim:
  assumes "stable_value v"
  shows "trim (trim_end_matches_char (trim (set_statement k v)) (chr CHR '';'')) = set_text k v"
proof -
  have t: "trimmed (set_text k v)" and ends: "last (set_text k v) \<noteq> chr CHR '';''"
    using assms by (auto simp: set_text_def stable_value_def lit_def is_whitespace_def)
  have "trim (set_statement k v) = set_text k v"
  proof (cases "v = []")
    case True
    then have "set_statement k v = set_text k v @ [32]"
      by (simp add: set_statement_def set_text_def lit_def)
    then show ?thesis using trim_snoc_blank [OF t] by simp
  next
    case False
    then have "set_statement k v = set_text k v"
      by (simp add: set_statement_def set_text_def)
    then show ?thesis using trim_id [OF t] by simp
  qed
  moreover have "trim_end_matches_char (set_text k v) (chr CHR '';'') = set_text k v"
    unfolding trim_end_matches_char_def using ends by (intro trim_end_pred_id) blast
  ultimately show ?thesis using trim_id [OF t] by simp
qed

lemma set_text_words:
  assumes "plain_key k"
  shows "split_whitespace (set_text k v) = lit ''SET'' # k # lit ''='' # split_whitespace v"
proof -
  have set: "plain_word (lit ''SET'')" and eq: "plain_word (lit ''='')"
    by (simp_all add: lit_def is_whitespace_def)
  have k: "plain_word k" using assms by (simp add: plain_key_def)
  let ?r = "if v = [] then lit ''='' else lit ''='' @ 32 # v"
  have "set_text k v = lit ''SET'' @ 32 # k @ 32 # ?r"
    by (simp add: set_text_def lit_def)
  moreover have "split_whitespace ?r = lit ''='' # split_whitespace v"
    using eq by (simp add: split_whitespace_last split_whitespace_word)
  ultimately show ?thesis
    by (simp only: split_whitespace_word [OF set] split_whitespace_word [OF k] blank_whitespace)
qed

lemma set_text_normalize:
  assumes "plain_key k"
  obtains r where "cmd_normalize (set_text k v) = lit ''set '' @ k @ lit '' ='' @ r"
proof -
  obtain r where "join (lit '' '') (split_whitespace (set_text k v)) = lit ''SET '' @ k @ lit '' ='' @ r"
    unfolding set_text_words [OF assms] by (cases "split_whitespace v") (auto simp: lit_def)
  then have "cmd_normalize (set_text k v) =
      lit ''set '' @ to_ascii_lowercase k @ lit '' ='' @ to_ascii_lowercase r"
    by (simp add: cmd_normalize_def)
      (simp add: to_ascii_lowercase_def lit_def char_lower_def is_ascii_upper_def)
  then show ?thesis using that assms by (simp add: plain_key_def)
qed

lemma set_text_not_local:
  assumes "plain_key k"
  shows "\<not> starts_with (lit ''set '' @ k @ lit '' ='' @ r) (lit ''set local '')"
proof
  assume "starts_with (lit ''set '' @ k @ lit '' ='' @ r) (lit ''set local '')"
  then obtain t where "k @ 32 # lit ''='' @ r = lit ''local'' @ 32 # t"
    by (auto simp: starts_with_iff lit_def)
  moreover have "32 \<notin> set k" using assms by (auto simp: plain_key_def)
  moreover have "32 \<notin> set (lit ''local'')" by (simp add: lit_def)
  ultimately have "Some (k, lit ''='' @ r) = Some (lit ''local'', t)"
    by (metis split_once_char_Some)
  then show False using assms by (simp add: plain_key_def)
qed

lemma parse_set_text:
  assumes "plain_key k" and "stable_value v"
  shows "parse_set (set_text k v) Scope_Session = Some (Cmd_Set Scope_Session k v)"
proof -
  let ?rest = "k @ (if v = [] then lit '' ='' else lit '' = '' @ v)"
  have "str_split_at 4 (set_text k v) = Some (lit ''SET '', ?rest)"
    using split_at_ascii_text [of "lit ''SET ''" 4 ?rest]
    by (simp add: set_text_def is_ascii_str_def lit_def)
  moreover have "trim ?rest = ?rest"
    using assms by (intro trim_id) (auto simp: plain_key_def stable_value_def lit_def is_whitespace_def)
  moreover have "split_once_char ?rest (chr CHR ''='') = Some (k @ [32], if v = [] then [] else 32 # v)"
    using assms(1) by (auto simp: split_once_char_Some plain_key_def lit_def)
  moreover have "trim (k @ [32]) = k"
    using assms(1) by (intro trim_snoc_blank) (auto simp: plain_key_def)
  moreover have "trim (if v = [] then [] else 32 # v) = v"
    using assms(2) trim_id [of v] by (auto simp: stable_value_def trim_cons_blank trim_id)
  ultimately show ?thesis
    using assms(1) by (simp add: parse_set_def plain_key_def)
qed

lemma equals_in_lit: "61 \<in> set (lit x) \<longleftrightarrow> CHR ''='' \<in> set x"
proof -
  have "(61 :: nat) = of_char CHR ''=''" by simp
  then show ?thesis unfolding lit_def set_map by (metis image_iff of_char_eq_iff)
qed

lemma classify_normalized_set:
  assumes "starts_with n (lit ''set '')" and "\<not> starts_with n (lit ''set local '')" and "61 \<in> set n"
  shows "classify_normalized t n = parse_set t Scope_Session"
proof -
  have neq: "n \<noteq> lit x" if "CHR ''='' \<notin> set x" for x
    using that assms(3) equals_in_lit by blast
  have "parse_begin_transaction n = None" "parse_set_transaction n = None"
    unfolding parse_begin_transaction_def parse_set_transaction_def by (simp_all add: neq)
  moreover have "n \<noteq> lit ''commit''" "n \<noteq> lit ''end''" "n \<noteq> lit ''rollback''" "n \<noteq> lit ''discard all''"
    "n \<noteq> lit ''discard temp''" "n \<noteq> lit ''discard temporary''" "n \<noteq> lit ''discard plans''"
    by (simp_all add: neq)
  ultimately show ?thesis
    unfolding classify_normalized_def using assms(1,2) by simp
qed

lemma classify_set_statement:
  assumes "plain_key k" and "stable_value v"
  shows "classify (set_statement k v) = Some (Cmd_Set Scope_Session k v)"
proof -
  obtain r where n: "cmd_normalize (set_text k v) = lit ''set '' @ k @ lit '' ='' @ r"
    using assms(1) by (rule set_text_normalize)
  have "61 \<in> set (lit ''set '' @ k @ lit '' ='' @ r)" by (simp add: equals_in_lit)
  then have "classify_normalized (set_text k v) (lit ''set '' @ k @ lit '' ='' @ r) =
      parse_set (set_text k v) Scope_Session"
    by (intro classify_normalized_set set_text_not_local [OF assms(1)]) simp_all
  then show ?thesis
    unfolding classify_def Let_def set_statement_trim [OF assms(2)] n parse_set_text [OF assms] .
qed

end
