(* ===== verification/Policy_Runtime.thy ===== *)
theory Policy_Runtime
  imports Policy_Model Shard_Map Sql_Command
begin

text \<open>
  The policy runtime of the proxy, \<open>routing/policy.rs\<close>, with the policy section of
  \<open>config.rs\<close> it validates: failure handling, the limits a plugin runs under, the store of the
  active configuration with its generations, previews, and the builder of the context that
  policies and audit events see. The crate's default features are modelled: without
  \<open>policy-wasm\<close> a wasm rule never validates. The audit sampling rate is a float and is left out.

  Shown: the rendered context never exceeds the configured number of bytes, is complete unless
  it is marked as truncated, and carries nothing of a password, bind value, certificate, query
  text or secret; a reload that fails leaves the store as it was.
\<close>

section \<open>Configuration\<close>

datatype inline_policy_action_config =
    IPA_Allow
  | IPA_Deny rstr
  | IPA_RequirePrimary
  | IPA_RequireReplica
  | IPA_RouteOverride policy_route_target_id
  | IPA_ShardOverride policy_shard_target_id
  | IPA_Wasm rstr

record inline_policy_config =
  ipc_policy_id :: policy_id
  ipc_hook_point :: policy_hook_point
  ipc_action :: inline_policy_action_config

record policy_config =
  pcfg_policy_mode :: policy_mode
  pcfg_policy_files :: "rstr list"
  pcfg_inline_rules :: "inline_policy_config list"
  pcfg_audit_enabled :: bool
  pcfg_wasm_enabled :: bool
  pcfg_eval_timeout_ms :: nat
  pcfg_max_context_bytes :: nat

definition policy_config_default :: policy_config where
  "policy_config_default =
     \<lparr>pcfg_policy_mode = PMD_Disabled, pcfg_policy_files = [], pcfg_inline_rules = [],
      pcfg_audit_enabled = True, pcfg_wasm_enabled = False, pcfg_eval_timeout_ms = 5,
      pcfg_max_context_bytes = 8192\<rparr>"

fun action_internal_error :: "bool \<Rightarrow> inline_policy_action_config \<Rightarrow> rstr option" where
  "action_internal_error wasm (IPA_Deny reason) =
     (if trim reason = [] then Some (lit ''deny action requires a reason'') else None)"
| "action_internal_error wasm (IPA_Wasm module_path) =
     Some (if \<not> wasm then lit ''wasm policies require policy_wasm_enabled to be true''
           else lit ''wasm policies require the crate feature '' @ [39] @ lit ''policy-wasm'' @ [39]
             @ lit '' to be enabled'')"
| "action_internal_error wasm _ = None"

fun first_error :: "('a \<Rightarrow> 'e option) \<Rightarrow> 'a list \<Rightarrow> 'e + unit" where
  "first_error f [] = Inr ()"
| "first_error f (x # xs) = (case f x of Some e \<Rightarrow> Inl e | None \<Rightarrow> first_error f xs)"

definition policy_validate_internal :: "policy_config \<Rightarrow> rstr + unit" where
  "policy_validate_internal c =
     first_error (\<lambda>r. action_internal_error (pcfg_wasm_enabled c) (ipc_action r)) (pcfg_inline_rules c)"

fun action_reference_error ::
  "rstr list \<Rightarrow> bool \<Rightarrow> rstr list \<Rightarrow> inline_policy_action_config \<Rightarrow> rstr option" where
  "action_reference_error routes sharding_enabled shards (IPA_RouteOverride t) =
     (if policy_route_target_id_as_str t \<notin> set routes then
        Some (lit ''route override target '' @ [39] @ policy_route_target_id_as_str t @ [39]
          @ lit '' does not reference an existing route'')
      else None)"
| "action_reference_error routes sharding_enabled shards (IPA_ShardOverride t) =
     (if sharding_enabled \<and> policy_shard_target_id_as_str t \<notin> set shards then
        Some (lit ''shard override target '' @ [39] @ policy_shard_target_id_as_str t @ [39]
          @ lit '' does not reference an existing shard'')
      else None)"
| "action_reference_error routes sharding_enabled shards _ = None"

definition policy_validate_with_context ::
  "policy_config \<Rightarrow> rstr list \<Rightarrow> bool \<Rightarrow> rstr list \<Rightarrow> rstr + unit" where
  "policy_validate_with_context c routes sharding_enabled shards =
     and_then (policy_validate_internal c) (\<lambda>_.
       first_error (\<lambda>r. action_reference_error routes sharding_enabled shards (ipc_action r))
         (pcfg_inline_rules c))"

section \<open>Runtime and plugin limits\<close>

record policy_runtime =
  prt_eval_timeout :: nat
  prt_max_context_bytes :: nat
  prt_policy_mode :: policy_mode
  prt_policy_failure_mode :: "policy_failure_mode option"
  prt_audit_enabled :: bool
  prt_wasm_enabled :: bool

definition policy_runtime_new :: "nat \<Rightarrow> nat \<Rightarrow> policy_runtime" where
  "policy_runtime_new timeout max_bytes =
     \<lparr>prt_eval_timeout = timeout, prt_max_context_bytes = max_bytes, prt_policy_mode = PMD_Disabled,
      prt_policy_failure_mode = None, prt_audit_enabled = True, prt_wasm_enabled = False\<rparr>"

definition policy_runtime_from_config :: "policy_config \<Rightarrow> policy_runtime" where
  "policy_runtime_from_config c =
     policy_runtime_new (millis (pcfg_eval_timeout_ms c)) (pcfg_max_context_bytes c)
       \<lparr>prt_policy_mode := pcfg_policy_mode c,
        prt_audit_enabled := pcfg_audit_enabled c,
        prt_wasm_enabled := pcfg_wasm_enabled c\<rparr>"

definition runtime_failure_mode :: "policy_runtime \<Rightarrow> policy_failure_mode" where
  "runtime_failure_mode r =
     (case prt_policy_failure_mode r of
        Some mode \<Rightarrow> mode
      | None \<Rightarrow> default_for_policy_mode (prt_policy_mode r))"

definition policy_failure_action_for_error :: "policy_runtime \<Rightarrow> policy_plugin_error \<Rightarrow> policy_action option" where
  "policy_failure_action_for_error r e = fallback_action (runtime_failure_mode r)"

record policy_plugin_host_limits =
  phl_max_input_bytes :: nat
  phl_max_output_bytes :: nat
  phl_max_evaluation_duration :: nat

definition plugin_host_limits :: "policy_runtime \<Rightarrow> policy_plugin_host_limits" where
  "plugin_host_limits r =
     \<lparr>phl_max_input_bytes = prt_max_context_bytes r,
      phl_max_output_bytes = prt_max_context_bytes r,
      phl_max_evaluation_duration = prt_eval_timeout r\<rparr>"

definition limits_validate_input ::
  "policy_plugin_host_limits \<Rightarrow> policy_plugin_input \<Rightarrow> policy_plugin_error + unit" where
  "limits_validate_input l i =
     (if plugin_input_len_bytes i > phl_max_input_bytes l
      then Inl (input_too_large (plugin_input_len_bytes i) (phl_max_input_bytes l))
      else if ppar_filesystem (ppi_requested_access i) then Inl filesystem_access_denied
      else if ppar_network (ppi_requested_access i) then Inl network_access_denied
      else if ppar_secret (ppi_requested_access i) then Inl secret_access_denied
      else Inr ())"

definition limits_validate_output ::
  "policy_plugin_host_limits \<Rightarrow> policy_plugin_output \<Rightarrow> policy_plugin_error + unit" where
  "limits_validate_output l p =
     (if plugin_output_len_bytes p > phl_max_output_bytes l
      then Inl (output_too_large (plugin_output_len_bytes p) (phl_max_output_bytes l))
      else Inr ())"

definition limits_validate_evaluation_duration ::
  "policy_plugin_host_limits \<Rightarrow> nat \<Rightarrow> policy_plugin_error + unit" where
  "limits_validate_evaluation_duration l elapsed =
     (if elapsed > phl_max_evaluation_duration l
      then Inl (evaluation_timeout elapsed (phl_max_evaluation_duration l))
      else Inr ())"

fun policy_plugin_action_to_inline_action ::
  "policy_plugin_action \<Rightarrow> policy_plugin_error + inline_policy_action_config" where
  "policy_plugin_action_to_inline_action PPA_Allow = Inr IPA_Allow"
| "policy_plugin_action_to_inline_action (PPA_Deny reason) = Inr (IPA_Deny reason)"
| "policy_plugin_action_to_inline_action PPA_RequirePrimary = Inr IPA_RequirePrimary"
| "policy_plugin_action_to_inline_action PPA_RequireReplica = Inr IPA_RequireReplica"
| "policy_plugin_action_to_inline_action (PPA_RouteOverride t) = Inr (IPA_RouteOverride t)"
| "policy_plugin_action_to_inline_action (PPA_ShardOverride t) = Inr (IPA_ShardOverride t)"
| "policy_plugin_action_to_inline_action (PPA_Unsupported n) = Inl (unsupported_action n)"

definition validate_output_like_declarative_policy_output ::
  "policy_plugin_host_limits \<Rightarrow> policy_plugin_output \<Rightarrow> rstr list \<Rightarrow> bool \<Rightarrow> rstr list
    \<Rightarrow> policy_plugin_error + unit" where
  "validate_output_like_declarative_policy_output l p routes sharding_enabled shards =
     and_then (limits_validate_output l p) (\<lambda>_.
     and_then (policy_plugin_action_to_inline_action (ppo_action p)) (\<lambda>action.
       (let policy = policy_config_default
              \<lparr>pcfg_inline_rules :=
                 [\<lparr>ipc_policy_id = ppo_policy_id p, ipc_hook_point = ppo_hook_point p, ipc_action = action\<rparr>]\<rparr>
        in case policy_validate_with_context policy routes sharding_enabled shards of
             Inl message \<Rightarrow> Inl (output_validation_failed message)
           | Inr _ \<Rightarrow> Inr ())))"

section \<open>The context builder\<close>

record 'addr policy_eval_input =
  pei_database :: rstr
  pei_user :: rstr
  pei_application_name :: "rstr option"
  pei_route :: "rstr option"
  pei_shard :: "rstr option"
  pei_backend_role :: backend_role
  pei_query_class :: query_class
  pei_transaction_mode :: transaction_access_mode
  pei_freshness_state :: freshness_status
  pei_routing_decision :: "routing_decision option"
  pei_shard_route_decision :: "'addr shard_route_decision option"
  pei_password :: "rstr option"
  pei_bind_values :: "rstr list"
  pei_tls_certificate_body :: "rstr option"
  pei_raw_sql_text :: "rstr option"
  pei_secrets :: "rstr list"

record policy_eval_output =
  peo_context :: policy_context
  peo_rendered_context :: rstr
  peo_rendered_context_bytes :: nat
  peo_truncated :: bool

fun transaction_mode_label :: "transaction_access_mode \<Rightarrow> rstr" where
  "transaction_mode_label ReadOnly = lit ''read_only''"
| "transaction_mode_label ReadWrite = lit ''read_write''"

fun freshness_state_label :: "freshness_status \<Rightarrow> rstr" where
  "freshness_state_label FS_Satisfied = lit ''satisfied''"
| "freshness_state_label FS_Waiting = lit ''waiting''"
| "freshness_state_label FS_Stale = lit ''stale''"
| "freshness_state_label FS_Unknown = lit ''unknown''"
| "freshness_state_label FS_Unavailable = lit ''unavailable''"

definition or_none_text :: "rstr option \<Rightarrow> rstr" where
  "or_none_text x = (case x of Some s \<Rightarrow> s | None \<Rightarrow> lit ''<none>'')"

definition redact_value :: "rstr \<Rightarrow> rstr" where
  "redact_value _ = REDACTED_VALUE"

definition redact_values :: "rstr list \<Rightarrow> rstr list" where
  "redact_values vs = map (\<lambda>_. REDACTED_VALUE) vs"

definition redact_optional_value :: "rstr option \<Rightarrow> rstr option" where
  "redact_optional_value v = map_option (\<lambda>_. REDACTED_VALUE) v"

definition base_fields :: "'addr policy_eval_input \<Rightarrow> policy_context_field list" where
  "base_fields i =
     [PCF_Public (lit ''database'') (pei_database i),
      PCF_Public (lit ''user'') (pei_user i),
      PCF_Public (lit ''application_name'') (or_none_text (pei_application_name i)),
      PCF_Public (lit ''route'') (or_none_text (pei_route i)),
      PCF_Public (lit ''shard'') (or_none_text (pei_shard i)),
      PCF_Public (lit ''backend_role'') (backend_role_as_str (pei_backend_role i)),
      PCF_Public (lit ''query_class'') (query_class_as_str (pei_query_class i)),
      PCF_Public (lit ''transaction_mode'') (transaction_mode_label (pei_transaction_mode i)),
      PCF_Public (lit ''freshness_state'') (freshness_state_label (pei_freshness_state i))]"

definition routing_fields :: "routing_decision option \<Rightarrow> policy_context_field list" where
  "routing_fields rd =
     (case rd of
        None \<Rightarrow> []
      | Some d \<Rightarrow>
        [PCF_Public (lit ''route_target_role'') (backend_role_as_str (rd_target_role d)),
         PCF_Public (lit ''routing_hint'') (routing_hint_as_str (rd_hint d)),
         PCF_Public (lit ''routing_reason'') (routing_reason_as_str (rd_reason d)),
         PCF_Public (lit ''fallback_policy'') (fallback_policy_as_str (rd_fallback_policy d)),
         PCF_Public (lit ''freshness_policy'') (freshness_policy_as_str (rd_freshness_requirement d))])"

definition shard_fields :: "'addr shard_route_decision option \<Rightarrow> policy_context_field list" where
  "shard_fields sd =
     (case sd of
        None \<Rightarrow> []
      | Some d \<Rightarrow>
        [PCF_Public (lit ''multi_shard_policy'') (multi_shard_policy_as_str (srd_policy d)),
         PCF_Public (lit ''shard_route_reason'') (admin_label (srd_reason d))]
        @ (case srd_route d of
             None \<Rightarrow> []
           | Some r \<Rightarrow>
             [PCF_Public (lit ''route_key'') (rk_metric_label (st_route_key (sro_target r))),
              PCF_Public (lit ''route_target_role'') (backend_role_as_str (st_backend_role (sro_target r))),
              PCF_Public (lit ''shard_target'') (shard_id_str (st_shard_id (sro_target r)))]))"

definition has_sensitive_inputs :: "'addr policy_eval_input \<Rightarrow> bool" where
  "has_sensitive_inputs i \<longleftrightarrow>
     pei_password i \<noteq> None \<or> pei_bind_values i \<noteq> [] \<or> pei_tls_certificate_body i \<noteq> None
     \<or> pei_raw_sql_text i \<noteq> None \<or> pei_secrets i \<noteq> []"

definition build_fields :: "'addr policy_eval_input \<Rightarrow> policy_context_field list" where
  "build_fields i =
     base_fields i @ routing_fields (pei_routing_decision i) @ shard_fields (pei_shard_route_decision i)
     @ (if has_sensitive_inputs i
        then [PCF_Public (lit ''sensitive_inputs'') (redact_value (lit ''redacted''))] else [])"

definition rendered_fields_len_bytes :: "policy_context_field list \<Rightarrow> nat" where
  "rendered_fields_len_bytes fs =
     (case fs of
        f # rest \<Rightarrow>
          pcf_rendered_len_bytes f + sum_list (map pcf_rendered_len_bytes rest) + length rest * 2
      | [] \<Rightarrow> 0)"

definition rendered_prefix_len_bytes :: "policy_context_field list \<Rightarrow> nat \<Rightarrow> nat" where
  "rendered_prefix_len_bytes fs end_index =
     (let prefix = take end_index fs in
      rendered_fields_len_bytes prefix + (if prefix = [] then 0 else 2))"

text \<open>The loop over \<open>char_indices\<close> that finds where to cut, with the slice it then takes.\<close>

fun truncate_scan :: "nat \<Rightarrow> nat \<Rightarrow> rstr \<Rightarrow> rstr" where
  "truncate_scan max_bytes index [] = []"
| "truncate_scan max_bytes index (c # s) =
     (let next = index + utf8_len c in
      if next > max_bytes then [] else c # truncate_scan max_bytes next s)"

definition truncate_to_byte_len :: "rstr \<Rightarrow> nat \<Rightarrow> rstr" where
  "truncate_to_byte_len value max_bytes =
     (if str_len value \<le> max_bytes then value else truncate_scan max_bytes 0 value)"

lemma rendered_fields_len_eq [simp]: "rendered_fields_len_bytes fs = fields_len_bytes fs"
  by (cases fs) (simp_all add: rendered_fields_len_bytes_def)

lemma truncate_scan_len: "i \<le> m \<Longrightarrow> i + str_len (truncate_scan m i s) \<le> m"
  by (induction m i s rule: truncate_scan.induct) (auto simp: Let_def)

lemma truncate_to_byte_len_bound [simp]: "str_len (truncate_to_byte_len v m) \<le> m"
  using truncate_scan_len [of 0 m v] by (simp add: truncate_to_byte_len_def)

lemma fields_len_butlast: "fs \<noteq> [] \<Longrightarrow> fields_len_bytes (butlast fs) < fields_len_bytes fs"
  using fields_len_snoc [of "butlast fs" "last fs"] by (simp add: pcf_rendered_len_bytes_def)

lemma fields_len_set_last:
  "fs \<noteq> [] \<Longrightarrow> fields_len_bytes (fs[length fs - 1 := f]) =
     fields_len_bytes (butlast fs) + (if butlast fs = [] then 0 else 2) + pcf_rendered_len_bytes f"
  using fields_len_snoc [of "butlast fs" f] by (cases fs rule: rev_cases) (simp_all add: list_update_append)

text \<open>The first loop drops whole fields from the end while more than one is left.\<close>

function drop_fields :: "nat \<Rightarrow> policy_context_field list \<Rightarrow> bool \<Rightarrow> policy_context_field list \<times> bool" where
  "drop_fields max_bytes fs truncated =
     (if rendered_fields_len_bytes fs > max_bytes \<and> length fs > 1
      then drop_fields max_bytes (butlast fs) True
      else (fs, truncated))"
  by pat_completeness auto
termination
  by (relation "measure (\<lambda>(m, fs, t). length fs)") auto

declare drop_fields.simps [simp del]

lemma shorten_decreases:
  assumes "fs \<noteq> []" "n < str_len (pcf_rendered_value (fs ! (length fs - 1)))"
  shows "fields_len_bytes (fs[length fs - 1 :=
      PCF_Public (pcf_name (fs ! (length fs - 1))) (truncate_to_byte_len v n)]) < fields_len_bytes fs"
proof -
  have l: "fs ! (length fs - 1) = last fs" using assms(1) by (simp add: last_conv_nth)
  have "fs = butlast fs @ [last fs]" using assms(1) by simp
  then have "fields_len_bytes fs
      = fields_len_bytes (butlast fs) + (if butlast fs = [] then 0 else 2) + pcf_rendered_len_bytes (last fs)"
    using fields_len_snoc [of "butlast fs" "last fs"] by simp
  moreover have "pcf_rendered_len_bytes (PCF_Public (pcf_name (last fs)) (truncate_to_byte_len v n))
      < pcf_rendered_len_bytes (last fs)"
    using le_less_trans [OF truncate_to_byte_len_bound assms(2)] l by (simp add: pcf_rendered_len_bytes_def)
  ultimately show ?thesis using fields_len_set_last [OF assms(1)] l by simp
qed

text \<open>The second loop shortens the value of the last field.\<close>

function shorten_fields :: "nat \<Rightarrow> policy_context_field list \<Rightarrow> bool \<Rightarrow> policy_context_field list \<times> bool" where
  "shorten_fields max_bytes fs truncated =
     (if rendered_fields_len_bytes fs > max_bytes then
        (let last_index = length fs - 1;
             available_bytes = max_bytes - rendered_prefix_len_bytes fs last_index;
             field_name = pcf_name (fs ! last_index);
             field_name_len = str_len field_name + 1
         in if available_bytes \<le> field_name_len then
              (if length fs = 1 then ([], True)
               else shorten_fields max_bytes (butlast fs) True)
            else
              (let max_value_len = available_bytes - field_name_len;
                   rendered_value = pcf_rendered_value (fs ! last_index)
               in if str_len rendered_value > max_value_len then
                    shorten_fields max_bytes
                      (fs[last_index :=
                         PCF_Public field_name (truncate_to_byte_len rendered_value max_value_len)]) True
                  else if length fs > 1 then shorten_fields max_bytes (butlast fs) True
                  else (fs, truncated)))
      else (fs, truncated))"
  by pat_completeness auto

termination
proof (relation "measure (\<lambda>(m, fs, t). fields_len_bytes fs)", goal_cases)
  case (3 m fs t)
  then have "fs \<noteq> []" by auto
  with 3 show ?case using shorten_decreases [of fs] by auto
qed (auto intro!: fields_len_butlast)

declare shorten_fields.simps [simp del]

definition fit_context_fields :: "policy_context_field list \<Rightarrow> nat \<Rightarrow> policy_context_field list \<times> bool" where
  "fit_context_fields all max_bytes =
     (if max_bytes = 0 \<or> all = [] then ([], all \<noteq> [])
      else (let (fs, truncated) = drop_fields max_bytes all False in shorten_fields max_bytes fs truncated))"

definition context_builder_build :: "nat \<Rightarrow> 'addr policy_eval_input \<Rightarrow> policy_eval_output" where
  "context_builder_build max_bytes input =
     (let (fs, truncated) = fit_context_fields (build_fields input) max_bytes;
          context = \<lparr>pc_fields = fs\<rparr>;
          rendered = pc_display context
      in \<lparr>peo_context = context, peo_rendered_context = rendered,
          peo_rendered_context_bytes = str_len rendered, peo_truncated = truncated\<rparr>)"

definition build_audit_event_from_input ::
  "policy_runtime \<Rightarrow> policy_audit_kind \<Rightarrow> policy_decision \<Rightarrow> 'addr policy_eval_input \<Rightarrow> policy_audit_event" where
  "build_audit_event_from_input r kind decision input =
     policy_audit_event_new kind decision (peo_context (context_builder_build (prt_max_context_bytes r) input))"

section \<open>The policy store\<close>

type_synonym policy_generation = u64

datatype policy_reload_error_code =
    PRE_InvalidPolicyConfiguration
  | PRE_RouteReferenceMissing
  | PRE_ShardReferenceMissing

fun policy_reload_error_code_as_str :: "policy_reload_error_code \<Rightarrow> rstr" where
  "policy_reload_error_code_as_str PRE_InvalidPolicyConfiguration = lit ''invalid_policy_configuration''"
| "policy_reload_error_code_as_str PRE_RouteReferenceMissing = lit ''route_reference_missing''"
| "policy_reload_error_code_as_str PRE_ShardReferenceMissing = lit ''shard_reference_missing''"

interpretation policy_reload_error_code: labelled policy_reload_error_code_as_str
proof unfold_locales
  fix x y show "policy_reload_error_code_as_str x = policy_reload_error_code_as_str y \<Longrightarrow> x = y"
    by (cases x; cases y) (simp_all add: lit_def)
qed

record policy_reload_result =
  prr_success :: bool
  prr_policy_generation_id :: policy_generation
  prr_error_code :: "policy_reload_error_code option"
  prr_error :: "rstr option"

record policy_snapshot =
  psn_generation :: policy_generation
  psn_config :: policy_config
  psn_runtime :: policy_runtime

definition policy_snapshot_new :: "policy_generation \<Rightarrow> policy_config \<Rightarrow> policy_snapshot" where
  "policy_snapshot_new generation config =
     \<lparr>psn_generation = generation, psn_config = config, psn_runtime = policy_runtime_from_config config\<rparr>"

definition policy_store_new :: "policy_config \<Rightarrow> policy_snapshot" where
  "policy_store_new config = policy_snapshot_new 0 config"

definition policy_reload_error_code_of :: "rstr \<Rightarrow> policy_reload_error_code" where
  "policy_reload_error_code_of error =
     (if contains_str error (lit ''route override target'') then PRE_RouteReferenceMissing
      else if contains_str error (lit ''shard override target'') then PRE_ShardReferenceMissing
      else PRE_InvalidPolicyConfiguration)"

definition policy_store_reload ::
  "policy_config \<Rightarrow> rstr list \<Rightarrow> bool \<Rightarrow> rstr list \<Rightarrow> policy_snapshot \<Rightarrow> policy_reload_result \<times> policy_snapshot" where
  "policy_store_reload next_config routes sharding_enabled shards current =
     (case policy_validate_with_context next_config routes sharding_enabled shards of
        Inl error \<Rightarrow>
          (\<lparr>prr_success = False, prr_policy_generation_id = psn_generation current,
            prr_error_code = Some (policy_reload_error_code_of error), prr_error = Some error\<rparr>,
           current)
      | Inr _ \<Rightarrow>
          (let next_generation = psn_generation current + 1 in
           (\<lparr>prr_success = True, prr_policy_generation_id = next_generation,
             prr_error_code = None, prr_error = None\<rparr>,
            policy_snapshot_new next_generation next_config)))"

definition policy_source_label :: "policy_config \<Rightarrow> rstr" where
  "policy_source_label c =
     (let has_inline_rules = pcfg_inline_rules c \<noteq> [];
          has_policy_files = pcfg_policy_files c \<noteq> [];
          has_wasm_rules = list_ex (\<lambda>r. case ipc_action r of IPA_Wasm _ \<Rightarrow> True | _ \<Rightarrow> False) (pcfg_inline_rules c)
      in case (has_policy_files, has_wasm_rules, has_inline_rules) of
           (False, False, False) \<Rightarrow> lit ''disabled''
         | (True, False, False) \<Rightarrow> lit ''file''
         | (False, True, False) \<Rightarrow> lit ''wasm''
         | (False, False, True) \<Rightarrow> lit ''inline''
         | _ \<Rightarrow> lit ''mixed'')"

section \<open>Previews\<close>

record policy_preview_evaluation =
  ppv_policy_mode :: policy_mode
  ppv_action :: policy_action
  ppv_deny_reason :: "rstr option"
  ppv_audit_event :: policy_audit_event

record policy_preview_error =
  ppx_code :: rstr
  ppx_message :: rstr

definition select_preview_rule ::
  "inline_policy_config list \<Rightarrow> policy_hook_point \<Rightarrow> inline_policy_config option" where
  "select_preview_rule rules hook = find (\<lambda>r. ipc_hook_point r = hook) rules"

definition preview_action_from_rule ::
  "inline_policy_config \<Rightarrow> policy_preview_error + (policy_action \<times> rstr option \<times> policy_id)" where
  "preview_action_from_rule rule =
     (let pid = ipc_policy_id rule in
      case ipc_action rule of
        IPA_Allow \<Rightarrow> Inr (PA_Allow, None, pid)
      | IPA_Deny reason \<Rightarrow> Inr (policy_action_deny, Some reason, pid)
      | IPA_RequirePrimary \<Rightarrow> Inr (PA_RequirePrimary, None, pid)
      | IPA_RequireReplica \<Rightarrow> Inr (PA_RequireReplica, None, pid)
      | IPA_RouteOverride t \<Rightarrow> Inr (PA_RouteOverride t, None, pid)
      | IPA_ShardOverride t \<Rightarrow> Inr (PA_ShardOverride t, None, pid)
      | IPA_Wasm module_path \<Rightarrow>
          Inl \<lparr>ppx_code = lit ''invalid_policy_configuration'',
               ppx_message = lit ''policy preview does not support wasm policy module '' @ module_path\<rparr>)"

definition synthetic_routes :: "inline_policy_config list \<Rightarrow> 'addr policy_eval_input \<Rightarrow> rstr list" where
  "synthetic_routes rules i =
     (case pei_route i of Some r \<Rightarrow> [r] | None \<Rightarrow> [])
     @ concat (map (\<lambda>r. case ipc_action r of
         IPA_RouteOverride t \<Rightarrow> [policy_route_target_id_as_str t] | _ \<Rightarrow> []) rules)"

definition synthetic_shards :: "inline_policy_config list \<Rightarrow> 'addr policy_eval_input \<Rightarrow> rstr list" where
  "synthetic_shards rules i =
     (case pei_shard i of Some s \<Rightarrow> [s] | None \<Rightarrow> [])
     @ concat (map (\<lambda>r. case ipc_action r of
         IPA_ShardOverride t \<Rightarrow> [policy_shard_target_id_as_str t] | _ \<Rightarrow> []) rules)"

definition preview_rule_result ::
  "policy_config \<Rightarrow> policy_preview_error + (policy_action \<times> rstr option \<times> policy_id)" where
  "preview_rule_result policy =
     (case select_preview_rule (pcfg_inline_rules policy) PHP_BeforeRouting of
        Some rule \<Rightarrow> preview_action_from_rule rule
      | None \<Rightarrow> Inr (PA_Allow, None, PolicyId (lit ''policy-preview'')))"

definition preview_policy ::
  "policy_config \<Rightarrow> bool \<Rightarrow> 'addr policy_eval_input \<Rightarrow> policy_preview_error + policy_preview_evaluation" where
  "preview_policy policy sharding_enabled input =
     (let (validation, store) =
            policy_store_reload policy (synthetic_routes (pcfg_inline_rules policy) input) sharding_enabled
              (synthetic_shards (pcfg_inline_rules policy) input) (policy_store_new policy)
      in if \<not> prr_success validation then
           Inl \<lparr>ppx_code = (case prr_error_code validation of
                             Some code \<Rightarrow> policy_reload_error_code_as_str code
                           | None \<Rightarrow> lit ''invalid_policy_configuration''),
                ppx_message = (case prr_error validation of
                             Some message \<Rightarrow> message
                           | None \<Rightarrow> lit ''policy validation failed'')\<rparr>
         else
           and_then (preview_rule_result policy) (\<lambda>(action, deny_reason, pid).
             (let decision = \<lparr>pd_policy_id = pid, pd_policy_version = PolicyVersion 1, pd_action = action,
                              pd_outcome = PO_DryRun, pd_hook_point = PHP_BeforeRouting, pd_latency = 0\<rparr>
              in Inr \<lparr>ppv_policy_mode = prt_policy_mode (psn_runtime store),
                      ppv_action = action,
                      ppv_deny_reason = deny_reason,
                      ppv_audit_event =
                        build_audit_event_from_input (psn_runtime store) PAK_Decision decision input\<rparr>)))"

section \<open>The context fits its budget\<close>

lemma drop_fields_fits:
  "fields_len_bytes fs \<le> m \<Longrightarrow> drop_fields m fs t = (fs, t)"
  by (subst drop_fields.simps) simp

lemma drop_fields_short:
  "m < fields_len_bytes fs \<Longrightarrow> drop_fields m fs t = (gs, t') \<Longrightarrow> t' \<or> m < fields_len_bytes gs"
proof (induction m fs t rule: drop_fields.induct)
  case (1 m fs t)
  show ?case
  proof (cases "length fs > 1")
    case True
    with "1.prems" have d: "drop_fields m (butlast fs) True = (gs, t')"
      by (subst (asm) drop_fields.simps) simp
    show ?thesis
    proof (cases "m < fields_len_bytes (butlast fs)")
      case False
      with d show ?thesis by (simp add: drop_fields_fits)
    qed (use 1 True d in simp)
  next
    case False
    with "1.prems" show ?thesis by (subst (asm) drop_fields.simps) simp
  qed
qed

lemma shorten_fits: "fields_len_bytes fs \<le> m \<Longrightarrow> shorten_fields m fs t = (fs, t)"
  by (subst shorten_fields.simps) simp

lemma single_field_fits:
  assumes "length fs = 1" "str_len (pcf_name (fs ! 0)) + 1 < m"
    "str_len (pcf_rendered_value (fs ! 0)) \<le> m - (str_len (pcf_name (fs ! 0)) + 1)"
  shows "fields_len_bytes fs \<le> m"
  using assms by (cases fs) (auto simp: pcf_rendered_len_bytes_def)

lemma shorten_fields_bound: "fields_len_bytes (fst (shorten_fields m fs t)) \<le> m"
proof (induction m fs t rule: shorten_fields.induct)
  case (1 m fs t)
  show ?case
  proof (cases "m < fields_len_bytes fs")
    case True
    then have ne: "fs \<noteq> []" by auto
    note IH = 1 [OF _ refl refl refl refl]
    show ?thesis
    proof (cases "length fs = 1")
      case single: True
      then have p: "rendered_prefix_len_bytes fs (length fs - 1) = 0"
        by (simp add: rendered_prefix_len_bytes_def Let_def)
      show ?thesis
        using True IH single p single_field_fits [of fs m]
        by (subst shorten_fields.simps) (auto simp: Let_def not_le)
    next
      case False
      with ne have "length fs > 1" by (cases fs) (auto simp: Suc_lessI)
      then show ?thesis
        using True IH False by (subst shorten_fields.simps) (auto simp: Let_def not_le)
    qed
  qed (simp add: shorten_fits)
qed

lemma shorten_keeps_mark: "snd (shorten_fields m fs True)"
proof (induction m fs "True" rule: shorten_fields.induct)
  case (1 m fs)
  note IH = 1 [OF _ refl refl refl refl]
  show ?case
    using IH by (subst shorten_fields.simps) (auto simp: Let_def not_le)
qed

lemma shorten_marks:
  assumes "m < fields_len_bytes fs" "length fs = 1"
  shows "snd (shorten_fields m fs t)"
proof -
  from assms(2) have p: "rendered_prefix_len_bytes fs (length fs - 1) = 0"
    by (simp add: rendered_prefix_len_bytes_def Let_def)
  show ?thesis
    using assms p single_field_fits [of fs m] shorten_keeps_mark
    by (subst shorten_fields.simps) (auto simp: Let_def not_le)
qed

lemma drop_fields_single:
  "m < fields_len_bytes (fst (drop_fields m fs t)) \<Longrightarrow> length (fst (drop_fields m fs t)) \<le> 1"
proof (induction m fs t rule: drop_fields.induct)
  case (1 m fs t)
  show ?case
  proof (cases "m < fields_len_bytes fs \<and> length fs > 1")
    case True
    with 1 show ?thesis by (subst drop_fields.simps, subst (asm) (2) drop_fields.simps) simp
  next
    case False
    with "1.prems" show ?thesis by (subst drop_fields.simps, subst (asm) drop_fields.simps) auto
  qed
qed

lemma fit_context_fields_spec:
  assumes "fs \<noteq> []"
  shows "fields_len_bytes (fst (fit_context_fields fs m)) \<le> m"
    and "fields_len_bytes fs \<le> m \<Longrightarrow> fit_context_fields fs m = (fs, False)"
    and "m < fields_len_bytes fs \<Longrightarrow> snd (fit_context_fields fs m)"
proof -
  obtain gs t where d: "drop_fields m fs False = (gs, t)" by fastforce
  show "fields_len_bytes (fst (fit_context_fields fs m)) \<le> m"
    by (simp add: fit_context_fields_def d shorten_fields_bound)
  show "fit_context_fields fs m = (fs, False)" if f: "fields_len_bytes fs \<le> m"
  proof -
    have "0 < fields_len_bytes fs" using fields_len_butlast [OF assms] by linarith
    with f assms show ?thesis by (simp add: fit_context_fields_def drop_fields_fits shorten_fits)
  qed
  show "snd (fit_context_fields fs m)" if l: "m < fields_len_bytes fs"
  proof (cases "m < fields_len_bytes gs")
    case True
    then have "length gs = 1"
      using drop_fields_single [of m fs False] d by (cases gs) auto
    with True assms show ?thesis by (simp add: fit_context_fields_def d shorten_marks)
  next
    case False
    with drop_fields_short [OF l d] assms show ?thesis by (simp add: fit_context_fields_def d shorten_fits)
  qed
qed

lemma build_fields_nonempty [simp]: "build_fields i \<noteq> []"
  by (simp add: build_fields_def base_fields_def)

text \<open>
  The rendered policy context never takes more bytes than configured; it is the full context,
  unmarked, exactly when that fits, and is marked as truncated otherwise.
\<close>

lemma policy_context_fits:
  "peo_rendered_context_bytes (context_builder_build m i) \<le> m
   \<and> (if fields_len_bytes (build_fields i) \<le> m
      then peo_context (context_builder_build m i) = \<lparr>pc_fields = build_fields i\<rparr>
           \<and> \<not> peo_truncated (context_builder_build m i)
      else peo_truncated (context_builder_build m i))"
proof -
  note spec = fit_context_fields_spec [OF build_fields_nonempty [of i], where m = m]
  obtain fs t where f: "fit_context_fields (build_fields i) m = (fs, t)" by fastforce
  with spec have "fields_len_bytes fs \<le> m" by simp
  then have "peo_rendered_context_bytes (context_builder_build m i) \<le> m"
    by (simp add: context_builder_build_def f Let_def pc_display_def fields_len_display)
  then show ?thesis using spec(2,3) f by (auto simp: context_builder_build_def Let_def)
qed

section \<open>Sensitive inputs\<close>

definition erase_sensitive :: "'addr policy_eval_input \<Rightarrow> 'addr policy_eval_input" where
  "erase_sensitive i =
     i\<lparr>pei_password := None, pei_bind_values := [], pei_tls_certificate_body := None,
       pei_raw_sql_text := None, pei_secrets := []\<rparr>"

lemma build_fields_erase:
  "build_fields i =
     base_fields (erase_sensitive i) @ routing_fields (pei_routing_decision (erase_sensitive i))
     @ shard_fields (pei_shard_route_decision (erase_sensitive i))
     @ (if has_sensitive_inputs i then [PCF_Public (lit ''sensitive_inputs'') REDACTED_VALUE] else [])"
  by (simp add: build_fields_def base_fields_def erase_sensitive_def redact_value_def)

text \<open>
  Passwords, bind values, certificates, query texts and secrets leave no trace but their
  presence: two inputs that agree in everything else, and in whether they carry any of these,
  give the same context, the same rendered text and the same audit event.
\<close>

lemma policy_context_hides_sensitive:
  assumes "erase_sensitive i = erase_sensitive j"
    and "has_sensitive_inputs i = has_sensitive_inputs j"
  shows "context_builder_build m i = context_builder_build m j
    \<and> build_audit_event_from_input r k d i = build_audit_event_from_input r k d j"
proof -
  have "build_fields i = build_fields j"
    using assms by (simp add: build_fields_erase)
  then show ?thesis by (simp add: context_builder_build_def build_audit_event_from_input_def)
qed

definition example_input :: "unit policy_eval_input" where
  "example_input =
     \<lparr>pei_database = lit ''app'', pei_user = lit ''alice'', pei_application_name = None,
      pei_route = None, pei_shard = None, pei_backend_role = BR_Primary, pei_query_class = QC_Write,
      pei_transaction_mode = ReadWrite, pei_freshness_state = FS_Unknown, pei_routing_decision = None,
      pei_shard_route_decision = None, pei_password = Some (lit ''hunter2''), pei_bind_values = [],
      pei_tls_certificate_body = None, pei_raw_sql_text = None, pei_secrets = []\<rparr>"

lemma policy_context_hides_sensitive_witness:
  "context_builder_build 100 example_input
     = context_builder_build 100 (example_input\<lparr>pei_password := None, pei_secrets := [lit ''key'']\<rparr>)"
proof -
  have "erase_sensitive example_input
      = erase_sensitive (example_input\<lparr>pei_password := None, pei_secrets := [lit ''key'']\<rparr>)"
    "has_sensitive_inputs example_input
      = has_sensitive_inputs (example_input\<lparr>pei_password := None, pei_secrets := [lit ''key'']\<rparr>)"
    by (simp_all add: example_input_def erase_sensitive_def has_sensitive_inputs_def)
  from policy_context_hides_sensitive [OF this, of 100] show ?thesis by simp
qed

section \<open>Validation, reloads and previews\<close>

lemma first_error_ok: "first_error f xs = Inr () \<longleftrightarrow> (\<forall>x\<in>set xs. f x = None)"
  by (induction xs) (auto split: option.splits)

definition action_valid :: "inline_policy_action_config \<Rightarrow> bool" where
  "action_valid a \<longleftrightarrow> (case a of IPA_Deny reason \<Rightarrow> trim reason \<noteq> [] | IPA_Wasm _ \<Rightarrow> False | _ \<Rightarrow> True)"

definition action_refers :: "rstr list \<Rightarrow> bool \<Rightarrow> rstr list \<Rightarrow> inline_policy_action_config \<Rightarrow> bool" where
  "action_refers routes sharding_enabled shards a \<longleftrightarrow>
     (case a of
        IPA_RouteOverride t \<Rightarrow> policy_route_target_id_as_str t \<in> set routes
      | IPA_ShardOverride t \<Rightarrow> \<not> sharding_enabled \<or> policy_shard_target_id_as_str t \<in> set shards
      | _ \<Rightarrow> True)"

lemma action_errors:
  "action_internal_error w a = None \<longleftrightarrow> action_valid a"
  "action_reference_error R s S a = None \<longleftrightarrow> action_refers R s S a"
  by (cases a; simp add: action_valid_def action_refers_def)+

lemma policy_validate_internal_ok:
  "policy_validate_internal c = Inr () \<longleftrightarrow> (\<forall>r\<in>set (pcfg_inline_rules c). action_valid (ipc_action r))"
  by (simp add: policy_validate_internal_def first_error_ok action_errors)

lemma policy_validate_with_context_ok:
  "policy_validate_with_context c R s S = Inr () \<longleftrightarrow>
     (\<forall>r\<in>set (pcfg_inline_rules c). action_valid (ipc_action r) \<and> action_refers R s S (ipc_action r))"
  by (auto simp: policy_validate_with_context_def and_then_eq_Inr policy_validate_internal_ok first_error_ok
      action_errors)

text \<open>
  A reload installs a configuration exactly when each of its rules is valid and refers to an
  existing route or shard; it then advances the generation by one and serves the runtime of the
  new configuration. Otherwise the store stays as it was and the caller is told its generation.
\<close>

lemma policy_reload_exact:
  "policy_store_reload c R s S current =
     (if list_all (\<lambda>r. action_valid (ipc_action r) \<and> action_refers R s S (ipc_action r)) (pcfg_inline_rules c)
      then (\<lparr>prr_success = True, prr_policy_generation_id = psn_generation current + 1,
             prr_error_code = None, prr_error = None\<rparr>,
            \<lparr>psn_generation = psn_generation current + 1, psn_config = c,
             psn_runtime = policy_runtime_from_config c\<rparr>)
      else (fst (policy_store_reload c R s S current), current))
   \<and> prr_policy_generation_id (fst (policy_store_reload c R s S current))
       = psn_generation (snd (policy_store_reload c R s S current))"
proof (cases "policy_validate_with_context c R s S")
  case (Inl e)
  then have "\<not> list_all (\<lambda>r. action_valid (ipc_action r) \<and> action_refers R s S (ipc_action r)) (pcfg_inline_rules c)"
    using policy_validate_with_context_ok [of c R s S] by (auto simp: list_all_iff)
  with Inl show ?thesis by (simp add: policy_store_reload_def)
next
  case (Inr u)
  then have "list_all (\<lambda>r. action_valid (ipc_action r) \<and> action_refers R s S (ipc_action r)) (pcfg_inline_rules c)"
    using policy_validate_with_context_ok [of c R s S] by (auto simp: list_all_iff)
  with Inr show ?thesis by (simp add: policy_store_reload_def policy_snapshot_new_def Let_def)
qed

lemma synthetic_references:
  "r \<in> set (pcfg_inline_rules c) \<Longrightarrow>
     action_refers (synthetic_routes (pcfg_inline_rules c) i) s (synthetic_shards (pcfg_inline_rules c) i) (ipc_action r)"
  by (cases "ipc_action r")
     (force simp: action_refers_def synthetic_routes_def synthetic_shards_def)+

text \<open>A preview answers exactly for the configurations that are valid in themselves.\<close>

lemma preview_rule_result_valid:
  assumes "list_all (\<lambda>r. action_valid (ipc_action r)) (pcfg_inline_rules c)"
  shows "\<exists>x. preview_rule_result c = Inr x"
proof (cases "select_preview_rule (pcfg_inline_rules c) PHP_BeforeRouting")
  case None
  then show ?thesis by (simp add: preview_rule_result_def)
next
  case (Some r)
  then have "r \<in> set (pcfg_inline_rules c)"
    by (auto simp: select_preview_rule_def find_Some_iff)
  with assms have "action_valid (ipc_action r)" by (simp add: list_all_iff)
  with Some show ?thesis
    by (cases "ipc_action r") (simp_all add: preview_rule_result_def preview_action_from_rule_def action_valid_def Let_def)
qed

lemma preview_policy_answers:
  "(\<exists>e. preview_policy c s i = Inr e) \<longleftrightarrow> list_all (\<lambda>r. action_valid (ipc_action r)) (pcfg_inline_rules c)"
proof (cases "policy_validate_with_context c (synthetic_routes (pcfg_inline_rules c) i) s
    (synthetic_shards (pcfg_inline_rules c) i)")
  case (Inl e)
  then have "\<not> list_all (\<lambda>r. action_valid (ipc_action r)) (pcfg_inline_rules c)"
    using policy_validate_with_context_ok [of c "synthetic_routes (pcfg_inline_rules c) i" s
        "synthetic_shards (pcfg_inline_rules c) i"]
    by (auto simp: list_all_iff synthetic_references)
  with Inl show ?thesis by (simp add: preview_policy_def policy_store_reload_def)
next
  case (Inr u)
  then have v: "list_all (\<lambda>r. action_valid (ipc_action r)) (pcfg_inline_rules c)"
    using policy_validate_with_context_ok [of c] by (auto simp: list_all_iff)
  then obtain a d p where "preview_rule_result c = Inr (a, d, p)"
    using preview_rule_result_valid [OF v] by auto
  with v Inr show ?thesis by (simp add: preview_policy_def policy_store_reload_def Let_def)
qed

text \<open>
  The reload metric never names \<open>wasm\<close> as the source of the policies: a configuration with a
  wasm rule has an inline rule too, so the arm for wasm alone is never taken.
\<close>

lemma policy_source_never_wasm: "policy_source_label c \<noteq> lit ''wasm''"
  by (auto simp: policy_source_label_def Let_def lit_def list_ex_iff split: bool.splits)

end
