(* ===== verification/Session.thy ===== *)
theory Session
  imports Sql_Command Shard_Map
begin

text \<open>
  Transactions as a session sees them, \<open>protocol/session.rs\<close>: the role a transaction is routed to,
  the shard it is bound to, and the event-driven \<open>SessionState\<close>.

  The locale \<open>transaction_tracker\<close> is the contract of a session's transaction state; it is
  interpreted by \<open>SessionState\<close> here and by \<open>VirtualSession\<close> in its own theory. Proved once in the
  locale: a write inside a transaction keeps it on the primary until the transaction ends, and a
  transaction never leaves the shard it was bound to.
\<close>

section \<open>Transaction state\<close>

datatype transaction_shard_decision = Accepted | Rejected | FollowMultiShardPolicy

datatype prepared_shard_summary = CurrentShard | Deferred | Shard shard_id

fun prepared_shard_id :: "prepared_shard_summary \<Rightarrow> shard_id option" where
  "prepared_shard_id (Shard sid) = Some sid"
| "prepared_shard_id CurrentShard = None"
| "prepared_shard_id Deferred = None"

record transaction_shard_state =
  current_shard_id :: shard_id
  current_shard_route_reason :: routing_reason
  cross_shard_violation :: bool

definition shard_state_new :: "shard_id \<Rightarrow> routing_reason \<Rightarrow> transaction_shard_state" where
  "shard_state_new sid reason =
     \<lparr>current_shard_id = sid, current_shard_route_reason = reason, cross_shard_violation = False\<rparr>"

definition mark_cross_shard_violation :: "transaction_shard_state \<Rightarrow> transaction_shard_state" where
  "mark_cross_shard_violation s = s\<lparr>cross_shard_violation := True\<rparr>"

record read_routing_transaction_state =
  rr_access_mode :: transaction_access_mode
  rr_target_role :: backend_role
  rr_route_reason :: routing_reason
  rr_primary_forced :: bool

definition rr_refresh :: "read_routing_transaction_state \<Rightarrow> read_routing_transaction_state" where
  "rr_refresh s =
     (if rr_primary_forced s then s\<lparr>rr_target_role := BR_Primary, rr_route_reason := RR_WriteQuery\<rparr>
      else case rr_access_mode s of
        ReadOnly \<Rightarrow> s\<lparr>rr_target_role := BR_Replica, rr_route_reason := RR_ReadOnlyQuery\<rparr>
      | ReadWrite \<Rightarrow> s\<lparr>rr_target_role := BR_Primary, rr_route_reason := RR_TransactionControl\<rparr>)"

definition rr_new :: "transaction_access_mode \<Rightarrow> read_routing_transaction_state" where
  "rr_new access_mode =
     rr_refresh \<lparr>rr_access_mode = access_mode, rr_target_role = BR_Primary,
                 rr_route_reason = RR_TransactionControl, rr_primary_forced = False\<rparr>"

definition rr_set_access_mode ::
  "transaction_access_mode \<Rightarrow> read_routing_transaction_state \<Rightarrow> read_routing_transaction_state" where
  "rr_set_access_mode access_mode s = rr_refresh (s\<lparr>rr_access_mode := access_mode\<rparr>)"

definition rr_force_primary :: "read_routing_transaction_state \<Rightarrow> read_routing_transaction_state" where
  "rr_force_primary s = rr_refresh (s\<lparr>rr_primary_forced := True\<rparr>)"

text \<open>The answer to a statement of shard \<open>sid\<close> in a transaction, and the shard state after it.\<close>

definition shard_affinity_step ::
  "shard_id option \<Rightarrow> routing_reason \<Rightarrow> transaction_shard_state option \<Rightarrow>
   transaction_shard_decision \<times> transaction_shard_state option" where
  "shard_affinity_step sid reason st =
     (case sid of None \<Rightarrow> (FollowMultiShardPolicy, st)
      | Some sid' \<Rightarrow>
          (case st of None \<Rightarrow> (Accepted, Some (shard_state_new sid' reason))
           | Some ts \<Rightarrow>
               if current_shard_id ts = sid'
               then (Accepted,
                     Some (if current_shard_route_reason ts = RR_UnknownQuery \<and> reason \<noteq> RR_UnknownQuery
                           then ts\<lparr>current_shard_route_reason := reason\<rparr> else ts))
               else (Rejected, Some (mark_cross_shard_violation ts))))"

lemmas rr_defs = rr_refresh_def rr_new_def rr_set_access_mode_def rr_force_primary_def

text \<open>The role of a routing state is a function of the access mode and of the forced flag.\<close>

definition rr_consistent :: "read_routing_transaction_state \<Rightarrow> bool" where
  "rr_consistent s \<longleftrightarrow>
     rr_target_role s = (if rr_primary_forced s \<or> rr_access_mode s = ReadWrite then BR_Primary else BR_Replica)"

lemma rr_consistent_ops [simp]:
  "rr_consistent (rr_new m)" "rr_consistent (rr_set_access_mode m s)" "rr_consistent (rr_force_primary s)"
  by (cases m; simp add: rr_defs rr_consistent_def split: transaction_access_mode.split)+

lemma rr_forced_ops [simp]:
  "rr_primary_forced (rr_set_access_mode m s) = rr_primary_forced s"
  "rr_primary_forced (rr_force_primary s)"
  "\<not> rr_primary_forced (rr_new m)"
  by (simp_all add: rr_defs split: transaction_access_mode.split)

section \<open>The contract of a transaction tracker\<close>

text \<open>What happens to a session between the statements that open and close a transaction.\<close>

datatype txn_event =
    TE_SetMode transaction_access_mode
  | TE_Write
  | TE_Shard "shard_id option" routing_reason multi_shard_policy

locale transaction_tracker =
  fixes in_txn :: "'s \<Rightarrow> bool"
    and routing :: "'s \<Rightarrow> read_routing_transaction_state option"
    and shard :: "'s \<Rightarrow> transaction_shard_state option"
    and open_txn :: "transaction_access_mode \<Rightarrow> 's \<Rightarrow> 's"
    and close_txn :: "'s \<Rightarrow> 's"
    and set_mode :: "transaction_access_mode \<Rightarrow> 's \<Rightarrow> 's"
    and mark_write :: "'s \<Rightarrow> 's"
    and affinity :: "shard_id option \<Rightarrow> routing_reason \<Rightarrow> multi_shard_policy \<Rightarrow> 's \<Rightarrow>
      transaction_shard_decision \<times> 's"
  assumes open_law: "in_txn (open_txn m s) \<and> routing (open_txn m s) = Some (rr_new m)"
    and close_law: "\<not> in_txn (close_txn s) \<and> routing (close_txn s) = None \<and> shard (close_txn s) = None"
    and set_mode_law:
      "in_txn (set_mode m s) = in_txn s \<and> shard (set_mode m s) = shard s \<and>
       routing (set_mode m s) =
         (if in_txn s
          then Some (rr_set_access_mode m (case routing s of Some r \<Rightarrow> r | None \<Rightarrow> rr_new m))
          else routing s)"
    and mark_write_law:
      "in_txn (mark_write s) = in_txn s \<and> shard (mark_write s) = shard s \<and>
       routing (mark_write s) =
         (if in_txn s
          then Some (rr_force_primary (case routing s of Some r \<Rightarrow> r | None \<Rightarrow> rr_new ReadWrite))
          else routing s)"
    and affinity_law:
      "in_txn (snd (affinity sid reason policy s)) = in_txn s \<and>
       routing (snd (affinity sid reason policy s)) = routing s \<and>
       (fst (affinity sid reason policy s), shard (snd (affinity sid reason policy s))) =
         (if in_txn s then shard_affinity_step sid reason (shard s) else (Accepted, shard s))"
begin

lemma affinity_step:
  assumes "in_txn s"
  shows "fst (affinity sid reason policy s) = fst (shard_affinity_step sid reason (shard s))"
    and "shard (snd (affinity sid reason policy s)) = snd (shard_affinity_step sid reason (shard s))"
proof -
  have "(fst (affinity sid reason policy s), shard (snd (affinity sid reason policy s))) =
      shard_affinity_step sid reason (shard s)"
    using affinity_law [of sid reason policy s] assms by simp
  then show "fst (affinity sid reason policy s) = fst (shard_affinity_step sid reason (shard s))"
    and "shard (snd (affinity sid reason policy s)) = snd (shard_affinity_step sid reason (shard s))"
    by (metis fst_conv snd_conv)+
qed

fun txn_step :: "'s \<Rightarrow> txn_event \<Rightarrow> 's" where
  "txn_step s (TE_SetMode m) = set_mode m s"
| "txn_step s TE_Write = mark_write s"
| "txn_step s (TE_Shard sid reason policy) = snd (affinity sid reason policy s)"

definition txn_run :: "'s \<Rightarrow> txn_event list \<Rightarrow> 's" where
  "txn_run s es = foldl txn_step s es"

definition bound_to_primary :: "'s \<Rightarrow> bool" where
  "bound_to_primary s \<longleftrightarrow>
     in_txn s \<and> (\<exists>r. routing s = Some r \<and> rr_primary_forced r \<and> rr_consistent r)"

definition routing_ok :: "'s \<Rightarrow> bool" where
  "routing_ok s \<longleftrightarrow> in_txn s \<and> (\<exists>r. routing s = Some r \<and> rr_consistent r)"

lemma routing_ok_open: "routing_ok (open_txn m s)"
  using open_law by (simp add: routing_ok_def)

lemma txn_step_in_txn [simp]: "in_txn (txn_step s e) = in_txn s"
  by (cases e) (use set_mode_law mark_write_law affinity_law in auto)

lemma routing_ok_step: "routing_ok s \<Longrightarrow> routing_ok (txn_step s e)"
  by (cases e) (use set_mode_law mark_write_law affinity_law in \<open>auto simp: routing_ok_def\<close>)

lemma bound_to_primary_write: "routing_ok s \<Longrightarrow> bound_to_primary (mark_write s)"
  using mark_write_law [of s] by (auto simp: routing_ok_def bound_to_primary_def)

lemma bound_to_primary_step: "bound_to_primary s \<Longrightarrow> bound_to_primary (txn_step s e)"
  by (cases e) (use set_mode_law mark_write_law affinity_law in \<open>auto simp: bound_to_primary_def\<close>)

lemma routing_ok_run: "routing_ok s \<Longrightarrow> routing_ok (txn_run s es)"
  by (induction es arbitrary: s) (simp_all add: txn_run_def routing_ok_step)

lemma bound_to_primary_run: "bound_to_primary s \<Longrightarrow> bound_to_primary (txn_run s es)"
  by (induction es arbitrary: s) (simp_all add: txn_run_def bound_to_primary_step)

text \<open>A write at any point of a transaction binds the rest of it to the primary.\<close>

lemma write_binds_primary:
  assumes "TE_Write \<in> set es"
  shows "\<exists>r. routing (txn_run (open_txn m s) es) = Some r \<and> rr_primary_forced r \<and> rr_target_role r = BR_Primary"
proof -
  obtain before after where es: "es = before @ TE_Write # after" using assms by (auto simp: in_set_conv_decomp)
  have "bound_to_primary (mark_write (txn_run (open_txn m s) before))"
    by (intro bound_to_primary_write routing_ok_run routing_ok_open)
  then have "bound_to_primary (txn_run (mark_write (txn_run (open_txn m s) before)) after)"
    by (rule bound_to_primary_run)
  moreover have "txn_run (open_txn m s) es = txn_run (mark_write (txn_run (open_txn m s) before)) after"
    by (simp add: txn_run_def es)
  ultimately show ?thesis by (auto simp: bound_to_primary_def rr_consistent_def)
qed

text \<open>Without a write the role follows the last access mode.\<close>

lemma no_write_not_forced:
  "TE_Write \<notin> set es \<Longrightarrow> routing s = Some r \<Longrightarrow> \<not> rr_primary_forced r \<Longrightarrow> in_txn s \<Longrightarrow>
   \<exists>r'. routing (txn_run s es) = Some r' \<and> \<not> rr_primary_forced r'"
proof (induction es arbitrary: s r)
  case (Cons e es)
  have "\<exists>r'. routing (txn_step s e) = Some r' \<and> \<not> rr_primary_forced r'"
    using Cons.prems set_mode_law affinity_law by (cases e) auto
  then show ?case using Cons by (auto simp: txn_run_def)
qed (simp add: txn_run_def)

text \<open>Once bound to a shard, a transaction keeps it; the violation flag is never taken back.\<close>

lemma shard_kept_step:
  assumes "in_txn s" and "shard s = Some ts"
  shows "\<exists>ts'. shard (txn_step s e) = Some ts' \<and> current_shard_id ts' = current_shard_id ts \<and>
    (cross_shard_violation ts \<longrightarrow> cross_shard_violation ts')"
  using assms set_mode_law mark_write_law
  by (cases e) (auto simp: affinity_step shard_affinity_step_def mark_cross_shard_violation_def split: option.split)

lemma shard_kept_run:
  "in_txn s \<Longrightarrow> shard s = Some ts \<Longrightarrow>
   \<exists>ts'. shard (txn_run s es) = Some ts' \<and> current_shard_id ts' = current_shard_id ts \<and>
     (cross_shard_violation ts \<longrightarrow> cross_shard_violation ts')"
proof (induction es arbitrary: s ts)
  case (Cons e es)
  obtain ts1 where ts1: "shard (txn_step s e) = Some ts1" "current_shard_id ts1 = current_shard_id ts"
    "cross_shard_violation ts \<longrightarrow> cross_shard_violation ts1"
    using shard_kept_step [OF Cons.prems] by blast
  have "in_txn (txn_step s e)" using Cons.prems by simp
  from Cons.IH [OF this ts1(1)] ts1 show ?case by (auto simp: txn_run_def)
qed (simp add: txn_run_def)

lemma other_shard_rejected:
  assumes "in_txn s" and "shard s = Some ts" and "sid \<noteq> current_shard_id ts"
  shows "fst (affinity (Some sid) reason policy (txn_run s es)) = Rejected"
proof -
  obtain ts' where "shard (txn_run s es) = Some ts'" "current_shard_id ts' = current_shard_id ts"
    using shard_kept_run [OF assms(1,2)] by blast
  moreover have "in_txn (txn_run s es)"
    using assms(1) by (induction es arbitrary: s) (simp_all add: txn_run_def)
  ultimately show ?thesis
    using assms(3) by (simp add: affinity_step shard_affinity_step_def)
qed

end

section \<open>The event-driven session\<close>

datatype client_event = CE_SimpleQuery rstr | CE_ExtendedQuery | CE_Sync | CE_Error

datatype session_transaction_state = ST_Idle | ST_InTransaction | ST_FailedTransaction

datatype session_pin_reason =
    SPR_OpenTransaction | SPR_FailedTransaction | SPR_SessionState | SPR_Copy | SPR_ListenNotify
  | SPR_ExtendedQueryCycle | SPR_UnknownProtocolState

record session_state =
  ss_transaction :: session_transaction_state
  ss_read_routing :: "read_routing_transaction_state option"
  ss_transaction_shard :: "transaction_shard_state option"
  ss_pin_reason :: "session_pin_reason option"
  ss_in_extended_cycle :: bool

definition session_default :: session_state where
  "session_default =
     \<lparr>ss_transaction = ST_Idle, ss_read_routing = None, ss_transaction_shard = None,
      ss_pin_reason = None, ss_in_extended_cycle = False\<rparr>"

definition ss_normalize_sql :: "rstr \<Rightarrow> rstr" where
  "ss_normalize_sql sql =
     to_ascii_lowercase (join (lit '' '') (split_whitespace (trim_end_matches_char (trim sql) (chr CHR '';''))))"

definition ss_begin_transaction :: "transaction_access_mode \<Rightarrow> session_state \<Rightarrow> session_state" where
  "ss_begin_transaction access_mode s =
     s\<lparr>ss_transaction := ST_InTransaction, ss_read_routing := Some (rr_new access_mode),
       ss_pin_reason := Some SPR_OpenTransaction\<rparr>"

definition ss_end_transaction :: "session_state \<Rightarrow> session_state" where
  "ss_end_transaction s =
     s\<lparr>ss_transaction := ST_Idle, ss_read_routing := None, ss_transaction_shard := None,
       ss_pin_reason :=
         (if ss_pin_reason s = Some SPR_OpenTransaction \<or> ss_pin_reason s = Some SPR_FailedTransaction
          then None else ss_pin_reason s)\<rparr>"

definition ss_set_transaction_access_mode :: "transaction_access_mode \<Rightarrow> session_state \<Rightarrow> session_state" where
  "ss_set_transaction_access_mode access_mode s =
     (if ss_transaction s \<noteq> ST_InTransaction then s
      else s\<lparr>ss_read_routing :=
               Some (rr_set_access_mode access_mode
                 (case ss_read_routing s of Some r \<Rightarrow> r | None \<Rightarrow> rr_new access_mode))\<rparr>)"

definition ss_mark_transaction_write :: "session_state \<Rightarrow> session_state" where
  "ss_mark_transaction_write s =
     (if ss_transaction s \<noteq> ST_InTransaction then s
      else s\<lparr>ss_read_routing :=
               Some (rr_force_primary (case ss_read_routing s of Some r \<Rightarrow> r | None \<Rightarrow> rr_new ReadWrite))\<rparr>)"

definition ss_apply_transaction_shard_affinity ::
  "shard_id option \<Rightarrow> routing_reason \<Rightarrow> multi_shard_policy \<Rightarrow> session_state \<Rightarrow>
   transaction_shard_decision \<times> session_state" where
  "ss_apply_transaction_shard_affinity sid reason policy s =
     (if ss_transaction s \<noteq> ST_InTransaction then (Accepted, s)
      else let (decision, st) = shard_affinity_step sid reason (ss_transaction_shard s)
           in (decision, s\<lparr>ss_transaction_shard := st\<rparr>))"

definition ss_apply_command :: "rstr \<Rightarrow> session_state \<Rightarrow> session_state" where
  "ss_apply_command n s =
     (if n = lit ''begin'' \<or> n = lit ''start transaction'' then ss_begin_transaction ReadWrite s
      else if n = lit ''begin read only'' \<or> n = lit ''start transaction read only''
      then ss_begin_transaction ReadOnly s
      else if n = lit ''begin read write'' \<or> n = lit ''start transaction read write''
      then ss_begin_transaction ReadWrite s
      else if n = lit ''commit'' \<or> n = lit ''rollback'' then ss_end_transaction s
      else if starts_with n (lit ''set transaction read only'') then ss_set_transaction_access_mode ReadOnly s
      else if starts_with n (lit ''set transaction read write'') then ss_set_transaction_access_mode ReadWrite s
      else if starts_with n (lit ''set '') then s\<lparr>ss_pin_reason := Some SPR_SessionState\<rparr>
      else if starts_with n (lit ''copy '') then s\<lparr>ss_pin_reason := Some SPR_Copy\<rparr>
      else if starts_with n (lit ''listen '') \<or> starts_with n (lit ''unlisten '')
      then s\<lparr>ss_pin_reason := Some SPR_ListenNotify\<rparr>
      else s)"

definition ss_apply_simple_query :: "rstr \<Rightarrow> session_state \<Rightarrow> session_state" where
  "ss_apply_simple_query sql s =
     (let s' = ss_apply_command (ss_normalize_sql sql) s
      in if classify_sql sql = QC_Write then ss_mark_transaction_write s' else s')"

fun session_apply :: "client_event \<Rightarrow> session_state \<Rightarrow> session_state" where
  "session_apply (CE_SimpleQuery sql) s = ss_apply_simple_query sql s"
| "session_apply CE_ExtendedQuery s =
     (let s' = s\<lparr>ss_in_extended_cycle := True\<rparr>
      in if ss_pin_reason s' = None then s'\<lparr>ss_pin_reason := Some SPR_ExtendedQueryCycle\<rparr> else s')"
| "session_apply CE_Sync s =
     (let s' = s\<lparr>ss_in_extended_cycle := False\<rparr>
      in if ss_pin_reason s' = Some SPR_ExtendedQueryCycle then s'\<lparr>ss_pin_reason := None\<rparr> else s')"
| "session_apply CE_Error s =
     (if ss_transaction s = ST_InTransaction
      then (ss_mark_transaction_write s)\<lparr>ss_transaction := ST_FailedTransaction,
              ss_pin_reason := Some SPR_FailedTransaction\<rparr>
      else s\<lparr>ss_pin_reason := Some SPR_UnknownProtocolState\<rparr>)"

lemmas ss_txn_defs =
  ss_begin_transaction_def ss_end_transaction_def ss_set_transaction_access_mode_def
  ss_mark_transaction_write_def ss_apply_transaction_shard_affinity_def

interpretation ss: transaction_tracker "\<lambda>s. ss_transaction s = ST_InTransaction" ss_read_routing
  ss_transaction_shard ss_begin_transaction ss_end_transaction ss_set_transaction_access_mode
  ss_mark_transaction_write ss_apply_transaction_shard_affinity
  by unfold_locales (auto simp: ss_txn_defs split: prod.splits)

end
