(* ===== verification/BTree_Map.thy ===== *)
theory BTree_Map
  imports Rust_Str "HOL-Library.List_Lexorder"
begin

text \<open>
  \<open>BTreeMap\<close> and \<open>BTreeSet\<close> of the standard library, as the list of their entries in iteration
  order: keys strictly ascending. A \<open>String\<close> key compares by its UTF-8 bytes in Rust and by its
  characters here; \<open>as_bytes_less\<close> shows that the two orders agree.

  The locale \<open>ordered_map\<close> is what the components rely on; \<open>bt\<close> interprets it on the entry lists.
\<close>

section \<open>The byte order of strings is the order of their characters\<close>

lemma byte_of_less: "m < 256 \<Longrightarrow> n < 256 \<Longrightarrow> byte_of m < byte_of n \<longleftrightarrow> m < n"
  by (simp add: word_less_nat_alt)

lemma byte_of_eq: "m < 256 \<Longrightarrow> n < 256 \<Longrightarrow> byte_of m = byte_of n \<longleftrightarrow> m = n"
  by (metis unat_byte_of)

lemma div_mod_less: "(c::nat) < d \<Longrightarrow> c div 64 < d div 64 \<or> c div 64 = d div 64 \<and> c mod 64 < d mod 64"
  using div_le_mono [of c d 64] mult_div_mod_eq [of 64 c] mult_div_mod_eq [of 64 d] by linarith

lemma div_64_64: "(c::nat) div 64 div 64 = c div 4096" "c div 4096 div 64 = c div 262144" for c
  by (simp_all flip: div_mult2_eq)

lemma encode_char_less:
  assumes "c < d" and "is_scalar c" and "is_scalar d"
  shows "encode_char c @ x < encode_char d @ y"
proof -
  have lt: "c < 0x110000" "d < 0x110000" using assms by (auto simp: is_scalar_def)
  consider "d < 0x80" | "c < 0x80" "0x80 \<le> d" | "0x80 \<le> c" "d < 0x800" | "0x80 \<le> c" "c < 0x800" "0x800 \<le> d"
    | "0x800 \<le> c" "d < 0x10000" | "0x800 \<le> c" "c < 0x10000" "0x10000 \<le> d" | "0x10000 \<le> c"
    using assms(1) by linarith
  then show ?thesis
  proof cases
    case 3
    then have "c div 64 < 32" "d div 64 < 32" using assms(1) by auto
    moreover have "c div 64 < d div 64 \<or> c div 64 = d div 64 \<and> c mod 64 < d mod 64"
      using assms(1) by (rule div_mod_less)
    ultimately show ?thesis
      using 3 assms(1) by (auto simp: encode_char_def byte_of_less byte_of_eq)
  next
    case 5
    have "c div 4096 < 16" "d div 4096 < 16" using 5 assms(1) by auto
    moreover have "c div 4096 < d div 4096 \<or> c div 4096 = d div 4096 \<and>
        (c div 64 mod 64 < d div 64 mod 64 \<or> c div 64 mod 64 = d div 64 mod 64 \<and> c mod 64 < d mod 64)"
      using div_mod_less [OF assms(1)] div_mod_less [of "c div 64" "d div 64"] by (auto simp flip: div_64_64)
    ultimately show ?thesis
      using 5 assms(1) by (auto simp: encode_char_def byte_of_less byte_of_eq)
  next
    case 7
    have "c div 262144 < 5" "d div 262144 < 5" using lt by auto
    moreover have "c div 262144 < d div 262144 \<or> c div 262144 = d div 262144 \<and>
        (c div 4096 mod 64 < d div 4096 mod 64 \<or> c div 4096 mod 64 = d div 4096 mod 64 \<and>
        (c div 64 mod 64 < d div 64 mod 64 \<or> c div 64 mod 64 = d div 64 mod 64 \<and> c mod 64 < d mod 64))"
      using div_mod_less [OF assms(1)] div_mod_less [of "c div 64" "d div 64"]
        div_mod_less [of "c div 4096" "d div 4096"] by (auto simp flip: div_64_64)
    ultimately show ?thesis
      using 7 assms(1) by (auto simp: encode_char_def byte_of_less byte_of_eq)
  qed (use assms(1) lt in \<open>auto simp: encode_char_def byte_of_less byte_of_eq\<close>)
qed

lemma as_bytes_less_mono: "a < b \<Longrightarrow> scalars a \<Longrightarrow> scalars b \<Longrightarrow> as_bytes a < as_bytes b"
proof (induction a arbitrary: b)
  case Nil
  then show ?case by (cases b) (auto simp: encode_char_def)
next
  case (Cons c a)
  then obtain d b' where b: "b = d # b'" by (cases b) auto
  show ?case
  proof (cases "c = d")
    case True
    then have "as_bytes a < as_bytes b'" using Cons b by simp
    moreover have "xs @ u < xs @ v \<longleftrightarrow> u < v" for xs u v :: bytes
      by (induction xs) simp_all
    ultimately show ?thesis using True b by simp
  next
    case False
    then have "c < d" using Cons(2) b by simp
    then show ?thesis using Cons(3,4) b encode_char_less by simp
  qed
qed

lemma as_bytes_less:
  assumes "scalars a" and "scalars b"
  shows "as_bytes a < as_bytes b \<longleftrightarrow> a < b"
  using as_bytes_less_mono [of a b] as_bytes_less_mono [of b a] assms
  by (metis less_asym linorder_less_linear)

section \<open>The interface\<close>

locale ordered_map =
  fixes get :: "'m \<Rightarrow> 'k::linorder \<Rightarrow> 'v option"
    and ins :: "'k \<Rightarrow> 'v \<Rightarrow> 'm \<Rightarrow> 'm"
    and del :: "'k \<Rightarrow> 'm \<Rightarrow> 'm"
    and entries :: "'m \<Rightarrow> ('k \<times> 'v) list"
    and invar :: "'m \<Rightarrow> bool"
  assumes get_ins: "invar m \<Longrightarrow> get (ins k v m) = (get m)(k \<mapsto> v)"
    and get_del: "invar m \<Longrightarrow> get (del k m) = (get m)(k := None)"
    and invar_ins: "invar m \<Longrightarrow> invar (ins k v m)"
    and invar_del: "invar m \<Longrightarrow> invar (del k m)"
    and entries_get: "invar m \<Longrightarrow> map_of (entries m) = get m"
    and entries_sorted: "invar m \<Longrightarrow> sorted_wrt (<) (map fst (entries m))"
begin

lemma entries_distinct: "invar m \<Longrightarrow> distinct (map fst (entries m))"
  using entries_sorted strict_sorted_imp_sorted by (metis strict_sorted_iff)

lemma entry_iff: "invar m \<Longrightarrow> (k, v) \<in> set (entries m) \<longleftrightarrow> get m k = Some v"
  by (metis entries_distinct entries_get map_of_eq_Some_iff)

lemma entries_eqI:
  assumes "invar m" and "invar m'" and "get m = get m'"
  shows "entries m = entries m'"
proof -
  have "set (entries m) = set (entries m')"
    using assms entry_iff by (auto simp: set_eq_iff)
  then have "map fst (entries m) = map fst (entries m')"
    using assms(1,2) by (intro strict_sorted_equal) (auto simp: entries_sorted)
  moreover have "inj_on fst (set (entries m) \<union> set (entries m'))"
    using \<open>set (entries m) = set (entries m')\<close> entries_distinct [OF assms(1)] by (simp add: distinct_map)
  ultimately show ?thesis by (simp add: inj_on_map_eq_map)
qed

text \<open>Inserting the entries of one map into another that has no key of its own restores it.\<close>

lemma get_fold_ins:
  "invar m \<Longrightarrow> invar (fold (\<lambda>(k, v). ins k v) es m) \<and>
     (distinct (map fst es) \<longrightarrow> get (fold (\<lambda>(k, v). ins k v) es m) = get m ++ map_of es)"
proof (induction es arbitrary: m)
  case Nil
  then show ?case by simp
next
  case (Cons e es)
  obtain k v where e: "e = (k, v)" by fastforce
  have "invar (ins k v m)" using Cons.prems by (rule invar_ins)
  note IH = Cons.IH [OF this]
  have "(get m)(k \<mapsto> v) ++ map_of es = get m ++ (map_of es)(k \<mapsto> v)" if "k \<notin> fst ` set es"
    using that by (simp add: map_add_upd_left dom_map_of_conv_image_fst)
  with IH show ?case by (simp add: e get_ins [OF Cons.prems] del: fun_upd_apply)
qed

end

section \<open>Entry lists\<close>

type_synonym ('k, 'v) btree_map = "('k \<times> 'v) list"

fun bt_insert :: "'k::linorder \<Rightarrow> 'v \<Rightarrow> ('k, 'v) btree_map \<Rightarrow> ('k, 'v) btree_map" where
  "bt_insert k v [] = [(k, v)]"
| "bt_insert k v ((k', v') # m) =
     (if k < k' then (k, v) # (k', v') # m
      else if k = k' then (k, v) # m
      else (k', v') # bt_insert k v m)"

definition bt_remove :: "'k::linorder \<Rightarrow> ('k, 'v) btree_map \<Rightarrow> ('k, 'v) btree_map" where
  "bt_remove k m = filter (\<lambda>e. fst e \<noteq> k) m"

definition bt_invar :: "('k::linorder, 'v) btree_map \<Rightarrow> bool" where
  "bt_invar m \<longleftrightarrow> sorted_wrt (<) (map fst m)"

lemma bt_insert_keys: "set (map fst (bt_insert k v m)) = insert k (set (map fst m))"
  by (induction k v m rule: bt_insert.induct) auto

lemma set_bt_insert: "set (bt_insert k v m) \<subseteq> insert (k, v) (set m)"
  by (induction k v m rule: bt_insert.induct) auto

lemma bt_invar_insert: "bt_invar m \<Longrightarrow> bt_invar (bt_insert k v m)"
proof (induction k v m rule: bt_insert.induct)
  case (2 k v k' v' m)
  have "\<forall>x\<in>set (map fst (bt_insert k v m)). k' < x" if "k' < k"
    unfolding bt_insert_keys using 2(2) that by (auto simp: bt_invar_def)
  with 2 show ?case by (fastforce simp: bt_invar_def)
qed (simp add: bt_invar_def)

lemma bt_invar_remove: "bt_invar m \<Longrightarrow> bt_invar (bt_remove k m)"
  unfolding bt_invar_def bt_remove_def
  by (induction m) auto

lemma map_of_bt_insert: "bt_invar m \<Longrightarrow> map_of (bt_insert k v m) = (map_of m)(k \<mapsto> v)"
proof (induction k v m rule: bt_insert.induct)
  case (2 k v k' v' m)
  then show ?case by (auto simp: bt_invar_def fun_upd_twist)
qed simp

lemma map_of_bt_remove: "map_of (bt_remove k m) = (map_of m)(k := None)"
  unfolding bt_remove_def by (induction m) (auto simp: fun_eq_iff)

interpretation bt: ordered_map map_of bt_insert bt_remove "\<lambda>m. m" bt_invar
  by unfold_locales
    (simp_all add: map_of_bt_insert map_of_bt_remove bt_invar_insert bt_invar_remove, simp add: bt_invar_def)

lemma bt_invar_Nil [simp]: "bt_invar []"
  by (simp add: bt_invar_def)

end
