(* ===== verification/Virtual_Session.thy ===== *)
theory Virtual_Session
  imports Session BTree_Map
begin

text \<open>
  The session a client keeps while its backends change, \<open>protocol/virtual_session.rs\<close>: transaction
  state, replayable settings, and the flags that pin a backend to the client.

  Shown: the transaction state meets the contract \<open>transaction_tracker\<close>; replaying the settings on
  a fresh session restores them; the pin reason is empty exactly when no flag is set.
\<close>

datatype vs_pin_kind =
    VPR_OpenTransaction | VPR_FailedTransaction | VPR_SessionState | VPR_TempTable | VPR_AdvisoryLock
  | VPR_Copy | VPR_ListenNotify | VPR_UnknownProtocolState

fun vs_pin_kind_label :: "vs_pin_kind \<Rightarrow> rstr" where
  "vs_pin_kind_label VPR_OpenTransaction = lit ''open_transaction''"
| "vs_pin_kind_label VPR_FailedTransaction = lit ''failed_transaction''"
| "vs_pin_kind_label VPR_SessionState = lit ''session_state''"
| "vs_pin_kind_label VPR_TempTable = lit ''temp_table''"
| "vs_pin_kind_label VPR_AdvisoryLock = lit ''advisory_lock''"
| "vs_pin_kind_label VPR_Copy = lit ''copy''"
| "vs_pin_kind_label VPR_ListenNotify = lit ''listen_notify''"
| "vs_pin_kind_label VPR_UnknownProtocolState = lit ''unknown_protocol_state''"

datatype vs_transaction_state = VT_Idle | VT_InTransaction | VT_Failed

datatype read_after_write_state = RAW_Disabled | RAW_Required pg_lsn | RAW_Unknown

record virtual_session =
  vs_transaction :: vs_transaction_state
  vs_read_routing :: "read_routing_transaction_state option"
  vs_transaction_shard :: "transaction_shard_state option"
  vs_read_after_write :: read_after_write_state
  vs_settings :: "(rstr, rstr) btree_map"
  vs_has_unsafe_session_state :: bool
  vs_has_temp_table :: bool
  vs_has_advisory_lock :: bool
  vs_in_copy :: bool
  vs_has_listen :: bool
  vs_unknown_protocol_state :: bool

definition vs_default :: virtual_session where
  "vs_default =
     \<lparr>vs_transaction = VT_Idle, vs_read_routing = None, vs_transaction_shard = None,
      vs_read_after_write = RAW_Disabled, vs_settings = [], vs_has_unsafe_session_state = False,
      vs_has_temp_table = False, vs_has_advisory_lock = False, vs_in_copy = False,
      vs_has_listen = False, vs_unknown_protocol_state = False\<rparr>"

definition is_replayable_setting :: "rstr \<Rightarrow> bool" where
  "is_replayable_setting key \<longleftrightarrow>
     key \<in> {lit ''application_name'', lit ''timezone'', lit ''datestyle'', lit ''search_path'',
            lit ''extra_float_digits''}"

definition vs_begin_transaction :: "transaction_access_mode \<Rightarrow> virtual_session \<Rightarrow> virtual_session" where
  "vs_begin_transaction access_mode s =
     s\<lparr>vs_transaction := VT_InTransaction, vs_read_routing := Some (rr_new access_mode)\<rparr>"

definition vs_end_transaction :: "virtual_session \<Rightarrow> virtual_session" where
  "vs_end_transaction s =
     s\<lparr>vs_transaction := VT_Idle, vs_read_routing := None, vs_transaction_shard := None\<rparr>"

definition vs_set_transaction_access_mode :: "transaction_access_mode \<Rightarrow> virtual_session \<Rightarrow> virtual_session" where
  "vs_set_transaction_access_mode access_mode s =
     (if vs_transaction s \<noteq> VT_InTransaction then s
      else s\<lparr>vs_read_routing :=
               Some (rr_set_access_mode access_mode
                 (case vs_read_routing s of Some r \<Rightarrow> r | None \<Rightarrow> rr_new access_mode))\<rparr>)"

definition vs_mark_transaction_write :: "virtual_session \<Rightarrow> virtual_session" where
  "vs_mark_transaction_write s =
     (if vs_transaction s \<noteq> VT_InTransaction then s
      else s\<lparr>vs_read_routing :=
               Some (rr_force_primary (case vs_read_routing s of Some r \<Rightarrow> r | None \<Rightarrow> rr_new ReadWrite))\<rparr>)"

definition vs_apply_set :: "set_scope \<Rightarrow> rstr \<Rightarrow> rstr \<Rightarrow> virtual_session \<Rightarrow> virtual_session" where
  "vs_apply_set scope key value s =
     (if scope = Scope_Local then s
      else if is_replayable_setting key then s\<lparr>vs_settings := bt_insert key value (vs_settings s)\<rparr>
      else s\<lparr>vs_has_unsafe_session_state := True\<rparr>)"

definition vs_clear_all :: "virtual_session \<Rightarrow> virtual_session" where
  "vs_clear_all s =
     s\<lparr>vs_transaction := VT_Idle, vs_read_routing := None, vs_transaction_shard := None,
       vs_read_after_write := RAW_Disabled, vs_settings := [], vs_has_unsafe_session_state := False,
       vs_has_temp_table := False, vs_has_advisory_lock := False, vs_in_copy := False,
       vs_has_listen := False, vs_unknown_protocol_state := False\<rparr>"

fun vs_apply_sql :: "sql_command \<Rightarrow> virtual_session \<Rightarrow> virtual_session" where
  "vs_apply_sql (Cmd_Begin access_mode) s = vs_begin_transaction access_mode s"
| "vs_apply_sql Cmd_Commit s = vs_end_transaction s"
| "vs_apply_sql Cmd_Rollback s = vs_end_transaction s"
| "vs_apply_sql (Cmd_SetTransaction access_mode) s = vs_set_transaction_access_mode access_mode s"
| "vs_apply_sql (Cmd_Set scope key value) s = vs_apply_set scope key value s"
| "vs_apply_sql (Cmd_Reset key) s =
     (let s' = s\<lparr>vs_settings := bt_remove key (vs_settings s)\<rparr>
      in if is_replayable_setting key then s' else s'\<lparr>vs_has_unsafe_session_state := True\<rparr>)"
| "vs_apply_sql Cmd_DiscardAll s = vs_clear_all s"
| "vs_apply_sql Cmd_DiscardTemp s = s\<lparr>vs_has_temp_table := False\<rparr>"
| "vs_apply_sql Cmd_DiscardPlans s = s"
| "vs_apply_sql Cmd_CreateTemp s = s\<lparr>vs_has_temp_table := True\<rparr>"
| "vs_apply_sql Cmd_AdvisoryLock s = s\<lparr>vs_has_advisory_lock := True\<rparr>"
| "vs_apply_sql Cmd_AdvisoryUnlock s = s\<lparr>vs_has_advisory_lock := False\<rparr>"
| "vs_apply_sql Cmd_Copy s = s\<lparr>vs_in_copy := True\<rparr>"
| "vs_apply_sql Cmd_Listen s = s\<lparr>vs_has_listen := True\<rparr>"
| "vs_apply_sql Cmd_Unlisten s = s\<lparr>vs_has_listen := False\<rparr>"
| "vs_apply_sql Cmd_Query s = s"

definition vs_apply_transaction_command :: "sql_command \<Rightarrow> bool \<Rightarrow> virtual_session \<Rightarrow> virtual_session" where
  "vs_apply_transaction_command command is_write s =
     (let s' = (case command of
                  Cmd_Begin access_mode \<Rightarrow> vs_begin_transaction access_mode s
                | Cmd_Commit \<Rightarrow> vs_end_transaction s
                | Cmd_Rollback \<Rightarrow> vs_end_transaction s
                | Cmd_SetTransaction access_mode \<Rightarrow> vs_set_transaction_access_mode access_mode s
                | _ \<Rightarrow> s)
      in if is_write then vs_mark_transaction_write s' else s')"

text \<open>
  The visit of one top-level statement and the walk over all of them; \<open>None\<close> is the panic of
  \<open>classify\<close>. The first component accumulates \<open>committed_write_transaction\<close>.
\<close>

definition vs_commits_write :: "sql_command \<Rightarrow> virtual_session \<Rightarrow> bool" where
  "vs_commits_write command s \<longleftrightarrow>
     command = Cmd_Commit \<and> (case vs_read_routing s of Some r \<Rightarrow> rr_primary_forced r | None \<Rightarrow> False)"

fun vs_visit_statements :: "bool \<Rightarrow> rstr list \<Rightarrow> bool \<times> virtual_session \<Rightarrow> (bool \<times> virtual_session) option" where
  "vs_visit_statements track [] acc = Some acc"
| "vs_visit_statements track (statement # rest) (committed, s) =
     (case classify statement of None \<Rightarrow> None
      | Some command \<Rightarrow>
          vs_visit_statements track rest
            (committed \<or> vs_commits_write command s,
             vs_apply_transaction_command command (track \<and> classify_sql statement = QC_Write) s))"

definition vs_apply_transaction_sql_with_routing ::
  "rstr \<Rightarrow> bool \<Rightarrow> virtual_session \<Rightarrow> (bool \<times> virtual_session) option" where
  "vs_apply_transaction_sql_with_routing sql track s =
     vs_visit_statements track (split_top_level_statements sql) (False, s)"

definition vs_set_transaction_shard_affinity ::
  "shard_id \<Rightarrow> routing_reason \<Rightarrow> virtual_session \<Rightarrow> virtual_session" where
  "vs_set_transaction_shard_affinity sid reason s =
     s\<lparr>vs_transaction_shard := Some (shard_state_new sid reason)\<rparr>"

definition vs_mark_transaction_cross_shard_violation :: "virtual_session \<Rightarrow> virtual_session" where
  "vs_mark_transaction_cross_shard_violation s =
     s\<lparr>vs_transaction_shard := map_option mark_cross_shard_violation (vs_transaction_shard s)\<rparr>"

definition vs_clear_transaction_shard_affinity :: "virtual_session \<Rightarrow> virtual_session" where
  "vs_clear_transaction_shard_affinity s = s\<lparr>vs_transaction_shard := None\<rparr>"

definition vs_apply_transaction_shard_affinity ::
  "shard_id option \<Rightarrow> routing_reason \<Rightarrow> multi_shard_policy \<Rightarrow> virtual_session \<Rightarrow>
   transaction_shard_decision \<times> virtual_session" where
  "vs_apply_transaction_shard_affinity sid reason policy s =
     (if vs_transaction s \<noteq> VT_InTransaction then (Accepted, s)
      else let (decision, st) = shard_affinity_step sid reason (vs_transaction_shard s)
           in (decision, s\<lparr>vs_transaction_shard := st\<rparr>))"

definition vs_mark_ready_after_copy :: "virtual_session \<Rightarrow> virtual_session" where
  "vs_mark_ready_after_copy s = s\<lparr>vs_in_copy := False\<rparr>"

definition vs_mark_failed_transaction :: "virtual_session \<Rightarrow> virtual_session" where
  "vs_mark_failed_transaction s = (vs_mark_transaction_write s)\<lparr>vs_transaction := VT_Failed\<rparr>"

definition vs_mark_unknown_protocol_state :: "virtual_session \<Rightarrow> virtual_session" where
  "vs_mark_unknown_protocol_state s = s\<lparr>vs_unknown_protocol_state := True\<rparr>"

definition vs_set_read_after_write :: "read_after_write_state \<Rightarrow> virtual_session \<Rightarrow> virtual_session" where
  "vs_set_read_after_write r s = s\<lparr>vs_read_after_write := r\<rparr>"

definition vs_pin_reason :: "virtual_session \<Rightarrow> vs_pin_kind option" where
  "vs_pin_reason s =
     (if vs_unknown_protocol_state s then Some VPR_UnknownProtocolState
      else if vs_in_copy s then Some VPR_Copy
      else if vs_transaction s = VT_Failed then Some VPR_FailedTransaction
      else if vs_transaction s = VT_InTransaction then Some VPR_OpenTransaction
      else if vs_has_temp_table s then Some VPR_TempTable
      else if vs_has_advisory_lock s then Some VPR_AdvisoryLock
      else if vs_has_listen s then Some VPR_ListenNotify
      else if vs_has_unsafe_session_state s then Some VPR_SessionState
      else None)"

definition vs_replay_sql :: "virtual_session \<Rightarrow> rstr list" where
  "vs_replay_sql s = map (\<lambda>(key, value). lit ''SET '' @ key @ lit '' = '' @ value) (vs_settings s)"

definition vs_has_replayable_settings :: "virtual_session \<Rightarrow> bool" where
  "vs_has_replayable_settings s \<longleftrightarrow> vs_settings s \<noteq> []"

section \<open>The transaction contract\<close>

lemmas vs_txn_defs =
  vs_begin_transaction_def vs_end_transaction_def vs_set_transaction_access_mode_def
  vs_mark_transaction_write_def vs_apply_transaction_shard_affinity_def

interpretation vs: transaction_tracker "\<lambda>s. vs_transaction s = VT_InTransaction" vs_read_routing
  vs_transaction_shard vs_begin_transaction vs_end_transaction vs_set_transaction_access_mode
  vs_mark_transaction_write vs_apply_transaction_shard_affinity
  by unfold_locales (auto simp: vs_txn_defs split: prod.splits)

section \<open>A transaction that wrote is reported when it commits\<close>

fun ends_or_begins :: "sql_command \<Rightarrow> bool" where
  "ends_or_begins (Cmd_Begin _) = True"
| "ends_or_begins Cmd_Commit = True"
| "ends_or_begins Cmd_Rollback = True"
| "ends_or_begins _ = False"

text \<open>A statement in the middle of a transaction, and what it does to the transaction state.\<close>

definition inner_statement :: "rstr \<Rightarrow> bool" where
  "inner_statement st \<longleftrightarrow> (case classify st of None \<Rightarrow> False | Some c \<Rightarrow> \<not> ends_or_begins c)"

definition statement_events :: "rstr \<Rightarrow> txn_event list" where
  "statement_events st =
     (case classify st of Some (Cmd_SetTransaction m) \<Rightarrow> [TE_SetMode m] | _ \<Rightarrow> []) @
     (if classify_sql st = QC_Write then [TE_Write] else [])"

lemma vs_commits_write_inner: "\<not> ends_or_begins c \<Longrightarrow> \<not> vs_commits_write c s"
  by (auto simp: vs_commits_write_def)

lemma vs_inner_command:
  assumes "classify st = Some c" and "\<not> ends_or_begins c"
  shows "vs_apply_transaction_command c (True \<and> classify_sql st = QC_Write) s = vs.txn_run s (statement_events st)"
  using assms by (cases c) (auto simp: vs_apply_transaction_command_def statement_events_def vs.txn_run_def)

lemma vs_visit_inner:
  "list_all inner_statement body \<Longrightarrow>
   vs_visit_statements True (body @ rest) (committed, s) =
     vs_visit_statements True rest (committed, vs.txn_run s (concat (map statement_events body)))"
proof (induction body arbitrary: s)
  case Nil
  then show ?case by (simp add: vs.txn_run_def)
next
  case (Cons st body)
  then obtain c where c: "classify st = Some c" "\<not> ends_or_begins c"
    by (auto simp: inner_statement_def split: option.splits)
  have "vs_visit_statements True ((st # body) @ rest) (committed, s) =
      vs_visit_statements True (body @ rest) (committed, vs.txn_run s (statement_events st))"
    using vs_inner_command [OF c, of s] by (simp add: c vs_commits_write_inner)
  then show ?case using Cons by (simp add: vs.txn_run_def)
qed

lemma write_in_events:
  "TE_Write \<in> set (concat (map statement_events body)) \<longleftrightarrow> list_ex (\<lambda>st. classify_sql st = QC_Write) body"
  by (induction body) (auto simp: statement_events_def split: option.splits sql_command.splits)

lemma committed_write_iff:
  assumes "list_all inner_statement body"
  shows "vs_commits_write Cmd_Commit (vs.txn_run (vs_begin_transaction m s) (concat (map statement_events body)))
    \<longleftrightarrow> list_ex (\<lambda>st. classify_sql st = QC_Write) body"
proof (cases "TE_Write \<in> set (concat (map statement_events body))")
  case True
  then show ?thesis
    using vs.write_binds_primary [OF True, of m s] write_in_events [of body]
    by (auto simp: vs_commits_write_def)
next
  case False
  then obtain r where "vs_read_routing
      (vs.txn_run (vs_begin_transaction m s) (concat (map statement_events body))) = Some r"
    "\<not> rr_primary_forced r"
    using vs.no_write_not_forced [OF False, of "vs_begin_transaction m s" "rr_new m"] vs.open_law [of m s]
    by auto
  then show ?thesis using False write_in_events [of body] by (auto simp: vs_commits_write_def)
qed

text \<open>A request \<open>BEGIN; ...; COMMIT\<close> reports a committed write exactly when one of the statements
  between is a write, whatever access modes are set in between, and leaves the session idle. This
  is the signal on which the proxy records the LSN that later reads must have seen.\<close>

lemma committed_write_reported:
  assumes "classify b = Some (Cmd_Begin m)" and "classify_sql b \<noteq> QC_Write"
    and "list_all inner_statement body" and "classify e = Some Cmd_Commit"
  shows "\<exists>s'. vs_visit_statements True (b # body @ [e]) (False, s) =
      Some (list_ex (\<lambda>st. classify_sql st = QC_Write) body, s') \<and>
    vs_transaction s' = VT_Idle \<and> vs_read_routing s' = None"
proof -
  let ?s = "vs.txn_run (vs_begin_transaction m s) (concat (map statement_events body))"
  have "vs_visit_statements True (b # body @ [e]) (False, s) =
      vs_visit_statements True (body @ [e]) (False, vs_begin_transaction m s)"
    using assms(1,2) by (simp add: vs_commits_write_def vs_apply_transaction_command_def)
  also have "\<dots> = vs_visit_statements True [e] (False, ?s)"
    using assms(3) by (rule vs_visit_inner)
  also have "\<dots> = Some (list_ex (\<lambda>st. classify_sql st = QC_Write) body,
      vs_apply_transaction_command Cmd_Commit (classify_sql e = QC_Write) ?s)"
    using assms(4) committed_write_iff [OF assms(3)] by simp
  finally show ?thesis
    by (simp add: vs_apply_transaction_command_def vs_end_transaction_def vs_mark_transaction_write_def Let_def)
qed

text \<open>The statements of the examples below, evaluated.\<close>

lemmas statement_eval =
  strip_id starts_with_token_separator_def starts_with_def lit_def is_whitespace_def
  eq_ignore_ascii_case_def to_ascii_lowercase_def char_lower_def is_ascii_upper_def utf8_len_def

lemmas command_eval =
  trim_def trim_end_def trim_start_def trim_end_matches_char_def trim_end_pred_def
  lit_def is_whitespace_def to_ascii_lowercase_def char_lower_def is_ascii_upper_def

lemma single_statement_text:
  assumes "strip_token_separators s = s" and "s \<noteq> []" and "length (split_top_level_statements s) \<le> 1"
  shows "classify_sql s = classify_single_statement s"
  using assms by (simp add: classify_sql_def Let_def)

lemma begin_class: "classify_sql (lit ''begin'') = QC_TransactionControl"
proof -
  have "classify_sql (lit ''begin'') = classify_single_statement (lit ''begin'')"
    by (rule single_statement_text)
      (simp_all add: statement_eval split_top_level_statements_def visit_statement_def command_eval)
  also have "\<dots> = QC_TransactionControl"
    by (simp add: classify_single_statement.simps keyword_is_def is_transaction_control_def statement_eval)
  finally show ?thesis .
qed

lemma delete_class: "classify_sql (lit ''delete from t'') = QC_Write"
proof -
  have "classify_sql (lit ''delete from t'') = classify_single_statement (lit ''delete from t'')"
    by (rule single_statement_text)
      (simp_all add: statement_eval split_top_level_statements_def visit_statement_def command_eval)
  moreover have "keyword_is (lit ''delete from t'') (lit ''delete'')"
    by (simp add: keyword_is_def statement_eval)
  then have "is_write_statement (lit ''delete from t'')"
    by (auto simp: is_write_statement_def write_keywords_def)
  ultimately show ?thesis using write_statement_is_write by simp
qed

lemma cmd_normalize_words: "split_whitespace s = ws \<Longrightarrow> cmd_normalize s = to_ascii_lowercase (join (lit '' '') ws)"
  by (simp add: cmd_normalize_def)

lemma begin_command: "classify (lit ''begin'') = Some (Cmd_Begin ReadWrite)"
proof -
  have "split_whitespace (lit ''begin'') = [lit ''begin'']"
    by (rule split_whitespace_last) (simp add: lit_def is_whitespace_def)
  then have "cmd_normalize (lit ''begin'') = lit ''begin''"
    by (simp add: cmd_normalize_def) (simp add: command_eval)
  moreover have "trim (trim_end_matches_char (trim (lit ''begin'')) (chr CHR '';'')) = lit ''begin''"
    by (simp add: command_eval)
  ultimately show ?thesis
    by (simp add: classify_def classify_normalized_def parse_begin_transaction_def Let_def)
qed

lemma commit_command: "classify (lit ''commit'') = Some Cmd_Commit"
proof -
  have "split_whitespace (lit ''commit'') = [lit ''commit'']"
    by (rule split_whitespace_last) (simp add: lit_def is_whitespace_def)
  then have n: "cmd_normalize (lit ''commit'') = lit ''commit''"
    by (simp add: cmd_normalize_def) (simp add: command_eval)
  have "trim (trim_end_matches_char (trim (lit ''commit'')) (chr CHR '';'')) = lit ''commit''"
    by (simp add: command_eval)
  moreover have "parse_begin_transaction (lit ''commit'') = None" "parse_set_transaction (lit ''commit'') = None"
    by (simp_all add: parse_begin_transaction_def parse_set_transaction_def lit_def)
  ultimately show ?thesis
    by (simp add: classify_def classify_normalized_def n Let_def)
qed

lemma delete_command: "classify (lit ''delete from t'') = Some Cmd_Query"
proof -
  have w: "split_whitespace (lit ''delete from t'') = [lit ''delete'', lit ''from'', lit ''t'']"
    by (simp add: split_whitespace.simps lit_def is_whitespace_def)
  have n: "cmd_normalize (lit ''delete from t'') = lit ''delete from t''"
    unfolding cmd_normalize_def w by (simp add: command_eval)
  have t: "trim (trim_end_matches_char (trim (lit ''delete from t'')) (chr CHR '';'')) = lit ''delete from t''"
    by (simp add: command_eval)
  have "parse_begin_transaction (lit ''delete from t'') = None" "parse_set_transaction (lit ''delete from t'') = None"
    by (simp_all add: parse_begin_transaction_def parse_set_transaction_def lit_def)
  moreover have "\<not> contains_str (lit ''delete from t'') (lit ''pg_advisory_lock('')"
    "\<not> contains_str (lit ''delete from t'') (lit ''pg_advisory_unlock'')"
    by (simp_all add: contains_str_def lit_def starts_with_def)
  ultimately have "classify_normalized (lit ''delete from t'') (lit ''delete from t'') = Some Cmd_Query"
    unfolding classify_normalized_def by (simp add: lit_def starts_with_def)
  then show ?thesis
    unfolding classify_def Let_def t n .
qed

lemma committed_write_reported_witness:
  "\<exists>s'. vs_visit_statements True [lit ''begin'', lit ''delete from t'', lit ''commit''] (False, vs_default) =
     Some (True, s') \<and> vs_transaction s' = VT_Idle"
  using committed_write_reported [of "lit ''begin''" ReadWrite "[lit ''delete from t'']" "lit ''commit''" vs_default]
  by (auto simp: begin_command begin_class commit_command delete_command delete_class inner_statement_def)

text \<open>A second \<open>BEGIN\<close>, which PostgreSQL answers with a warning inside the running transaction,
  makes the session forget the write: the commit is not reported, and no LSN is required of later
  reads.\<close>

lemma nested_begin_forgets_write:
  "vs_apply_transaction_sql_with_routing (lit ''begin;delete from t;begin;commit'') True vs_default =
     Some (False, vs_default)"
proof -
  have "split_top_level_statements (lit ''begin;delete from t;begin;commit'') =
      [lit ''begin'', lit ''delete from t'', lit ''begin'', lit ''commit'']"
    by (simp add: split_top_level_statements_def visit_statement_def command_eval)
  then show ?thesis
    by (simp add: vs_apply_transaction_sql_with_routing_def begin_command begin_class commit_command
        delete_command delete_class vs_commits_write_def vs_apply_transaction_command_def vs_txn_defs
        vs_default_def Let_def)
qed

section \<open>Settings\<close>

text \<open>The settings are an ordered map with replayable keys only.\<close>

definition settings_ok :: "virtual_session \<Rightarrow> bool" where
  "settings_ok s \<longleftrightarrow> bt_invar (vs_settings s) \<and> (\<forall>(k, v)\<in>set (vs_settings s). is_replayable_setting k \<and> stable_value v)"

fun stable_command :: "sql_command \<Rightarrow> bool" where
  "stable_command (Cmd_Set _ _ value) = stable_value value"
| "stable_command _ = True"

lemma settings_ok_default [simp]: "settings_ok vs_default"
  by (simp add: settings_ok_def vs_default_def)

lemma settings_ok_apply:
  assumes "settings_ok s" and "stable_command c"
  shows "settings_ok (vs_apply_sql c s)"
proof (cases c)
  case (Cmd_Set scope key v)
  then show ?thesis
    using assms set_bt_insert [of key v "vs_settings s"] bt_invar_insert
    by (auto simp: settings_ok_def vs_apply_set_def)
next
  case (Cmd_Reset key)
  then show ?thesis
    using assms bt_invar_remove by (auto simp: settings_ok_def Let_def bt_remove_def)
qed (use assms in \<open>auto simp: settings_ok_def vs_txn_defs vs_clear_all_def\<close>)

definition vs_apply_all :: "sql_command list \<Rightarrow> virtual_session \<Rightarrow> virtual_session" where
  "vs_apply_all cs s = fold vs_apply_sql cs s"

lemma settings_ok_run: "settings_ok s \<Longrightarrow> list_all stable_command cs \<Longrightarrow> settings_ok (vs_apply_all cs s)"
  by (induction cs arbitrary: s) (simp_all add: vs_apply_all_def settings_ok_apply)

lemma replayable_plain_key: "is_replayable_setting k \<Longrightarrow> plain_key k"
  by (auto simp: is_replayable_setting_def plain_key_def command_eval)

text \<open>What a backend, or another session, makes of the replayed statements.\<close>

fun vs_replay :: "rstr list \<Rightarrow> virtual_session \<Rightarrow> virtual_session option" where
  "vs_replay [] s = Some s"
| "vs_replay (st # sts) s = (case classify st of None \<Rightarrow> None | Some c \<Rightarrow> vs_replay sts (vs_apply_sql c s))"

lemma vs_replay_entries:
  "\<forall>(k, v)\<in>set es. is_replayable_setting k \<and> stable_value v \<Longrightarrow>
   vs_replay (map (\<lambda>(k, v). set_statement k v) es) s =
     Some (s\<lparr>vs_settings := fold (\<lambda>(k, v). bt_insert k v) es (vs_settings s)\<rparr>)"
proof (induction es arbitrary: s)
  case (Cons e es)
  obtain k v where e: "e = (k, v)" by fastforce
  have "classify (set_statement k v) = Some (Cmd_Set Scope_Session k v)"
    using Cons.prems e replayable_plain_key classify_set_statement by auto
  moreover have "is_replayable_setting k" using Cons.prems e by auto
  ultimately show ?case using Cons by (simp add: e vs_apply_set_def)
qed simp

text \<open>The settings a session collected are restored by replaying them: the statements that are sent
  to a new backend are read as \<open>SET\<close> commands, in key order, and lead from a session without
  settings to the same settings, provided no collected value ends in a semicolon.\<close>

lemma replay_restores_settings:
  assumes "list_all stable_command cs"
  shows "vs_replay (vs_replay_sql (vs_apply_all cs vs_default)) vs_default =
    Some (vs_default\<lparr>vs_settings := vs_settings (vs_apply_all cs vs_default)\<rparr>)"
proof -
  let ?m = "vs_settings (vs_apply_all cs vs_default)"
  have ok: "settings_ok (vs_apply_all cs vs_default)" using assms settings_ok_run by simp
  then have inv: "bt_invar ?m" by (simp add: settings_ok_def)
  let ?m' = "fold (\<lambda>(k, v). bt_insert k v) ?m []"
  have "bt_invar ?m'" and "map_of ?m' = map_of ?m"
    using bt.get_fold_ins [of "[]" ?m] bt.entries_distinct [OF inv] by simp_all
  then have "?m' = ?m" using bt.entries_eqI inv by blast
  moreover have "vs_settings vs_default = []" by (simp add: vs_default_def)
  ultimately show ?thesis
    using vs_replay_entries [of ?m vs_default] ok
    by (simp add: vs_replay_sql_def settings_ok_def set_statement_def)
qed

lemma replay_restores_settings_witness:
  "vs_replay (vs_replay_sql (vs_apply_all [Cmd_Set Scope_Session (lit ''timezone'') (lit ''utc'')] vs_default)) vs_default =
     Some (vs_default\<lparr>vs_settings := [(lit ''timezone'', lit ''utc'')]\<rparr>)"
  using replay_restores_settings [of "[Cmd_Set Scope_Session (lit ''timezone'') (lit ''utc'')]"]
  by (simp add: stable_value_def vs_apply_all_def vs_apply_set_def is_replayable_setting_def vs_default_def
      is_whitespace_def lit_def)

section \<open>Pins\<close>

lemma vs_pin_reason_None:
  "vs_pin_reason s = None \<longleftrightarrow>
     vs_transaction s = VT_Idle \<and> \<not> vs_in_copy s \<and> \<not> vs_has_temp_table s \<and> \<not> vs_has_advisory_lock s \<and>
     \<not> vs_has_listen s \<and> \<not> vs_has_unsafe_session_state s \<and> \<not> vs_unknown_protocol_state s"
  by (cases "vs_transaction s") (auto simp: vs_pin_reason_def)

end
