(* ===== verification/Read_Routing.thy ===== *)
theory Read_Routing
  imports Policy_Model Sql_Classify Virtual_Session Shard_Map
begin

text \<open>
  Read routing, \<open>routing.rs\<close> of the proxy: from the configured mode, the transaction state, the
  analysis of the query and the health of the replicas to a target, and the policy action that
  may change it.

  Shown: a replica is chosen only for a read outside a transaction, and it is healthy, not
  split-brained, fresh enough and of least lag among those; no policy action makes an unsafe
  replica the target; a query with a write statement is never sent to a replica; a session that
  requires its own writes reads from a replica that has replayed them.
\<close>

section \<open>Reasons and targets\<close>

datatype target_reason =
    TR_Off
  | TR_PrimaryOnlyMode
  | TR_RequireReplicaMode
  | TR_InTransaction
  | TR_FailedTransaction
  | TR_WriteQuery
  | TR_UnknownQuery
  | TR_TransactionControl
  | TR_SessionMutation
  | TR_CopyQuery
  | TR_ReadCandidateQuery
  | TR_ReadOnlyQuery
  | TR_PrimaryHint
  | TR_ReplicaHint
  | TR_StaleOkHint
  | TR_StrictFreshHint
  | TR_FreshnessRequired
  | TR_ReplicaStale
  | TR_ReplicaUnavailable
  | TR_FallbackPrimary
  | TR_FallbackReject
  | TR_FallbackWait
  | TR_PolicyDenied
  | TR_PolicyRequirePrimary
  | TR_PolicyRequireReplica
  | TR_PolicyRouteOverride
  | TR_PolicyShardOverride

fun target_reason_as_str :: "target_reason \<Rightarrow> rstr" where
  "target_reason_as_str TR_Off = lit ''off''"
| "target_reason_as_str TR_PrimaryOnlyMode = lit ''primary_only_mode''"
| "target_reason_as_str TR_RequireReplicaMode = lit ''require_replica_mode''"
| "target_reason_as_str TR_InTransaction = lit ''in_transaction''"
| "target_reason_as_str TR_FailedTransaction = lit ''failed_transaction''"
| "target_reason_as_str TR_WriteQuery = lit ''write_query''"
| "target_reason_as_str TR_UnknownQuery = lit ''unknown_query''"
| "target_reason_as_str TR_TransactionControl = lit ''transaction_control''"
| "target_reason_as_str TR_SessionMutation = lit ''session_mutation''"
| "target_reason_as_str TR_CopyQuery = lit ''copy_query''"
| "target_reason_as_str TR_ReadCandidateQuery = lit ''read_candidate_query''"
| "target_reason_as_str TR_ReadOnlyQuery = lit ''read_only_query''"
| "target_reason_as_str TR_PrimaryHint = lit ''primary_hint''"
| "target_reason_as_str TR_ReplicaHint = lit ''replica_hint''"
| "target_reason_as_str TR_StaleOkHint = lit ''stale_ok_hint''"
| "target_reason_as_str TR_StrictFreshHint = lit ''strict_fresh_hint''"
| "target_reason_as_str TR_FreshnessRequired = lit ''freshness_required''"
| "target_reason_as_str TR_ReplicaStale = lit ''replica_stale''"
| "target_reason_as_str TR_ReplicaUnavailable = lit ''replica_unavailable''"
| "target_reason_as_str TR_FallbackPrimary = lit ''fallback_primary''"
| "target_reason_as_str TR_FallbackReject = lit ''fallback_reject''"
| "target_reason_as_str TR_FallbackWait = lit ''fallback_wait''"
| "target_reason_as_str TR_PolicyDenied = lit ''policy_denied''"
| "target_reason_as_str TR_PolicyRequirePrimary = lit ''policy_require_primary''"
| "target_reason_as_str TR_PolicyRequireReplica = lit ''policy_require_replica''"
| "target_reason_as_str TR_PolicyRouteOverride = lit ''policy_route_override''"
| "target_reason_as_str TR_PolicyShardOverride = lit ''policy_shard_override''"

interpretation target_reason: labelled target_reason_as_str
proof unfold_locales
  fix x y show "target_reason_as_str x = target_reason_as_str y \<Longrightarrow> x = y"
    by (cases x; cases y) (simp_all add: lit_def)
qed

record read_routing_planner =
  rrp_read_routing_mode :: read_routing_mode
  rrp_fallback_policy :: fallback_policy
  rrp_freshness_policy :: freshness_policy
  rrp_max_replica_lag_ms :: nat

record replica_candidate =
  rc_replica_id :: nat
  rc_healthy :: bool
  rc_split_brain :: bool
  rc_replay_lsn :: "pg_lsn option"
  rc_lag_ms :: "nat option"

definition replica_candidate_new :: "nat \<Rightarrow> bool \<Rightarrow> pg_lsn option \<Rightarrow> nat option \<Rightarrow> replica_candidate" where
  "replica_candidate_new i healthy lsn lag =
     \<lparr>rc_replica_id = i, rc_healthy = healthy, rc_split_brain = False, rc_replay_lsn = lsn,
      rc_lag_ms = lag\<rparr>"

record route_health_snapshot =
  rhs_replicas :: "replica_candidate list"

record routing_context =
  rcx_sql :: rstr
  rcx_transaction_state :: session_transaction_state
  rcx_read_after_write_state :: read_after_write_state
  rcx_health :: route_health_snapshot
  rcx_analysis :: "sql_analysis option"

definition routing_context_new ::
  "rstr \<Rightarrow> session_transaction_state \<Rightarrow> read_after_write_state \<Rightarrow> route_health_snapshot \<Rightarrow> routing_context" where
  "routing_context_new sql ts raw health =
     \<lparr>rcx_sql = sql, rcx_transaction_state = ts, rcx_read_after_write_state = raw,
      rcx_health = health, rcx_analysis = None\<rparr>"

definition routing_context_with_analysis ::
  "rstr \<Rightarrow> session_transaction_state \<Rightarrow> read_after_write_state \<Rightarrow> route_health_snapshot
    \<Rightarrow> sql_analysis \<Rightarrow> routing_context" where
  "routing_context_with_analysis sql ts raw health analysis =
     \<lparr>rcx_sql = sql, rcx_transaction_state = ts, rcx_read_after_write_state = raw,
      rcx_health = health, rcx_analysis = Some analysis\<rparr>"

definition context_query_class :: "routing_context \<Rightarrow> query_class" where
  "context_query_class c =
     (case rcx_analysis c of Some a \<Rightarrow> sa_query_class a | None \<Rightarrow> sa_query_class (analyze_sql (rcx_sql c)))"

definition context_routing_hint :: "routing_context \<Rightarrow> routing_hint" where
  "context_routing_hint c =
     (case rcx_analysis c of Some a \<Rightarrow> sa_routing_hint a | None \<Rightarrow> sa_routing_hint (analyze_sql (rcx_sql c)))"

datatype routing_target =
    RT_Primary target_reason
  | RT_Replica replica_candidate target_reason
  | RT_Wait target_reason
  | RT_Reject target_reason

fun routing_target_reason :: "routing_target \<Rightarrow> target_reason" where
  "routing_target_reason (RT_Primary r) = r"
| "routing_target_reason (RT_Replica c r) = r"
| "routing_target_reason (RT_Wait r) = r"
| "routing_target_reason (RT_Reject r) = r"

fun routing_target_role :: "routing_target \<Rightarrow> backend_role option" where
  "routing_target_role (RT_Primary r) = Some BR_Primary"
| "routing_target_role (RT_Replica c r) = Some BR_Replica"
| "routing_target_role (RT_Wait r) = None"
| "routing_target_role (RT_Reject r) = None"

fun routing_target_replica :: "routing_target \<Rightarrow> replica_candidate option" where
  "routing_target_replica (RT_Replica c r) = Some c"
| "routing_target_replica (RT_Primary r) = None"
| "routing_target_replica (RT_Wait r) = None"
| "routing_target_replica (RT_Reject r) = None"

section \<open>Freshness\<close>

fun requires_session_write_lsn :: "freshness_policy \<Rightarrow> bool" where
  "requires_session_write_lsn FRP_SessionWriteLsn = True"
| "requires_session_write_lsn FRP_SessionWriteLsnAndMaxLag = True"
| "requires_session_write_lsn _ = False"

fun requires_replica_lag :: "freshness_policy \<Rightarrow> bool" where
  "requires_replica_lag FRP_MaxReplicaLag = True"
| "requires_replica_lag FRP_SessionWriteLsnAndMaxLag = True"
| "requires_replica_lag _ = False"

fun effective_freshness_policy :: "freshness_policy \<Rightarrow> routing_hint \<Rightarrow> freshness_policy" where
  "effective_freshness_policy p RH_StrictFresh = FRP_SessionWriteLsnAndMaxLag"
| "effective_freshness_policy p RH_StaleOk =
     (if p = FRP_SessionWriteLsnAndMaxLag then FRP_MaxReplicaLag else p)"
| "effective_freshness_policy p RH_Primary = p"
| "effective_freshness_policy p RH_Replica = p"
| "effective_freshness_policy p RH_None = p"

text \<open>The two checks of \<open>replica_satisfies_freshness\<close>, each with its early return.\<close>

fun session_write_replayed :: "replica_candidate \<Rightarrow> read_after_write_state \<Rightarrow> bool" where
  "session_write_replayed c RAW_Disabled = True"
| "session_write_replayed c RAW_Unknown = False"
| "session_write_replayed c (RAW_Required required) =
     (case rc_replay_lsn c of None \<Rightarrow> False | Some lsn \<Rightarrow> \<not> lsn < required)"

definition lag_within :: "replica_candidate \<Rightarrow> nat \<Rightarrow> bool" where
  "lag_within c limit = (case rc_lag_ms c of None \<Rightarrow> False | Some lag \<Rightarrow> \<not> lag > limit)"

definition replica_satisfies_freshness ::
  "replica_candidate \<Rightarrow> freshness_policy \<Rightarrow> read_after_write_state \<Rightarrow> nat \<Rightarrow> bool" where
  "replica_satisfies_freshness c policy raw limit =
     (if requires_session_write_lsn policy \<and> \<not> session_write_replayed c raw then False
      else if requires_replica_lag policy \<and> \<not> lag_within c limit then False
      else True)"

definition replica_key :: "replica_candidate \<Rightarrow> nat \<times> nat" where
  "replica_key c = (case rc_lag_ms c of Some lag \<Rightarrow> lag | None \<Rightarrow> u64_max, rc_replica_id c)"

definition select_safe_replica ::
  "route_health_snapshot \<Rightarrow> read_after_write_state \<Rightarrow> nat \<Rightarrow> freshness_policy \<Rightarrow> replica_candidate option" where
  "select_safe_replica health raw limit policy =
     min_by_key replica_key
       (filter (\<lambda>c. replica_satisfies_freshness c policy raw limit)
         (filter (\<lambda>c. rc_healthy c \<and> \<not> rc_split_brain c) (rhs_replicas health)))"

section \<open>Choosing a target\<close>

fun primary_for_query_class :: "query_class \<Rightarrow> routing_target" where
  "primary_for_query_class QC_Write = RT_Primary TR_WriteQuery"
| "primary_for_query_class QC_ReadOnly = RT_Primary TR_ReadOnlyQuery"
| "primary_for_query_class QC_ReadCandidate = RT_Primary TR_ReadCandidateQuery"
| "primary_for_query_class QC_TransactionControl = RT_Primary TR_TransactionControl"
| "primary_for_query_class QC_SessionMutation = RT_Primary TR_SessionMutation"
| "primary_for_query_class QC_Copy = RT_Primary TR_CopyQuery"
| "primary_for_query_class QC_Unknown = RT_Primary TR_UnknownQuery"

fun success_reason :: "routing_hint \<Rightarrow> target_reason" where
  "success_reason RH_Primary = TR_PrimaryHint"
| "success_reason RH_Replica = TR_ReplicaHint"
| "success_reason RH_StaleOk = TR_StaleOkHint"
| "success_reason RH_StrictFresh = TR_StrictFreshHint"
| "success_reason RH_None = TR_ReadCandidateQuery"

fun fallback_target :: "fallback_policy \<Rightarrow> routing_target" where
  "fallback_target FP_Primary = RT_Primary TR_FallbackPrimary"
| "fallback_target FP_Reject = RT_Reject TR_FallbackReject"
| "fallback_target FP_Wait = RT_Wait TR_FallbackWait"

fun stale_reason :: "read_after_write_state \<Rightarrow> target_reason" where
  "stale_reason RAW_Unknown = TR_FreshnessRequired"
| "stale_reason (RAW_Required _) = TR_ReplicaStale"
| "stale_reason RAW_Disabled = TR_FallbackPrimary"

definition no_safe_replica_target :: "read_routing_planner \<Rightarrow> routing_context \<Rightarrow> freshness_policy \<Rightarrow> routing_target" where
  "no_safe_replica_target p c policy =
     (if rrp_read_routing_mode p = RRM_RequireReplica then RT_Reject TR_RequireReplicaMode
      else if \<not> list_ex rc_healthy (rhs_replicas (rcx_health c)) then fallback_target (rrp_fallback_policy p)
      else if requires_session_write_lsn policy \<and> rcx_read_after_write_state c \<noteq> RAW_Disabled then
        (case rrp_fallback_policy p of
           FP_Primary \<Rightarrow> RT_Primary TR_FallbackPrimary
         | FP_Reject \<Rightarrow> RT_Reject (stale_reason (rcx_read_after_write_state c))
         | FP_Wait \<Rightarrow> RT_Wait TR_FallbackWait)
      else fallback_target (rrp_fallback_policy p))"

definition choose_routing_target :: "read_routing_planner \<Rightarrow> routing_context \<Rightarrow> routing_target" where
  "choose_routing_target p c =
     (let query_class = context_query_class c; hint = context_routing_hint c in
      case rrp_read_routing_mode p of
        RRM_Off \<Rightarrow> RT_Primary TR_Off
      | RRM_PrimaryOnly \<Rightarrow> RT_Primary TR_PrimaryOnlyMode
      | _ \<Rightarrow>
        (case rcx_transaction_state c of
           ST_InTransaction \<Rightarrow> RT_Primary TR_InTransaction
         | ST_FailedTransaction \<Rightarrow> RT_Primary TR_FailedTransaction
         | ST_Idle \<Rightarrow>
           if \<not> routes_to_replica query_class then primary_for_query_class query_class
           else if hint = RH_Primary then RT_Primary TR_PrimaryHint
           else
             (let policy = effective_freshness_policy (rrp_freshness_policy p) hint in
              if hint = RH_StrictFresh \<and> rcx_read_after_write_state c = RAW_Disabled
              then fallback_target (rrp_fallback_policy p)
              else
                (case select_safe_replica (rcx_health c) (rcx_read_after_write_state c)
                        (rrp_max_replica_lag_ms p) policy of
                   Some candidate \<Rightarrow> RT_Replica candidate (success_reason hint)
                 | None \<Rightarrow> no_safe_replica_target p c policy))))"

section \<open>Policy actions\<close>

definition policy_denied_target :: routing_target where
  "policy_denied_target = RT_Reject TR_PolicyDenied"

fun map_routing_target_reason :: "routing_target \<Rightarrow> target_reason \<Rightarrow> routing_target" where
  "map_routing_target_reason (RT_Primary _) r = RT_Primary r"
| "map_routing_target_reason (RT_Replica c _) r = RT_Replica c r"
| "map_routing_target_reason (RT_Wait _) r = RT_Wait r"
| "map_routing_target_reason (RT_Reject _) r = RT_Reject r"

fun ensure_policy_action_target_is_safe ::
  "read_routing_planner \<Rightarrow> routing_context \<Rightarrow> routing_target \<Rightarrow> routing_target" where
  "ensure_policy_action_target_is_safe p c (RT_Replica candidate reason) =
     (if rc_healthy candidate \<and> \<not> rc_split_brain candidate
         \<and> replica_satisfies_freshness candidate (rrp_freshness_policy p)
              (rcx_read_after_write_state c) (rrp_max_replica_lag_ms p)
      then RT_Replica candidate reason
      else choose_routing_target p c)"
| "ensure_policy_action_target_is_safe p c other = other"

fun require_replica_target :: "routing_target \<Rightarrow> routing_target" where
  "require_replica_target (RT_Replica candidate _) = RT_Replica candidate TR_PolicyRequireReplica"
| "require_replica_target (RT_Wait _) = RT_Reject TR_PolicyRequireReplica"
| "require_replica_target (RT_Reject _) = RT_Reject TR_PolicyRequireReplica"
| "require_replica_target (RT_Primary _) = RT_Primary TR_PolicyRequireReplica"

fun action_target ::
  "read_routing_planner \<Rightarrow> routing_context \<Rightarrow> routing_target \<Rightarrow> policy_action option \<Rightarrow> routing_target" where
  "action_target p c current None = current"
| "action_target p c current (Some PA_Allow) = current"
| "action_target p c current (Some (PA_Deny _ _)) = policy_denied_target"
| "action_target p c current (Some PA_RequirePrimary) = RT_Primary TR_PolicyRequirePrimary"
| "action_target p c current (Some PA_RequireReplica) =
     require_replica_target (choose_routing_target (p\<lparr>rrp_read_routing_mode := RRM_RequireReplica\<rparr>) c)"
| "action_target p c current (Some (PA_RouteOverride _)) =
     map_routing_target_reason current TR_PolicyRouteOverride"
| "action_target p c current (Some (PA_ShardOverride _)) =
     map_routing_target_reason current TR_PolicyShardOverride"

definition apply_policy_action_to_routing_target ::
  "read_routing_planner \<Rightarrow> routing_context \<Rightarrow> routing_target option \<Rightarrow> policy_action option \<Rightarrow> routing_target" where
  "apply_policy_action_to_routing_target p c current_target action =
     (let current = (case current_target of Some t \<Rightarrow> t | None \<Rightarrow> choose_routing_target p c) in
      ensure_policy_action_target_is_safe p c (action_target p c current action))"

section \<open>The decision recorded for a shard route\<close>

fun role_reason :: "backend_role \<Rightarrow> routing_reason" where
  "role_reason BR_Primary = RR_ReadOnlyQuery"
| "role_reason BR_Replica = RR_ReadCandidateQuery"
| "role_reason BR_Unknown = RR_UnknownQuery"

fun bridge_reason :: "shard_route_reason \<Rightarrow> backend_role \<Rightarrow> fallback_policy \<Rightarrow> routing_reason" where
  "bridge_reason SRR_AdminOverride role f = role_reason role"
| "bridge_reason SRR_HashMatch role f = role_reason role"
| "bridge_reason SRR_RangeMatch role f = role_reason role"
| "bridge_reason SRR_ListMatch role f = role_reason role"
| "bridge_reason SRR_MultiShardRejected role f = RR_FallbackReject"
| "bridge_reason SRR_ValidationFailed role f = RR_FallbackReject"
| "bridge_reason SRR_NoMatch role f =
     (case f of FP_Primary \<Rightarrow> RR_FallbackPrimary | FP_Reject \<Rightarrow> RR_FallbackReject | FP_Wait \<Rightarrow> RR_FallbackWait)"

definition bridge_shard_route_decision ::
  "'addr shard_route_decision \<Rightarrow> rstr \<Rightarrow> read_routing_planner \<Rightarrow> routing_decision" where
  "bridge_shard_route_decision decision sql p =
     (let analysis = analyze_sql sql;
          role = (case srd_route decision of Some r \<Rightarrow> st_backend_role (sro_target r) | None \<Rightarrow> BR_Unknown)
      in \<lparr>rd_target_role = role,
          rd_query_class = sa_query_class analysis,
          rd_hint = sa_routing_hint analysis,
          rd_reason = bridge_reason (srd_reason decision) role (rrp_fallback_policy p),
          rd_fallback_policy = rrp_fallback_policy p,
          rd_freshness_requirement = rrp_freshness_policy p\<rparr>)"

section \<open>Selection\<close>

definition eligible :: "routing_context \<Rightarrow> nat \<Rightarrow> freshness_policy \<Rightarrow> replica_candidate \<Rightarrow> bool" where
  "eligible c limit policy r \<longleftrightarrow>
     r \<in> set (rhs_replicas (rcx_health c)) \<and> rc_healthy r \<and> \<not> rc_split_brain r
     \<and> replica_satisfies_freshness r policy (rcx_read_after_write_state c) limit"

lemma select_safe_replica_Some:
  assumes "select_safe_replica (rcx_health c) (rcx_read_after_write_state c) limit policy = Some r"
  shows "eligible c limit policy r" "eligible c limit policy r' \<Longrightarrow> replica_key r \<le> replica_key r'"
  using min_by_key_in [OF assms [unfolded select_safe_replica_def]]
    min_by_key_least [OF assms [unfolded select_safe_replica_def]]
  by (auto simp: eligible_def)

lemma select_safe_replica_None:
  "select_safe_replica (rcx_health c) (rcx_read_after_write_state c) limit policy = None
    \<longleftrightarrow> (\<forall>r. \<not> eligible c limit policy r)"
  by (auto simp: select_safe_replica_def eligible_def filter_empty_conv)

lemma fallback_not_replica [simp]: "fallback_target f \<noteq> RT_Replica r x"
  by (cases f) simp_all

lemma primary_not_replica [simp]: "primary_for_query_class q \<noteq> RT_Replica r x"
  by (cases q) simp_all

lemma no_safe_not_replica [simp]: "no_safe_replica_target p c policy \<noteq> RT_Replica r x"
  by (cases "rrp_fallback_policy p") (simp_all add: no_safe_replica_target_def)

abbreviation effective_policy :: "read_routing_planner \<Rightarrow> routing_context \<Rightarrow> freshness_policy" where
  "effective_policy p c \<equiv> effective_freshness_policy (rrp_freshness_policy p) (context_routing_hint c)"

lemma choose_replica_iff:
  "choose_routing_target p c = RT_Replica r x \<longleftrightarrow>
     rrp_read_routing_mode p \<in> {RRM_PreferReplica, RRM_RequireReplica}
     \<and> rcx_transaction_state c = ST_Idle
     \<and> routes_to_replica (context_query_class c)
     \<and> context_routing_hint c \<noteq> RH_Primary
     \<and> \<not> (context_routing_hint c = RH_StrictFresh \<and> rcx_read_after_write_state c = RAW_Disabled)
     \<and> select_safe_replica (rcx_health c) (rcx_read_after_write_state c) (rrp_max_replica_lag_ms p)
          (effective_policy p c) = Some r
     \<and> x = success_reason (context_routing_hint c)"
  by (auto simp: choose_routing_target_def Let_def
      split: read_routing_mode.splits session_transaction_state.splits option.splits)

lemma choose_replica_read:
  "choose_routing_target p c = RT_Replica r x \<Longrightarrow>
     rcx_transaction_state c = ST_Idle \<and> routes_to_replica (context_query_class c)
     \<and> eligible c (rrp_max_replica_lag_ms p) (effective_policy p c) r"
  by (auto simp: choose_replica_iff dest: select_safe_replica_Some(1))

text \<open>
  Whether the mode, the session and the query ask for a replica, and whether one is then considered:
  a query that insists on fresh data in a session without a position to compare with gets none.
\<close>

definition replica_wanted :: "read_routing_planner \<Rightarrow> routing_context \<Rightarrow> bool" where
  "replica_wanted p c \<longleftrightarrow>
     rrp_read_routing_mode p \<in> {RRM_PreferReplica, RRM_RequireReplica}
     \<and> rcx_transaction_state c = ST_Idle
     \<and> routes_to_replica (context_query_class c)
     \<and> context_routing_hint c \<noteq> RH_Primary"

definition replica_allowed :: "read_routing_planner \<Rightarrow> routing_context \<Rightarrow> bool" where
  "replica_allowed p c \<longleftrightarrow>
     replica_wanted p c \<and> \<not> (context_routing_hint c = RH_StrictFresh \<and> rcx_read_after_write_state c = RAW_Disabled)"

abbreviation eligible_now :: "read_routing_planner \<Rightarrow> routing_context \<Rightarrow> replica_candidate \<Rightarrow> bool" where
  "eligible_now p c \<equiv> eligible c (rrp_max_replica_lag_ms p) (effective_policy p c)"

lemma choose_not_replica:
  assumes "routing_target_replica (choose_routing_target p c) = None"
  shows "\<not> (replica_allowed p c \<and> eligible_now p c r)"
proof
  assume a: "replica_allowed p c \<and> eligible_now p c r"
  then obtain r' where "select_safe_replica (rcx_health c) (rcx_read_after_write_state c)
      (rrp_max_replica_lag_ms p) (effective_policy p c) = Some r'"
    using select_safe_replica_None [of c] by fastforce
  with a have "choose_routing_target p c = RT_Replica r' (success_reason (context_routing_hint c))"
    by (simp add: choose_replica_iff replica_allowed_def replica_wanted_def)
  with assms show False by simp
qed

text \<open>Why a read is refused: replicas are there but behind the session's last write, or none is there.\<close>

definition refusal_reason :: "read_routing_planner \<Rightarrow> routing_context \<Rightarrow> target_reason" where
  "refusal_reason p c =
     (if replica_allowed p c \<and> list_ex rc_healthy (rhs_replicas (rcx_health c))
         \<and> requires_session_write_lsn (effective_policy p c) \<and> rcx_read_after_write_state c \<noteq> RAW_Disabled
      then stale_reason (rcx_read_after_write_state c) else TR_FallbackReject)"

definition fallback_choice :: "read_routing_planner \<Rightarrow> routing_context \<Rightarrow> routing_target" where
  "fallback_choice p c =
     (if rrp_read_routing_mode p = RRM_RequireReplica \<and> replica_allowed p c then RT_Reject TR_RequireReplicaMode
      else case rrp_fallback_policy p of
        FP_Primary \<Rightarrow> RT_Primary TR_FallbackPrimary
      | FP_Wait \<Rightarrow> RT_Wait TR_FallbackWait
      | FP_Reject \<Rightarrow> RT_Reject (refusal_reason p c))"

lemma choose_unwanted: "\<not> replica_wanted p c \<Longrightarrow> routing_target_role (choose_routing_target p c) = Some BR_Primary"
  by (cases "context_query_class c")
    (auto simp: replica_wanted_def choose_routing_target_def Let_def
      split: read_routing_mode.splits session_transaction_state.splits)

lemma choose_fallback:
  assumes "replica_wanted p c" and "\<not> (replica_allowed p c \<and> (\<exists>r. eligible_now p c r))"
  shows "choose_routing_target p c = fallback_choice p c"
proof (cases "replica_allowed p c")
  case True
  then have "select_safe_replica (rcx_health c) (rcx_read_after_write_state c) (rrp_max_replica_lag_ms p)
      (effective_policy p c) = None"
    using assms(2) select_safe_replica_None [of c] by blast
  then have "choose_routing_target p c = no_safe_replica_target p c (effective_policy p c)"
    using True by (auto simp: replica_allowed_def replica_wanted_def choose_routing_target_def Let_def)
  then show ?thesis
    using True by (cases "rrp_fallback_policy p")
      (auto simp: no_safe_replica_target_def fallback_choice_def refusal_reason_def)
next
  case False
  then have "choose_routing_target p c = fallback_target (rrp_fallback_policy p)"
    using assms(1) by (auto simp: replica_allowed_def replica_wanted_def choose_routing_target_def Let_def)
  then show ?thesis
    using False by (cases "rrp_fallback_policy p") (simp_all add: fallback_choice_def refusal_reason_def)
qed

text \<open>
  C15. A read goes to a replica exactly when it may, and otherwise exactly where the configuration
  says. The target is a replica only if the mode, the transaction state, the query class and the
  hint allow one, and then it is an eligible candidate (listed, healthy, not split-brained, fresh
  under the policy in force) and no eligible candidate has less lag. If no replica is chosen, none
  was allowed or none eligible; a request that does not ask for a replica then goes to the primary,
  and one that does is refused in the mode that requires a replica, and otherwise goes to the
  primary, waits or is refused as the fallback policy says.
\<close>

theorem choose_routing_target_exact:
  "case routing_target_replica (choose_routing_target p c) of
     Some r \<Rightarrow> replica_allowed p c \<and> eligible_now p c r
               \<and> \<not> (\<exists>r'. eligible_now p c r' \<and> replica_key r' < replica_key r)
   | None \<Rightarrow> \<not> (replica_allowed p c \<and> (\<exists>r. eligible_now p c r))
             \<and> (if replica_wanted p c then choose_routing_target p c = fallback_choice p c
                else routing_target_role (choose_routing_target p c) = Some BR_Primary)"
proof (cases "choose_routing_target p c")
  case (RT_Replica r x)
  note c = RT_Replica [unfolded choose_replica_iff]
  from c have s: "select_safe_replica (rcx_health c) (rcx_read_after_write_state c)
      (rrp_max_replica_lag_ms p) (effective_policy p c) = Some r" by simp
  have "\<not> (eligible_now p c r' \<and> replica_key r' < replica_key r)" for r'
    using select_safe_replica_Some(2) [OF s, of r'] leD by blast
  with select_safe_replica_Some(1) [OF s] c RT_Replica show ?thesis
    by (simp add: replica_allowed_def replica_wanted_def)
qed (use choose_not_replica [of p c] choose_fallback [of p c] choose_unwanted [of p c] in auto)

text \<open>
  The mode that requires a replica is not as strict as documented: a query that insists on fresh data,
  in a session that has written nothing, falls back to the primary there.
\<close>

lemma strict_hint_escapes_require_replica:
  assumes "rrp_read_routing_mode p = RRM_RequireReplica" and "rrp_fallback_policy p = FP_Primary"
    and "rcx_transaction_state c = ST_Idle" and "routes_to_replica (context_query_class c)"
    and "context_routing_hint c = RH_StrictFresh" and "rcx_read_after_write_state c = RAW_Disabled"
  shows "choose_routing_target p c = RT_Primary TR_FallbackPrimary"
  using choose_fallback [of p c] assms
  by (simp add: replica_wanted_def replica_allowed_def fallback_choice_def)

section \<open>Policy actions are safe\<close>

text \<open>What a candidate must satisfy to be the target after a policy action.\<close>

definition safe_candidate :: "read_routing_planner \<Rightarrow> routing_context \<Rightarrow> replica_candidate \<Rightarrow> bool" where
  "safe_candidate p c r \<longleftrightarrow>
     rc_healthy r \<and> \<not> rc_split_brain r
     \<and> (replica_satisfies_freshness r (rrp_freshness_policy p) (rcx_read_after_write_state c) (rrp_max_replica_lag_ms p)
        \<or> replica_satisfies_freshness r (effective_policy p c) (rcx_read_after_write_state c) (rrp_max_replica_lag_ms p))"

lemma ensure_safe:
  "ensure_policy_action_target_is_safe p c t = RT_Replica r x \<Longrightarrow> safe_candidate p c r"
  by (cases t) (auto simp: safe_candidate_def eligible_def split: if_splits dest: choose_replica_read)

text \<open>A target that a context leads to: not a replica, or one for a read of that context.\<close>

definition read_target :: "routing_context \<Rightarrow> routing_target \<Rightarrow> bool" where
  "read_target c t \<longleftrightarrow>
     (case routing_target_replica t of
        None \<Rightarrow> True
      | Some r \<Rightarrow> rcx_transaction_state c = ST_Idle \<and> routes_to_replica (context_query_class c)
                  \<and> r \<in> set (rhs_replicas (rcx_health c)))"

lemma read_target_choose: "read_target c (choose_routing_target p c)"
  by (cases "choose_routing_target p c")
     (auto simp: read_target_def eligible_def dest: choose_replica_read)

lemma read_target_map [simp]:
  "read_target c (map_routing_target_reason t x) = read_target c t"
  "read_target c (require_replica_target t) = read_target c t"
  "read_target c policy_denied_target" "read_target c (RT_Primary y)"
  by (cases t; simp add: read_target_def policy_denied_target_def)+

lemma read_target_action: "read_target c t \<Longrightarrow> read_target c (action_target p c t a)"
  by (cases "(p, c, t, a)" rule: action_target.cases) (simp_all add: read_target_choose)

lemma read_target_ensure: "read_target c t \<Longrightarrow> read_target c (ensure_policy_action_target_is_safe p c t)"
  by (cases t) (simp_all add: read_target_choose)

lemma read_target_apply: "read_target c (apply_policy_action_to_routing_target p c None a)"
  by (simp add: apply_policy_action_to_routing_target_def Let_def read_target_ensure read_target_action
      read_target_choose)

text \<open>
  No policy action forces a request onto an unsafe replica: whatever the action, a replica
  target is one of the listed candidates, healthy, not split-brained and fresh under the
  configured policy or the one the query asked for, and the request is a read outside a
  transaction.
\<close>

lemma policy_action_keeps_replica_safe:
  assumes "apply_policy_action_to_routing_target p c None a = RT_Replica r x"
  shows "safe_candidate p c r \<and> r \<in> set (rhs_replicas (rcx_health c))
    \<and> rcx_transaction_state c = ST_Idle \<and> routes_to_replica (context_query_class c)"
proof -
  have "safe_candidate p c r"
    using assms by (auto simp: apply_policy_action_to_routing_target_def Let_def dest: ensure_safe)
  with read_target_apply [of c p a] assms show ?thesis by (simp add: read_target_def)
qed

definition example_planner :: read_routing_planner where
  "example_planner =
     \<lparr>rrp_read_routing_mode = RRM_PreferReplica, rrp_fallback_policy = FP_Primary,
      rrp_freshness_policy = FRP_SessionWriteLsn, rrp_max_replica_lag_ms = 100\<rparr>"

definition example_context :: routing_context where
  "example_context =
     routing_context_with_analysis (lit ''SELECT 1'') ST_Idle (RAW_Required (PgLsn 7))
       \<lparr>rhs_replicas = [replica_candidate_new 1 True (Some (PgLsn 5)) (Some 3),
                        replica_candidate_new 2 True (Some (PgLsn 9)) (Some 8)]\<rparr>
       \<lparr>sa_query_class = QC_ReadOnly, sa_routing_hint = RH_None\<rparr>"

lemmas example_routing_defs =
  example_planner_def example_context_def routing_context_with_analysis_def replica_candidate_new_def
  apply_policy_action_to_routing_target_def choose_routing_target_def context_query_class_def
  context_routing_hint_def select_safe_replica_def replica_satisfies_freshness_def less_pg_lsn_def

lemma policy_action_keeps_replica_safe_witness:
  "apply_policy_action_to_routing_target example_planner example_context None (Some PA_RequireReplica)
     = RT_Replica (replica_candidate_new 2 True (Some (PgLsn 9)) (Some 8)) TR_PolicyRequireReplica
   \<and> safe_candidate example_planner example_context (replica_candidate_new 2 True (Some (PgLsn 9)) (Some 8))"
proof -
  have e: "apply_policy_action_to_routing_target example_planner example_context None (Some PA_RequireReplica)
     = RT_Replica (replica_candidate_new 2 True (Some (PgLsn 9)) (Some 8)) TR_PolicyRequireReplica"
    by (simp add: example_routing_defs)
  from policy_action_keeps_replica_safe [OF e] e show ?thesis by simp
qed

text \<open>
  A session reads its own writes: when the configured policy requires the position of the session's
  last write and the query does not accept stale reads, a safe candidate has replayed that position.
  Whatever target it starts from, a policy action leads to safe candidates only.
\<close>

lemma safe_candidate_replayed:
  assumes "safe_candidate p c r" and "requires_session_write_lsn (rrp_freshness_policy p)"
    and "context_routing_hint c \<noteq> RH_StaleOk" and "rcx_read_after_write_state c = RAW_Required l"
  shows "\<exists>k. rc_replay_lsn r = Some k \<and> l \<le> k"
proof -
  have "requires_session_write_lsn (effective_policy p c)"
    using assms(2,3) by (cases "context_routing_hint c") auto
  then have "session_write_replayed r (RAW_Required l)"
    using assms by (auto simp: safe_candidate_def replica_satisfies_freshness_def split: if_splits)
  then show ?thesis by (auto split: option.splits)
qed

lemma policy_action_reads_own_writes:
  assumes "apply_policy_action_to_routing_target p c current_target a = RT_Replica r x"
    and "requires_session_write_lsn (rrp_freshness_policy p)"
    and "context_routing_hint c \<noteq> RH_StaleOk"
    and "rcx_read_after_write_state c = RAW_Required l"
  shows "\<exists>k. rc_replay_lsn r = Some k \<and> l \<le> k"
proof -
  from assms(1) have "safe_candidate p c r"
    by (auto simp: apply_policy_action_to_routing_target_def Let_def dest: ensure_safe)
  then show ?thesis using assms(2-4) by (rule safe_candidate_replayed)
qed

text \<open>
  A query text with a write statement among its top-level statements is not a read, and no policy
  action on the target chosen for it makes it go to a replica.
\<close>

lemma write_text_not_read:
  assumes "st \<in> set (split_top_level_statements (strip_leading_comments_and_whitespace (rcx_sql c)))"
    and "is_write_statement st"
    and "rcx_analysis c = None \<or> rcx_analysis c = Some (analyze_sql (rcx_sql c))"
  shows "\<not> routes_to_replica (context_query_class c)"
proof -
  have "context_query_class c = classify_sql (rcx_sql c)"
    using assms(3) by (auto simp: context_query_class_def analyze_sql_def)
  with write_statement_not_replica [OF assms(1,2)] show ?thesis by simp
qed

lemma write_text_target:
  assumes "\<not> routes_to_replica (context_query_class c)"
  shows "routing_target_role (apply_policy_action_to_routing_target p c None a) \<noteq> Some BR_Replica"
  using assms read_target_apply [of c p a]
  by (cases "apply_policy_action_to_routing_target p c None a") (auto simp: read_target_def)

end
