(* ===== verification/Shard_Extract.thy ===== *)
theory Shard_Extract
  imports Rust_Std Shard_Map Sql_Classify
begin

text \<open>
  Finding the shard of a query, \<open>traffic/shard_extract.rs\<close>: explicit hints in leading comments,
  and the conservative extraction of a shard key from simple \<open>select\<close>, \<open>insert\<close>, \<open>update\<close> and
  \<open>delete\<close> statements. The parsers of the source walk a token vector by index; here they walk the
  list of the tokens that are left, which is the same suffix.

  Shown: quoting a text key and reading it back from the query gives the text, whatever its
  characters; a hint comment is read back; and three texts on which extraction departs from its
  documented caution.
\<close>

section \<open>Tokens\<close>

datatype shard_token =
    SX_Ident rstr | SX_Number rstr | SX_String rstr | SX_Param | SX_Comma | SX_Dot | SX_LParen
  | SX_RParen | SX_Equals | SX_Semicolon | SX_ColonColon | SX_Star

definition is_ident_start :: "rchar \<Rightarrow> bool" where
  "is_ident_start c \<longleftrightarrow> is_ascii_alphabetic c \<or> c = 95"

definition is_ident_part :: "rchar \<Rightarrow> bool" where
  "is_ident_part c \<longleftrightarrow> is_ascii_alphanumeric c \<or> c = 95 \<or> c = 36"

fun line_comment_rest :: "rstr \<Rightarrow> rstr" where
  "line_comment_rest [] = []"
| "line_comment_rest (c # s) = (if c = 10 then s else line_comment_rest s)"

fun block_comment_rest :: "rchar \<Rightarrow> rstr \<Rightarrow> rstr option" where
  "block_comment_rest previous [] = None"
| "block_comment_rest previous (c # s) =
     (if previous = 42 \<and> c = 47 then Some s else block_comment_rest c s)"

text \<open>A quoted literal or identifier with doubled quotes, and the rest; \<open>None\<close> when unclosed.\<close>

fun quoted_rest :: "rchar \<Rightarrow> rstr \<Rightarrow> (rstr \<times> rstr) option" where
  "quoted_rest q [] = None"
| "quoted_rest q [c] = (if c = q then Some ([], []) else None)"
| "quoted_rest q (c # d # s) =
     (if c = q then
        (if d = q then map_option (\<lambda>(v, r). (q # v, r)) (quoted_rest q s) else Some ([], d # s))
      else map_option (\<lambda>(v, r). (c # v, r)) (quoted_rest q (d # s)))"

lemma line_comment_rest_length [simp]: "length (line_comment_rest s) \<le> length s"
  by (induction s) auto

lemma block_comment_rest_length: "block_comment_rest p s = Some r \<Longrightarrow> length r < length s"
  by (induction p s rule: block_comment_rest.induct) (auto split: if_splits)

lemma quoted_rest_length: "quoted_rest q s = Some (v, r) \<Longrightarrow> length r < length s"
  by (induction q s arbitrary: v r rule: quoted_rest.induct) (fastforce split: if_splits)+

definition opt_cons :: "'a \<Rightarrow> 'a list option \<Rightarrow> 'a list option" where
  "opt_cons x xs = map_option ((#) x) xs"

lemma opt_cons_simps [simp]: "opt_cons x (Some xs) = Some (x # xs)" "opt_cons x None = None"
  by (simp_all add: opt_cons_def)

definition next_is :: "(rchar \<Rightarrow> bool) \<Rightarrow> rstr \<Rightarrow> bool" where
  "next_is P s \<longleftrightarrow> s \<noteq> [] \<and> P (hd s)"

lemma next_is_simps [simp]: "next_is P [] = False" "next_is P (c # s) = P c"
  by (simp_all add: next_is_def)

function shard_tokenize :: "rstr \<Rightarrow> shard_token list option" where
  "shard_tokenize [] = Some []"
| "shard_tokenize (c # rest) =
     (if is_whitespace c then shard_tokenize rest
      else if c = 45 \<and> next_is (\<lambda>d. d = 45) rest then shard_tokenize (line_comment_rest (tl rest))
      else if c = 47 \<and> next_is (\<lambda>d. d = 42) rest then
        (case block_comment_rest 0 (tl rest) of None \<Rightarrow> None | Some r \<Rightarrow> shard_tokenize r)
      else if c = 39 then
        (case quoted_rest 39 rest of None \<Rightarrow> None | Some (v, r) \<Rightarrow> opt_cons (SX_String v) (shard_tokenize r))
      else if c = 34 then
        (case quoted_rest 34 rest of None \<Rightarrow> None | Some (v, r) \<Rightarrow> opt_cons (SX_Ident v) (shard_tokenize r))
      else if c = 40 then opt_cons SX_LParen (shard_tokenize rest)
      else if c = 41 then opt_cons SX_RParen (shard_tokenize rest)
      else if c = 44 then opt_cons SX_Comma (shard_tokenize rest)
      else if c = 46 then opt_cons SX_Dot (shard_tokenize rest)
      else if c = 61 then opt_cons SX_Equals (shard_tokenize rest)
      else if c = 59 then opt_cons SX_Semicolon (shard_tokenize rest)
      else if c = 42 then opt_cons SX_Star (shard_tokenize rest)
      else if c = 58 \<and> next_is (\<lambda>d. d = 58) rest then opt_cons SX_ColonColon (shard_tokenize (tl rest))
      else if c = 63 then opt_cons SX_Param (shard_tokenize rest)
      else if c = 36 then
        (if takeWhile is_ascii_digit rest = [] then None
         else opt_cons SX_Param (shard_tokenize (dropWhile is_ascii_digit rest)))
      else if c = 45 \<and> next_is is_ascii_digit rest then
        opt_cons (SX_Number (c # takeWhile is_ascii_digit rest)) (shard_tokenize (dropWhile is_ascii_digit rest))
      else if is_ascii_digit c then
        opt_cons (SX_Number (c # takeWhile is_ascii_digit rest)) (shard_tokenize (dropWhile is_ascii_digit rest))
      else if is_ident_start c then
        opt_cons (SX_Ident (c # takeWhile is_ident_part rest)) (shard_tokenize (dropWhile is_ident_part rest))
      else None)"
  by pat_completeness auto
termination
  by (relation "measure length")
     (auto simp: less_Suc_eq_le length_dropWhile_le next_is_def
       intro: le_trans [OF line_comment_rest_length] less_imp_le
       dest!: block_comment_rest_length quoted_rest_length)

declare shard_tokenize.simps(2) [simp del]

section \<open>Literals, identifiers and tables\<close>

text \<open>\<open>str::parse::<i64>\<close>: an optional sign and decimal digits in range.\<close>

definition parse_i64 :: "rstr \<Rightarrow> i64 option" where
  "parse_i64 s =
     (let negative = (s \<noteq> [] \<and> hd s = 45);
          digits = (if s \<noteq> [] \<and> (hd s = 45 \<or> hd s = 43) then tl s else s) in
      if digits = [] \<or> \<not> list_all is_ascii_digit digits then None
      else if negative then
        (if decimal_value 0 digits \<le> 2 ^ 63 then Some (- of_nat (decimal_value 0 digits)) else None)
      else (if decimal_value 0 digits < 2 ^ 63 then Some (of_nat (decimal_value 0 digits)) else None))"

definition identifier_matches :: "rstr \<Rightarrow> rstr \<Rightarrow> bool" where
  "identifier_matches l r = eq_ignore_ascii_case l r"

fun parse_literal :: "shard_token list \<Rightarrow> (shard_key \<times> shard_token list) option" where
  "parse_literal (SX_Number v # ts) = map_option (\<lambda>n. (SK_Integer n, ts)) (parse_i64 v)"
| "parse_literal (SX_String v # ts) = Some (SK_Text v, ts)"
| "parse_literal _ = None"

fun is_keyword :: "rstr \<Rightarrow> shard_token \<Rightarrow> bool" where
  "is_keyword k (SX_Ident v) = eq_ignore_ascii_case v k"
| "is_keyword k _ = False"

definition is_literal_terminator :: "shard_token list \<Rightarrow> bool" where
  "is_literal_terminator ts =
     (case ts of
        [] \<Rightarrow> True
      | t # _ \<Rightarrow>
          t = SX_Comma \<or> t = SX_RParen \<or> t = SX_Semicolon
          \<or> is_keyword (lit ''and'') t \<or> is_keyword (lit ''or'') t \<or> is_keyword (lit ''where'') t
          \<or> is_keyword (lit ''set'') t \<or> is_keyword (lit ''from'') t \<or> is_keyword (lit ''returning'') t)"

text \<open>The index of a keyword outside parentheses, counted from the front of the given tokens.\<close>

fun find_keyword_at :: "rstr \<Rightarrow> int \<Rightarrow> shard_token list \<Rightarrow> nat option" where
  "find_keyword_at k depth [] = None"
| "find_keyword_at k depth (t # ts) =
     (if t = SX_LParen then map_option Suc (find_keyword_at k (depth + 1) ts)
      else if t = SX_RParen then map_option Suc (find_keyword_at k (depth - 1) ts)
      else if depth = 0 \<and> is_keyword k t then Some 0
      else map_option Suc (find_keyword_at k depth ts))"

definition find_keyword :: "rstr \<Rightarrow> shard_token list \<Rightarrow> nat option" where
  "find_keyword k ts = find_keyword_at k 0 ts"

record parsed_table_reference =
  ptr_schema :: "rstr option"
  ptr_table :: rstr

definition parse_table_reference :: "shard_token list \<Rightarrow> (parsed_table_reference \<times> shard_token list) option" where
  "parse_table_reference ts =
     (case ts of
        SX_Ident first # rest \<Rightarrow>
          (case rest of
             SX_Dot # rest' \<Rightarrow>
               (case rest' of
                  SX_Ident second # rest'' \<Rightarrow> Some (\<lparr>ptr_schema = Some first, ptr_table = second\<rparr>, rest'')
                | _ \<Rightarrow> None)
           | _ \<Rightarrow> Some (\<lparr>ptr_schema = None, ptr_table = first\<rparr>, rest))
      | _ \<Rightarrow> None)"

text \<open>\<open>value.split('.')\<close>, and the names of at most two non-empty parts.\<close>

fun split_dots :: "rstr \<Rightarrow> rstr list" where
  "split_dots [] = [[]]"
| "split_dots (c # s) =
     (if c = 46 then [] # split_dots s
      else case split_dots s of p # ps \<Rightarrow> (c # p) # ps | [] \<Rightarrow> [[c]])"

definition split_table_name :: "rstr \<Rightarrow> (rstr option \<times> rstr) option" where
  "split_table_name value =
     (case split_dots value of
        [first] \<Rightarrow> (if first \<noteq> [] then Some (None, first) else None)
      | [first, table] \<Rightarrow> (if first \<noteq> [] \<and> table \<noteq> [] then Some (Some first, table) else None)
      | _ \<Rightarrow> None)"

definition table_matches_definition :: "parsed_table_reference \<Rightarrow> sharded_table_definition \<Rightarrow> bool" where
  "table_matches_definition t d =
     (case split_table_name (std_name d) of
        None \<Rightarrow> False
      | Some (schema, name) \<Rightarrow>
          (case (ptr_schema t, schema) of
             (Some actual, Some expected) \<Rightarrow> identifier_matches actual expected
           | (None, None) \<Rightarrow> True
           | _ \<Rightarrow> False)
          \<and> identifier_matches (ptr_table t) name)"

record resolved_table =
  rt_schema :: "rstr option"
  rt_table :: rstr
  rt_shard_key_column :: "rstr option"

definition resolve_table :: "parsed_table_reference \<Rightarrow> route_map_validation_input \<Rightarrow> resolved_table option" where
  "resolve_table t route_map =
     (case filter (table_matches_definition t) (rmi_sharded_tables route_map) of
        [d] \<Rightarrow>
          map_option (\<lambda>(schema, name). \<lparr>rt_schema = schema, rt_table = name,
                                       rt_shard_key_column = std_shard_key_column d\<rparr>)
            (split_table_name (std_name d))
      | _ \<Rightarrow> None)"

section \<open>Keys\<close>

datatype shard_extraction = SE_Unknown | SE_Key "rstr option" rstr rstr shard_key

fun unique_values :: "shard_key list \<Rightarrow> shard_key list \<Rightarrow> shard_key list" where
  "unique_values seen [] = seen"
| "unique_values seen (v # vs) =
     unique_values (if list_ex (\<lambda>s. s = v) seen then seen else seen @ [v]) vs"

definition build_extraction :: "resolved_table \<Rightarrow> shard_key list \<Rightarrow> shard_extraction option" where
  "build_extraction table values =
     (case unique_values [] values of
        [key] \<Rightarrow> map_option (\<lambda>column. SE_Key (rt_schema table) (rt_table table) column key) (rt_shard_key_column table)
      | _ \<Rightarrow> None)"

definition column_rest :: "rstr \<Rightarrow> shard_token list \<Rightarrow> shard_token list option" where
  "column_rest column ts =
     (case ts of
        SX_Ident first # SX_Dot # ts' \<Rightarrow>
          (case ts' of
             SX_Ident second # rest \<Rightarrow> if identifier_matches second column then Some rest else None
           | _ \<Rightarrow> None)
      | SX_Ident first # ts' \<Rightarrow> if identifier_matches first column then Some ts' else None
      | _ \<Rightarrow> None)"

definition parse_column_equality ::
  "rstr \<Rightarrow> shard_token list \<Rightarrow> (shard_key \<times> shard_token list) option" where
  "parse_column_equality column ts =
     (case column_rest column ts of
        Some (SX_Equals # ts') \<Rightarrow>
          (case parse_literal ts' of
             Some (value, rest) \<Rightarrow> if is_literal_terminator rest then Some (value, rest) else None
           | None \<Rightarrow> None)
      | _ \<Rightarrow> None)"

lemma parse_literal_length: "parse_literal ts = Some (v, r) \<Longrightarrow> length r < length ts"
  by (cases ts rule: parse_literal.cases) auto

lemma column_rest_length: "column_rest c ts = Some r \<Longrightarrow> length r < length ts"
  by (auto simp: column_rest_def split: list.splits shard_token.splits if_splits)

lemma parse_column_equality_length:
  "parse_column_equality c ts = Some (v, r) \<Longrightarrow> length r < length ts"
  by (auto simp: parse_column_equality_def split: option.splits list.splits shard_token.splits if_splits
      dest!: column_rest_length parse_literal_length)

function collect_values :: "rstr \<Rightarrow> shard_token list \<Rightarrow> shard_key list option" where
  "collect_values column [] = Some []"
| "collect_values column (t # ts) =
     (if is_keyword (lit ''or'') t then None
      else case parse_column_equality column (t # ts) of
        Some (value, rest) \<Rightarrow> opt_cons value (collect_values column rest)
      | None \<Rightarrow> collect_values column ts)"
  by pat_completeness auto
termination
  by (relation "measure (\<lambda>(c, ts). length ts)") (auto dest: parse_column_equality_length)

declare collect_values.simps(2) [simp del]

definition collect_key_values :: "shard_token list \<Rightarrow> rstr option \<Rightarrow> shard_key list option" where
  "collect_key_values ts column =
     (case column of None \<Rightarrow> None | Some c \<Rightarrow> collect_values c ts)"

definition extract_where_key :: "shard_token list \<Rightarrow> resolved_table \<Rightarrow> shard_extraction option" where
  "extract_where_key clause table =
     Option.bind (collect_key_values clause (rt_shard_key_column table)) (build_extraction table)"

definition extract_combined_key ::
  "shard_token list \<Rightarrow> shard_token list \<Rightarrow> resolved_table \<Rightarrow> shard_extraction option" where
  "extract_combined_key set_clause where_clause table =
     Option.bind (collect_key_values set_clause (rt_shard_key_column table)) (\<lambda>vs.
     Option.bind (collect_key_values where_clause (rt_shard_key_column table)) (\<lambda>ws.
       build_extraction table (vs @ ws)))"

fun ident_of :: "shard_token \<Rightarrow> rstr option" where
  "ident_of (SX_Ident v) = Some v"
| "ident_of _ = None"

fun parse_identifier_list :: "shard_token list \<Rightarrow> (rstr list \<times> shard_token list) option" where
  "parse_identifier_list (t # d # ts) =
     Option.bind (ident_of t) (\<lambda>v.
       if d = SX_Comma then map_option (\<lambda>(vs, r). (v # vs, r)) (parse_identifier_list ts)
       else if d = SX_RParen then Some ([v], ts)
       else None)"
| "parse_identifier_list _ = None"

function parse_row :: "shard_token list \<Rightarrow> (shard_key list \<times> shard_token list) option" where
  "parse_row ts =
     (case parse_literal ts of
        None \<Rightarrow> None
      | Some (v, rest) \<Rightarrow>
          (case rest of
             SX_Comma # r \<Rightarrow> map_option (\<lambda>(vs, q). (v # vs, q)) (parse_row r)
           | SX_RParen # r \<Rightarrow> Some ([v], r)
           | _ \<Rightarrow> None))"
  by pat_completeness auto
termination
  by (relation "measure length") (auto dest: parse_literal_length)

declare parse_row.simps [simp del]

lemma parse_row_length: "parse_row ts = Some (vs, r) \<Longrightarrow> length r < length ts"
proof (induction ts arbitrary: vs r rule: parse_row.induct)
  case (1 ts)
  from "1.prems" obtain v rest where l: "parse_literal ts = Some (v, rest)"
    by (subst (asm) parse_row.simps) (auto split: option.splits)
  with "1.prems" "1.IH" [OF l refl] parse_literal_length [OF l] show ?case
    by (subst (asm) parse_row.simps) (fastforce split: list.splits shard_token.splits)
qed

function insert_rows :: "nat \<Rightarrow> shard_token list \<Rightarrow> shard_key list option" where
  "insert_rows column_index ts =
     (case ts of
        SX_LParen # ts1 \<Rightarrow>
          (case parse_row ts1 of
             None \<Rightarrow> None
           | Some (row, ts2) \<Rightarrow>
               if column_index < length row then
                 opt_cons (row ! column_index)
                   (case ts2 of
                      [] \<Rightarrow> Some []
                    | t # ts3 \<Rightarrow>
                        if t = SX_Comma then insert_rows column_index ts3
                        else if t = SX_Semicolon \<or> is_keyword (lit ''returning'') t then Some []
                        else insert_rows column_index ts2)
               else None)
      | _ \<Rightarrow> Some [])"
  by pat_completeness auto
termination
  by (relation "measure (\<lambda>(c, ts). length ts)") (auto dest: parse_row_length)

declare insert_rows.simps [simp del]

definition extract_insert_values ::
  "shard_token list \<Rightarrow> resolved_table \<Rightarrow> rstr list \<Rightarrow> shard_extraction option" where
  "extract_insert_values clause table columns =
     Option.bind (rt_shard_key_column table) (\<lambda>column.
     Option.bind (position (\<lambda>c. identifier_matches c column) columns) (\<lambda>column_index.
     Option.bind (insert_rows column_index clause) (build_extraction table)))"

section \<open>Statements\<close>

definition skip_keyword :: "rstr \<Rightarrow> shard_token list \<Rightarrow> shard_token list" where
  "skip_keyword k ts = (case ts of SX_Ident v # rest \<Rightarrow> if v = k then rest else ts | _ \<Rightarrow> ts)"

definition parse_select :: "shard_token list \<Rightarrow> route_map_validation_input \<Rightarrow> shard_extraction option" where
  "parse_select ts route_map =
     Option.bind (find_keyword (lit ''from'') ts) (\<lambda>from_index.
     (let after_from = drop (from_index + 1) ts in
      Option.bind (parse_table_reference after_from) (\<lambda>(table, _).
      Option.bind (resolve_table table route_map) (\<lambda>resolved.
      Option.bind (find_keyword (lit ''where'') after_from) (\<lambda>where_index.
        extract_where_key (drop (where_index + 1) after_from) resolved)))))"

definition parse_insert :: "shard_token list \<Rightarrow> route_map_validation_input \<Rightarrow> shard_extraction option" where
  "parse_insert ts route_map =
     Option.bind (parse_table_reference (skip_keyword (lit ''into'') (drop 1 ts))) (\<lambda>(table, rest).
     Option.bind (resolve_table table route_map) (\<lambda>resolved.
     Option.bind
       (case rest of
          SX_LParen # r \<Rightarrow> map_option (\<lambda>(cs, q). (Some cs, q)) (parse_identifier_list r)
        | _ \<Rightarrow> Some (None, rest)) (\<lambda>(columns, rest').
     (case rest' of
        SX_Ident v # clause \<Rightarrow>
          if v = lit ''values''
          then Option.bind columns (\<lambda>cs. extract_insert_values clause resolved cs)
          else None
      | _ \<Rightarrow> None))))"

definition parse_update :: "shard_token list \<Rightarrow> route_map_validation_input \<Rightarrow> shard_extraction option" where
  "parse_update ts route_map =
     Option.bind (parse_table_reference (skip_keyword (lit ''only'') (drop 1 ts))) (\<lambda>(table, rest).
     Option.bind (resolve_table table route_map) (\<lambda>resolved.
     Option.bind (find_keyword (lit ''set'') rest) (\<lambda>set_index.
     (let after_set = drop (set_index + 1) rest in
      Option.bind (find_keyword (lit ''where'') after_set) (\<lambda>where_index.
        extract_combined_key (take where_index after_set) (drop (where_index + 1) after_set) resolved)))))"

definition parse_delete :: "shard_token list \<Rightarrow> route_map_validation_input \<Rightarrow> shard_extraction option" where
  "parse_delete ts route_map =
     Option.bind (parse_table_reference (skip_keyword (lit ''from'') (drop 1 ts))) (\<lambda>(table, rest).
     Option.bind (resolve_table table route_map) (\<lambda>resolved.
     Option.bind (find_keyword (lit ''where'') rest) (\<lambda>where_index.
       extract_where_key (drop (where_index + 1) rest) resolved)))"

definition parse_statement :: "shard_token list \<Rightarrow> route_map_validation_input \<Rightarrow> shard_extraction option" where
  "parse_statement ts route_map =
     (case ts of
        SX_Ident keyword # _ \<Rightarrow>
          if keyword = lit ''select'' then parse_select ts route_map
          else if keyword = lit ''insert'' then parse_insert ts route_map
          else if keyword = lit ''update'' then parse_update ts route_map
          else if keyword = lit ''delete'' then parse_delete ts route_map
          else None
      | _ \<Rightarrow> None)"

definition extract_shard_key :: "rstr \<Rightarrow> route_map_validation_input \<Rightarrow> shard_extraction" where
  "extract_shard_key sql route_map =
     (case shard_tokenize sql of
        None \<Rightarrow> SE_Unknown
      | Some ts \<Rightarrow> (case parse_statement ts route_map of None \<Rightarrow> SE_Unknown | Some e \<Rightarrow> e))"

section \<open>Hints\<close>

datatype shard_hint = SH_None | SH_Shard rstr | SH_Tenant rstr | SH_Route rstr | SH_Unknown

definition is_hint_value :: "rstr \<Rightarrow> bool" where
  "is_hint_value v \<longleftrightarrow> v \<noteq> [] \<and> list_all (\<lambda>c. is_ascii_alphanumeric c \<or> c = 95 \<or> c = 45 \<or> c = 46) v"

definition parse_hint_comment :: "rstr \<Rightarrow> shard_hint option" where
  "parse_hint_comment comment =
     Option.bind (strip_prefix (trim comment) (lit ''pg-kinetic:'')) (\<lambda>body.
     Option.bind (split_once_char (trim body) 61) (\<lambda>(kind, value).
       (let kind = trim kind; value = trim value in
        if \<not> is_hint_value value then Some SH_Unknown
        else if kind = lit ''shard'' then Some (SH_Shard value)
        else if kind = lit ''tenant'' then Some (SH_Tenant value)
        else if kind = lit ''route'' then Some (SH_Route value)
        else Some SH_Unknown)))"

function shard_hint_loop :: "rstr \<Rightarrow> bool \<Rightarrow> shard_hint" where
  "shard_hint_loop rest saw_comment =
     (case strip_prefix rest (lit ''/*'') of
        Some after_comment \<Rightarrow>
          (case find_str after_comment (lit ''*/'') of
             None \<Rightarrow> SH_Unknown
           | Some e \<Rightarrow>
               (case parse_hint_comment (trim (take e after_comment)) of
                  Some hint \<Rightarrow> hint
                | None \<Rightarrow> shard_hint_loop (trim_start (drop (e + 2) after_comment)) True))
      | None \<Rightarrow>
          (case strip_prefix rest (lit ''--'') of
             Some after_comment \<Rightarrow>
               (case position (\<lambda>c. c = 10) after_comment of
                  Some e \<Rightarrow>
                    (case parse_hint_comment (trim (take e after_comment)) of
                       Some hint \<Rightarrow> hint
                     | None \<Rightarrow> shard_hint_loop (trim_start (drop (e + 1) after_comment)) True)
                | None \<Rightarrow>
                    (case parse_hint_comment (trim after_comment) of
                       Some hint \<Rightarrow> hint
                     | None \<Rightarrow> SH_Unknown))
           | None \<Rightarrow>
               let trimmed = trim_start rest in
               if trimmed = rest then (if saw_comment then SH_Unknown else SH_None)
               else shard_hint_loop trimmed saw_comment))"
  by pat_completeness auto
termination
  by (relation "measure (\<lambda>(s, b). length s)")
     (auto simp: lit_def intro: trim_drop_shorter dest: trim_start_shorter simp del: drop_drop)

declare shard_hint_loop.simps [simp del]

definition extract_shard_hint :: "rstr \<Rightarrow> shard_hint" where
  "extract_shard_hint sql = shard_hint_loop (trim_start sql) False"

section \<open>Reading back a text key\<close>

definition plain_ident :: "rstr \<Rightarrow> bool" where
  "plain_ident w \<longleftrightarrow> w \<noteq> [] \<and> is_ident_start (hd w) \<and> list_all is_ident_part (tl w)"

text \<open>A text as a quoted literal, its quotes doubled.\<close>

definition escape_quotes :: "rchar \<Rightarrow> rstr \<Rightarrow> rstr" where
  "escape_quotes q v = concat (map (\<lambda>c. if c = q then [q, q] else [c]) v)"

lemma quoted_rest_escape:
  "\<not> next_is (\<lambda>d. d = q) rest \<Longrightarrow> quoted_rest q (escape_quotes q v @ q # rest) = Some (v, rest)"
proof (induction v)
  case Nil
  then show ?case by (cases rest) (simp_all add: escape_quotes_def)
next
  case (Cons c v)
  then have IH: "quoted_rest q (escape_quotes q v @ q # rest) = Some (v, rest)" by simp
  show ?case
  proof (cases "c = q")
    case True
    with IH show ?thesis by (simp add: escape_quotes_def)
  next
    case False
    obtain d s where "escape_quotes q v @ q # rest = d # s" by (cases "escape_quotes q v @ q # rest") auto
    with IH False show ?thesis by (simp add: escape_quotes_def)
  qed
qed

lemma ident_start_special:
  "is_ident_start c \<Longrightarrow> \<not> is_whitespace c \<and> \<not> is_ascii_digit c
     \<and> c \<notin> {45, 47, 39, 34, 40, 41, 44, 46, 61, 59, 42, 58, 63, 36}"
  by (auto simp: is_ident_start_def char_class_defs)

lemma tokenize_ident:
  assumes "plain_ident w" "\<not> next_is is_ident_part rest"
  shows "shard_tokenize (w @ rest) = opt_cons (SX_Ident w) (shard_tokenize rest)"
proof -
  obtain c cs where w: "w = c # cs" "is_ident_start c" "list_all is_ident_part cs"
    using assms(1) by (cases w) (auto simp: plain_ident_def)
  have "takeWhile is_ident_part (cs @ rest) = cs" "dropWhile is_ident_part (cs @ rest) = rest"
    using w(3) assms(2)
    by (induction cs) (cases rest; simp)+
  with ident_start_special [OF w(2)] w show ?thesis by (simp add: shard_tokenize.simps(2))
qed

lemma tokenize_space [simp]: "shard_tokenize (32 # s) = shard_tokenize s"
  by (simp add: shard_tokenize.simps(2) is_whitespace_def)

lemma tokenize_equals [simp]: "shard_tokenize (61 # s) = opt_cons SX_Equals (shard_tokenize s)"
  by (simp add: shard_tokenize.simps(2) is_whitespace_def)

lemma tokenize_star [simp]: "shard_tokenize (42 # s) = opt_cons SX_Star (shard_tokenize s)"
  by (simp add: shard_tokenize.simps(2) is_whitespace_def)

lemma tokenize_text:
  "\<not> next_is (\<lambda>d. d = 39) rest \<Longrightarrow>
     shard_tokenize (39 # escape_quotes 39 v @ 39 # rest) = opt_cons (SX_String v) (shard_tokenize rest)"
  by (simp add: shard_tokenize.simps(2) is_whitespace_def quoted_rest_escape)

text \<open>The query that selects the rows of one text key.\<close>

definition select_by_text :: "rstr \<Rightarrow> rstr \<Rightarrow> rstr \<Rightarrow> rstr" where
  "select_by_text table column v =
     lit ''select'' @ 32 # 42 # 32 # lit ''from'' @ 32 # table @ 32 # lit ''where'' @ 32 # column
     @ 32 # 61 # 32 # 39 # escape_quotes 39 v @ [39]"

lemma plain_keywords: "plain_ident (lit ''select'')" "plain_ident (lit ''from'')" "plain_ident (lit ''where'')"
  by (simp_all add: plain_ident_def lit_def is_ident_start_def is_ident_part_def char_class_defs)

lemma not_ident_space [simp]: "\<not> is_ident_part 32"
  by (simp add: is_ident_part_def char_class_defs)

lemma tokenize_select_by_text:
  assumes "plain_ident table" "plain_ident column"
  shows "shard_tokenize (select_by_text table column v) =
    Some [SX_Ident (lit ''select''), SX_Star, SX_Ident (lit ''from''), SX_Ident table,
      SX_Ident (lit ''where''), SX_Ident column, SX_Equals, SX_String v]"
  using tokenize_text [of "[]" v]
  by (simp add: select_by_text_def tokenize_ident plain_keywords assms)

lemma keyword_distinct:
  "\<not> eq_ignore_ascii_case (lit ''select'') (lit ''from'')"
  "eq_ignore_ascii_case (lit ''from'') (lit ''from'')"
  "eq_ignore_ascii_case (lit ''where'') (lit ''where'')"
  by (simp_all add: lit_def eq_ignore_ascii_case_def to_ascii_lowercase_def char_lower_def is_ascii_upper_def)

text \<open>
  The shard key of \<open>select * from T where C = '...'\<close> is exactly the text that was quoted,
  whatever characters it contains: no text can pose as another key or add a condition.
\<close>

lemma text_key_read_back:
  assumes "plain_ident table" and "plain_ident column"
    and "\<not> eq_ignore_ascii_case table (lit ''where'')" and "\<not> eq_ignore_ascii_case column (lit ''or'')"
    and "filter (table_matches_definition \<lparr>ptr_schema = None, ptr_table = table\<rparr>) (rmi_sharded_tables rm) = [d]"
    and "split_table_name (std_name d) = Some (schema, name)"
    and "std_shard_key_column d = Some column"
  shows "extract_shard_key (select_by_text table column v) rm = SE_Key schema name column (SK_Text v)"
proof -
  have "collect_values column [SX_Ident column, SX_Equals, SX_String v] = Some [SK_Text v]"
    using assms(4)
    by (simp add: collect_values.simps(2) parse_column_equality_def column_rest_def identifier_matches_def
        is_literal_terminator_def)
  with assms show ?thesis
    by (simp add: extract_shard_key_def tokenize_select_by_text parse_statement_def parse_select_def parse_table_reference_def
        find_keyword_def keyword_distinct resolve_table_def extract_where_key_def collect_key_values_def
        build_extraction_def Let_def)
qed

text \<open>A map with one sharded table.\<close>

definition example_route_map :: route_map_validation_input where
  "example_route_map =
     \<lparr>rmi_routes = [],
      rmi_sharded_tables =
        [\<lparr>std_name = lit ''accounts'', std_enabled = True, std_shard_key_column = Some (lit ''tenant_id'')\<rparr>],
      rmi_shard_rules = []\<rparr>"

lemmas char_eval =
  lit_def is_ident_start_def is_ident_part_def char_class_defs eq_ignore_ascii_case_def
  to_ascii_lowercase_def char_lower_def is_ascii_upper_def

lemma example_table_matches:
  "filter (table_matches_definition \<lparr>ptr_schema = None, ptr_table = lit ''accounts''\<rparr>)
     (rmi_sharded_tables example_route_map) =
   [\<lparr>std_name = lit ''accounts'', std_enabled = True, std_shard_key_column = Some (lit ''tenant_id'')\<rparr>]"
  "split_table_name (lit ''accounts'') = Some (None, lit ''accounts'')"
  by (simp_all add: example_route_map_def table_matches_definition_def split_table_name_def
      identifier_matches_def char_eval)

lemma example_plain: "plain_ident (lit ''accounts'')" "plain_ident (lit ''tenant_id'')"
  "plain_ident (lit ''not'')" "plain_ident (lit ''update'')" "plain_ident (lit ''set'')" "plain_ident (lit ''id'')"
  "plain_ident (lit ''SELECT'')" "plain_ident (lit ''FROM'')" "plain_ident (lit ''WHERE'')"
  by (simp_all add: plain_ident_def char_eval)

lemma text_key_read_back_witness:
  "extract_shard_key (select_by_text (lit ''accounts'') (lit ''tenant_id'') [120, 39, 32, 111, 114, 32, 39, 49])
     example_route_map = SE_Key None (lit ''accounts'') (lit ''tenant_id'') (SK_Text [120, 39, 32, 111, 114, 32, 39, 49])"
proof (rule text_key_read_back [OF example_plain(1,2) _ _ example_table_matches(1)])
  show "\<not> eq_ignore_ascii_case (lit ''accounts'') (lit ''where'')"
    "\<not> eq_ignore_ascii_case (lit ''tenant_id'') (lit ''or'')"
    by (simp_all add: char_eval)
qed (simp_all add: example_table_matches(2))

section \<open>Where extraction is not cautious\<close>

lemma tokenize_digits:
  assumes "is_ascii_digit c" "list_all is_ascii_digit cs" "\<not> next_is is_ascii_digit rest"
  shows "shard_tokenize (c # cs @ rest) = opt_cons (SX_Number (c # cs)) (shard_tokenize rest)"
proof -
  have "takeWhile is_ascii_digit (cs @ rest) = cs" "dropWhile is_ascii_digit (cs @ rest) = rest"
    using assms(2,3) by (induction cs) (cases rest; simp)+
  moreover have "\<not> is_whitespace c" "c \<notin> {45, 47, 39, 34, 40, 41, 44, 46, 61, 59, 42, 58, 63, 36}"
    using assms(1) by (auto simp: is_ascii_digit_def is_whitespace_def)
  ultimately show ?thesis using assms(1) by (simp add: shard_tokenize.simps(2))
qed

lemma keyword_eval:
  "\<not> eq_ignore_ascii_case (lit ''accounts'') (lit ''where'')" "\<not> eq_ignore_ascii_case (lit ''accounts'') (lit ''set'')"
  "\<not> eq_ignore_ascii_case (lit ''not'') (lit ''or'')" "\<not> eq_ignore_ascii_case (lit ''not'') (lit ''tenant_id'')"
  "\<not> eq_ignore_ascii_case (lit ''tenant_id'') (lit ''or'')" "\<not> eq_ignore_ascii_case (lit ''id'') (lit ''or'')"
  "\<not> eq_ignore_ascii_case (lit ''id'') (lit ''tenant_id'')" "\<not> eq_ignore_ascii_case (lit ''tenant_id'') (lit ''where'')"
  "\<not> eq_ignore_ascii_case (lit ''set'') (lit ''where'')" "eq_ignore_ascii_case (lit ''set'') (lit ''set'')"
  by (simp_all add: char_eval)

lemma lit_distinct: "lit ''update'' \<noteq> lit ''select''" "lit ''update'' \<noteq> lit ''insert''"
  "lit ''accounts'' \<noteq> lit ''only''" "lit ''SELECT'' \<noteq> lit ''select''" "lit ''SELECT'' \<noteq> lit ''insert''"
  "lit ''SELECT'' \<noteq> lit ''update''" "lit ''SELECT'' \<noteq> lit ''delete''"
  by (simp_all add: lit_def)

lemma parse_i64_eval: "parse_i64 [52, 50] = Some 42" "parse_i64 [55] = Some 7" "parse_i64 [49] = Some 1"
  by (simp_all add: parse_i64_def is_ascii_digit_def Let_def)

lemmas extract_eval =
  extract_shard_key_def parse_statement_def parse_select_def parse_update_def parse_table_reference_def
  find_keyword_def keyword_distinct keyword_eval lit_distinct resolve_table_def extract_where_key_def
  extract_combined_key_def collect_key_values_def collect_values.simps(2) parse_column_equality_def
  column_rest_def identifier_matches_def is_literal_terminator_def build_extraction_def Let_def
  parse_i64_eval example_table_matches skip_keyword_def

lemma tokenize_examples:
  "shard_tokenize (lit ''select * from accounts where not tenant_id = 42'') =
     Some [SX_Ident (lit ''select''), SX_Star, SX_Ident (lit ''from''), SX_Ident (lit ''accounts''),
       SX_Ident (lit ''where''), SX_Ident (lit ''not''), SX_Ident (lit ''tenant_id''), SX_Equals, SX_Number [52, 50]]"
  "shard_tokenize (lit ''update accounts set tenant_id = 7 where id = 1'') =
     Some [SX_Ident (lit ''update''), SX_Ident (lit ''accounts''), SX_Ident (lit ''set''), SX_Ident (lit ''tenant_id''),
       SX_Equals, SX_Number [55], SX_Ident (lit ''where''), SX_Ident (lit ''id''), SX_Equals, SX_Number [49]]"
  "shard_tokenize (lit ''SELECT * FROM accounts WHERE tenant_id = 42'') =
     Some [SX_Ident (lit ''SELECT''), SX_Star, SX_Ident (lit ''FROM''), SX_Ident (lit ''accounts''),
       SX_Ident (lit ''WHERE''), SX_Ident (lit ''tenant_id''), SX_Equals, SX_Number [52, 50]]"
proof -
  note d = tokenize_digits [of 52 "[50]" "[]"] tokenize_digits [of 49 "[]" "[]"] tokenize_digits [of 55 "[]" "32 # x" for x]
  have w: "lit ''select * from accounts where not tenant_id = 42'' =
      lit ''select'' @ 32 # 42 # 32 # lit ''from'' @ 32 # lit ''accounts'' @ 32 # lit ''where'' @ 32 # lit ''not''
      @ 32 # lit ''tenant_id'' @ 32 # 61 # 32 # [52, 50]"
    "lit ''update accounts set tenant_id = 7 where id = 1'' =
      lit ''update'' @ 32 # lit ''accounts'' @ 32 # lit ''set'' @ 32 # lit ''tenant_id'' @ 32 # 61 # 32 # 55
      # 32 # lit ''where'' @ 32 # lit ''id'' @ 32 # 61 # 32 # [49]"
    "lit ''SELECT * FROM accounts WHERE tenant_id = 42'' =
      lit ''SELECT'' @ 32 # 42 # 32 # lit ''FROM'' @ 32 # lit ''accounts'' @ 32 # lit ''WHERE''
      @ 32 # lit ''tenant_id'' @ 32 # 61 # 32 # [52, 50]"
    by (simp_all add: lit_def)
  show "shard_tokenize (lit ''select * from accounts where not tenant_id = 42'') =
     Some [SX_Ident (lit ''select''), SX_Star, SX_Ident (lit ''from''), SX_Ident (lit ''accounts''),
       SX_Ident (lit ''where''), SX_Ident (lit ''not''), SX_Ident (lit ''tenant_id''), SX_Equals, SX_Number [52, 50]]"
    unfolding w using d(1) by (simp add: tokenize_ident plain_keywords example_plain is_ascii_digit_def)
  show "shard_tokenize (lit ''update accounts set tenant_id = 7 where id = 1'') =
     Some [SX_Ident (lit ''update''), SX_Ident (lit ''accounts''), SX_Ident (lit ''set''), SX_Ident (lit ''tenant_id''),
       SX_Equals, SX_Number [55], SX_Ident (lit ''where''), SX_Ident (lit ''id''), SX_Equals, SX_Number [49]]"
    unfolding w using d(2,3) by (simp add: tokenize_ident plain_keywords example_plain is_ascii_digit_def)
  show "shard_tokenize (lit ''SELECT * FROM accounts WHERE tenant_id = 42'') =
     Some [SX_Ident (lit ''SELECT''), SX_Star, SX_Ident (lit ''FROM''), SX_Ident (lit ''accounts''),
       SX_Ident (lit ''WHERE''), SX_Ident (lit ''tenant_id''), SX_Equals, SX_Number [52, 50]]"
    unfolding w using d(1) by (simp add: tokenize_ident plain_keywords example_plain is_ascii_digit_def)
qed

text \<open>
  A negated condition is read as the condition itself: \<open>where not tenant_id = 42\<close> yields the
  key 42, although the rows of that key are the ones the query excludes. The documentation says
  that ambiguous expressions are rejected.
\<close>

lemma negated_condition_extracts_key:
  "extract_shard_key (lit ''select * from accounts where not tenant_id = 42'') example_route_map
     = SE_Key None (lit ''accounts'') (lit ''tenant_id'') (SK_Integer 42)"
  by (simp add: tokenize_examples(1) extract_eval)

text \<open>An update that assigns the key column is sent by the new value, wherever its rows are.\<close>

lemma updated_key_extracted:
  "extract_shard_key (lit ''update accounts set tenant_id = 7 where id = 1'') example_route_map
     = SE_Key None (lit ''accounts'') (lit ''tenant_id'') (SK_Integer 7)"
  by (simp add: tokenize_examples(2) extract_eval)

text \<open>The statement keyword is compared exactly, unlike the keywords after it.\<close>

lemma upper_case_unknown:
  "extract_shard_key (lit ''SELECT * FROM accounts WHERE tenant_id = 42'') example_route_map = SE_Unknown"
  by (simp add: tokenize_examples(3) extract_eval)

end
