(* ===== verification/Interleaving.thy ===== *)
theory Interleaving
  imports Main "HOL-Library.Multiset"
begin

text \<open>
  What the interleaving models share. Tasks are anonymous, so a system holds the multiset of the
  points its tasks stand at; a step is one atomic access of one task. An invariant of the steps is
  an invariant of every run.
\<close>

locale step_invariant =
  fixes step :: "'s \<Rightarrow> 's \<Rightarrow> bool"
    and inv :: "'s \<Rightarrow> bool"
  assumes preserved: "step s s' \<Longrightarrow> inv s \<Longrightarrow> inv s'"
begin

lemma run_invariant: "step\<^sup>*\<^sup>* s s' \<Longrightarrow> inv s \<Longrightarrow> inv s'"
  by (induction rule: rtranclp_induct) (auto intro: preserved)

lemma never_reached: "inv s \<Longrightarrow> \<not> inv s' \<Longrightarrow> \<not> step\<^sup>*\<^sup>* s s'"
  using run_invariant by blast

end

lemma run_step: "step\<^sup>*\<^sup>* a b \<Longrightarrow> step b c \<Longrightarrow> step\<^sup>*\<^sup>* a c"
  by (rule rtranclp.rtrancl_into_rtrancl)

text \<open>The tasks that satisfy a predicate, counted.\<close>

abbreviation tasks_where :: "('p \<Rightarrow> bool) \<Rightarrow> 'p multiset \<Rightarrow> nat" where
  "tasks_where P ts \<equiv> size (filter_mset P ts)"

lemma tasks_where_mono: "(\<And>p. P p \<Longrightarrow> Q p) \<Longrightarrow> tasks_where P ts \<le> tasks_where Q ts"
  by (induction ts) auto

lemma count_le_tasks_where: "P p \<Longrightarrow> count ts p \<le> tasks_where P ts"
  by (induction ts) auto

end
