(* ===== verification/Shard_Routing.thy ===== *)
theory Shard_Routing
  imports Read_Routing Shard_Extract Interleaving "HOL-Library.AList"
begin

text \<open>
  Sharded routing of the proxy, \<open>routing/sharding.rs\<close>, with the sharding section of \<open>config.rs\<close>:
  planning the shard of a query from hints and extracted keys, the routing target and the policy
  action on it, the store of the active route maps with the shards that open transactions are
  bound to, its reload, and the route preview. The association list of the store stands for the
  hash map from sessions to shards; its order is never observed.

  The operations of the store take its locks one after the other. They are modelled twice: as
  functions, for operations that do not overlap, and lock by lock in \<open>store_step\<close>, where any number
  of them interleave.

  Shown: when operations do not overlap the draining shards are the shards of open transactions that
  the active maps no longer list, and without a migration override no reload strands a transaction;
  when they overlap no reload strands a transaction that was bound outside the window between the
  check and the swap of a reload, and one that was bound inside it can be stranded;
  a planned route comes from the selected map and is the one that the query's hint or the strategy of
  the map gives for the query's key; and a read-routing hint makes a sharded query fail.
\<close>

section \<open>Contexts and scopes\<close>

record shard_routing_context =
  src_sql :: rstr
  src_transaction_state :: session_transaction_state
  src_read_after_write_state :: read_after_write_state
  src_health :: route_health_snapshot
  src_validation_input :: "route_map_validation_input option"

record 'addr shard_route_map_store =
  sms_route_maps :: "'addr shard_route_map list"
  sms_generation_id :: u64
  sms_affinities :: "(u64 \<times> shard_id) list"
  sms_draining :: "shard_id list"

record 'addr shard_routing_planner =
  srp_read_routing :: read_routing_planner
  srp_sharding_enabled :: bool
  srp_store :: "'addr shard_route_map_store"

definition read_context :: "shard_routing_context \<Rightarrow> routing_context" where
  "read_context c =
     routing_context_new (src_sql c) (src_transaction_state c) (src_read_after_write_state c) (src_health c)"

fun explicit_shard_id :: "shard_hint \<Rightarrow> rstr option" where
  "explicit_shard_id (SH_Shard v) = Some v"
| "explicit_shard_id (SH_Tenant v) = Some v"
| "explicit_shard_id (SH_Route v) = Some v"
| "explicit_shard_id SH_None = None"
| "explicit_shard_id SH_Unknown = None"

definition context_extraction :: "shard_routing_context \<Rightarrow> shard_extraction" where
  "context_extraction c =
     (case src_validation_input c of
        Some input \<Rightarrow> extract_shard_key (src_sql c) input
      | None \<Rightarrow> SE_Unknown)"

definition route_map_matches_context :: "'addr shard_route_map \<Rightarrow> shard_routing_context \<Rightarrow> bool" where
  "route_map_matches_context m c =
     (case srm_scope m of
        Scope_Global \<Rightarrow> True
      | Scope_Tenant scope \<Rightarrow>
          (case explicit_shard_id (extract_shard_hint (src_sql c)) of
             Some value \<Rightarrow> tenant_id scope = value
           | None \<Rightarrow> False)
      | Scope_Table scope \<Rightarrow>
          (case context_extraction c of
             SE_Key schema table _ _ \<Rightarrow> schema = Some (ts_schema scope) \<and> table = ts_table scope
           | SE_Unknown \<Rightarrow> False))"

definition route_map_matches_explicit_hint :: "'addr shard_route_map \<Rightarrow> shard_hint \<Rightarrow> bool" where
  "route_map_matches_explicit_hint m hint =
     (case explicit_shard_id hint of
        Some sid \<Rightarrow> list_ex (\<lambda>r. shard_id_str (route_shard_id r) = sid) (srm_routes m)
      | None \<Rightarrow> True)"

section \<open>Planning a shard\<close>

definition select_route_for_shard_id :: "'addr shard_route list \<Rightarrow> rstr \<Rightarrow> 'addr shard_route option" where
  "select_route_for_shard_id routes sid = find (\<lambda>r. shard_id_str (route_shard_id r) = sid) routes"

definition only_route :: "'addr shard_route list \<Rightarrow> 'addr shard_route option" where
  "only_route routes = (if length routes = 1 then Some (routes ! 0) else None)"

definition select_route_for_shard_key ::
  "'addr shard_route list \<Rightarrow> shard_strategy \<Rightarrow> shard_key \<Rightarrow> 'addr shard_route option" where
  "select_route_for_shard_key routes strategy key =
     (if routes = [] then None
      else case strategy of
        Strategy_Hash \<Rightarrow> Some (routes ! (unat (deterministic_shard_hash key) mod length routes))
      | Strategy_List \<Rightarrow>
          (case key of
             SK_Text text \<Rightarrow>
               (case find (\<lambda>r. shard_id_str (route_shard_id r) = text) routes of
                  Some r \<Rightarrow> Some r
                | None \<Rightarrow> only_route routes)
           | _ \<Rightarrow> only_route routes)
      | Strategy_Range \<Rightarrow> only_route routes)"

definition choose_shard_route ::
  "'addr shard_route_map \<Rightarrow> 'addr shard_route \<Rightarrow> shard_route_reason \<Rightarrow> 'addr shard_routing_planner
    \<Rightarrow> shard_routing_context \<Rightarrow> 'addr shard_route_decision" where
  "choose_shard_route m route reason p c =
     (let target_role = routing_target_role (choose_routing_target (srp_read_routing p) (read_context c));
          with_role = find (\<lambda>r. route_shard_id r = route_shard_id route
                             \<and> Some (st_backend_role (sro_target r)) = target_role) (srm_routes m);
          selected = (case with_role of
              Some r \<Rightarrow> Some r
            | None \<Rightarrow> find (\<lambda>r. route_shard_id r = route_shard_id route) (srm_routes m))
      in \<lparr>srd_route = selected, srd_reason = reason, srd_policy = srm_policy m\<rparr>)"

fun strategy_reason :: "shard_strategy \<Rightarrow> shard_route_reason" where
  "strategy_reason Strategy_Hash = SRR_HashMatch"
| "strategy_reason Strategy_Range = SRR_RangeMatch"
| "strategy_reason Strategy_List = SRR_ListMatch"

definition no_route :: "shard_route_reason \<Rightarrow> multi_shard_policy \<Rightarrow> 'addr shard_route_decision" where
  "no_route reason policy = \<lparr>srd_route = None, srd_reason = reason, srd_policy = policy\<rparr>"

definition select_route_map ::
  "'addr shard_route_map list \<Rightarrow> shard_hint \<Rightarrow> shard_routing_context \<Rightarrow> 'addr shard_route_map option" where
  "select_route_map maps hint c =
     (let matching = filter (\<lambda>m. route_map_matches_context m c) maps in
      case find (\<lambda>m. route_map_matches_explicit_hint m hint) matching of
        Some m \<Rightarrow> Some m
      | None \<Rightarrow> (case matching of [] \<Rightarrow> None | m # _ \<Rightarrow> Some m))"

definition plan_in_map ::
  "'addr shard_routing_planner \<Rightarrow> shard_routing_context \<Rightarrow> shard_hint \<Rightarrow> 'addr shard_route_map
    \<Rightarrow> 'addr shard_route_decision" where
  "plan_in_map p c hint m =
     (if hint = SH_Unknown \<and> contains_str (src_sql c) (lit ''pg-kinetic:'')
      then no_route SRR_ValidationFailed (srm_policy m)
      else case explicit_shard_id hint of
        Some sid \<Rightarrow>
          (case select_route_for_shard_id (srm_routes m) sid of
             Some route \<Rightarrow> choose_shard_route m route SRR_AdminOverride p c
           | None \<Rightarrow> no_route SRR_ValidationFailed (srm_policy m))
      | None \<Rightarrow>
          (case context_extraction c of
             SE_Key _ _ _ key \<Rightarrow>
               (case select_route_for_shard_key (srm_routes m) (srm_strategy m) key of
                  Some route \<Rightarrow> choose_shard_route m route (strategy_reason (srm_strategy m)) p c
                | None \<Rightarrow> no_route SRR_NoMatch (srm_policy m))
           | SE_Unknown \<Rightarrow> no_route SRR_NoMatch (srm_policy m)))"

definition plan_sharded_route ::
  "'addr shard_routing_planner \<Rightarrow> shard_routing_context \<Rightarrow> 'addr shard_route_decision" where
  "plan_sharded_route p c =
     (if \<not> srp_sharding_enabled p then no_route SRR_NoMatch MSP_Reject
      else
        (let hint = extract_shard_hint (src_sql c) in
         case select_route_map (sms_route_maps (srp_store p)) hint c of
           None \<Rightarrow> no_route SRR_NoMatch MSP_Reject
         | Some m \<Rightarrow> plan_in_map p c hint m))"

section \<open>The routing target\<close>

definition apply_multi_shard_policy :: "fallback_policy \<Rightarrow> routing_target" where
  "apply_multi_shard_policy policy =
     (case policy of
        FP_Primary \<Rightarrow> RT_Primary TR_FallbackPrimary
      | FP_Reject \<Rightarrow> RT_Reject TR_FallbackReject
      | FP_Wait \<Rightarrow> RT_Wait TR_FallbackWait)"

definition choose_sharded_routing_target ::
  "'addr shard_routing_planner \<Rightarrow> shard_routing_context \<Rightarrow> routing_target" where
  "choose_sharded_routing_target p c =
     (if \<not> srp_sharding_enabled p then choose_routing_target (srp_read_routing p) (read_context c)
      else
        (let decision = plan_sharded_route p c in
         if srd_route decision \<noteq> None then choose_routing_target (srp_read_routing p) (read_context c)
         else if srd_reason decision \<in> {SRR_ValidationFailed, SRR_MultiShardRejected}
         then RT_Reject TR_FallbackReject
         else apply_multi_shard_policy (rrp_fallback_policy (srp_read_routing p))))"

definition apply_policy_action_to_sharded_routing_target ::
  "'addr shard_routing_planner \<Rightarrow> shard_routing_context \<Rightarrow> routing_target \<Rightarrow> policy_action option
    \<Rightarrow> routing_target" where
  "apply_policy_action_to_sharded_routing_target p c current action =
     (let target =
        (case action of
           None \<Rightarrow> current
         | Some PA_Allow \<Rightarrow> current
         | Some (PA_Deny _ _) \<Rightarrow> RT_Reject TR_PolicyDenied
         | Some PA_RequirePrimary \<Rightarrow> RT_Primary TR_PolicyRequirePrimary
         | Some PA_RequireReplica \<Rightarrow>
             require_replica_target
               (choose_routing_target
                  ((srp_read_routing p)\<lparr>rrp_read_routing_mode := RRM_RequireReplica\<rparr>) (read_context c))
         | Some (PA_RouteOverride _) \<Rightarrow> map_routing_target_reason current TR_PolicyRouteOverride
         | Some (PA_ShardOverride _) \<Rightarrow> map_routing_target_reason current TR_PolicyShardOverride)
      in ensure_policy_action_target_is_safe (srp_read_routing p) (read_context c) target)"

section \<open>The store of route maps\<close>

datatype route_map_reload_error_code =
    RLE_EmptyRouteMapSet
  | RLE_ConflictingRouteScopes
  | RLE_ActiveTransactionsRequireMigrationOverride

fun route_map_reload_error_code_as_str :: "route_map_reload_error_code \<Rightarrow> rstr" where
  "route_map_reload_error_code_as_str RLE_EmptyRouteMapSet = lit ''empty_route_map_set''"
| "route_map_reload_error_code_as_str RLE_ConflictingRouteScopes = lit ''conflicting_route_scopes''"
| "route_map_reload_error_code_as_str RLE_ActiveTransactionsRequireMigrationOverride = lit ''active_transactions_require_migration_override''"

interpretation route_map_reload_error_code: labelled route_map_reload_error_code_as_str
proof unfold_locales
  fix x y show "route_map_reload_error_code_as_str x = route_map_reload_error_code_as_str y \<Longrightarrow> x = y"
    by (cases x; cases y) (simp_all add: lit_def)
qed

fun reload_error_message :: "route_map_reload_error_code \<Rightarrow> rstr" where
  "reload_error_message RLE_EmptyRouteMapSet = lit ''route map reload requires at least one route map''"
| "reload_error_message RLE_ConflictingRouteScopes = lit ''route map reload contains conflicting scopes''"
| "reload_error_message RLE_ActiveTransactionsRequireMigrationOverride =
     lit ''route map reload removes an active shard and requires an explicit migration override''"

record route_map_reload_result =
  rlr_success :: bool
  rlr_route_map_generation_id :: u64
  rlr_error_code :: "route_map_reload_error_code option"
  rlr_error :: "rstr option"
  rlr_draining_shard_ids :: "shard_id list"

definition route_map_store_new :: "'addr shard_route_map list \<Rightarrow> 'addr shard_route_map_store" where
  "route_map_store_new maps =
     \<lparr>sms_route_maps = maps, sms_generation_id = 0, sms_affinities = [], sms_draining = []\<rparr>"

definition route_map_shard_ids :: "'addr shard_route_map list \<Rightarrow> shard_id list" where
  "route_map_shard_ids maps = remdups (concat (map (\<lambda>m. map route_shard_id (srm_routes m)) maps))"

definition current_shard_ids :: "'addr shard_route_map_store \<Rightarrow> shard_id list" where
  "current_shard_ids s = route_map_shard_ids (sms_route_maps s)"

definition active_transaction_shard_ids :: "'addr shard_route_map_store \<Rightarrow> shard_id list" where
  "active_transaction_shard_ids s = remdups (map snd (sms_affinities s))"

definition refresh_draining_shards :: "'addr shard_route_map_store \<Rightarrow> 'addr shard_route_map_store" where
  "refresh_draining_shards s =
     s\<lparr>sms_draining := filter (\<lambda>i. i \<notin> set (current_shard_ids s)) (active_transaction_shard_ids s)\<rparr>"

definition draining_shard_ids :: "'addr shard_route_map_store \<Rightarrow> shard_id list" where
  "draining_shard_ids s = sort_key (as_bytes \<circ> shard_id_str) (sms_draining s)"

definition set_transaction_shard_affinity ::
  "u64 \<Rightarrow> shard_id \<Rightarrow> 'addr shard_route_map_store \<Rightarrow> 'addr shard_route_map_store" where
  "set_transaction_shard_affinity session sid s =
     refresh_draining_shards (s\<lparr>sms_affinities := AList.update session sid (sms_affinities s)\<rparr>)"

definition transaction_shard_affinity :: "u64 \<Rightarrow> 'addr shard_route_map_store \<Rightarrow> shard_id option" where
  "transaction_shard_affinity session s = map_of (sms_affinities s) session"

definition clear_transaction_shard_affinity ::
  "u64 \<Rightarrow> 'addr shard_route_map_store \<Rightarrow> shard_id option \<times> 'addr shard_route_map_store" where
  "clear_transaction_shard_affinity session s =
     (map_of (sms_affinities s) session,
      refresh_draining_shards (s\<lparr>sms_affinities := AList.delete session (sms_affinities s)\<rparr>))"

fun conflicting_scope :: "shard_scope list \<Rightarrow> 'addr shard_route_map list \<Rightarrow> bool" where
  "conflicting_scope seen [] = False"
| "conflicting_scope seen (m # ms) = (srm_scope m \<in> set seen \<or> conflicting_scope (srm_scope m # seen) ms)"

definition validate_reload_route_maps ::
  "'addr shard_route_map list \<Rightarrow> route_map_reload_error_code + unit" where
  "validate_reload_route_maps maps =
     (if maps = [] then Inl RLE_EmptyRouteMapSet
      else if conflicting_scope [] maps then Inl RLE_ConflictingRouteScopes
      else Inr ())"

definition reload_failure ::
  "route_map_reload_error_code \<Rightarrow> 'addr shard_route_map_store \<Rightarrow> route_map_reload_result" where
  "reload_failure code s =
     \<lparr>rlr_success = False, rlr_route_map_generation_id = sms_generation_id s,
      rlr_error_code = Some code, rlr_error = Some (reload_error_message code),
      rlr_draining_shard_ids = draining_shard_ids s\<rparr>"

definition removes_active_shard :: "'addr shard_route_map list \<Rightarrow> 'addr shard_route_map_store \<Rightarrow> bool" where
  "removes_active_shard maps s \<longleftrightarrow>
     list_ex (\<lambda>i. i \<in> set (active_transaction_shard_ids s))
       (filter (\<lambda>i. i \<notin> set (route_map_shard_ids maps)) (current_shard_ids s))"

definition route_map_store_reload ::
  "'addr shard_route_map list \<Rightarrow> shard_rebalance_plan option \<Rightarrow> 'addr shard_route_map_store
    \<Rightarrow> route_map_reload_result \<times> 'addr shard_route_map_store" where
  "route_map_store_reload maps plan s =
     (case validate_reload_route_maps maps of
        Inl code \<Rightarrow> (reload_failure code s, s)
      | Inr _ \<Rightarrow>
          (let override = (case plan of Some p \<Rightarrow> rp_migration_override_explicit p | None \<Rightarrow> False) in
           if \<not> override \<and> removes_active_shard maps s
           then (reload_failure RLE_ActiveTransactionsRequireMigrationOverride s, s)
           else
             (let s' = refresh_draining_shards
                         (s\<lparr>sms_route_maps := maps, sms_generation_id := sms_generation_id s + 1\<rparr>)
              in (\<lparr>rlr_success = True, rlr_route_map_generation_id = sms_generation_id s',
                   rlr_error_code = None, rlr_error = None,
                   rlr_draining_shard_ids = draining_shard_ids s'\<rparr>, s'))))"

section \<open>Route preview\<close>

datatype shard_scope_config =
    SSC_DatabaseUser rstr rstr
  | SSC_ApplicationName rstr
  | SSC_SchemaTable rstr rstr
  | SSC_TenantKey rstr

datatype shard_target_config = STC_Primary (target_shard_id: rstr) | STC_Replicas (target_shard_id: rstr)

record route_map_config =
  rmc_scope :: shard_scope_config
  rmc_strategy :: shard_strategy
  rmc_targets :: "shard_target_config list"
  rmc_priority :: "nat option"

record sharding_config =
  shc_sharding_enabled :: bool
  shc_multi_shard_policy :: multi_shard_policy
  shc_route_map_reload_strict :: bool
  shc_route_preview_enabled :: bool
  shc_route_maps :: "route_map_config list"

fun shard_validation_error_display :: "shard_validation_error \<Rightarrow> rstr" where
  "shard_validation_error_display EmptyShardId = lit ''shard id cannot be empty''"
| "shard_validation_error_display EmptyShardRouteMap = lit ''shard route map cannot be empty''"
| "shard_validation_error_display SVE_MultiShardRejected = lit ''shard route policy rejects multi-shard decisions''"
| "shard_validation_error_display EmptyShardList = lit ''shard list cannot be empty''"
| "shard_validation_error_display EmptyShardSet = lit ''shard set cannot be empty''"
| "shard_validation_error_display InvalidBucketCount = lit ''shard bucket count must be greater than zero''"
| "shard_validation_error_display (KeyTypeMismatch expected actual) =
     lit ''shard key type mismatch: expected '' @ shard_key_type_as_str expected
       @ lit '', found '' @ shard_key_type_as_str actual"
| "shard_validation_error_display InvalidRangeBounds = lit ''shard range bounds are invalid''"
| "shard_validation_error_display OverlappingShardRules = lit ''shard rules overlap''"
| "shard_validation_error_display (DuplicateShardId i) = lit ''duplicate shard id '' @ shard_id_str i"

fun route_map_config_targets_error :: "rstr list \<Rightarrow> shard_target_config list \<Rightarrow> rstr option" where
  "route_map_config_targets_error seen [] = None"
| "route_map_config_targets_error seen (t # ts) =
     (if target_shard_id t = [] then Some (shard_validation_error_display EmptyShardId)
      else if target_shard_id t \<in> set seen
      then Some (lit ''duplicate shard id '' @ [39] @ target_shard_id t @ [39])
      else route_map_config_targets_error (target_shard_id t # seen) ts)"

definition route_map_config_validate :: "route_map_config \<Rightarrow> rstr + unit" where
  "route_map_config_validate m =
     (if rmc_targets m = [] then Inl (lit ''route map must define at least one target'')
      else case route_map_config_targets_error [] (rmc_targets m) of
        Some e \<Rightarrow> Inl e
      | None \<Rightarrow> Inr ())"

definition route_maps_overlap :: "route_map_config \<Rightarrow> route_map_config \<Rightarrow> bool" where
  "route_maps_overlap l r \<longleftrightarrow> rmc_scope l = rmc_scope r \<and> rmc_priority l = None \<and> rmc_priority r = None"

fun first_invalid_map :: "route_map_config list \<Rightarrow> rstr option" where
  "first_invalid_map [] = None"
| "first_invalid_map (m # ms) =
     (case route_map_config_validate m of Inl e \<Rightarrow> Some e | Inr _ \<Rightarrow> first_invalid_map ms)"

fun first_overlap :: "nat \<Rightarrow> route_map_config list \<Rightarrow> (nat \<times> nat) option" where
  "first_overlap i [] = None"
| "first_overlap i (m # ms) =
     (case position (route_maps_overlap m) ms of
        Some j \<Rightarrow> Some (i, i + 1 + j)
      | None \<Rightarrow> first_overlap (i + 1) ms)"

definition sharding_config_validate :: "sharding_config \<Rightarrow> rstr + unit" where
  "sharding_config_validate c =
     (case first_invalid_map (shc_route_maps c) of
        Some e \<Rightarrow> Inl e
      | None \<Rightarrow>
          (case first_overlap 0 (shc_route_maps c) of
             Some (i, j) \<Rightarrow>
               Inl (lit ''route maps '' @ fmt_decimal i @ lit '' and '' @ fmt_decimal j
                 @ lit '' overlap without explicit priority'')
           | None \<Rightarrow> Inr ()))"

record route_preview_request =
  rpr_database :: rstr
  rpr_user :: rstr
  rpr_application_name :: "rstr option"
  rpr_sql :: rstr

record route_preview_summary =
  rps_route :: rstr
  rps_shard_id :: "rstr option"
  rps_backend_role :: "rstr option"
  rps_reason :: rstr
  rps_shard_reason :: "rstr option"

record route_preview_error =
  rpe_code :: rstr
  rpe_message :: rstr

definition matches_explicit_tenant_hint :: "shard_hint \<Rightarrow> rstr \<Rightarrow> bool" where
  "matches_explicit_tenant_hint hint tenant_key =
     (case explicit_shard_id hint of
        Some value \<Rightarrow> eq_ignore_ascii_case value tenant_key
      | None \<Rightarrow> False)"

definition schema_matches_scope :: "rstr option \<Rightarrow> rstr \<Rightarrow> bool" where
  "schema_matches_scope actual expected =
     (case actual of Some s \<Rightarrow> eq_ignore_ascii_case s expected | None \<Rightarrow> False)"

fun scope_matches_preview ::
  "shard_scope_config \<Rightarrow> route_preview_request \<Rightarrow> shard_hint \<Rightarrow> shard_extraction \<Rightarrow> bool" where
  "scope_matches_preview (SSC_DatabaseUser database user) r hint e =
     (eq_ignore_ascii_case (rpr_database r) database \<and> eq_ignore_ascii_case (rpr_user r) user)"
| "scope_matches_preview (SSC_ApplicationName n) r hint e =
     (case rpr_application_name r of Some v \<Rightarrow> eq_ignore_ascii_case v n | None \<Rightarrow> False)"
| "scope_matches_preview (SSC_TenantKey k) r hint e = matches_explicit_tenant_hint hint k"
| "scope_matches_preview (SSC_SchemaTable schema table) r hint e =
     (case e of
        SE_Key actual_schema actual_table _ _ \<Rightarrow>
          eq_ignore_ascii_case actual_table table \<and> schema_matches_scope actual_schema schema
      | SE_Unknown \<Rightarrow> False)"

definition select_preview_route_map ::
  "route_map_config list \<Rightarrow> route_preview_request \<Rightarrow> route_map_validation_input option \<Rightarrow> route_map_config option" where
  "select_preview_route_map maps r input =
     (let hint = extract_shard_hint (rpr_sql r);
          e = (case input of Some i \<Rightarrow> extract_shard_key (rpr_sql r) i | None \<Rightarrow> SE_Unknown)
      in map_option snd
           (min_by_key (\<lambda>(i, m). (case rmc_priority m of Some p \<Rightarrow> p | None \<Rightarrow> 2 ^ 32 - 1, i))
             (filter (\<lambda>(i, m). scope_matches_preview (rmc_scope m) r hint e) (enumerate 0 maps))))"

fun preview_scope :: "shard_scope_config \<Rightarrow> shard_scope" where
  "preview_scope (SSC_DatabaseUser _ _) = Scope_Global"
| "preview_scope (SSC_ApplicationName _) = Scope_Global"
| "preview_scope (SSC_SchemaTable schema table) = Scope_Table \<lparr>ts_schema = schema, ts_table = table\<rparr>"
| "preview_scope (SSC_TenantKey k) = Scope_Tenant \<lparr>tenant_id = k\<rparr>"

definition preview_target ::
  "'addr route_key \<Rightarrow> shard_target_config \<Rightarrow> route_preview_error + 'addr shard_route" where
  "preview_target key t =
     (let role = (case t of STC_Primary _ \<Rightarrow> BR_Primary | STC_Replicas _ \<Rightarrow> BR_Replica) in
      case shard_id_new (target_shard_id t) of
        Inl e \<Rightarrow> Inl \<lparr>rpe_code = lit ''invalid_shard_id'', rpe_message = shard_validation_error_display e\<rparr>
      | Inr sid \<Rightarrow>
          Inr \<lparr>sro_target = \<lparr>st_route_key = key, st_backend_role = role, st_shard_id = sid\<rparr>,
               sro_reason = SRR_AdminOverride\<rparr>)"

fun collect_results :: "('a \<Rightarrow> 'e + 'b) \<Rightarrow> 'a list \<Rightarrow> 'e + 'b list" where
  "collect_results f [] = Inr []"
| "collect_results f (x # xs) = and_then (f x) (\<lambda>y. and_then (collect_results f xs) (\<lambda>ys. Inr (y # ys)))"

definition build_preview_route_map ::
  "route_map_config \<Rightarrow> 'addr route_key \<Rightarrow> multi_shard_policy \<Rightarrow> route_preview_error + 'addr shard_route_map" where
  "build_preview_route_map m key policy =
     and_then (collect_results (preview_target key) (rmc_targets m)) (\<lambda>routes.
       (case shard_route_map_new (preview_scope (rmc_scope m)) (rmc_strategy m) policy routes of
          Inr built \<Rightarrow> Inr built
        | Inl e \<Rightarrow>
            Inl \<lparr>rpe_code = (if e = SVE_MultiShardRejected then lit ''multi_shard_rejected''
                             else lit ''invalid_route_map''),
                 rpe_message = shard_validation_error_display e\<rparr>))"

definition preview_route_map_validation_input ::
  "route_map_config list \<Rightarrow> route_map_validation_input option" where
  "preview_route_map_validation_input maps =
     (let tables = concat (map (\<lambda>m. case rmc_scope m of
            SSC_SchemaTable schema table \<Rightarrow>
              [\<lparr>std_name = schema @ lit ''.'' @ table, std_enabled = True,
                std_shard_key_column = Some (lit ''tenant_id'')\<rparr>]
          | _ \<Rightarrow> []) maps)
      in if tables = [] then None
         else Some \<lparr>rmi_routes = [\<lparr>rd_name = lit ''primary'', rd_priority = None, rd_is_default = True\<rparr>],
                    rmi_sharded_tables = tables, rmi_shard_rules = []\<rparr>)"

definition preview_route_health_snapshot :: "'addr shard_route_map list \<Rightarrow> route_health_snapshot" where
  "preview_route_health_snapshot maps =
     \<lparr>rhs_replicas =
        map (\<lambda>(offset, _). replica_candidate_new (offset + 1) True None (Some 0))
          (enumerate 0 (filter (\<lambda>r. st_backend_role (sro_target r) = BR_Replica)
             (concat (map srm_routes maps))))\<rparr>"

definition preview_summary ::
  "'addr route_key \<Rightarrow> 'addr shard_route_decision \<Rightarrow> routing_target \<Rightarrow> route_preview_summary" where
  "preview_summary key decision target =
     (case srd_route decision of
        Some r \<Rightarrow>
          \<lparr>rps_route = rk_metric_label key,
           rps_shard_id = Some (shard_id_str (route_shard_id r)),
           rps_backend_role = Some (backend_role_as_str (st_backend_role (sro_target r))),
           rps_reason = admin_label (srd_reason decision),
           rps_shard_reason = Some (admin_label (srd_reason decision))\<rparr>
      | None \<Rightarrow>
          \<lparr>rps_route = rk_metric_label key,
           rps_shard_id = None,
           rps_backend_role = map_option backend_role_as_str (routing_target_role target),
           rps_reason = target_reason_as_str (routing_target_reason target),
           rps_shard_reason = Some (admin_label (srd_reason decision))\<rparr>)"

definition preview_route ::
  "sharding_config \<Rightarrow> route_preview_request \<Rightarrow> route_preview_error + route_preview_summary" where
  "preview_route config r =
     (let key = (route_key_new (rpr_database r) (rpr_user r) (rpr_application_name r) None RQ_Default :: unit route_key);
          input = preview_route_map_validation_input (shc_route_maps config)
      in and_then
        (case select_preview_route_map (shc_route_maps config) r input of
           Some m \<Rightarrow> and_then (build_preview_route_map m key (shc_multi_shard_policy config)) (\<lambda>x. Inr [x])
         | None \<Rightarrow> Inr []) (\<lambda>maps.
        (let p = \<lparr>srp_read_routing = \<lparr>rrp_read_routing_mode = RRM_PreferReplica, rrp_fallback_policy = FP_Primary,
                                     rrp_freshness_policy = FRP_None, rrp_max_replica_lag_ms = 1000\<rparr>,
                  srp_sharding_enabled = shc_sharding_enabled config,
                  srp_store = route_map_store_new maps\<rparr>;
             c = \<lparr>src_sql = rpr_sql r, src_transaction_state = ST_Idle,
                  src_read_after_write_state = RAW_Disabled,
                  src_health = preview_route_health_snapshot maps, src_validation_input = input\<rparr>
         in Inr (preview_summary key (plan_sharded_route p c) (choose_sharded_routing_target p c)))))"

section \<open>The store\<close>

inductive store_reachable :: "'addr shard_route_map_store \<Rightarrow> bool" where
  start: "store_reachable (route_map_store_new maps)"
| bind: "store_reachable s \<Longrightarrow> store_reachable (set_transaction_shard_affinity i sid s)"
| release: "store_reachable s \<Longrightarrow> store_reachable (snd (clear_transaction_shard_affinity i s))"
| reload: "store_reachable s \<Longrightarrow> store_reachable (snd (route_map_store_reload maps plan s))"

definition store_consistent :: "'addr shard_route_map_store \<Rightarrow> bool" where
  "store_consistent s \<longleftrightarrow>
     distinct (map fst (sms_affinities s))
     \<and> sms_draining s = filter (\<lambda>i. i \<notin> set (current_shard_ids s)) (active_transaction_shard_ids s)"

lemma refresh_fields [simp]:
  "sms_route_maps (refresh_draining_shards s) = sms_route_maps s"
  "sms_generation_id (refresh_draining_shards s) = sms_generation_id s"
  "sms_affinities (refresh_draining_shards s) = sms_affinities s"
  by (simp_all add: refresh_draining_shards_def)

lemma refresh_ids [simp]:
  "current_shard_ids (refresh_draining_shards s) = current_shard_ids s"
  "active_transaction_shard_ids (refresh_draining_shards s) = active_transaction_shard_ids s"
  by (simp_all add: current_shard_ids_def active_transaction_shard_ids_def)

lemma refresh_consistent:
  "distinct (map fst (sms_affinities s)) \<Longrightarrow> store_consistent (refresh_draining_shards s)"
  unfolding store_consistent_def refresh_ids refresh_fields
  by (simp add: refresh_draining_shards_def)

lemma store_reload_cases:
  "snd (route_map_store_reload maps plan s) = s
   \<or> snd (route_map_store_reload maps plan s)
       = refresh_draining_shards (s\<lparr>sms_route_maps := maps, sms_generation_id := sms_generation_id s + 1\<rparr>)"
  by (auto simp: route_map_store_reload_def Let_def split: sum.splits)

lemma reachable_consistent: "store_reachable s \<Longrightarrow> store_consistent s"
proof (induction rule: store_reachable.induct)
  case (start maps)
  then show ?case by (simp add: store_consistent_def route_map_store_new_def active_transaction_shard_ids_def)
next
  case (bind s i sid)
  then show ?case
    unfolding set_transaction_shard_affinity_def
    by (intro refresh_consistent) (simp add: store_consistent_def distinct_update)
next
  case (release s i)
  then show ?case
    unfolding clear_transaction_shard_affinity_def snd_conv
    by (intro refresh_consistent) (simp add: store_consistent_def distinct_delete)
next
  case (reload s maps plan)
  then have "store_consistent
      (refresh_draining_shards (s\<lparr>sms_route_maps := maps, sms_generation_id := sms_generation_id s + 1\<rparr>))"
    by (intro refresh_consistent) (simp add: store_consistent_def)
  with reload store_reload_cases [of maps plan s] show ?case by metis
qed

text \<open>
  Whatever transactions start and end and whatever maps are loaded, the draining shards the
  store reports are exactly the shards open transactions are bound to that no active map lists,
  in byte order of their names.
\<close>

lemma draining_shards_exact:
  assumes "store_reachable s"
  shows "set (draining_shard_ids s)
      = {sid. (\<exists>i. transaction_shard_affinity i s = Some sid) \<and> sid \<notin> set (current_shard_ids s)}
    \<and> sorted (map (as_bytes \<circ> shard_id_str) (draining_shard_ids s))"
proof -
  from reachable_consistent [OF assms] have d: "distinct (map fst (sms_affinities s))"
    and f: "sms_draining s = filter (\<lambda>i. i \<notin> set (current_shard_ids s)) (active_transaction_shard_ids s)"
    by (simp_all add: store_consistent_def)
  have "set (active_transaction_shard_ids s) = {sid. \<exists>i. transaction_shard_affinity i s = Some sid}"
    using d by (force simp: active_transaction_shard_ids_def transaction_shard_affinity_def)
  with f show ?thesis by (auto simp: draining_shard_ids_def)
qed

text \<open>Runs in which transactions are bound to active shards and no reload overrides migration.\<close>

inductive store_guarded :: "'addr shard_route_map_store \<Rightarrow> bool" where
  start: "store_guarded (route_map_store_new maps)"
| bind: "store_guarded s \<Longrightarrow> sid \<in> set (current_shard_ids s)
    \<Longrightarrow> store_guarded (set_transaction_shard_affinity i sid s)"
| release: "store_guarded s \<Longrightarrow> store_guarded (snd (clear_transaction_shard_affinity i s))"
| reload: "store_guarded s \<Longrightarrow> \<not> (\<exists>p. plan = Some p \<and> rp_migration_override_explicit p)
    \<Longrightarrow> store_guarded (snd (route_map_store_reload maps plan s))"

lemma affinity_active: "transaction_shard_affinity i s = Some sid \<Longrightarrow> sid \<in> set (active_transaction_shard_ids s)"
  by (force simp: transaction_shard_affinity_def active_transaction_shard_ids_def dest: map_of_SomeD)

lemma reload_keeps_active:
  assumes "\<not> (\<exists>p. plan = Some p \<and> rp_migration_override_explicit p)"
    and "sid \<in> set (active_transaction_shard_ids s)" "sid \<in> set (current_shard_ids s)"
  shows "sid \<in> set (current_shard_ids (snd (route_map_store_reload maps plan s)))"
proof (cases "\<exists>u. validate_reload_route_maps maps = Inr u \<and> \<not> removes_active_shard maps s")
  case True
  then have "sid \<in> set (route_map_shard_ids maps)"
    using assms(2,3) by (auto simp: removes_active_shard_def list_ex_iff)
  with True show ?thesis by (auto simp: route_map_store_reload_def Let_def current_shard_ids_def)
next
  case False
  then have "snd (route_map_store_reload maps plan s) = s"
    using assms(1) by (auto simp: route_map_store_reload_def Let_def split: sum.splits option.splits)
  with assms(3) show ?thesis by simp
qed

lemma reload_affinity [simp]:
  "transaction_shard_affinity i (snd (route_map_store_reload maps plan s)) = transaction_shard_affinity i s"
  using store_reload_cases [of maps plan s] by (auto simp: transaction_shard_affinity_def)

lemma guarded_bound:
  "store_guarded s \<Longrightarrow> transaction_shard_affinity i s = Some sid \<Longrightarrow> sid \<in> set (current_shard_ids s)"
proof (induction arbitrary: i sid rule: store_guarded.induct)
  case (start maps)
  then show ?case by (simp add: route_map_store_new_def transaction_shard_affinity_def)
next
  case (bind s sid' j)
  have c: "current_shard_ids (set_transaction_shard_affinity j sid' s) = current_shard_ids s"
    by (simp add: set_transaction_shard_affinity_def current_shard_ids_def)
  from bind show ?case
    by (cases "i = j")
       (auto simp: c, auto simp: set_transaction_shard_affinity_def transaction_shard_affinity_def update_conv')
next
  case (release s j)
  then show ?case
    by (cases "i = j")
       (auto simp: clear_transaction_shard_affinity_def transaction_shard_affinity_def delete_conv'
         current_shard_ids_def)
next
  case (reload s plan maps)
  then show ?case by (simp add: reload_keeps_active affinity_active)
qed

text \<open>
  As long as the operations do not overlap, transactions bind to shards that are active and no reload
  carries an explicit migration override, the shard of every open transaction stays in the active
  maps through every reload.
\<close>

lemma sequential_none_stranded:
  assumes "store_guarded s" and "transaction_shard_affinity i s = Some sid"
  shows "sid \<in> set (current_shard_ids s) \<and> draining_shard_ids s = []"
proof -
  have "store_guarded s \<Longrightarrow> store_reachable s"
    by (induction rule: store_guarded.induct) (auto intro: store_reachable.intros)
  with assms have "store_consistent s" by (simp add: reachable_consistent)
  moreover have "snd x \<in> set (current_shard_ids s)" if "x \<in> set (sms_affinities s)" for x
    using guarded_bound [OF assms(1), of "fst x" "snd x"] that \<open>store_consistent s\<close>
    by (simp add: store_consistent_def transaction_shard_affinity_def)
  ultimately have "sms_draining s = []"
    by (auto simp: store_consistent_def active_transaction_shard_ids_def filter_empty_conv)
  with guarded_bound [OF assms] show ?thesis by (simp add: draining_shard_ids_def)
qed

definition example_map :: "rstr \<Rightarrow> unit shard_route_map" where
  "example_map name =
     \<lparr>srm_scope = Scope_Global, srm_strategy = Strategy_Hash, srm_policy = MSP_Reject,
      srm_routes =
        [\<lparr>sro_target = \<lparr>st_route_key = route_key_new (lit ''app'') (lit ''alice'') None None RQ_Default,
                       st_backend_role = BR_Primary, st_shard_id = ShardId name\<rparr>,
          sro_reason = SRR_AdminOverride\<rparr>]\<rparr>"

lemma draining_shards_exact_witness:
  "set (draining_shard_ids (set_transaction_shard_affinity 1 (ShardId (lit ''old'')) (route_map_store_new [example_map (lit ''a'')])))
     = {ShardId (lit ''old'')}"
proof -
  let ?s = "set_transaction_shard_affinity 1 (ShardId (lit ''old'')) (route_map_store_new [example_map (lit ''a'')])"
  have "store_reachable ?s" by (intro store_reachable.intros)
  note this [THEN draining_shards_exact]
  moreover have "transaction_shard_affinity i ?s = Some sid \<longleftrightarrow> i = 1 \<and> sid = ShardId (lit ''old'')" for i sid
    by (auto simp: set_transaction_shard_affinity_def transaction_shard_affinity_def route_map_store_new_def)
  moreover have "set (current_shard_ids ?s) = {ShardId (lit ''a'')}"
    by (simp add: current_shard_ids_def set_transaction_shard_affinity_def route_map_store_new_def
        route_map_shard_ids_def example_map_def)
  ultimately show ?thesis by (auto simp: lit_def)
qed

section \<open>Overlapping operations\<close>

text \<open>
  Where an operation stands between two locks. A reload reads the shards of the open transactions,
  then the shards of the active maps, and then swaps the maps; every change is followed by a refresh
  of the draining shards, which reads the same two sets and then writes.
\<close>

datatype 'addr store_point =
    MP_ReloadActive "'addr shard_route_map list"
  | MP_ReloadCurrent "'addr shard_route_map list" "shard_id list"
  | MP_ReloadSwap "'addr shard_route_map list"
  | MP_RefreshActive
  | MP_RefreshCurrent "shard_id list"
  | MP_RefreshWrite "shard_id list" "shard_id list"

fun reload_decided :: "'addr store_point \<Rightarrow> bool" where
  "reload_decided (MP_ReloadCurrent maps active) = True"
| "reload_decided (MP_ReloadSwap maps) = True"
| "reload_decided _ = False"

text \<open>
  A system: the store, the operations under way, and, as history, the sessions that were bound while
  a reload had read the open transactions and not yet swapped the maps.
\<close>

type_synonym 'addr store_system = "'addr shard_route_map_store \<times> 'addr store_point multiset \<times> u64 set"

definition removed_active :: "'addr shard_route_map list \<Rightarrow> shard_id list \<Rightarrow> shard_id list \<Rightarrow> bool" where
  "removed_active maps active current \<longleftrightarrow>
     list_ex (\<lambda>i. i \<in> set active) (filter (\<lambda>i. i \<notin> set (route_map_shard_ids maps)) current)"

inductive store_step :: "'addr store_system \<Rightarrow> 'addr store_system \<Rightarrow> bool" where
  reload: "validate_reload_route_maps maps = Inr () \<Longrightarrow>
    store_step (s, ts, late) (s, add_mset (MP_ReloadActive maps) ts, late)"
| reload_active: "store_step (s, add_mset (MP_ReloadActive maps) ts, late)
    (s, add_mset (MP_ReloadCurrent maps (active_transaction_shard_ids s)) ts, late)"
| reload_refused: "removed_active maps active (current_shard_ids s) \<Longrightarrow>
    store_step (s, add_mset (MP_ReloadCurrent maps active) ts, late) (s, ts, late)"
| reload_accepted: "\<not> removed_active maps active (current_shard_ids s) \<Longrightarrow>
    store_step (s, add_mset (MP_ReloadCurrent maps active) ts, late) (s, add_mset (MP_ReloadSwap maps) ts, late)"
| reload_swap: "store_step (s, add_mset (MP_ReloadSwap maps) ts, late)
    (s\<lparr>sms_route_maps := maps, sms_generation_id := sms_generation_id s + 1\<rparr>, add_mset MP_RefreshActive ts, late)"
| bind: "sid \<in> set (current_shard_ids s) \<Longrightarrow>
    store_step (s, ts, late)
      (s\<lparr>sms_affinities := AList.update i sid (sms_affinities s)\<rparr>, add_mset MP_RefreshActive ts,
       if \<exists>p\<in>#ts. reload_decided p then insert i late else late - {i})"
| release: "store_step (s, ts, late)
    (s\<lparr>sms_affinities := AList.delete i (sms_affinities s)\<rparr>, add_mset MP_RefreshActive ts, late)"
| refresh_active: "store_step (s, add_mset MP_RefreshActive ts, late)
    (s, add_mset (MP_RefreshCurrent (active_transaction_shard_ids s)) ts, late)"
| refresh_current: "store_step (s, add_mset (MP_RefreshCurrent active) ts, late)
    (s, add_mset (MP_RefreshWrite active (current_shard_ids s)) ts, late)"
| refresh_write: "store_step (s, add_mset (MP_RefreshWrite active current) ts, late)
    (s\<lparr>sms_draining := filter (\<lambda>i. i \<notin> set current) active\<rparr>, ts, late)"

text \<open>What a reload under way has seen of a transaction that was bound before it looked.\<close>

fun point_knows :: "shard_id \<Rightarrow> 'addr store_point \<Rightarrow> bool" where
  "point_knows sid (MP_ReloadCurrent maps active) = (sid \<in> set active)"
| "point_knows sid (MP_ReloadSwap maps) = (sid \<in> set (route_map_shard_ids maps))"
| "point_knows sid _ = True"

definition stays_active :: "'addr store_system \<Rightarrow> bool" where
  "stays_active sys = (case sys of (s, ts, late) \<Rightarrow>
     \<forall>i sid. transaction_shard_affinity i s = Some sid \<and> i \<notin> late \<longrightarrow>
       sid \<in> set (current_shard_ids s) \<and> (\<forall>p\<in>#ts. point_knows sid p))"

lemma store_fields [simp]:
  "current_shard_ids (s\<lparr>sms_affinities := x\<rparr>) = current_shard_ids s"
  "current_shard_ids (s\<lparr>sms_draining := y\<rparr>) = current_shard_ids s"
  "current_shard_ids (s\<lparr>sms_route_maps := maps, sms_generation_id := n\<rparr>) = route_map_shard_ids maps"
  "transaction_shard_affinity i (s\<lparr>sms_draining := y\<rparr>) = transaction_shard_affinity i s"
  "transaction_shard_affinity i (s\<lparr>sms_route_maps := maps, sms_generation_id := n\<rparr>) = transaction_shard_affinity i s"
  "transaction_shard_affinity i (s\<lparr>sms_affinities := AList.update j sid (sms_affinities s)\<rparr>) =
     (if i = j then Some sid else transaction_shard_affinity i s)"
  "transaction_shard_affinity i (s\<lparr>sms_affinities := AList.delete j (sms_affinities s)\<rparr>) =
     (if i = j then None else transaction_shard_affinity i s)"
  by (auto simp: current_shard_ids_def transaction_shard_affinity_def update_conv' delete_conv')

lemma undecided_knows: "\<not> reload_decided p \<Longrightarrow> point_knows sid p"
  by (cases p) simp_all

lemma stays_active_step:
  assumes "store_step sys sys'" and "stays_active sys"
  shows "stays_active sys'"
  using assms
proof (cases rule: store_step.cases)
  case (reload_accepted maps active s ts late)
  then show ?thesis
    using assms(2) by (auto simp: stays_active_def removed_active_def list_ex_iff)
next
  case (bind sid s ts i late)
  then show ?thesis
    using assms(2) by (auto simp: stays_active_def intro: undecided_knows split: if_splits)
qed (use affinity_active in \<open>fastforce simp: stays_active_def split: if_splits\<close>)+

interpretation store_safety: step_invariant store_step stays_active
  by unfold_locales (rule stays_active_step)

text \<open>
  C19. No reload strands a transaction that it could see. However binds, releases, reloads without a
  migration override and refreshes interleave, lock by lock, the shard of every open transaction is
  in the active maps, if transactions are bound to shards that are active at that moment and the
  transaction was not bound in the window in which some reload had already read the open
  transactions and had not yet swapped the maps.
\<close>

theorem no_transaction_stranded:
  assumes "store_step\<^sup>*\<^sup>* (route_map_store_new maps, {#}, {}) (s, ts, late)"
    and "transaction_shard_affinity i s = Some sid" and "i \<notin> late"
  shows "sid \<in> set (current_shard_ids s)"
proof -
  have "stays_active (route_map_store_new maps, {#}, {})"
    by (simp add: stays_active_def route_map_store_new_def transaction_shard_affinity_def)
  from store_safety.run_invariant [OF assms(1) this] assms(2,3) show ?thesis by (simp add: stays_active_def)
qed

text \<open>
  The window is real: a transaction that is bound to a shard between the check and the swap of a
  reload that drops the shard is stranded, without an override.
\<close>

lemma late_bind_stranded:
  fixes maps maps' :: "'addr shard_route_map list"
  assumes "validate_reload_route_maps maps' = Inr ()" and "sid \<in> set (route_map_shard_ids maps)"
    and "sid \<notin> set (route_map_shard_ids maps')"
  shows "\<exists>s ts. store_step\<^sup>*\<^sup>* (route_map_store_new maps, {#}, {}) (s, ts, {i}) \<and>
    transaction_shard_affinity i s = Some sid \<and> sid \<notin> set (current_shard_ids s)"
proof -
  let ?s = "route_map_store_new maps" and ?run = "store_step\<^sup>*\<^sup>* (route_map_store_new maps, {#}, {})"
  let ?b = "?s\<lparr>sms_affinities := AList.update i sid (sms_affinities ?s)\<rparr>"
  have active: "active_transaction_shard_ids ?s = []"
    by (simp add: route_map_store_new_def active_transaction_shard_ids_def)
  have current: "sid \<in> set (current_shard_ids ?s)"
    using assms(2) by (simp add: current_shard_ids_def route_map_store_new_def)
  have "?run (?s, {#MP_ReloadActive maps'#}, {})"
    using store_step.reload [OF assms(1)] by (intro r_into_rtranclp [of store_step]) simp
  from run_step [where step = store_step, OF this store_step.reload_active]
  have "?run (?s, {#MP_ReloadCurrent maps' []#}, {})" unfolding active .
  from run_step [where step = store_step, OF this store_step.reload_accepted]
  have "?run (?s, {#MP_ReloadSwap maps'#}, {})" by (simp add: removed_active_def list_ex_iff)
  from run_step [where step = store_step, OF this store_step.bind [OF current, of _ _ i]]
  have "?run (?b, {#MP_ReloadSwap maps', MP_RefreshActive#}, {i})" by (simp add: add_mset_commute)
  from run_step [where step = store_step, OF this store_step.reload_swap]
  have "?run (?b\<lparr>sms_route_maps := maps', sms_generation_id := sms_generation_id ?b + 1\<rparr>,
      {#MP_RefreshActive, MP_RefreshActive#}, {i})" (is "?run (?e, _, _)") .
  moreover have "transaction_shard_affinity i ?e = Some sid" by simp
  moreover have "sid \<notin> set (current_shard_ids ?e)" using assms(3) by simp
  ultimately show ?thesis by blast
qed

text \<open>The functions are runs of the steps that nothing interrupts.\<close>

lemma refresh_run:
  "store_step\<^sup>*\<^sup>* (s, add_mset MP_RefreshActive ts, late) (refresh_draining_shards s, ts, late)"
proof -
  let ?run = "store_step\<^sup>*\<^sup>* (s, add_mset MP_RefreshActive ts, late)"
  have "?run (s, add_mset (MP_RefreshCurrent (active_transaction_shard_ids s)) ts, late)"
    by (intro r_into_rtranclp [of store_step] store_step.refresh_active)
  from run_step [where step = store_step, OF this store_step.refresh_current]
  have "?run (s, add_mset (MP_RefreshWrite (active_transaction_shard_ids s) (current_shard_ids s)) ts, late)" .
  from run_step [where step = store_step, OF this store_step.refresh_write] show ?thesis
    unfolding refresh_draining_shards_def .
qed

lemma reload_run:
  assumes "\<not> (\<exists>p. plan = Some p \<and> rp_migration_override_explicit p)"
  shows "store_step\<^sup>*\<^sup>* (s, {#}, late) (snd (route_map_store_reload maps plan s), {#}, late)"
proof (cases "validate_reload_route_maps maps")
  case (Inr u)
  let ?run = "store_step\<^sup>*\<^sup>* (s, {#}, late)"
  let ?a = "active_transaction_shard_ids s"
  have "?run (s, {#MP_ReloadActive maps#}, late)"
    using store_step.reload Inr by (intro r_into_rtranclp [of store_step]) simp
  from run_step [where step = store_step, OF this store_step.reload_active]
  have r: "?run (s, {#MP_ReloadCurrent maps ?a#}, late)" .
  have same: "removed_active maps ?a (current_shard_ids s) = removes_active_shard maps s"
    by (simp add: removed_active_def removes_active_shard_def)
  show ?thesis
  proof (cases "removes_active_shard maps s")
    case True
    then show ?thesis
      using run_step [where step = store_step, OF r store_step.reload_refused] assms Inr
      by (auto simp: same route_map_store_reload_def Let_def split: option.splits)
  next
    case False
    let ?s = "s\<lparr>sms_route_maps := maps, sms_generation_id := sms_generation_id s + 1\<rparr>"
    have "?run (s, {#MP_ReloadSwap maps#}, late)"
      using run_step [where step = store_step, OF r store_step.reload_accepted] False by (simp add: same)
    from run_step [where step = store_step, OF this store_step.reload_swap]
    have "?run (refresh_draining_shards ?s, {#}, late)"
      using refresh_run [of ?s "{#}" late] by (rule rtranclp_trans [of store_step])
    moreover have "snd (route_map_store_reload maps plan s) = refresh_draining_shards ?s"
      using False Inr by (simp add: route_map_store_reload_def Let_def)
    ultimately show ?thesis by simp
  qed
qed (simp add: route_map_store_reload_def)

lemma guarded_run:
  assumes "store_guarded s"
  shows "\<exists>maps. store_step\<^sup>*\<^sup>* (route_map_store_new maps, {#}, {}) (s, {#}, {})"
  using assms
proof (induction rule: store_guarded.induct)
  case (start maps)
  then show ?case by blast
next
  case (bind s sid i)
  then obtain maps where r: "store_step\<^sup>*\<^sup>* (route_map_store_new maps, {#}, {}) (s, {#}, {})" by blast
  let ?s = "s\<lparr>sms_affinities := AList.update i sid (sms_affinities s)\<rparr>"
  have "store_step\<^sup>*\<^sup>* (route_map_store_new maps, {#}, {}) (?s, {#MP_RefreshActive#}, {})"
    using run_step [where step = store_step, OF r store_step.bind [OF bind.hyps(2), of _ _ i]] by simp
  from rtranclp_trans [of store_step, OF this refresh_run [of ?s]] show ?case
    by (auto simp: set_transaction_shard_affinity_def)
next
  case (release s i)
  then obtain maps where r: "store_step\<^sup>*\<^sup>* (route_map_store_new maps, {#}, {}) (s, {#}, {})" by blast
  let ?s = "s\<lparr>sms_affinities := AList.delete i (sms_affinities s)\<rparr>"
  have "store_step\<^sup>*\<^sup>* (route_map_store_new maps, {#}, {}) (?s, {#MP_RefreshActive#}, {})"
    using run_step [where step = store_step, OF r store_step.release [of _ _ _ i]] by simp
  from rtranclp_trans [of store_step, OF this refresh_run [of ?s]] show ?case
    by (auto simp: clear_transaction_shard_affinity_def)
next
  case (reload s plan maps)
  then show ?case using reload_run [of plan s "{}" maps] rtranclp_trans [of store_step] by blast
qed

theorem no_transaction_stranded_witness:
  "ShardId (lit ''a'') \<in> set (current_shard_ids (snd (route_map_store_reload [example_map (lit ''b'')] None
     (set_transaction_shard_affinity 1 (ShardId (lit ''a'')) (route_map_store_new [example_map (lit ''a'')])))))"
proof -
  let ?s = "set_transaction_shard_affinity 1 (ShardId (lit ''a'')) (route_map_store_new [example_map (lit ''a'')])"
  have "store_guarded ?s"
    by (rule store_guarded.bind [OF store_guarded.start])
       (simp add: current_shard_ids_def route_map_store_new_def route_map_shard_ids_def example_map_def)
  then have "store_guarded (snd (route_map_store_reload [example_map (lit ''b'')] None ?s))"
    by (rule store_guarded.reload) simp
  then obtain maps where r: "store_step\<^sup>*\<^sup>* (route_map_store_new maps, {#}, {})
      (snd (route_map_store_reload [example_map (lit ''b'')] None ?s), {#}, {})"
    using guarded_run by blast
  have "transaction_shard_affinity 1 ?s = Some (ShardId (lit ''a''))"
    by (simp add: set_transaction_shard_affinity_def transaction_shard_affinity_def route_map_store_new_def)
  then have "transaction_shard_affinity 1 (snd (route_map_store_reload [example_map (lit ''b'')] None ?s))
      = Some (ShardId (lit ''a''))" by simp
  from no_transaction_stranded [OF r this] show ?thesis by simp
qed

section \<open>Plans\<close>

lemma find_SomeD: "find P xs = Some x \<Longrightarrow> x \<in> set xs \<and> P x"
  by (induction xs) (auto split: if_splits)

lemma select_route_map_in:
  assumes "select_route_map maps hint c = Some m"
  shows "m \<in> set maps \<and> route_map_matches_context m c"
proof -
  have "m \<in> set (filter (\<lambda>m. route_map_matches_context m c) maps)"
    using assms unfolding select_route_map_def Let_def
    by (cases "filter (\<lambda>m. route_map_matches_context m c) maps") (auto split: option.splits if_splits dest: find_SomeD)
  then show ?thesis by simp
qed

lemma choose_shard_route_in:
  "srd_route (choose_shard_route m route reason p c) = Some r \<Longrightarrow>
     r \<in> set (srm_routes m) \<and> route_shard_id r = route_shard_id route"
  by (auto simp: choose_shard_route_def Let_def find_Some_iff split: option.splits)

text \<open>
  The shard a map gives to a key: by the hash of the key among the routes, by the name of a text key
  in a list map, and otherwise the map's only route.
\<close>

definition shard_of_key :: "'addr shard_route_map \<Rightarrow> shard_key \<Rightarrow> shard_id \<Rightarrow> bool" where
  "shard_of_key m key sid \<longleftrightarrow>
     (case srm_strategy m of
        Strategy_Hash \<Rightarrow>
          sid = route_shard_id (srm_routes m ! (unat (deterministic_shard_hash key) mod length (srm_routes m)))
      | Strategy_List \<Rightarrow> key = SK_Text (shard_id_str sid) \<or> map route_shard_id (srm_routes m) = [sid]
      | Strategy_Range \<Rightarrow> map route_shard_id (srm_routes m) = [sid])"

lemma only_route_Some: "only_route routes = Some route \<Longrightarrow> map route_shard_id routes = [route_shard_id route]"
  by (cases routes; cases "tl routes") (auto simp: only_route_def split: if_splits)

lemma select_key_shard:
  "select_route_for_shard_key (srm_routes m) (srm_strategy m) key = Some route \<Longrightarrow> shard_of_key m key (route_shard_id route)"
  by (auto simp: select_route_for_shard_key_def shard_of_key_def split: shard_strategy.splits shard_key.splits
      option.splits if_splits dest!: find_SomeD only_route_Some)

lemma choose_shard_route_role:
  assumes "srd_route (choose_shard_route m route reason p c) = Some r"
    and "r' \<in> set (srm_routes m)" and "route_shard_id r' = route_shard_id route"
    and "Some (st_backend_role (sro_target r')) = routing_target_role (choose_routing_target (srp_read_routing p) (read_context c))"
  shows "Some (st_backend_role (sro_target r)) = routing_target_role (choose_routing_target (srp_read_routing p) (read_context c))"
proof -
  let ?P = "\<lambda>r. route_shard_id r = route_shard_id route \<and> Some (st_backend_role (sro_target r))
      = routing_target_role (choose_routing_target (srp_read_routing p) (read_context c))"
  obtain r'' where "find ?P (srm_routes m) = Some r''" using assms(2-4) by (cases "find ?P (srm_routes m)") (auto simp: find_None_iff)
  with assms(1) show ?thesis by (auto simp: choose_shard_route_def Let_def dest: find_SomeD)
qed

text \<open>
  C20. A planned route is a route of the active map that is selected for the query, whose scope applies
  to it. When the query names a shard, a tenant or a route in a hint, the planned shard is the one it
  names; otherwise a key was extracted from the query, and the planned shard is the one the map gives
  to that key. Among the routes of the shard, one with the role that read routing chooses for the
  query is taken if there is one.
\<close>

theorem shard_plan_sound:
  assumes "srd_route (plan_sharded_route p c) = Some r"
  shows "srp_sharding_enabled p \<and>
    (\<exists>m. select_route_map (sms_route_maps (srp_store p)) (extract_shard_hint (src_sql c)) c = Some m
      \<and> m \<in> set (sms_route_maps (srp_store p)) \<and> route_map_matches_context m c \<and> r \<in> set (srm_routes m)
      \<and> (case explicit_shard_id (extract_shard_hint (src_sql c)) of
           Some v \<Rightarrow> shard_id_str (route_shard_id r) = v
         | None \<Rightarrow> (\<exists>schema table column key. context_extraction c = SE_Key schema table column key
                      \<and> shard_of_key m key (route_shard_id r)))
      \<and> (let role = routing_target_role (choose_routing_target (srp_read_routing p) (read_context c)) in
         (\<exists>r'\<in>set (srm_routes m). route_shard_id r' = route_shard_id r \<and> Some (st_backend_role (sro_target r')) = role)
           \<longrightarrow> Some (st_backend_role (sro_target r)) = role))"
proof -
  let ?h = "extract_shard_hint (src_sql c)"
  from assms obtain m where e: "srp_sharding_enabled p"
    and m: "select_route_map (sms_route_maps (srp_store p)) ?h c = Some m"
    and r: "srd_route (plan_in_map p c ?h m) = Some r"
    by (auto simp: plan_sharded_route_def no_route_def Let_def split: if_splits option.splits)
  obtain route reason where cr: "srd_route (choose_shard_route m route reason p c) = Some r"
    and h: "case explicit_shard_id ?h of
        Some v \<Rightarrow> shard_id_str (route_shard_id route) = v
      | None \<Rightarrow> (\<exists>schema table column key. context_extraction c = SE_Key schema table column key
                   \<and> shard_of_key m key (route_shard_id route))"
    using r by (auto simp: plan_in_map_def no_route_def select_route_for_shard_id_def
        split: if_splits option.splits shard_extraction.splits dest: find_SomeD select_key_shard)
  note in_map = choose_shard_route_in [OF cr]
  note named = h [folded in_map [THEN conjunct2]]
  have "Some (st_backend_role (sro_target r)) = routing_target_role (choose_routing_target (srp_read_routing p) (read_context c))"
    if "\<exists>r'\<in>set (srm_routes m). route_shard_id r' = route_shard_id r \<and> Some (st_backend_role (sro_target r'))
      = routing_target_role (choose_routing_target (srp_read_routing p) (read_context c))"
    using choose_shard_route_role [OF cr] that in_map by auto
  with in_map select_route_map_in [OF m] e named m show ?thesis
    unfolding Let_def by (intro conjI exI [of _ m]) auto
qed

section \<open>Read-routing hints and sharding\<close>

text \<open>A read with the documented hint that prefers a replica.\<close>

definition hinted_read :: rstr where
  "hinted_read = lit ''/* pg-kinetic: replica */ select 1''"

lemma find_str_at:
  assumes "p \<noteq> []" "hd p \<notin> set a"
  shows "find_str (a @ p @ b) p = Some (length a)"
  using assms(2)
proof (induction a)
  case Nil
  show ?case by (cases "p @ b") (use assms(1) starts_with_append [of p b] in auto)
next
  case (Cons c a)
  then have "\<not> starts_with (c # a @ p @ b) p" using assms(1) by (cases p) (auto simp: starts_with_def)
  with Cons show ?case by simp
qed

lemma hinted_read_split:
  "hinted_read = lit ''/*'' @ lit '' pg-kinetic: replica '' @ lit ''*/'' @ lit '' select 1''"
  by (simp add: hinted_read_def lit_def)

lemmas trim_eval = trim_def trim_start_def trim_end_def trim_end_pred_def is_whitespace_def

lemma hinted_read_hints:
  "extract_routing_hint hinted_read = RH_Replica" "extract_shard_hint hinted_read = SH_Unknown"
proof -
  have f: "find_str (lit '' pg-kinetic: replica '' @ lit ''*/'' @ lit '' select 1'') (lit ''*/'') = Some 21"
    using find_str_at [of "lit ''*/''" "lit '' pg-kinetic: replica ''" "lit '' select 1''"] by (simp add: lit_def)
  have p: "strip_prefix hinted_read (lit ''/*'') = Some (lit '' pg-kinetic: replica '' @ lit ''*/'' @ lit '' select 1'')"
    by (simp add: hinted_read_split strip_prefix_Some)
  have t: "trim_start hinted_read = hinted_read" by (simp add: hinted_read_def trim_eval lit_def)
  have c: "take 21 (lit '' pg-kinetic: replica '' @ lit ''*/'' @ lit '' select 1'') = lit '' pg-kinetic: replica ''"
    "trim (lit '' pg-kinetic: replica '') = lit ''pg-kinetic: replica''"
    "trim (lit ''pg-kinetic: replica'') = lit ''pg-kinetic: replica''"
    "trim_start (drop (21 + 2) (lit '' pg-kinetic: replica '' @ lit ''*/'' @ lit '' select 1'')) = lit ''select 1''"
    "trim_start (lit '' select 1'') = lit ''select 1''"
    by (simp_all add: lit_def trim_eval)
  show "extract_routing_hint hinted_read = RH_Replica"
    unfolding extract_routing_hint_def t
    by (subst hint_loop.simps) (simp add: p f c Let_def, simp add: lit_def)
  have h: "parse_hint_comment (lit ''pg-kinetic: replica'') = None"
    unfolding parse_hint_comment_def c
    by (simp add: strip_prefix_def starts_with_def split_once_char_def lit_def trim_eval)
  have "shard_hint_loop (lit ''select 1'') True = SH_Unknown"
    by (subst shard_hint_loop.simps) (simp add: strip_prefix_def starts_with_def lit_def trim_eval)
  with h show "extract_shard_hint hinted_read = SH_Unknown"
    unfolding extract_shard_hint_def t by (subst shard_hint_loop.simps) (simp add: p f c)
qed

text \<open>
  Read-routing hints and sharding do not combine: with sharding enabled and a map that applies
  to every query, a read that carries the documented replica hint is rejected, because the hint is
  not a shard hint and every unknown hint comment that mentions \<open>pg-kinetic:\<close> fails validation.
\<close>

lemma routing_hint_rejected_when_sharded:
  assumes "srp_sharding_enabled p" and "m \<in> set (sms_route_maps (srp_store p))"
    and "srm_scope m = Scope_Global" and "src_sql c = hinted_read"
  shows "extract_routing_hint (src_sql c) = RH_Replica
    \<and> choose_sharded_routing_target p c = RT_Reject TR_FallbackReject"
proof -
  have "contains_str hinted_read (lit ''pg-kinetic:'')"
    unfolding contains_str_iff
    by (rule exI [of _ "lit ''/* ''"], rule exI [of _ "lit '' replica */ select 1''"])
       (simp add: hinted_read_def lit_def)
  then have "srd_reason (plan_in_map p c SH_Unknown m') = SRR_ValidationFailed"
    "srd_route (plan_in_map p c SH_Unknown m') = None" for m'
    using assms(4) by (simp_all add: plan_in_map_def no_route_def)
  moreover have "m \<in> set (filter (\<lambda>m. route_map_matches_context m c) (sms_route_maps (srp_store p)))"
    using assms(2,3) by (simp add: route_map_matches_context_def)
  then have "select_route_map (sms_route_maps (srp_store p)) SH_Unknown c \<noteq> None"
    by (auto simp: select_route_map_def Let_def filter_empty_conv split: option.splits list.splits)
  ultimately show ?thesis
    using assms(1,4) hinted_read_hints
    by (auto simp: choose_sharded_routing_target_def plan_sharded_route_def Let_def)
qed

lemma routing_hint_rejected_when_sharded_witness:
  "choose_sharded_routing_target
     \<lparr>srp_read_routing = example_planner, srp_sharding_enabled = True,
      srp_store = route_map_store_new [example_map (lit ''a'')]\<rparr>
     \<lparr>src_sql = hinted_read, src_transaction_state = ST_Idle, src_read_after_write_state = RAW_Disabled,
      src_health = \<lparr>rhs_replicas = []\<rparr>, src_validation_input = None\<rparr> = RT_Reject TR_FallbackReject"
  using routing_hint_rejected_when_sharded
    [of "\<lparr>srp_read_routing = example_planner, srp_sharding_enabled = True,
          srp_store = route_map_store_new [example_map (lit ''a'')]\<rparr>" "example_map (lit ''a'')"
        "\<lparr>src_sql = hinted_read, src_transaction_state = ST_Idle, src_read_after_write_state = RAW_Disabled,
          src_health = \<lparr>rhs_replicas = []\<rparr>, src_validation_input = None\<rparr>"]
  by (simp add: route_map_store_new_def example_map_def)

lemma select_by_text_no_hint: "extract_shard_hint (select_by_text t c v) = SH_None"
proof -
  have t: "trim_start (select_by_text t c v) = select_by_text t c v"
    by (simp add: select_by_text_def trim_eval lit_def)
  have "strip_prefix (select_by_text t c v) (lit ''/*'') = None" "strip_prefix (select_by_text t c v) (lit ''--'') = None"
    by (simp_all add: select_by_text_def strip_prefix_def starts_with_def lit_def)
  then show ?thesis unfolding extract_shard_hint_def t by (subst shard_hint_loop.simps) (simp add: t)
qed

theorem shard_plan_sound_witness:
  "\<exists>r. srd_route (plan_sharded_route
       \<lparr>srp_read_routing = example_planner, srp_sharding_enabled = True,
        srp_store = route_map_store_new [example_map (lit ''a'')]\<rparr>
       \<lparr>src_sql = select_by_text (lit ''accounts'') (lit ''tenant_id'') (lit ''x''),
        src_transaction_state = ST_Idle, src_read_after_write_state = RAW_Disabled,
        src_health = \<lparr>rhs_replicas = []\<rparr>, src_validation_input = Some example_route_map\<rparr>) = Some r
     \<and> r \<in> set (srm_routes (example_map (lit ''a'')))
     \<and> shard_of_key (example_map (lit ''a'')) (SK_Text (lit ''x'')) (route_shard_id r)"
proof -
  let ?c = "\<lparr>src_sql = select_by_text (lit ''accounts'') (lit ''tenant_id'') (lit ''x''),
        src_transaction_state = ST_Idle, src_read_after_write_state = RAW_Disabled,
        src_health = \<lparr>rhs_replicas = []\<rparr>, src_validation_input = Some example_route_map\<rparr>"
  let ?p = "\<lparr>srp_read_routing = example_planner, srp_sharding_enabled = True,
        srp_store = route_map_store_new [example_map (lit ''a'')]\<rparr>"
  have k: "context_extraction ?c = SE_Key None (lit ''accounts'') (lit ''tenant_id'') (SK_Text (lit ''x''))"
    by (simp add: context_extraction_def extract_shard_key_def tokenize_select_by_text example_plain extract_eval)
  then obtain r where r: "srd_route (plan_sharded_route ?p ?c) = Some r"
    by (auto simp: plan_sharded_route_def select_by_text_no_hint select_route_map_def route_map_matches_context_def
        route_map_matches_explicit_hint_def plan_in_map_def select_route_for_shard_key_def choose_shard_route_def
        route_map_store_new_def example_map_def Let_def)
  from shard_plan_sound [OF r] r k show ?thesis by (auto simp: route_map_store_new_def select_by_text_no_hint)
qed

end
