(* ===== verification/Lifecycle.thy ===== *)
theory Lifecycle
  imports Rust_Std Routing_Model Interleaving
begin

text \<open>
  The life of the proxy process: the vocabulary of \<open>cluster/runtime.rs\<close>, the drain controller of
  \<open>ops/drain.rs\<close>, the lifecycle controller with its probes and shutdown of \<open>ops/lifecycle.rs\<close>,
  and the pause switch of \<open>ops/pause.rs\<close>. Publishing to watchers and metrics is left out; instants
  and durations are numbers.

  The interleavings of \<open>drain_step\<close> are sequentially consistent: every task sees the accesses to the
  state and to the counter of active clients in one order. The code writes the one and reads the
  other with release and acquire accesses only, which on hardware with store buffers allows more.

  Shown: every operation moves the lifecycle along a permitted transition and keeps the readiness
  in step with it; once a drain has completed no client is ever served again, whatever the
  interleaving; and one way in which draining goes wrong: a client that is turned away late can
  swallow the wake-up of the waiter.
\<close>

section \<open>Vocabulary\<close>

datatype runtime_lifecycle_state =
    RLS_Starting
  | RLS_Ready
  | RLS_Draining
  | RLS_Stopping
  | RLS_Stopped

fun runtime_lifecycle_state_as_str :: "runtime_lifecycle_state \<Rightarrow> rstr" where
  "runtime_lifecycle_state_as_str RLS_Starting = lit ''starting''"
| "runtime_lifecycle_state_as_str RLS_Ready = lit ''ready''"
| "runtime_lifecycle_state_as_str RLS_Draining = lit ''draining''"
| "runtime_lifecycle_state_as_str RLS_Stopping = lit ''stopping''"
| "runtime_lifecycle_state_as_str RLS_Stopped = lit ''stopped''"

interpretation runtime_lifecycle_state: labelled runtime_lifecycle_state_as_str
proof unfold_locales
  fix x y show "runtime_lifecycle_state_as_str x = runtime_lifecycle_state_as_str y \<Longrightarrow> x = y"
    by (cases x; cases y) (simp_all add: lit_def)
qed

datatype readiness_state = RS_Ready | RS_NotReady | RS_Draining

fun readiness_state_as_str :: "readiness_state \<Rightarrow> rstr" where
  "readiness_state_as_str RS_Ready = lit ''ready''"
| "readiness_state_as_str RS_NotReady = lit ''not_ready''"
| "readiness_state_as_str RS_Draining = lit ''draining''"

interpretation readiness_state: labelled readiness_state_as_str
proof unfold_locales
  fix x y show "readiness_state_as_str x = readiness_state_as_str y \<Longrightarrow> x = y"
    by (cases x; cases y) (simp_all add: lit_def)
qed

datatype shutdown_reason =
    SDR_Signal
  | SDR_AdminRequest
  | SDR_PreStopHook
  | SDR_StartupFailure
  | SDR_RuntimeFailure

fun shutdown_reason_as_str :: "shutdown_reason \<Rightarrow> rstr" where
  "shutdown_reason_as_str SDR_Signal = lit ''signal''"
| "shutdown_reason_as_str SDR_AdminRequest = lit ''admin_request''"
| "shutdown_reason_as_str SDR_PreStopHook = lit ''pre_stop_hook''"
| "shutdown_reason_as_str SDR_StartupFailure = lit ''startup_failure''"
| "shutdown_reason_as_str SDR_RuntimeFailure = lit ''runtime_failure''"

interpretation shutdown_reason: labelled shutdown_reason_as_str
proof unfold_locales
  fix x y show "shutdown_reason_as_str x = shutdown_reason_as_str y \<Longrightarrow> x = y"
    by (cases x; cases y) (simp_all add: lit_def)
qed

datatype runtime_engine =
    REN_TokioDefault
  | REN_TokioCurrentThread
  | REN_ThreadPerCore
  | REN_IoUring

fun runtime_engine_as_str :: "runtime_engine \<Rightarrow> rstr" where
  "runtime_engine_as_str REN_TokioDefault = lit ''tokio_default''"
| "runtime_engine_as_str REN_TokioCurrentThread = lit ''tokio_current_thread''"
| "runtime_engine_as_str REN_ThreadPerCore = lit ''thread_per_core''"
| "runtime_engine_as_str REN_IoUring = lit ''io_uring''"

interpretation runtime_engine: labelled runtime_engine_as_str
proof unfold_locales
  fix x y show "runtime_engine_as_str x = runtime_engine_as_str y \<Longrightarrow> x = y"
    by (cases x; cases y) (simp_all add: lit_def)
qed

datatype runtime_engine_status = RES_Stable | RES_Experimental | RES_Unsupported

fun runtime_engine_status_as_str :: "runtime_engine_status \<Rightarrow> rstr" where
  "runtime_engine_status_as_str RES_Stable = lit ''stable''"
| "runtime_engine_status_as_str RES_Experimental = lit ''experimental''"
| "runtime_engine_status_as_str RES_Unsupported = lit ''unsupported''"

interpretation runtime_engine_status: labelled runtime_engine_status_as_str
proof unfold_locales
  fix x y show "runtime_engine_status_as_str x = runtime_engine_status_as_str y \<Longrightarrow> x = y"
    by (cases x; cases y) (simp_all add: lit_def)
qed

datatype runtime_preflight_status = RPS_Passed | RPS_Warning | RPS_Failed

fun runtime_preflight_status_as_str :: "runtime_preflight_status \<Rightarrow> rstr" where
  "runtime_preflight_status_as_str RPS_Passed = lit ''passed''"
| "runtime_preflight_status_as_str RPS_Warning = lit ''warning''"
| "runtime_preflight_status_as_str RPS_Failed = lit ''failed''"

interpretation runtime_preflight_status: labelled runtime_preflight_status_as_str
proof unfold_locales
  fix x y show "runtime_preflight_status_as_str x = runtime_preflight_status_as_str y \<Longrightarrow> x = y"
    by (cases x; cases y) (simp_all add: lit_def)
qed

fun can_transition_to :: "runtime_lifecycle_state \<Rightarrow> runtime_lifecycle_state \<Rightarrow> bool" where
  "can_transition_to RLS_Starting RLS_Ready = True"
| "can_transition_to RLS_Starting RLS_Stopping = True"
| "can_transition_to RLS_Ready RLS_Draining = True"
| "can_transition_to RLS_Ready RLS_Stopping = True"
| "can_transition_to RLS_Draining RLS_Stopping = True"
| "can_transition_to RLS_Stopping RLS_Stopped = True"
| "can_transition_to _ _ = False"

record lifecycle_transition =
  lt_from :: runtime_lifecycle_state
  lt_to :: runtime_lifecycle_state

datatype lifecycle_transition_error = LTE_InvalidTransition runtime_lifecycle_state runtime_lifecycle_state

definition lifecycle_transition_new ::
  "runtime_lifecycle_state \<Rightarrow> runtime_lifecycle_state \<Rightarrow> lifecycle_transition_error + lifecycle_transition" where
  "lifecycle_transition_new from to =
     (if can_transition_to from to then Inr \<lparr>lt_from = from, lt_to = to\<rparr>
      else Inl (LTE_InvalidTransition from to))"

definition engine_status :: "runtime_engine \<Rightarrow> runtime_engine_status" where
  "engine_status e = RES_Stable"

datatype node_id = NodeId (node_id_str: rstr)

datatype node_id_validation_error = EmptyNodeId

definition node_id_new :: "rstr \<Rightarrow> node_id_validation_error + node_id" where
  "node_id_new value = (if value = [] then Inl EmptyNodeId else Inr (NodeId value))"

record node_metadata =
  nm_node_id :: node_id
  nm_hostname :: rstr
  nm_process_id :: nat

section \<open>The drain controller\<close>

datatype drain_state = DS_Accepting | DS_Draining | DS_Drained

fun drain_state_to_u8 :: "drain_state \<Rightarrow> u8" where
  "drain_state_to_u8 DS_Accepting = 0"
| "drain_state_to_u8 DS_Draining = 1"
| "drain_state_to_u8 DS_Drained = 2"

definition drain_state_from_u8 :: "u8 \<Rightarrow> drain_state" where
  "drain_state_from_u8 b = (if b = 0 then DS_Accepting else if b = 1 then DS_Draining else DS_Drained)"

record drain_controller =
  dc_state :: drain_state
  dc_active_clients :: nat
  dc_drain_started_at :: "nat option"
  dc_drain_deadline :: "nat option"

definition drain_controller_new :: drain_controller where
  "drain_controller_new =
     \<lparr>dc_state = DS_Accepting, dc_active_clients = 0, dc_drain_started_at = None, dc_drain_deadline = None\<rparr>"

definition dc_is_accepting :: "drain_controller \<Rightarrow> bool" where
  "dc_is_accepting d \<longleftrightarrow> dc_state d = DS_Accepting"

definition dc_begin_drain :: "nat \<Rightarrow> nat \<Rightarrow> drain_controller \<Rightarrow> bool \<times> drain_controller" where
  "dc_begin_drain now timeout d =
     (if dc_state d \<noteq> DS_Accepting then (False, d)
      else (True, d\<lparr>dc_state := DS_Draining, dc_drain_started_at := Some now,
                    dc_drain_deadline := Some (now + timeout)\<rparr>))"

definition dc_finish_drain :: "drain_controller \<Rightarrow> drain_controller" where
  "dc_finish_drain d = d\<lparr>dc_state := DS_Drained\<rparr>"

text \<open>\<open>try_enter_client\<close> without interference, and the drop of the guard it returns.\<close>

definition dc_try_enter_client :: "drain_controller \<Rightarrow> bool \<times> drain_controller" where
  "dc_try_enter_client d =
     (if \<not> dc_is_accepting d then (False, d)
      else
        (let d' = d\<lparr>dc_active_clients := dc_active_clients d + 1\<rparr> in
         if dc_is_accepting d' then (True, d')
         else (False, d'\<lparr>dc_active_clients := dc_active_clients d' - 1\<rparr>)))"

definition dc_leave_client :: "drain_controller \<Rightarrow> drain_controller" where
  "dc_leave_client d = d\<lparr>dc_active_clients := dc_active_clients d - 1\<rparr>"

section \<open>The lifecycle controller\<close>

record lifecycle_state =
  ls_lifecycle :: runtime_lifecycle_state
  ls_readiness :: readiness_state
  ls_listeners_initialized :: bool
  ls_backend_pools_initialized :: bool
  ls_active_sessions :: nat
  ls_shutdown_reason :: "shutdown_reason option"
  ls_transition_count :: nat
  ls_force_close_requested :: bool

record readiness_gate =
  rg_readiness_fail_during_drain :: bool
  rg_startup_backend_checks_enabled :: bool

record lifecycle_controller =
  lc_state :: lifecycle_state
  lc_readiness_gate :: readiness_gate
  lc_drain :: drain_controller
  lc_drain_grace :: nat
  lc_shutdown_grace :: nat
  lc_force_close :: bool

definition startup_ready :: "readiness_gate \<Rightarrow> bool \<Rightarrow> bool \<Rightarrow> bool" where
  "startup_ready g listeners backends \<longleftrightarrow>
     listeners \<and> (\<not> rg_startup_backend_checks_enabled g \<or> backends)"

definition readiness_evaluate :: "readiness_gate \<Rightarrow> runtime_lifecycle_state \<Rightarrow> bool \<Rightarrow> bool \<Rightarrow> readiness_state" where
  "readiness_evaluate g lifecycle listeners backends =
     (if lifecycle = RLS_Ready \<and> startup_ready g listeners backends then RS_Ready
      else if lifecycle = RLS_Draining \<and> \<not> rg_readiness_fail_during_drain g then RS_Draining
      else RS_NotReady)"

definition lifecycle_controller_new :: "drain_controller \<Rightarrow> nat \<Rightarrow> nat \<Rightarrow> bool \<Rightarrow> lifecycle_controller" where
  "lifecycle_controller_new drain drain_grace shutdown_grace fail_during_drain =
     \<lparr>lc_state = \<lparr>ls_lifecycle = RLS_Starting, ls_readiness = RS_NotReady, ls_listeners_initialized = False,
                  ls_backend_pools_initialized = False, ls_active_sessions = 0, ls_shutdown_reason = None,
                  ls_transition_count = 0, ls_force_close_requested = False\<rparr>,
      lc_readiness_gate = \<lparr>rg_readiness_fail_during_drain = fail_during_drain,
                           rg_startup_backend_checks_enabled = True\<rparr>,
      lc_drain = drain, lc_drain_grace = drain_grace, lc_shutdown_grace = shutdown_grace,
      lc_force_close = False\<rparr>"

text \<open>\<open>state()\<close> reads the active sessions from the drain controller.\<close>

definition lc_read_state :: "lifecycle_controller \<Rightarrow> lifecycle_state" where
  "lc_read_state c = (lc_state c)\<lparr>ls_active_sessions := dc_active_clients (lc_drain c)\<rparr>"

definition lc_update ::
  "(lifecycle_state \<Rightarrow> lifecycle_state) \<Rightarrow> lifecycle_controller \<Rightarrow> bool \<times> lifecycle_controller" where
  "lc_update f c =
     (let s = f (lc_state c);
          s' = s\<lparr>ls_readiness := readiness_evaluate (lc_readiness_gate c) (ls_lifecycle s)
                   (ls_listeners_initialized s) (ls_backend_pools_initialized s),
                 ls_active_sessions := dc_active_clients (lc_drain c)\<rparr>;
          c' = c\<lparr>lc_state := s'\<rparr>
      in (lc_read_state c' \<noteq> lc_read_state c, c'))"

definition ls_move :: "runtime_lifecycle_state \<Rightarrow> lifecycle_state \<Rightarrow> lifecycle_state" where
  "ls_move to s = s\<lparr>ls_lifecycle := to, ls_transition_count := sat_add64 (ls_transition_count s) 1\<rparr>"

definition maybe_mark_ready :: "lifecycle_controller \<Rightarrow> lifecycle_controller" where
  "maybe_mark_ready c =
     (let ready = startup_ready (lc_readiness_gate c) (ls_listeners_initialized (lc_state c))
                    (ls_backend_pools_initialized (lc_state c))
      in snd (lc_update (\<lambda>s. if ls_lifecycle s = RLS_Starting \<and> ready then ls_move RLS_Ready s else s) c))"

definition mark_listeners_initialized :: "lifecycle_controller \<Rightarrow> lifecycle_controller" where
  "mark_listeners_initialized c =
     maybe_mark_ready (snd (lc_update (\<lambda>s. s\<lparr>ls_listeners_initialized := True\<rparr>) c))"

definition mark_backend_pools_initialized :: "lifecycle_controller \<Rightarrow> lifecycle_controller" where
  "mark_backend_pools_initialized c =
     maybe_mark_ready (snd (lc_update (\<lambda>s. s\<lparr>ls_backend_pools_initialized := True\<rparr>) c))"

definition lc_configure :: "nat \<Rightarrow> nat \<Rightarrow> bool \<Rightarrow> lifecycle_controller \<Rightarrow> lifecycle_controller" where
  "lc_configure drain_grace shutdown_grace fail_during_drain c =
     snd (lc_update (\<lambda>s. s)
       (c\<lparr>lc_drain_grace := drain_grace, lc_shutdown_grace := shutdown_grace,
          lc_readiness_gate := (lc_readiness_gate c)\<lparr>rg_readiness_fail_during_drain := fail_during_drain\<rparr>\<rparr>))"

definition configure_startup_backend_checks :: "bool \<Rightarrow> lifecycle_controller \<Rightarrow> lifecycle_controller" where
  "configure_startup_backend_checks enabled c =
     maybe_mark_ready
       (c\<lparr>lc_readiness_gate := (lc_readiness_gate c)\<lparr>rg_startup_backend_checks_enabled := enabled\<rparr>\<rparr>)"

definition lc_begin_drain :: "nat \<Rightarrow> shutdown_reason \<Rightarrow> lifecycle_controller \<Rightarrow> bool \<times> lifecycle_controller" where
  "lc_begin_drain now reason c =
     (let (began, drain) = dc_begin_drain now (lc_drain_grace c) (lc_drain c);
          (transitioned, c') =
            lc_update (\<lambda>s.
              (let s' = (if ls_lifecycle s = RLS_Ready then ls_move RLS_Draining s else s) in
               if ls_shutdown_reason s' = None then s'\<lparr>ls_shutdown_reason := Some reason\<rparr> else s'))
              (c\<lparr>lc_drain := drain\<rparr>)
      in (began \<or> transitioned, c'))"

definition mark_stopping :: "lifecycle_controller \<Rightarrow> lifecycle_controller" where
  "mark_stopping c =
     snd (lc_update (\<lambda>s. if ls_lifecycle s \<in> {RLS_Starting, RLS_Ready, RLS_Draining}
                         then ls_move RLS_Stopping s else s) c)"

definition request_force_close :: "lifecycle_controller \<Rightarrow> lifecycle_controller" where
  "request_force_close c =
     (snd (lc_update (\<lambda>s. s\<lparr>ls_force_close_requested := True\<rparr>) c))\<lparr>lc_force_close := True\<rparr>"

definition mark_stopped :: "lifecycle_controller \<Rightarrow> lifecycle_controller" where
  "mark_stopped c =
     snd (lc_update (\<lambda>s. if ls_lifecycle s = RLS_Stopping then ls_move RLS_Stopped s else s)
       (c\<lparr>lc_drain := dc_finish_drain (lc_drain c)\<rparr>))"

text \<open>Sessions, through \<open>DrainToken\<close> and the guard it returns.\<close>

definition token_is_accepting :: "lifecycle_controller \<Rightarrow> bool" where
  "token_is_accepting c \<longleftrightarrow> dc_is_accepting (lc_drain c) \<and> ls_lifecycle (lc_state c) = RLS_Ready"

definition token_try_enter :: "lifecycle_controller \<Rightarrow> bool \<times> lifecycle_controller" where
  "token_try_enter c =
     (if \<not> token_is_accepting c then (False, c)
      else (let (entered, d) = dc_try_enter_client (lc_drain c) in (entered, c\<lparr>lc_drain := d\<rparr>)))"

definition session_guard_drop :: "lifecycle_controller \<Rightarrow> lifecycle_controller" where
  "session_guard_drop c = c\<lparr>lc_drain := dc_leave_client (lc_drain c)\<rparr>"

section \<open>Probes and shutdown\<close>

datatype probe_status = PS_Healthy | PS_Unhealthy

fun probe_status_code :: "probe_status \<Rightarrow> nat" where
  "probe_status_code PS_Healthy = 200"
| "probe_status_code PS_Unhealthy = 503"

record lifecycle_probe =
  lp_status :: probe_status
  lp_lifecycle :: runtime_lifecycle_state
  lp_readiness :: readiness_state

definition lifecycle_probe_of :: "probe_status \<Rightarrow> lifecycle_state \<Rightarrow> lifecycle_probe" where
  "lifecycle_probe_of status s =
     \<lparr>lp_status = status, lp_lifecycle = ls_lifecycle s, lp_readiness = ls_readiness s\<rparr>"

record kubernetes_lifecycle =
  kl_controller :: lifecycle_controller
  kl_pre_stop_drain_enabled :: bool
  kl_pre_stop_drain_endpoint :: rstr
  kl_termination_grace_period :: nat

definition readiness_probe :: "kubernetes_lifecycle \<Rightarrow> lifecycle_probe" where
  "readiness_probe k =
     (let s = lc_read_state (kl_controller k) in
      lifecycle_probe_of (if ls_readiness s \<in> {RS_Ready, RS_Draining} then PS_Healthy else PS_Unhealthy) s)"

definition liveness_probe :: "kubernetes_lifecycle \<Rightarrow> lifecycle_probe" where
  "liveness_probe k =
     (let s = lc_read_state (kl_controller k) in
      lifecycle_probe_of (if ls_lifecycle s = RLS_Stopped then PS_Unhealthy else PS_Healthy) s)"

definition startup_probe :: "kubernetes_lifecycle \<Rightarrow> lifecycle_probe" where
  "startup_probe k =
     (let s = lc_read_state (kl_controller k) in
      lifecycle_probe_of (if ls_lifecycle s \<in> {RLS_Ready, RLS_Draining} then PS_Healthy else PS_Unhealthy) s)"

datatype pre_stop_drain_outcome = PSD_Disabled | PSD_EndpointMismatch | PSD_DrainStarted | PSD_AlreadyDraining

definition handle_pre_stop ::
  "nat \<Rightarrow> rstr \<Rightarrow> kubernetes_lifecycle \<Rightarrow> pre_stop_drain_outcome \<times> kubernetes_lifecycle" where
  "handle_pre_stop now endpoint k =
     (if \<not> kl_pre_stop_drain_enabled k then (PSD_Disabled, k)
      else if endpoint \<noteq> kl_pre_stop_drain_endpoint k then (PSD_EndpointMismatch, k)
      else
        (let (started, c) = lc_begin_drain now SDR_PreStopHook (kl_controller k) in
         (if started then PSD_DrainStarted else PSD_AlreadyDraining, k\<lparr>kl_controller := c\<rparr>)))"

datatype drain_outcome = DO_Completed | DO_TimedOut

record shutdown_outcome =
  so_drain_outcome :: drain_outcome
  so_forced_sessions :: nat

text \<open>
  \<open>coordinate\<close>, after the wait for the drain has ended with the given outcome and, when it timed
  out, after the shutdown grace has passed; sessions may have left in the meantime.
\<close>

definition coordinate_after_wait ::
  "drain_outcome \<Rightarrow> nat \<Rightarrow> lifecycle_controller \<Rightarrow> shutdown_outcome \<times> lifecycle_controller" where
  "coordinate_after_wait outcome left_during_grace c =
     (let c1 = mark_stopping c in
      if outcome = DO_TimedOut then
        (let c2 = c1\<lparr>lc_drain := (lc_drain c1)
                      \<lparr>dc_active_clients := dc_active_clients (lc_drain c1) - left_during_grace\<rparr>\<rparr>;
             active = dc_active_clients (lc_drain c2)
         in (\<lparr>so_drain_outcome = outcome, so_forced_sessions = active\<rparr>,
             if active > 0 then request_force_close c2 else c2))
      else (\<lparr>so_drain_outcome = outcome, so_forced_sessions = 0\<rparr>, c1))"

section \<open>Pausing\<close>

record pause_controller =
  pac_paused :: bool

definition pc_pause :: "pause_controller \<Rightarrow> pause_controller" where
  "pc_pause p = p\<lparr>pac_paused := True\<rparr>"

definition pc_resume :: "pause_controller \<Rightarrow> pause_controller" where
  "pc_resume p = p\<lparr>pac_paused := False\<rparr>"

section \<open>Transitions of the lifecycle\<close>

text \<open>The operations on the controller, as events.\<close>

datatype lifecycle_event =
    LE_Listeners | LE_Backends | LE_Configure nat nat bool | LE_StartupChecks bool
  | LE_BeginDrain nat shutdown_reason | LE_Enter | LE_Leave | LE_Stopping | LE_ForceClose | LE_Stopped

fun lifecycle_apply :: "lifecycle_event \<Rightarrow> lifecycle_controller \<Rightarrow> lifecycle_controller" where
  "lifecycle_apply LE_Listeners c = mark_listeners_initialized c"
| "lifecycle_apply LE_Backends c = mark_backend_pools_initialized c"
| "lifecycle_apply (LE_Configure d s f) c = lc_configure d s f c"
| "lifecycle_apply (LE_StartupChecks e) c = configure_startup_backend_checks e c"
| "lifecycle_apply (LE_BeginDrain now r) c = snd (lc_begin_drain now r c)"
| "lifecycle_apply LE_Enter c = snd (token_try_enter c)"
| "lifecycle_apply LE_Leave c = session_guard_drop c"
| "lifecycle_apply LE_Stopping c = mark_stopping c"
| "lifecycle_apply LE_ForceClose c = request_force_close c"
| "lifecycle_apply LE_Stopped c = mark_stopped c"

definition lifecycle_run :: "lifecycle_event list \<Rightarrow> lifecycle_controller \<Rightarrow> lifecycle_controller" where
  "lifecycle_run es c = fold lifecycle_apply es c"

definition readiness_in_step :: "lifecycle_controller \<Rightarrow> bool" where
  "readiness_in_step c \<longleftrightarrow>
     ls_readiness (lc_state c) =
       readiness_evaluate (lc_readiness_gate c) (ls_lifecycle (lc_state c))
         (ls_listeners_initialized (lc_state c)) (ls_backend_pools_initialized (lc_state c))"

lemmas lifecycle_op_defs =
  mark_listeners_initialized_def mark_backend_pools_initialized_def lc_configure_def
  configure_startup_backend_checks_def lc_begin_drain_def token_try_enter_def session_guard_drop_def
  mark_stopping_def request_force_close_def mark_stopped_def maybe_mark_ready_def

lemma lc_update_fields [simp]:
  "lc_state (snd (lc_update f c)) =
     (f (lc_state c))\<lparr>ls_readiness := readiness_evaluate (lc_readiness_gate c) (ls_lifecycle (f (lc_state c)))
                   (ls_listeners_initialized (f (lc_state c))) (ls_backend_pools_initialized (f (lc_state c))),
                 ls_active_sessions := dc_active_clients (lc_drain c)\<rparr>"
  "lc_readiness_gate (snd (lc_update f c)) = lc_readiness_gate c"
  "lc_drain (snd (lc_update f c)) = lc_drain c"
  by (simp_all add: lc_update_def Let_def)

lemma ls_move_fields [simp]:
  "ls_lifecycle (ls_move to s) = to"
  "ls_listeners_initialized (ls_move to s) = ls_listeners_initialized s"
  "ls_backend_pools_initialized (ls_move to s) = ls_backend_pools_initialized s"
  "ls_shutdown_reason (ls_move to s) = ls_shutdown_reason s"
  by (simp_all add: ls_move_def)

lemma lifecycle_apply_legal:
  "ls_lifecycle (lc_state (lifecycle_apply e c)) = ls_lifecycle (lc_state c)
   \<or> can_transition_to (ls_lifecycle (lc_state c)) (ls_lifecycle (lc_state (lifecycle_apply e c)))"
  by (cases e; cases "ls_lifecycle (lc_state c)")
     (auto simp: lifecycle_op_defs Let_def split_beta)

lemma lifecycle_apply_in_step: "readiness_in_step c \<Longrightarrow> readiness_in_step (lifecycle_apply e c)"
  by (cases e) (auto simp: lifecycle_op_defs readiness_in_step_def Let_def split_beta)

lemma lifecycle_run_in_step: "readiness_in_step c \<Longrightarrow> readiness_in_step (lifecycle_run es c)"
  unfolding lifecycle_run_def by (induction es arbitrary: c) (simp_all add: lifecycle_apply_in_step)

lemma new_in_step: "readiness_in_step (lifecycle_controller_new d dg sg f)"
  by (simp add: readiness_in_step_def lifecycle_controller_new_def readiness_evaluate_def)

text \<open>
  After any sequence of operations on a new controller the readiness is the one the readiness
  gate computes from the lifecycle, and the next operation leaves the lifecycle as it is or moves it
  along a permitted transition. So a process that is stopping never becomes ready again.
\<close>

lemma lifecycle_moves_legally:
  "let c = lifecycle_run es (lifecycle_controller_new d dg sg f) in
   readiness_in_step c
   \<and> (ls_lifecycle (lc_state (lifecycle_apply e c)) = ls_lifecycle (lc_state c)
      \<or> can_transition_to (ls_lifecycle (lc_state c)) (ls_lifecycle (lc_state (lifecycle_apply e c))))"
  using lifecycle_apply_legal lifecycle_run_in_step [OF new_in_step] by (simp add: Let_def)

section \<open>Entering, leaving and waiting, interleaved\<close>

text \<open>
  Where a client task stands in \<open>try_enter_client\<close> and in the drop of its guard, named after what
  it does next; \<open>DP_Left\<close> carries whether the counter fell to zero.
\<close>

datatype drain_point = DP_Check | DP_Count | DP_Recheck | DP_Inside | DP_Undo | DP_Left bool

text \<open>Where the shutdown coordinator stands in \<open>wait_for_completion\<close>.\<close>

datatype drain_waiter = DW_Idle | DW_Test | DW_Register | DW_Waiting | DW_Done drain_outcome

fun notify_waiters :: "drain_waiter \<Rightarrow> drain_waiter" where
  "notify_waiters DW_Waiting = DW_Test"
| "notify_waiters w = w"

type_synonym drain_system = "drain_controller \<times> drain_point multiset \<times> drain_waiter"

inductive drain_step :: "drain_system \<Rightarrow> drain_system \<Rightarrow> bool" where
  arrive: "drain_step (d, ts, w) (d, add_mset DP_Check ts, w)"
| check_accepting: "dc_is_accepting d \<Longrightarrow> drain_step (d, add_mset DP_Check ts, w) (d, add_mset DP_Count ts, w)"
| check_refused: "\<not> dc_is_accepting d \<Longrightarrow> drain_step (d, add_mset DP_Check ts, w) (d, ts, w)"
| count: "drain_step (d, add_mset DP_Count ts, w)
    (d\<lparr>dc_active_clients := dc_active_clients d + 1\<rparr>, add_mset DP_Recheck ts, w)"
| recheck_accepting: "dc_is_accepting d \<Longrightarrow>
    drain_step (d, add_mset DP_Recheck ts, w) (d, add_mset DP_Inside ts, w)"
| recheck_refused: "\<not> dc_is_accepting d \<Longrightarrow>
    drain_step (d, add_mset DP_Recheck ts, w) (d, add_mset DP_Undo ts, w)"
| undo: "drain_step (d, add_mset DP_Undo ts, w) (d\<lparr>dc_active_clients := dc_active_clients d - 1\<rparr>, ts, w)"
| leave: "drain_step (d, add_mset DP_Inside ts, w)
    (dc_leave_client d, add_mset (DP_Left (dc_active_clients d - 1 = 0)) ts, w)"
| left: "drain_step (d, add_mset (DP_Left z) ts, w)
    (d, ts, if z \<and> dc_state d = DS_Draining then notify_waiters w else w)"
| begin_drain: "drain_step (d, ts, w)
    (snd (dc_begin_drain now timeout d), ts, if fst (dc_begin_drain now timeout d) then notify_waiters w else w)"
| wait_start: "dc_drain_deadline d \<noteq> None \<Longrightarrow> drain_step (d, ts, DW_Idle) (d, ts, DW_Test)"
| wait_empty: "dc_active_clients d = 0 \<Longrightarrow> drain_step (d, ts, DW_Test) (d, ts, DW_Done DO_Completed)"
| wait_busy: "dc_active_clients d \<noteq> 0 \<Longrightarrow> drain_step (d, ts, DW_Test) (d, ts, DW_Register)"
| wait_register: "drain_step (d, ts, DW_Register) (d, ts, DW_Waiting)"
| wait_deadline: "drain_step (d, ts, DW_Waiting) (d, ts, DW_Done DO_TimedOut)"
| finish_drain: "drain_step (d, ts, DW_Done out) (dc_finish_drain d, ts, DW_Done out)"

definition drain_start :: drain_system where
  "drain_start = (drain_controller_new, {#}, DW_Idle)"

abbreviation drain_reachable :: "drain_system \<Rightarrow> bool" where
  "drain_reachable \<equiv> drain_step\<^sup>*\<^sup>* drain_start"

fun dp_counted :: "drain_point \<Rightarrow> bool" where
  "dp_counted DP_Recheck = True"
| "dp_counted DP_Inside = True"
| "dp_counted DP_Undo = True"
| "dp_counted _ = False"

fun drain_invariant :: "drain_system \<Rightarrow> bool" where
  "drain_invariant (d, ts, w) \<longleftrightarrow>
     dc_active_clients d = tasks_where dp_counted ts
     \<and> (dc_is_accepting d \<longleftrightarrow> dc_drain_deadline d = None)
     \<and> (w \<noteq> DW_Idle \<longrightarrow> \<not> dc_is_accepting d)
     \<and> (w = DW_Done DO_Completed \<longrightarrow> DP_Inside \<notin># ts)"

lemma notify_waiters_iff [simp]:
  "notify_waiters w = DW_Idle \<longleftrightarrow> w = DW_Idle"
  "notify_waiters w = DW_Done out \<longleftrightarrow> w = DW_Done out"
  by (cases w; simp)+

lemma drain_step_invariant: "drain_step s s' \<Longrightarrow> drain_invariant s \<Longrightarrow> drain_invariant s'"
  by (induction rule: drain_step.induct)
     (auto simp: dc_leave_client_def dc_begin_drain_def dc_finish_drain_def dc_is_accepting_def
           filter_empty_mset)

interpretation draining: step_invariant drain_step drain_invariant
  by unfold_locales (rule drain_step_invariant)

lemma drain_start_invariant: "drain_invariant drain_start"
  by (simp add: drain_start_def drain_controller_new_def dc_is_accepting_def)

text \<open>
  C21. Once the wait for a drain has ended as completed, no client is being served, in that state and
  in every later one, however entries, exits, refusals and the drain itself interleave, their
  accesses to the shared state being seen in one order by all; and the
  counter of active clients is exact throughout.
\<close>

theorem completed_drain_stays_empty:
  assumes "drain_reachable (d, ts, w)"
  shows "dc_active_clients d = tasks_where dp_counted ts
    \<and> (w = DW_Done DO_Completed \<longrightarrow> DP_Inside \<notin># ts \<and> \<not> dc_is_accepting d)"
  using draining.run_invariant [OF assms drain_start_invariant] by auto

text \<open>A run in which one client is served while another, already past its first check, is counted.\<close>

definition draining_with :: "nat \<Rightarrow> nat \<Rightarrow> drain_controller" where
  "draining_with timeout n =
     \<lparr>dc_state = DS_Draining, dc_active_clients = n, dc_drain_started_at = Some 0,
      dc_drain_deadline = Some timeout\<rparr>"

abbreviation accepting_with :: "nat \<Rightarrow> drain_controller" where
  "accepting_with n \<equiv> drain_controller_new\<lparr>dc_active_clients := n\<rparr>"

lemmas drain_reach = run_step [where step = drain_step]

lemma accepting_with_simps [simp]:
  "dc_is_accepting drain_controller_new" "dc_is_accepting (accepting_with n)" "drain_controller_new\<lparr>dc_active_clients := 0\<rparr> = drain_controller_new"
  "dc_active_clients (accepting_with n) = n"
  by (simp_all add: dc_is_accepting_def drain_controller_new_def)

lemma draining_with_simps [simp]:
  "\<not> dc_is_accepting (draining_with t n)" "dc_active_clients (draining_with t n) = n"
  "dc_state (draining_with t n) = DS_Draining" "dc_drain_deadline (draining_with t n) = Some t"
  "(draining_with t n)\<lparr>dc_active_clients := m\<rparr> = draining_with t m"
  "dc_leave_client (draining_with t n) = draining_with t (n - 1)"
  by (simp_all add: draining_with_def dc_is_accepting_def dc_leave_client_def)

lemma begin_accepting: "dc_begin_drain 0 t (accepting_with n) = (True, draining_with t n)"
  by (simp add: dc_begin_drain_def drain_controller_new_def draining_with_def)

lemma drain_run_entering: "drain_reachable (accepting_with 1, {#DP_Inside, DP_Count#}, DW_Idle)"
proof -
  have "drain_reachable (accepting_with 0, {#DP_Check#}, DW_Idle)"
    using drain_reach [OF rtranclp.rtrancl_refl drain_step.arrive] by (simp add: drain_start_def)
  then have "drain_reachable (accepting_with 0, {#DP_Count#}, DW_Idle)"
    by (rule drain_reach [OF _ drain_step.check_accepting]) simp
  from drain_reach [OF this drain_step.count]
  have "drain_reachable (accepting_with 1, {#DP_Recheck#}, DW_Idle)"
    by (simp add: drain_controller_new_def)
  then have "drain_reachable (accepting_with 1, {#DP_Inside#}, DW_Idle)"
    by (rule drain_reach [OF _ drain_step.recheck_accepting]) simp
  from drain_reach [OF this drain_step.arrive]
  have "drain_reachable (accepting_with 1, {#DP_Check, DP_Inside#}, DW_Idle)" .
  from drain_reach [OF this drain_step.check_accepting] show ?thesis
    by (simp add: add_mset_commute)
qed

lemma drain_run_begun: "drain_reachable (draining_with t 2, {#DP_Inside, DP_Recheck#}, DW_Test)"
proof -
  from drain_reach [OF drain_run_entering drain_step.begin_drain [where now = 0 and timeout = t]]
  have "drain_reachable (draining_with t 1, {#DP_Count, DP_Inside#}, DW_Idle)"
    by (simp add: begin_accepting add_mset_commute)
  from drain_reach [OF this drain_step.count]
  have "drain_reachable (draining_with t 2, {#DP_Recheck, DP_Inside#}, DW_Idle)" by (simp add: numeral_2_eq_2)
  from drain_reach [OF this drain_step.wait_start] show ?thesis by (simp add: add_mset_commute)
qed

lemma drain_run_lost: "drain_reachable (draining_with t 0, {#}, DW_Waiting)"
proof -
  from drain_reach [OF drain_run_begun drain_step.wait_busy]
  have "drain_reachable (draining_with t 2, {#DP_Inside, DP_Recheck#}, DW_Register)" by simp
  from drain_reach [OF this drain_step.wait_register]
  have "drain_reachable (draining_with t 2, {#DP_Inside, DP_Recheck#}, DW_Waiting)" .
  from drain_reach [OF this drain_step.leave]
  have "drain_reachable (draining_with t 1, {#DP_Left False, DP_Recheck#}, DW_Waiting)" by simp
  from drain_reach [OF this drain_step.left]
  have "drain_reachable (draining_with t 1, {#DP_Recheck#}, DW_Waiting)" by simp
  from drain_reach [OF this drain_step.recheck_refused]
  have "drain_reachable (draining_with t 1, {#DP_Undo#}, DW_Waiting)" by simp
  from drain_reach [OF this drain_step.undo] show ?thesis by simp
qed

lemma drain_run_completed: "drain_reachable (draining_with t 0, {#}, DW_Done DO_Completed)"
proof -
  have "drain_reachable (accepting_with 0, {#}, DW_Idle)" by (simp add: drain_start_def)
  from drain_reach [OF this drain_step.begin_drain [where now = 0 and timeout = t]]
  have "drain_reachable (draining_with t 0, {#}, DW_Idle)" by (simp add: begin_accepting del: accepting_with_simps(3))
  from drain_reach [OF this drain_step.wait_start] have "drain_reachable (draining_with t 0, {#}, DW_Test)" by simp
  from drain_reach [OF this drain_step.wait_empty] show ?thesis by simp
qed

theorem completed_drain_stays_empty_witness:
  "drain_reachable (draining_with 5 0, {#}, DW_Done DO_Completed)
   \<and> dc_active_clients (draining_with 5 0) = tasks_where dp_counted {#}
   \<and> DP_Inside \<notin># {#} \<and> \<not> dc_is_accepting (draining_with 5 0)"
  using completed_drain_stays_empty [OF drain_run_completed [of 5]] drain_run_completed [of 5] by blast

text \<open>A waiter is stuck when every task that is left will be refused at its first check.\<close>

fun drain_stuck :: "drain_system \<Rightarrow> bool" where
  "drain_stuck (d, ts, w) \<longleftrightarrow>
     \<not> dc_is_accepting d \<and> set_mset ts \<subseteq> {DP_Check} \<and> w \<in> {DW_Waiting, DW_Done DO_TimedOut}"

lemma drain_stuck_step: "drain_step s s' \<Longrightarrow> drain_stuck s \<Longrightarrow> drain_stuck s'"
  by (induction rule: drain_step.induct)
     (auto simp: dc_begin_drain_def dc_finish_drain_def dc_is_accepting_def)

interpretation drain_waiting: step_invariant drain_step drain_stuck
  by unfold_locales (rule drain_stuck_step)

text \<open>
  C38. A wake-up can be lost: there is a reachable state in which the drain has begun, no client task
  is left and the counter is zero, and the waiter still waits; from there the wait never ends as
  completed, it only runs into the deadline. (A client that was counted but is refused at its second
  check takes itself off the counter without notifying, and the client that left before it saw a
  counter above zero.)
\<close>

theorem drain_wakeup_lost:
  "drain_reachable (draining_with t 0, {#}, DW_Waiting)
   \<and> dc_active_clients (draining_with t 0) = 0
   \<and> (\<nexists>d ts. drain_step\<^sup>*\<^sup>* (draining_with t 0, {#}, DW_Waiting) (d, ts, DW_Done DO_Completed))"
  using drain_run_lost drain_waiting.never_reached [of "(draining_with t 0, {#}, DW_Waiting)"] by simp

end
