(* ===== verification/Backpressure.thy ===== *)
theory Backpressure
  imports Rust_Std Route_Key Interleaving "HOL-Library.AList"
begin

text \<open>
  Backpressure, \<open>traffic/backpressure.rs\<close>: the gate that admits a bounded number of checkouts and
  a bounded number of waiters, and the coordinator that gives each route a gate of its own share.

  A checkout is a task that runs through the atomic accesses of \<open>checkout_until\<close> one at a time.
  The tasks of a gate are a multiset of program points, so a step of the relation is any task
  doing its next access, in any order. Deadlines are abstract: a wait may end by notification, by
  its poll interval or by its deadline, or its future may be dropped: the checkout of a pool runs both
  of its gates under a timeout of its own, which ends first when the first gate took time. The
  semaphore may hand a permit to any waiter.

  Shown: under every interleaving, with limits changed at any time, the permits held never exceed
  the largest limit in force, and the counters are exact, where a dropped wait stays counted as a
  waiter for ever.
\<close>

section \<open>Gates\<close>

record backpressure_gate =
  bg_max_in_flight :: nat
  bg_dynamic_limit :: nat
  bg_max_waiters :: nat
  bg_capacity :: nat
  bg_waiters :: nat
  bg_in_flight :: nat

datatype backpressure_error = BE_QueueFull | BE_Timeout | BE_Closed

fun backpressure_error_display :: "backpressure_error \<Rightarrow> rstr" where
  "backpressure_error_display BE_QueueFull = lit ''checkout queue is full''"
| "backpressure_error_display BE_Timeout = lit ''checkout timed out''"
| "backpressure_error_display BE_Closed = lit ''checkout capacity is closed''"

definition gate_new :: "nat \<Rightarrow> nat \<Rightarrow> backpressure_gate" where
  "gate_new max_in_flight max_waiters =
     (let m = max max_in_flight 1 in
      \<lparr>bg_max_in_flight = m, bg_dynamic_limit = m, bg_max_waiters = max_waiters, bg_capacity = m,
       bg_waiters = 0, bg_in_flight = 0\<rparr>)"

definition gate_with_dynamic_limit :: "nat \<Rightarrow> nat \<Rightarrow> nat \<Rightarrow> backpressure_gate" where
  "gate_with_dynamic_limit max_in_flight max_waiters dynamic_limit =
     (let m = max max_in_flight 1 in
      \<lparr>bg_max_in_flight = m, bg_dynamic_limit = min (max dynamic_limit 1) m,
       bg_max_waiters = max_waiters, bg_capacity = m, bg_waiters = 0, bg_in_flight = 0\<rparr>)"

definition gate_limit :: "backpressure_gate \<Rightarrow> nat" where
  "gate_limit g = min (max (bg_dynamic_limit g) 1) (bg_max_in_flight g)"

definition gate_set_limit :: "nat \<Rightarrow> backpressure_gate \<Rightarrow> backpressure_gate" where
  "gate_set_limit limit g = g\<lparr>bg_dynamic_limit := min (max limit 1) (bg_max_in_flight g)\<rparr>"

record route_backpressure_snapshot =
  rbs_in_flight :: nat
  rbs_waiting :: nat

definition gate_snapshot :: "backpressure_gate \<Rightarrow> route_backpressure_snapshot" where
  "gate_snapshot g = \<lparr>rbs_in_flight = bg_in_flight g, rbs_waiting = bg_waiters g\<rparr>"

section \<open>The steps of a checkout\<close>

text \<open>
  Where a task stands, named after what it does next: it tests the limit, tries the semaphore,
  joins the semaphore queue, waits there, leaves it with a permit or on timeout, counts itself,
  compares, holds, gives up the count and the permit, or waits for a change of capacity.
  \<open>GP_Abandoned\<close> stands for a wait whose future was dropped: it does nothing more.
\<close>

datatype gate_point =
    GP_TestLimit
  | GP_TryAcquire
  | GP_JoinQueue
  | GP_QueueOverflow
  | GP_QueueWait
  | GP_QueueAcquired
  | GP_QueueTimeout
  | GP_Count
  | GP_Compare nat
  | GP_Holding
  | GP_ReturnPermit
  | GP_Uncount
  | GP_DropPermit
  | GP_JoinChange
  | GP_ChangeOverflow
  | GP_ChangeWait
  | GP_ChangeDone bool
  | GP_Abandoned
  | GP_Failed backpressure_error

text \<open>One atomic access of one task: the gate before and after, and the point it moves to.\<close>

inductive point_step :: "backpressure_gate \<Rightarrow> gate_point \<Rightarrow> backpressure_gate \<Rightarrow> gate_point \<Rightarrow> bool" where
  full: "bg_in_flight g \<ge> gate_limit g \<Longrightarrow> point_step g GP_TestLimit g GP_JoinChange"
| room: "bg_in_flight g < gate_limit g \<Longrightarrow> point_step g GP_TestLimit g GP_TryAcquire"
| acquire: "0 < bg_capacity g \<Longrightarrow>
    point_step g GP_TryAcquire (g\<lparr>bg_capacity := bg_capacity g - 1\<rparr>) GP_Count"
| no_permits: "bg_capacity g = 0 \<Longrightarrow> point_step g GP_TryAcquire g GP_JoinQueue"
| join_queue: "bg_waiters g < bg_max_waiters g \<Longrightarrow>
    point_step g GP_JoinQueue (g\<lparr>bg_waiters := bg_waiters g + 1\<rparr>) GP_QueueWait"
| queue_full: "bg_waiters g \<ge> bg_max_waiters g \<Longrightarrow>
    point_step g GP_JoinQueue (g\<lparr>bg_waiters := bg_waiters g + 1\<rparr>) GP_QueueOverflow"
| queue_reject: "point_step g GP_QueueOverflow (g\<lparr>bg_waiters := bg_waiters g - 1\<rparr>) (GP_Failed BE_QueueFull)"
| queue_acquire: "0 < bg_capacity g \<Longrightarrow>
    point_step g GP_QueueWait (g\<lparr>bg_capacity := bg_capacity g - 1\<rparr>) GP_QueueAcquired"
| abandon_queue: "point_step g GP_QueueWait g GP_Abandoned"
| queue_deadline: "point_step g GP_QueueWait g GP_QueueTimeout"
| queue_leave: "point_step g GP_QueueAcquired (g\<lparr>bg_waiters := bg_waiters g - 1\<rparr>) GP_Count"
| queue_timeout: "point_step g GP_QueueTimeout (g\<lparr>bg_waiters := bg_waiters g - 1\<rparr>) (GP_Failed BE_Timeout)"
| count: "point_step g GP_Count (g\<lparr>bg_in_flight := bg_in_flight g + 1\<rparr>) (GP_Compare (bg_in_flight g))"
| grant: "previous < gate_limit g \<Longrightarrow> point_step g (GP_Compare previous) g GP_Holding"
| too_many: "previous \<ge> gate_limit g \<Longrightarrow> point_step g (GP_Compare previous) g GP_Uncount"
| uncount: "point_step g GP_Uncount (g\<lparr>bg_in_flight := bg_in_flight g - 1\<rparr>) GP_DropPermit"
| drop_permit: "point_step g GP_DropPermit (g\<lparr>bg_capacity := bg_capacity g + 1\<rparr>) GP_JoinChange"
| join_change: "bg_waiters g < bg_max_waiters g \<Longrightarrow>
    point_step g GP_JoinChange (g\<lparr>bg_waiters := bg_waiters g + 1\<rparr>) GP_ChangeWait"
| change_full: "bg_waiters g \<ge> bg_max_waiters g \<Longrightarrow>
    point_step g GP_JoinChange (g\<lparr>bg_waiters := bg_waiters g + 1\<rparr>) GP_ChangeOverflow"
| change_reject: "point_step g GP_ChangeOverflow (g\<lparr>bg_waiters := bg_waiters g - 1\<rparr>) (GP_Failed BE_QueueFull)"
| change_wake: "point_step g GP_ChangeWait g (GP_ChangeDone ok)"
| abandon_change: "point_step g GP_ChangeWait g GP_Abandoned"
| change_again: "point_step g (GP_ChangeDone True) (g\<lparr>bg_waiters := bg_waiters g - 1\<rparr>) GP_TestLimit"
| change_timeout: "point_step g (GP_ChangeDone False) (g\<lparr>bg_waiters := bg_waiters g - 1\<rparr>) (GP_Failed BE_Timeout)"
| release: "point_step g GP_Holding (g\<lparr>bg_in_flight := bg_in_flight g - 1\<rparr>) GP_ReturnPermit"

inductive_cases point_stepE: "point_step g p g' p'"

text \<open>A system: the gate and the tasks at it.\<close>

type_synonym gate_system = "backpressure_gate \<times> gate_point multiset"

inductive gate_step :: "gate_system \<Rightarrow> gate_system \<Rightarrow> bool" where
  arrive: "gate_step (g, ts) (g, add_mset GP_TestLimit ts)"
| act: "point_step g p g' p' \<Longrightarrow> gate_step (g, add_mset p ts) (g', add_mset p' ts)"
| return_permit: "gate_step (g, add_mset GP_ReturnPermit ts) (g\<lparr>bg_capacity := bg_capacity g + 1\<rparr>, ts)"
| fail: "gate_step (g, add_mset (GP_Failed e) ts) (g, ts)"
| set_limit: "gate_step (g, ts) (gate_set_limit limit g, ts)"

section \<open>Counting tasks\<close>

fun owns_permit :: "gate_point \<Rightarrow> bool" where
  "owns_permit GP_QueueAcquired = True"
| "owns_permit GP_Count = True"
| "owns_permit (GP_Compare _) = True"
| "owns_permit GP_Holding = True"
| "owns_permit GP_ReturnPermit = True"
| "owns_permit GP_Uncount = True"
| "owns_permit GP_DropPermit = True"
| "owns_permit _ = False"

fun counted :: "gate_point \<Rightarrow> bool" where
  "counted (GP_Compare _) = True"
| "counted GP_Holding = True"
| "counted GP_Uncount = True"
| "counted _ = False"

fun registered :: "gate_point \<Rightarrow> bool" where
  "registered GP_QueueOverflow = True"
| "registered GP_QueueWait = True"
| "registered GP_QueueAcquired = True"
| "registered GP_QueueTimeout = True"
| "registered GP_ChangeOverflow = True"
| "registered GP_ChangeWait = True"
| "registered (GP_ChangeDone _) = True"
| "registered GP_Abandoned = True"
| "registered _ = False"

text \<open>Tasks that hold a permit, or will when they compare, with a limit of at most \<open>h\<close>.\<close>

fun admitted :: "nat \<Rightarrow> gate_point \<Rightarrow> bool" where
  "admitted h (GP_Compare previous) = (previous < h)"
| "admitted h GP_Holding = True"
| "admitted h _ = False"

definition gate_invariant :: "nat \<Rightarrow> gate_system \<Rightarrow> bool" where
  "gate_invariant h s \<longleftrightarrow>
     (let g = fst s; ts = snd s in
      bg_capacity g + tasks_where owns_permit ts = bg_max_in_flight g
      \<and> bg_in_flight g = tasks_where counted ts
      \<and> bg_waiters g = tasks_where registered ts
      \<and> tasks_where (admitted h) ts \<le> h)"

text \<open>Reachable states of a run in which no limit above \<open>h\<close> is ever in force.\<close>

inductive gate_reachable :: "nat \<Rightarrow> backpressure_gate \<Rightarrow> gate_system \<Rightarrow> bool" for h g0 where
  start: "gate_limit g0 \<le> h \<Longrightarrow> gate_reachable h g0 (g0, {#})"
| step: "gate_reachable h g0 s \<Longrightarrow> gate_step s s' \<Longrightarrow> gate_limit (fst s') \<le> h \<Longrightarrow> gate_reachable h g0 s'"

lemma admitted_counted: "admitted h p \<Longrightarrow> counted p"
  by (cases p) simp_all

lemma admitted_le_counted: "tasks_where (admitted h) ts \<le> tasks_where counted ts"
  by (rule tasks_where_mono) (rule admitted_counted)

lemma limit_update [simp]:
  "gate_limit (g\<lparr>bg_capacity := x\<rparr>) = gate_limit g"
  "gate_limit (g\<lparr>bg_waiters := x\<rparr>) = gate_limit g"
  "gate_limit (g\<lparr>bg_in_flight := x\<rparr>) = gate_limit g"
  by (simp_all add: gate_limit_def)

lemma point_step_invariant:
  assumes "point_step g p g' p'" "gate_invariant h (g, add_mset p ts)" "gate_limit g \<le> h"
  shows "gate_invariant h (g', add_mset p' ts)"
  using assms
proof (cases rule: point_step.cases)
  case count
  with assms(2) admitted_le_counted [of h ts] show ?thesis
    by (auto simp: gate_invariant_def)
qed (use assms(2,3) in \<open>auto simp: gate_invariant_def split: if_splits\<close>)

lemma gate_step_invariant:
  assumes "gate_step s s'" "gate_invariant h s" "gate_limit (fst s) \<le> h"
  shows "gate_invariant h s'"
  using assms
proof (cases rule: gate_step.cases)
  case (act g p g' p' ts)
  with assms point_step_invariant show ?thesis by simp
qed (use assms(2) in \<open>auto simp: gate_invariant_def gate_set_limit_def\<close>)

definition gate_fresh :: "backpressure_gate \<Rightarrow> bool" where
  "gate_fresh g \<longleftrightarrow> bg_capacity g = bg_max_in_flight g \<and> bg_in_flight g = 0 \<and> bg_waiters g = 0"

lemma gate_fresh_new: "gate_fresh (gate_new m w)" "gate_fresh (gate_with_dynamic_limit m w d)"
  by (simp_all add: gate_fresh_def gate_new_def gate_with_dynamic_limit_def Let_def)

lemma gate_reachable_invariant:
  assumes "gate_reachable h g s" "gate_fresh g"
  shows "gate_invariant h s \<and> gate_limit (fst s) \<le> h"
  using assms(1)
proof (induction rule: gate_reachable.induct)
  case start
  with assms(2) show ?case by (simp add: gate_invariant_def gate_fresh_def)
next
  case (step s s')
  then show ?case using gate_step_invariant by blast
qed

text \<open>
  C17. However checkouts, releases, timeouts and limit changes interleave, the permits held at the
  same time never exceed the largest limit that was in force.
\<close>

theorem gate_permits_bounded:
  assumes "gate_reachable h g (g', ts)" and "gate_fresh g"
  shows "count ts GP_Holding \<le> h"
  using gate_reachable_invariant [OF assms] count_le_tasks_where [of "admitted h" GP_Holding ts]
  by (simp add: gate_invariant_def)

text \<open>
  The counters are exact in every reachable state: when the last task is done and no wait was
  abandoned, the gate has all its permits, no one in flight and no one waiting.
\<close>

lemma gate_no_leak:
  assumes "gate_reachable h g (g', ts)" and "gate_fresh g"
  shows "bg_in_flight g' = tasks_where counted ts \<and> bg_waiters g' = tasks_where registered ts
    \<and> bg_capacity g' + tasks_where owns_permit ts = bg_max_in_flight g'
    \<and> (ts = {#} \<longrightarrow> gate_fresh g')"
  using gate_reachable_invariant [OF assms] by (auto simp: gate_invariant_def gate_fresh_def)

text \<open>
  An abandoned wait is never taken back. Once as many waits were abandoned as the gate admits
  waiters, no checkout waits any more: every one that finds the gate at its limit fails with a full
  queue.
\<close>

lemma abandoned_stay:
  assumes "gate_step s s'"
  shows "count (snd s) GP_Abandoned \<le> count (snd s') GP_Abandoned \<and> bg_max_waiters (fst s') = bg_max_waiters (fst s)"
  using assms
proof (cases rule: gate_step.cases)
  case (act g p g' p' ts)
  then show ?thesis by (auto elim!: point_stepE)
qed (auto simp: gate_set_limit_def)

lemma abandoned_waits_fill_queue:
  assumes "gate_reachable h g (g', ts)" and "gate_fresh g" and "bg_max_waiters g' \<le> count ts GP_Abandoned"
  shows "\<not> point_step g' GP_JoinQueue g'' GP_QueueWait" and "\<not> point_step g' GP_JoinChange g'' GP_ChangeWait"
  using gate_reachable_invariant [OF assms(1,2)] count_le_tasks_where [of registered GP_Abandoned ts] assms(3)
  by (auto simp: gate_invariant_def elim!: point_stepE)

text \<open>A run of one checkout on a fresh gate of two.\<close>

lemma example_run:
  "gate_reachable 2 (gate_new 2 1)
     ((gate_new 2 1)\<lparr>bg_capacity := 1, bg_in_flight := 1\<rparr>, {#GP_Holding#})"
proof -
  let ?g = "gate_new 2 1"
  have l [unfolded One_nat_def, simp]: "gate_limit ?g = 2" by (simp add: gate_new_def gate_limit_def)
  have "gate_reachable 2 ?g (?g, {#GP_TestLimit#})"
    by (rule gate_reachable.step [OF gate_reachable.start gate_step.arrive]) (simp_all add: l)
  then have "gate_reachable 2 ?g (?g, {#GP_TryAcquire#})"
    by (rule gate_reachable.step [OF _ gate_step.act [OF point_step.room]]) (simp_all add: gate_new_def gate_limit_def)
  then have "gate_reachable 2 ?g (?g\<lparr>bg_capacity := bg_capacity ?g - 1\<rparr>, {#GP_Count#})"
    by (rule gate_reachable.step [OF _ gate_step.act [OF point_step.acquire]]) (simp_all add: l, simp add: gate_new_def)
  then have "gate_reachable 2 ?g (?g\<lparr>bg_capacity := 1\<rparr>, {#GP_Count#})" by (simp add: gate_new_def)
  then have "gate_reachable 2 ?g (?g\<lparr>bg_capacity := 1, bg_in_flight := 1\<rparr>, {#GP_Compare 0#})"
    using gate_reachable.step [OF _ gate_step.act [OF point_step.count [of "?g\<lparr>bg_capacity := 1\<rparr>"]], of 2 ?g "{#}"]
    by (simp add: l) (simp add: gate_new_def gate_limit_def)
  then show ?thesis
    by (rule gate_reachable.step [OF _ gate_step.act [OF point_step.grant]]) (simp_all add: l)
qed

text \<open>A gate with no capacity left whose only place in the queue was abandoned.\<close>

lemma abandoned_run:
  "gate_reachable 2 (gate_new 2 1)
     ((gate_set_limit 1 ((gate_new 2 1)\<lparr>bg_capacity := 1, bg_in_flight := 1\<rparr>))\<lparr>bg_waiters := 1\<rparr>, {#GP_Abandoned, GP_Holding#})"
proof -
  let ?new = "gate_new 2 1"
  let ?g = "gate_set_limit 1 (?new\<lparr>bg_capacity := 1, bg_in_flight := 1\<rparr>)"
  have f [unfolded One_nat_def, simp]: "bg_in_flight ?g = 1" "bg_waiters ?g = 0" "bg_max_waiters ?g = 1" "gate_limit ?g = 1"
    by (simp_all add: gate_set_limit_def gate_new_def gate_limit_def)
  have "gate_reachable 2 ?new (?g, {#GP_Holding#})"
    by (rule gate_reachable.step [OF example_run gate_step.set_limit]) simp
  then have "gate_reachable 2 ?new (?g, {#GP_TestLimit, GP_Holding#})"
    by (rule gate_reachable.step [OF _ gate_step.arrive]) simp
  then have "gate_reachable 2 ?new (?g, {#GP_JoinChange, GP_Holding#})"
    by (rule gate_reachable.step [OF _ gate_step.act [OF point_step.full]]) simp_all
  then have "gate_reachable 2 ?new (?g\<lparr>bg_waiters := bg_waiters ?g + 1\<rparr>, {#GP_ChangeWait, GP_Holding#})"
    by (rule gate_reachable.step [OF _ gate_step.act [OF point_step.join_change]]) simp_all
  then have "gate_reachable 2 ?new (?g\<lparr>bg_waiters := 1\<rparr>, {#GP_ChangeWait, GP_Holding#})" by simp
  then show ?thesis
    by (rule gate_reachable.step [OF _ gate_step.act [OF point_step.abandon_change]]) simp
qed

theorem gate_permits_bounded_witness: "count {#GP_Holding#} GP_Holding \<le> 2"
  by (rule gate_permits_bounded [OF example_run gate_fresh_new(1)])

lemma gate_no_leak_witness:
  "bg_in_flight ((gate_new 2 1)\<lparr>bg_capacity := 1, bg_in_flight := 1\<rparr>) = tasks_where counted {#GP_Holding#}"
  using gate_no_leak [OF example_run gate_fresh_new(1)] by blast

section \<open>Routes\<close>

datatype route_priority = RP_Critical | RP_Normal | RP_Sheddable

record route_fairness_config =
  rfc_weight :: nat
  rfc_max_in_flight :: "nat option"
  rfc_priority :: route_priority

definition route_fairness_default :: route_fairness_config where
  "route_fairness_default = \<lparr>rfc_weight = 1, rfc_max_in_flight = None, rfc_priority = RP_Normal\<rparr>"

definition route_fairness_validate :: "route_fairness_config \<Rightarrow> rstr + unit" where
  "route_fairness_validate c =
     (if rfc_weight c = 0 then Inl (lit ''route fairness weight must be greater than zero'')
      else if rfc_max_in_flight c = Some 0
      then Inl (lit ''route fairness max_in_flight must be greater than zero'')
      else Inr ())"

text \<open>Routes are keyed by the parts of the route key that its equality compares.\<close>

record 'key backpressure_coordinator =
  bc_global :: backpressure_gate
  bc_routes :: "('key \<times> backpressure_gate) list"
  bc_policies :: "('key \<times> route_fairness_config) list"
  bc_max_route_in_flight :: nat
  bc_max_route_waiters :: nat

definition coordinator_with_capacity :: "nat \<Rightarrow> nat \<Rightarrow> nat \<Rightarrow> 'key backpressure_coordinator" where
  "coordinator_with_capacity max_in_flight max_route_in_flight max_route_waiters =
     \<lparr>bc_global = gate_new max_in_flight max_route_waiters, bc_routes = [], bc_policies = [],
      bc_max_route_in_flight = max_route_in_flight, bc_max_route_waiters = max_route_waiters\<rparr>"

definition coordinator_configure_route ::
  "'key \<Rightarrow> route_fairness_config \<Rightarrow> 'key backpressure_coordinator \<Rightarrow> rstr + 'key backpressure_coordinator" where
  "coordinator_configure_route route config c =
     and_then (route_fairness_validate config) (\<lambda>_.
       Inr (c\<lparr>bc_policies := AList.update route config (bc_policies c)\<rparr>))"

definition usize_max :: nat where
  "usize_max = 2 ^ 64 - 1"

definition route_policy :: "'key \<Rightarrow> 'key backpressure_coordinator \<Rightarrow> route_fairness_config" where
  "route_policy route c =
     (case map_of (bc_policies c) route of Some p \<Rightarrow> p | None \<Rightarrow> route_fairness_default)"

definition weighted_limit :: "'key \<Rightarrow> 'key backpressure_coordinator \<Rightarrow> nat" where
  "weighted_limit route c =
     (let configured_weight = max (sum_list (map (rfc_weight \<circ> snd) (bc_policies c))) 1 in
      max (min usize_max (bc_max_route_in_flight c * rfc_weight (route_policy route c)) div configured_weight) 1)"

definition route_gate :: "'key \<Rightarrow> 'key backpressure_coordinator \<Rightarrow> backpressure_gate \<times> 'key backpressure_coordinator" where
  "route_gate route c =
     (case map_of (bc_routes c) route of
        Some gate \<Rightarrow> (gate, c)
      | None \<Rightarrow>
          (let gate = gate_new
                 (case rfc_max_in_flight (route_policy route c) of Some m \<Rightarrow> m | None \<Rightarrow> weighted_limit route c)
                 (bc_max_route_waiters c)
           in (gate, c\<lparr>bc_routes := AList.update route gate (bc_routes c)\<rparr>)))"

text \<open>After the route permit: a sheddable route gives it back when the global gate is full.\<close>

definition sheds_route :: "'key \<Rightarrow> 'key backpressure_coordinator \<Rightarrow> bool" where
  "sheds_route route c \<longleftrightarrow>
     rfc_priority (route_policy route c) = RP_Sheddable
     \<and> bg_in_flight (bc_global c) \<ge> gate_limit (bc_global c)"

definition coordinator_route_snapshot :: "'key \<Rightarrow> 'key backpressure_coordinator \<Rightarrow> route_backpressure_snapshot" where
  "coordinator_route_snapshot route c =
     (case map_of (bc_routes c) route of
        Some gate \<Rightarrow> gate_snapshot gate
      | None \<Rightarrow> \<lparr>rbs_in_flight = 0, rbs_waiting = 0\<rparr>)"

lemma sum_div_le: "sum_list (map (\<lambda>x. (f x :: nat) div k) xs) \<le> sum_list (map f xs) div k"
proof (induction xs)
  case (Cons x xs)
  have "f x div k + sum_list (map f xs) div k \<le> (f x + sum_list (map f xs)) div k"
    by (metis div_add1_eq le_add1)
  with Cons show ?case by simp
qed simp

lemma weighted_share:
  assumes "(route, p) \<in> set (bc_policies c)" "distinct (map fst (bc_policies c))"
  shows "weighted_limit route c \<le>
    max 1 (bc_max_route_in_flight c * rfc_weight p div max 1 (sum_list (map (rfc_weight \<circ> snd) (bc_policies c))))"
  using assms
  by (auto simp: weighted_limit_def route_policy_def Let_def max.commute intro!: le_max_iff_disj [THEN iffD2] div_le_mono)

text \<open>The weighted shares of the configured routes, before each is raised to one, fit the total.\<close>

lemma weighted_shares_fit:
  "sum_list (map (\<lambda>(r, p). m * rfc_weight p div max 1 (sum_list (map (rfc_weight \<circ> snd) ps))) ps) \<le> m"
proof -
  let ?w = "sum_list (map (rfc_weight \<circ> snd) ps)"
  have "sum_list (map (\<lambda>(r, p). m * rfc_weight p div max 1 ?w) ps)
      = sum_list (map (\<lambda>x. m * rfc_weight (snd x) div max 1 ?w) ps)"
    by (simp add: case_prod_beta')
  also have "\<dots> \<le> sum_list (map (\<lambda>x. m * rfc_weight (snd x)) ps) div max 1 ?w" by (rule sum_div_le)
  also have "\<dots> = m * ?w div max 1 ?w" by (simp add: sum_list_const_mult comp_def)
  also have "\<dots> \<le> m"
  proof (cases "?w = 0")
    case True
    then show ?thesis by (metis div_0 le0 mult_0_right)
  next
    case False
    then have "max 1 ?w = ?w" by (metis One_nat_def Suc_leI max_def neq0_conv le_antisym)
    with False show ?thesis by (metis le_refl nonzero_mult_div_cancel_right)
  qed
  finally show ?thesis .
qed

end
