(* ===== verification/Resilience.thy ===== *)
theory Resilience
  imports Session Routing_Model Backpressure
begin

text \<open>
  The circuit breaker of a backend pool and the eligibility of a hedged read, \<open>resilience.rs\<close>, with
  the admission step of \<open>pool.rs\<close>. Instants and durations are nanoseconds; \<open>duration_since\<close> saturates
  at zero. The counter saturates at \<open>usize::MAX\<close>. Every method holds the breaker's lock from its
  first to its last access, so concurrent callers act as a sequence of method calls.
\<close>

section \<open>The breaker\<close>

datatype breaker_state = BS_Closed | BS_Open | BS_HalfOpen

fun breaker_state_as_str :: "breaker_state \<Rightarrow> rstr" where
  "breaker_state_as_str BS_Closed = lit ''closed''"
| "breaker_state_as_str BS_Open = lit ''open''"
| "breaker_state_as_str BS_HalfOpen = lit ''half_open''"

record breaker_config =
  bc_failure_threshold :: nat
  bc_cooldown :: nat

definition breaker_config_default :: breaker_config where
  "breaker_config_default = \<lparr>bc_failure_threshold = 5, bc_cooldown = 5 * 10 ^ 9\<rparr>"

record breaker_data =
  br_config :: breaker_config
  br_state :: breaker_state
  br_failures :: nat
  br_opened_at :: "nat option"
  br_probe_in_flight :: bool

definition breaker_new :: "breaker_config \<Rightarrow> breaker_data" where
  "breaker_new config =
     \<lparr>br_config = config, br_state = BS_Closed, br_failures = 0, br_opened_at = None,
      br_probe_in_flight = False\<rparr>"

text \<open>The first block of \<open>allow_request\<close> and \<open>state\<close>.\<close>

definition half_open_after_cooldown :: "nat \<Rightarrow> breaker_data \<Rightarrow> breaker_data" where
  "half_open_after_cooldown now d =
     (if br_state d = BS_Open \<and>
         (case br_opened_at d of Some opened_at \<Rightarrow> now - opened_at \<ge> bc_cooldown (br_config d) | None \<Rightarrow> False)
      then d\<lparr>br_state := BS_HalfOpen, br_probe_in_flight := False\<rparr> else d)"

definition allow_request :: "nat \<Rightarrow> breaker_data \<Rightarrow> bool \<times> breaker_data" where
  "allow_request now d =
     (let d = half_open_after_cooldown now d in
      case br_state d of
        BS_Closed \<Rightarrow> (True, d)
      | BS_Open \<Rightarrow> (False, d)
      | BS_HalfOpen \<Rightarrow>
          if \<not> br_probe_in_flight d then (True, d\<lparr>br_probe_in_flight := True\<rparr>) else (False, d))"

definition record_success :: "breaker_data \<Rightarrow> breaker_data" where
  "record_success d =
     d\<lparr>br_state := BS_Closed, br_failures := 0, br_opened_at := None, br_probe_in_flight := False\<rparr>"

definition saturating_inc :: "nat \<Rightarrow> nat" where
  "saturating_inc n = min (n + 1) (2 ^ 64 - 1)"

definition record_failure :: "nat \<Rightarrow> breaker_data \<Rightarrow> breaker_data" where
  "record_failure now d =
     (let d = d\<lparr>br_probe_in_flight := False\<rparr> in
      case br_state d of
        BS_HalfOpen \<Rightarrow>
          d\<lparr>br_state := BS_Open, br_opened_at := Some now,
            br_failures := bc_failure_threshold (br_config d)\<rparr>
      | BS_Closed \<Rightarrow>
          let d = d\<lparr>br_failures := saturating_inc (br_failures d)\<rparr> in
          if br_failures d \<ge> bc_failure_threshold (br_config d)
          then d\<lparr>br_state := BS_Open, br_opened_at := Some now\<rparr> else d
      | BS_Open \<Rightarrow> d)"

definition breaker_state_at :: "nat \<Rightarrow> breaker_data \<Rightarrow> breaker_state \<times> breaker_data" where
  "breaker_state_at now d = (let d = half_open_after_cooldown now d in (br_state d, d))"

definition configure :: "breaker_config \<Rightarrow> breaker_data \<Rightarrow> breaker_data" where
  "configure config d = d\<lparr>br_config := config\<rparr>"

section \<open>Admission to a pool\<close>

datatype pool_error = PE_CircuitOpen | PE_Backpressure backpressure_error | PE_Connect

text \<open>
  \<open>checkout_with_mode\<close> asks the breaker and then runs the rest of the checkout, whose result is the
  parameter \<open>rest\<close>: a lease, a rejection by a backpressure gate, or a failed connection. Only the
  methods of a lease record an outcome.
\<close>

definition checkout_with_mode ::
  "nat \<Rightarrow> (pool_error + 'lease) \<Rightarrow> breaker_data \<Rightarrow> (pool_error + 'lease) \<times> breaker_data" where
  "checkout_with_mode now rest d =
     (let (allowed, d) = allow_request now d in
      if \<not> allowed then (Inl PE_CircuitOpen, d) else (rest, d))"

section \<open>Hedged reads\<close>

record hedge_eligibility =
  he_enabled :: bool
  he_query_class :: query_class
  he_freshness_proven :: bool
  he_transaction_active :: bool
  he_pinned :: bool
  he_routing_certain :: bool
  he_safely_replayable :: bool

definition is_eligible :: "hedge_eligibility \<Rightarrow> bool" where
  "is_eligible h \<longleftrightarrow>
     he_enabled h \<and> (he_query_class h = QC_ReadOnly \<or> he_query_class h = QC_ReadCandidate) \<and>
     he_freshness_proven h \<and> \<not> he_transaction_active h \<and> \<not> he_pinned h \<and>
     he_routing_certain h \<and> he_safely_replayable h"

definition with_pin_reason :: "session_pin_reason option \<Rightarrow> hedge_eligibility \<Rightarrow> hedge_eligibility" where
  "with_pin_reason pin_reason h = h\<lparr>he_pinned := (pin_reason \<noteq> None)\<rparr>"

section \<open>Sequences of calls\<close>

datatype breaker_call =
    Allow nat
  | Success
  | Failure nat
  | Query_State nat

fun breaker_step :: "breaker_call \<Rightarrow> breaker_data \<Rightarrow> bool option \<times> breaker_data" where
  "breaker_step (Allow now) d = (case allow_request now d of (ok, d) \<Rightarrow> (Some ok, d))"
| "breaker_step Success d = (None, record_success d)"
| "breaker_step (Failure now) d = (None, record_failure now d)"
| "breaker_step (Query_State now) d = (None, snd (breaker_state_at now d))"

fun breaker_run :: "breaker_call list \<Rightarrow> breaker_data \<Rightarrow> bool list \<times> breaker_data" where
  "breaker_run [] d = ([], d)"
| "breaker_run (c # cs) d =
     (case breaker_step c d of (r, d) \<Rightarrow>
        case breaker_run cs d of (rs, d) \<Rightarrow> ((case r of Some ok \<Rightarrow> ok # rs | None \<Rightarrow> rs), d))"

definition breaker_ok :: "breaker_data \<Rightarrow> bool" where
  "breaker_ok d \<longleftrightarrow>
     (br_opened_at d = None \<longleftrightarrow> br_state d = BS_Closed) \<and>
     (br_probe_in_flight d \<longrightarrow> br_state d = BS_HalfOpen) \<and>
     (br_state d = BS_Closed \<and> 0 < bc_failure_threshold (br_config d) \<longrightarrow>
        br_failures d < bc_failure_threshold (br_config d))"

lemma breaker_new_ok: "breaker_ok (breaker_new config)"
  by (simp add: breaker_ok_def breaker_new_def)

lemma breaker_step_ok: "breaker_ok d \<Longrightarrow> breaker_ok (snd (breaker_step c d))"
  by (cases c; cases "br_state d")
    (auto simp: breaker_ok_def allow_request_def half_open_after_cooldown_def record_success_def
      record_failure_def breaker_state_at_def Let_def split: option.splits)

lemma breaker_run_ok: "breaker_ok d \<Longrightarrow> breaker_ok (snd (breaker_run cs d))"
proof (induction cs arbitrary: d)
  case (Cons c cs)
  have "breaker_ok (snd (breaker_run cs (snd (breaker_step c d))))"
    using Cons.IH breaker_step_ok Cons.prems by blast
  then show ?case by (auto split: prod.splits)
qed simp

text \<open>The time of a call, and calls before an instant.\<close>

fun call_before :: "nat \<Rightarrow> breaker_call \<Rightarrow> bool" where
  "call_before t (Allow now) \<longleftrightarrow> now < t"
| "call_before t (Failure now) \<longleftrightarrow> now < t"
| "call_before t (Query_State now) \<longleftrightarrow> now < t"
| "call_before t Success \<longleftrightarrow> False"

fun records :: "breaker_call \<Rightarrow> bool" where
  "records Success \<longleftrightarrow> True"
| "records (Failure now) \<longleftrightarrow> True"
| "records c \<longleftrightarrow> False"

lemma open_step:
  assumes "br_state d = BS_Open" and "br_opened_at d = Some t" and "call_before (t + bc_cooldown (br_config d)) c"
    and "0 < bc_cooldown (br_config d)"
  shows "fst (breaker_step c d) \<noteq> Some True \<and> br_state (snd (breaker_step c d)) = BS_Open \<and>
    br_opened_at (snd (breaker_step c d)) = Some t \<and> br_config (snd (breaker_step c d)) = br_config d"
  using assms
  by (cases c) (auto simp: allow_request_def half_open_after_cooldown_def record_failure_def breaker_state_at_def
      Let_def)

lemma probing_step:
  assumes "br_state d = BS_HalfOpen" and "br_probe_in_flight d" and "\<not> records c"
  shows "breaker_step c d = ((case c of Allow now \<Rightarrow> Some False | _ \<Rightarrow> None), d)"
  using assms
  by (cases c) (simp_all add: allow_request_def half_open_after_cooldown_def breaker_state_at_def Let_def)

lemma probing_run:
  assumes "br_state d = BS_HalfOpen" and "br_probe_in_flight d" and "\<forall>c\<in>set cs. \<not> records c"
  shows "snd (breaker_run cs d) = d \<and> True \<notin> set (fst (breaker_run cs d))"
  using assms(3)
proof (induction cs)
  case (Cons c cs)
  then show ?case
    using probing_step [OF assms(1,2), of c] by (cases c) (auto split: prod.splits)
qed simp

section \<open>What the breaker guarantees\<close>

text \<open>An open breaker admits nothing before its cooldown has passed: whatever calls are made after a
  breaker opened at \<open>t\<close>, as long as none reports a success and all are made before \<open>t\<close> plus the
  cooldown, every request is refused and the breaker stays open.\<close>

lemma open_breaker_rejects:
  assumes "br_state d = BS_Open" and "br_opened_at d = Some t" and "0 < bc_cooldown (br_config d)"
    and "\<forall>c\<in>set cs. call_before (t + bc_cooldown (br_config d)) c"
  shows "True \<notin> set (fst (breaker_run cs d)) \<and> br_state (snd (breaker_run cs d)) = BS_Open"
  using assms
proof (induction cs arbitrary: d)
  case (Cons c cs)
  obtain r d' where step: "breaker_step c d = (r, d')" by (cases "breaker_step c d")
  have "call_before (t + bc_cooldown (br_config d)) c" using Cons.prems(4) by simp
  note facts = open_step [OF Cons.prems(1,2) this Cons.prems(3), unfolded step, simplified]
  have "True \<notin> set (fst (breaker_run cs d')) \<and> br_state (snd (breaker_run cs d')) = BS_Open"
    using Cons.IH [of d'] facts Cons.prems(3,4) by simp
  then show ?case using facts by (auto simp: step split: option.splits prod.splits)
qed simp

lemma open_breaker_rejects_witness:
  "fst (breaker_run [Allow 7, Failure 8, Allow 9]
     \<lparr>br_config = \<lparr>bc_failure_threshold = 1, bc_cooldown = 5\<rparr>, br_state = BS_Open, br_failures = 1,
      br_opened_at = Some 5, br_probe_in_flight = False\<rparr>) = [False, False] \<and>
   br_state (snd (breaker_run [Allow 7, Failure 8, Allow 9]
     \<lparr>br_config = \<lparr>bc_failure_threshold = 1, bc_cooldown = 5\<rparr>, br_state = BS_Open, br_failures = 1,
      br_opened_at = Some 5, br_probe_in_flight = False\<rparr>)) = BS_Open"
  using open_breaker_rejects [of "\<lparr>br_config = \<lparr>bc_failure_threshold = 1, bc_cooldown = 5\<rparr>, br_state = BS_Open,
     br_failures = 1, br_opened_at = Some 5, br_probe_in_flight = False\<rparr>" 5 "[Allow 7, Failure 8, Allow 9]"]
  by (simp add: allow_request_def half_open_after_cooldown_def record_failure_def Let_def)

text \<open>After the cooldown an open breaker lets exactly one probe through: the first request is admitted,
  and until some caller reports an outcome no other one is.\<close>

lemma half_open_single_probe:
  assumes "br_state d = BS_Open" and "br_opened_at d = Some t" and "t + bc_cooldown (br_config d) \<le> now"
    and "\<forall>c\<in>set cs. \<not> records c"
  shows "\<exists>rs. fst (breaker_run (Allow now # cs) d) = True # rs \<and> True \<notin> set rs"
proof -
  let ?d = "d\<lparr>br_state := BS_HalfOpen, br_probe_in_flight := True\<rparr>"
  have "allow_request now d = (True, ?d)"
    using assms(1-3) by (simp add: allow_request_def half_open_after_cooldown_def Let_def)
  moreover have "True \<notin> set (fst (breaker_run cs ?d))" using probing_run [of ?d cs] assms(4) by simp
  ultimately show ?thesis by (auto split: prod.splits)
qed

lemma half_open_single_probe_witness:
  "\<exists>rs. fst (breaker_run (Allow 10 # [Allow 11, Allow 10000])
     \<lparr>br_config = \<lparr>bc_failure_threshold = 1, bc_cooldown = 5\<rparr>, br_state = BS_Open, br_failures = 1,
      br_opened_at = Some 5, br_probe_in_flight = False\<rparr>) = True # rs \<and> True \<notin> set rs"
  by (rule half_open_single_probe [of _ 5]) simp_all

text \<open>C39. The probe of a half-open breaker can be lost. When the admitted checkout fails to connect, or is
  turned away by a backpressure gate, nothing reports its outcome, and from then on the breaker
  refuses every checkout, however much time passes, until another lease reports one.\<close>

theorem lost_probe_wedges_breaker:
  fixes rest :: "pool_error + 'lease"
  assumes "br_state d = BS_Open" and "br_opened_at d = Some t" and "t + bc_cooldown (br_config d) \<le> now"
  shows "fst (checkout_with_mode now (Inl PE_Connect :: pool_error + 'lease) d) = Inl PE_Connect \<and>
    fst (checkout_with_mode later rest (snd (checkout_with_mode now (Inl PE_Connect :: pool_error + 'lease) d))) = Inl PE_CircuitOpen \<and>
    snd (checkout_with_mode later rest (snd (checkout_with_mode now (Inl PE_Connect :: pool_error + 'lease) d))) =
      snd (checkout_with_mode now (Inl PE_Connect :: pool_error + 'lease) d)"
  using assms
  by (simp add: checkout_with_mode_def allow_request_def half_open_after_cooldown_def Let_def)

theorem lost_probe_wedges_breaker_witness:
  "fst (checkout_with_mode (10 ^ 20) (Inr ())
     (snd (checkout_with_mode 10 (Inl PE_Connect :: pool_error + unit)
        \<lparr>br_config = \<lparr>bc_failure_threshold = 1, bc_cooldown = 5\<rparr>, br_state = BS_Open, br_failures = 1,
         br_opened_at = Some 5, br_probe_in_flight = False\<rparr>))) = Inl PE_CircuitOpen"
  using lost_probe_wedges_breaker [of "\<lparr>br_config = \<lparr>bc_failure_threshold = 1, bc_cooldown = 5\<rparr>,
      br_state = BS_Open, br_failures = 1, br_opened_at = Some 5, br_probe_in_flight = False\<rparr>" 5 10 "10 ^ 20" "Inr ()"] by simp

text \<open>A breaker opens at the failure that reaches the threshold and not before.\<close>

lemma opens_at_threshold:
  assumes "br_state d = BS_Closed" and "bc_failure_threshold (br_config d) < 2 ^ 64" and "breaker_ok d"
  shows "br_state (record_failure now d) = BS_Open \<longleftrightarrow> bc_failure_threshold (br_config d) \<le> br_failures d + 1"
  using assms by (auto simp: record_failure_def saturating_inc_def Let_def)

end
