(* ===== verification/Pool_Store.thy ===== *)
theory Pool_Store
  imports Resilience Interleaving "HOL-Library.Word"
begin

text \<open>
  The backends of a pool: \<open>BackendStore\<close> and the part of \<open>checkout_with_mode\<close> behind the circuit
  breaker and the backpressure gates, from \<open>pool.rs\<close>. Backends are the identifiers the process
  hands out and whether their startup has been run; instants and durations are numbers.

  Shown: the reaper keeps the configured number of idle backends and evicts only expired ones; under
  every interleaving of checkouts, releases, discards, reaping and retirement a backend is in one
  place only and the slots in use never exceed the maximum. Also shown are three ways in which the
  store goes wrong: a checkout that times out while connecting keeps its slot for ever, a backend
  connected in the waiting loop is handed out as if its startup had been run, and the counter of
  idle backends can wrap around.
\<close>

section \<open>The store\<close>

record pool_backend =
  bk_id :: nat
  bk_started :: bool

record backend_lifecycle =
  bl_created_at :: nat
  bl_last_released_at :: nat

record pool_lifecycle_config =
  plc_max_size :: nat
  plc_min_idle :: nat
  plc_idle_timeout :: nat
  plc_max_lifetime :: nat

record backend_store =
  bs_idle :: "pool_backend list"
  bs_lifecycle :: "nat \<rightharpoonup> backend_lifecycle"
  bs_global_permits :: "nat set"
  bs_active_backends :: nat
  bs_idle_backends :: "64 word"
  bs_global_slots :: "nat option"
  bs_global_available :: bool
  bs_max_backends :: nat

definition backend_store_new :: "nat \<Rightarrow> nat option \<Rightarrow> bool \<Rightarrow> backend_store" where
  "backend_store_new max_backends global_slots global_available =
     \<lparr>bs_idle = [], bs_lifecycle = Map.empty, bs_global_permits = {}, bs_active_backends = 0,
      bs_idle_backends = 0, bs_global_slots = global_slots, bs_global_available = global_available,
      bs_max_backends = max_backends\<rparr>"

text \<open>Dropping a permit gives it back to the semaphore.\<close>

definition drop_permit :: "bool \<Rightarrow> backend_store \<Rightarrow> backend_store" where
  "drop_permit held s =
     (if held then s\<lparr>bs_global_slots := map_option Suc (bs_global_slots s)\<rparr> else s)"

definition try_checkout_idle_backend :: "backend_store \<Rightarrow> pool_backend option \<times> backend_store" where
  "try_checkout_idle_backend s =
     (case bs_idle s of
        [] \<Rightarrow> (None, s)
      | b # bs \<Rightarrow> (Some b, s\<lparr>bs_idle := bs, bs_idle_backends := bs_idle_backends s - 1\<rparr>))"

definition release_reserved_backend_slot :: "bool \<Rightarrow> backend_store \<Rightarrow> backend_store" where
  "release_reserved_backend_slot permit s =
     (drop_permit permit s)\<lparr>bs_active_backends := bs_active_backends s - 1\<rparr>"

text \<open>
  \<open>reserve_backend_slot\<close>: the counter is raised when it is below the maximum, and then a global
  permit is taken, without which the counter goes down again. The result tells whether a permit is
  held.
\<close>

definition reserve_backend_slot :: "backend_store \<Rightarrow> bool option \<times> backend_store" where
  "reserve_backend_slot s =
     (if bs_active_backends s \<ge> bs_max_backends s then (None, s)
      else
        (let s' = s\<lparr>bs_active_backends := bs_active_backends s + 1\<rparr> in
         case bs_global_slots s' of
           None \<Rightarrow> (Some False, s')
         | Some 0 \<Rightarrow> (None, release_reserved_backend_slot False s')
         | Some (Suc k) \<Rightarrow> (Some True, s'\<lparr>bs_global_slots := Some k\<rparr>)))"

definition register_backend :: "nat \<Rightarrow> pool_backend \<Rightarrow> bool \<Rightarrow> backend_store \<Rightarrow> backend_store" where
  "register_backend now b permit s =
     s\<lparr>bs_lifecycle := (bs_lifecycle s)(bk_id b \<mapsto> \<lparr>bl_created_at = now, bl_last_released_at = now\<rparr>),
       bs_global_permits := (if permit then insert (bk_id b) (bs_global_permits s) else bs_global_permits s)\<rparr>"

text \<open>\<open>return_backend\<close> up to the push to the idle queue; the counter follows separately.\<close>

definition push_returned :: "nat \<Rightarrow> pool_backend \<Rightarrow> backend_store \<Rightarrow> backend_store" where
  "push_returned now b s =
     s\<lparr>bs_lifecycle := (case bs_lifecycle s (bk_id b) of
          None \<Rightarrow> bs_lifecycle s
        | Some l \<Rightarrow> (bs_lifecycle s)(bk_id b \<mapsto> l\<lparr>bl_last_released_at := now\<rparr>)),
       bs_idle := bs_idle s @ [b]\<rparr>"

definition count_returned :: "backend_store \<Rightarrow> backend_store" where
  "count_returned s = s\<lparr>bs_idle_backends := bs_idle_backends s + 1\<rparr>"

definition return_backend :: "nat \<Rightarrow> pool_backend \<Rightarrow> backend_store \<Rightarrow> backend_store" where
  "return_backend now b s = count_returned (push_returned now b s)"

definition forget_backend :: "nat \<Rightarrow> backend_store \<Rightarrow> backend_store" where
  "forget_backend i s =
     (drop_permit (i \<in> bs_global_permits s) s)
       \<lparr>bs_global_permits := bs_global_permits s - {i}, bs_lifecycle := (bs_lifecycle s)(i := None)\<rparr>"

definition discard_backend :: "nat \<Rightarrow> backend_store \<Rightarrow> backend_store" where
  "discard_backend i s = release_reserved_backend_slot False (forget_backend i s)"

section \<open>Reaping\<close>

definition eviction_reason ::
  "nat \<Rightarrow> pool_lifecycle_config \<Rightarrow> backend_lifecycle option \<Rightarrow> rstr option" where
  "eviction_reason now config lifecycle =
     (case lifecycle of
        None \<Rightarrow> None
      | Some l \<Rightarrow>
          if plc_idle_timeout config \<noteq> 0 \<and> now - bl_last_released_at l \<ge> plc_idle_timeout config
          then Some (lit ''idle_timeout'')
          else if plc_max_lifetime config \<noteq> 0 \<and> now - bl_created_at l \<ge> plc_max_lifetime config
          then Some (lit ''max_lifetime'')
          else None)"

text \<open>The loop of \<open>reap_idle\<close>: what has been retained so far, and the rest of the queue.\<close>

fun reap_scan ::
  "nat \<Rightarrow> pool_lifecycle_config \<Rightarrow> (nat \<rightharpoonup> backend_lifecycle) \<Rightarrow> pool_backend list \<Rightarrow> pool_backend list
   \<Rightarrow> pool_backend list \<times> (pool_backend \<times> rstr) list" where
  "reap_scan now config lifecycle retained [] = (retained, [])"
| "reap_scan now config lifecycle retained (b # idle) =
     (case eviction_reason now config (lifecycle (bk_id b)) of
        None \<Rightarrow> reap_scan now config lifecycle (retained @ [b]) idle
      | Some reason \<Rightarrow>
          if length retained + length idle \<ge> plc_min_idle config
          then (let (kept, evicted) = reap_scan now config lifecycle retained idle
                in (kept, (b, reason) # evicted))
          else reap_scan now config lifecycle (retained @ [b]) idle)"

definition evict_backend :: "pool_backend \<Rightarrow> backend_store \<Rightarrow> backend_store" where
  "evict_backend b s =
     (forget_backend (bk_id b) s)\<lparr>bs_active_backends := bs_active_backends s - 1\<rparr>"

definition reap_idle :: "nat \<Rightarrow> pool_lifecycle_config \<Rightarrow> backend_store \<Rightarrow> backend_store" where
  "reap_idle now config s =
     (let (retained, evicted) = reap_scan now config (bs_lifecycle s) [] (bs_idle s);
          s' = fold evict_backend (map fst evicted) (s\<lparr>bs_idle := retained\<rparr>)
      in s'\<lparr>bs_idle_backends := of_nat (length (bs_idle s'))\<rparr>)"

definition retire_idle_backends :: "backend_store \<Rightarrow> backend_store" where
  "retire_idle_backends s =
     (fold evict_backend (bs_idle s) (s\<lparr>bs_idle := []\<rparr>))\<lparr>bs_idle_backends := 0\<rparr>"

definition reaper_interval :: "pool_lifecycle_config \<Rightarrow> nat" where
  "reaper_interval config =
     max (case filter (\<lambda>d. d \<noteq> 0) [plc_idle_timeout config, plc_max_lifetime config] of
            [] \<Rightarrow> 10 ^ 9
          | [d] \<Rightarrow> d
          | d # e # _ \<Rightarrow> min d e) (10 ^ 6)"

section \<open>Checkouts\<close>

datatype checkout_mode = CM_AllowConnect | CM_PreferConnect | CM_ReuseOnly

text \<open>The three places of \<open>checkout_with_mode\<close> that reserve a slot and connect.\<close>

datatype connect_site = CS_Prefer | CS_First | CS_Loop

text \<open>
  Where a task stands, named after what it does next. The first group is a checkout that holds its
  backpressure permits; then the end of a release; then the reaper and the retirement of idle
  backends, with the backends they took off the queue.
\<close>

datatype sweep = SW_Reap | SW_Retire

datatype pool_point =
    PP_TryIdle checkout_mode
  | PP_CountIdle checkout_mode
  | PP_TryIdleAgain checkout_mode
  | PP_Reserve connect_site
  | PP_Global connect_site
  | PP_Connecting connect_site bool
  | PP_LoopIdle checkout_mode
  | PP_LoopWait checkout_mode
  | PP_CountReturned
  | PP_Evict sweep "pool_backend list"

fun first_point :: "checkout_mode \<Rightarrow> pool_point" where
  "first_point CM_PreferConnect = PP_Reserve CS_Prefer"
| "first_point m = PP_TryIdle m"

text \<open>Where a checkout goes when no idle backend was found, and when no slot could be reserved.\<close>

fun after_idle :: "checkout_mode \<Rightarrow> pool_point" where
  "after_idle CM_AllowConnect = PP_Reserve CS_First"
| "after_idle m = PP_LoopIdle m"

fun after_loop_idle :: "checkout_mode \<Rightarrow> pool_point" where
  "after_loop_idle CM_AllowConnect = PP_Reserve CS_Loop"
| "after_loop_idle m = PP_LoopWait m"

fun after_no_slot :: "connect_site \<Rightarrow> pool_point" where
  "after_no_slot CS_Prefer = PP_TryIdle CM_PreferConnect"
| "after_no_slot CS_First = PP_LoopIdle CM_AllowConnect"
| "after_no_slot CS_Loop = PP_LoopWait CM_AllowConnect"

text \<open>The \<open>requires_startup\<close> flag of the lease on a backend connected at a site.\<close>

fun site_requires_startup :: "connect_site \<Rightarrow> bool" where
  "site_requires_startup CS_Prefer = True"
| "site_requires_startup CS_First = True"
| "site_requires_startup CS_Loop = False"

text \<open>
  A system: the store, the leases (a backend and the flag), the tasks, the next backend identifier,
  and the number of checkouts that were cancelled by their timeout while they were connecting.
\<close>

type_synonym pool_system =
  "backend_store \<times> (pool_backend \<times> bool) multiset \<times> pool_point multiset \<times> nat \<times> nat"

text \<open>
  The attempts at an idle backend use \<open>try_lock\<close> and may fail although the queue is not empty.
  Other pools that share the global semaphore change it at any time. A timeout drops a checkout at
  any of its suspension points. A release runs to its end: that a forced shutdown of the process can
  drop a release while it waits for the lock of the idle queue is not in the relation.
\<close>

inductive pool_step :: "pool_system \<Rightarrow> pool_system \<Rightarrow> bool" where
  enter: "pool_step (s, ls, ts, n, c) (s, ls, add_mset (first_point m) ts, n, c)"
| idle_hit: "try_checkout_idle_backend s = (Some b, s') \<Longrightarrow>
    p \<in> {PP_TryIdle m, PP_TryIdleAgain m, PP_LoopIdle m, PP_LoopWait m} \<Longrightarrow>
    pool_step (s, ls, add_mset p ts, n, c) (s', add_mset (b, False) ls, ts, n, c)"
| idle_miss: "pool_step (s, ls, add_mset (PP_TryIdle m) ts, n, c) (s, ls, add_mset (PP_CountIdle m) ts, n, c)"
| idle_count: "bs_idle_backends s > 0 \<Longrightarrow>
    pool_step (s, ls, add_mset (PP_CountIdle m) ts, n, c) (s, ls, add_mset (PP_TryIdleAgain m) ts, n, c)"
| idle_none: "bs_idle_backends s = 0 \<Longrightarrow>
    pool_step (s, ls, add_mset (PP_CountIdle m) ts, n, c) (s, ls, add_mset (after_idle m) ts, n, c)"
| idle_miss_again: "pool_step (s, ls, add_mset (PP_TryIdleAgain m) ts, n, c) (s, ls, add_mset (after_idle m) ts, n, c)"
| loop_miss: "pool_step (s, ls, add_mset (PP_LoopIdle m) ts, n, c) (s, ls, add_mset (after_loop_idle m) ts, n, c)"
| loop_global: "bs_global_available s \<Longrightarrow>
    pool_step (s, ls, add_mset (PP_LoopWait m) ts, n, c) (s, ls, add_mset (PP_LoopIdle m) ts, n, c)"
| reserve: "bs_active_backends s < bs_max_backends s \<Longrightarrow>
    pool_step (s, ls, add_mset (PP_Reserve site) ts, n, c)
      (s\<lparr>bs_active_backends := bs_active_backends s + 1\<rparr>, ls, add_mset (PP_Global site) ts, n, c)"
| reserve_full: "bs_active_backends s \<ge> bs_max_backends s \<Longrightarrow>
    pool_step (s, ls, add_mset (PP_Reserve site) ts, n, c) (s, ls, add_mset (after_no_slot site) ts, n, c)"
| global_unlimited: "bs_global_slots s = None \<Longrightarrow>
    pool_step (s, ls, add_mset (PP_Global site) ts, n, c) (s, ls, add_mset (PP_Connecting site False) ts, n, c)"
| global_acquire: "bs_global_slots s = Some (Suc k) \<Longrightarrow>
    pool_step (s, ls, add_mset (PP_Global site) ts, n, c)
      (s\<lparr>bs_global_slots := Some k\<rparr>, ls, add_mset (PP_Connecting site True) ts, n, c)"
| global_full: "bs_global_slots s = Some 0 \<Longrightarrow>
    pool_step (s, ls, add_mset (PP_Global site) ts, n, c)
      (release_reserved_backend_slot False s, ls, add_mset (after_no_slot site) ts, n, c)"
| connected: "b = \<lparr>bk_id = n, bk_started = False\<rparr> \<Longrightarrow>
    pool_step (s, ls, add_mset (PP_Connecting site permit) ts, n, c)
      (register_backend now b permit s, add_mset (b, site_requires_startup site) ls, ts, n + 1, c)"
| connect_failed: "pool_step (s, ls, add_mset (PP_Connecting site permit) ts, n, c)
      (release_reserved_backend_slot permit s, ls,
       if site = CS_Prefer then add_mset (PP_TryIdle CM_PreferConnect) ts else ts, n, c)"
| connect_timeout: "pool_step (s, ls, add_mset (PP_Connecting site permit) ts, n, c) (drop_permit permit s, ls, ts, n, c + 1)"
| wait_timeout: "p \<in> {PP_TryIdle m, PP_LoopIdle m, PP_LoopWait m} \<Longrightarrow>
    pool_step (s, ls, add_mset p ts, n, c) (s, ls, ts, n, c)"
| release: "pool_step (s, add_mset (b, startup) ls, ts, n, c)
      (push_returned now (b\<lparr>bk_started := bk_started b \<or> startup\<rparr>) s, ls, add_mset PP_CountReturned ts, n, c)"
| count_returned: "pool_step (s, ls, add_mset PP_CountReturned ts, n, c) (count_returned s, ls, ts, n, c)"
| discard: "pool_step (s, add_mset (b, startup) ls, ts, n, c) (discard_backend (bk_id b) s, ls, ts, n, c)"
| reap: "reap_scan now config (bs_lifecycle s) [] (bs_idle s) = (retained, evicted) \<Longrightarrow>
    pool_step (s, ls, ts, n, c)
      (s\<lparr>bs_idle := retained\<rparr>, ls, add_mset (PP_Evict SW_Reap (map fst evicted)) ts, n, c)"
| retire: "pool_step (s, ls, ts, n, c) (s\<lparr>bs_idle := []\<rparr>, ls, add_mset (PP_Evict SW_Retire (bs_idle s)) ts, n, c)"
| evict: "pool_step (s, ls, add_mset (PP_Evict w (b # bs)) ts, n, c)
      (evict_backend b s, ls, add_mset (PP_Evict w bs) ts, n, c)"
| reaped: "pool_step (s, ls, add_mset (PP_Evict SW_Reap []) ts, n, c)
      (s\<lparr>bs_idle_backends := of_nat (length (bs_idle s))\<rparr>, ls, ts, n, c)"
| retired: "pool_step (s, ls, add_mset (PP_Evict SW_Retire []) ts, n, c) (s\<lparr>bs_idle_backends := 0\<rparr>, ls, ts, n, c)"
| other_pools: "bs_global_slots s = Some k \<Longrightarrow> pool_step (s, ls, ts, n, c) (s\<lparr>bs_global_slots := Some k'\<rparr>, ls, ts, n, c)"

text \<open>Without interference the steps of a reservation are \<open>reserve_backend_slot\<close>.\<close>

lemma reserve_backend_slot_steps:
  "case reserve_backend_slot s of
     (Some permit, s') \<Rightarrow>
       pool_step\<^sup>*\<^sup>* (s, ls, add_mset (PP_Reserve site) ts, n, c) (s', ls, add_mset (PP_Connecting site permit) ts, n, c)
   | (None, s') \<Rightarrow>
       pool_step\<^sup>*\<^sup>* (s, ls, add_mset (PP_Reserve site) ts, n, c) (s', ls, add_mset (after_no_slot site) ts, n, c)"
proof (cases "bs_active_backends s < bs_max_backends s")
  case True
  let ?s = "s\<lparr>bs_active_backends := bs_active_backends s + 1\<rparr>"
  have "pool_step\<^sup>*\<^sup>* (s, ls, add_mset (PP_Reserve site) ts, n, c) (?s, ls, add_mset (PP_Global site) ts, n, c)"
    by (rule r_into_rtranclp [of pool_step]) (rule pool_step.reserve [OF True])
  note next_step = run_step [where step = pool_step, OF this]
  show ?thesis
  proof (cases "bs_global_slots s")
    case None
    then have "bs_global_slots ?s = None" by simp
    from next_step [OF pool_step.global_unlimited [OF this]] None True show ?thesis
      by (simp add: reserve_backend_slot_def Let_def)
  next
    case (Some k)
    show ?thesis
    proof (cases k)
      case 0
      with Some have "bs_global_slots ?s = Some 0" by simp
      from next_step [OF pool_step.global_full [OF this]] 0 Some True show ?thesis
        by (simp add: reserve_backend_slot_def Let_def)
    next
      case (Suc l)
      with Some have "bs_global_slots ?s = Some (Suc l)" by simp
      from next_step [OF pool_step.global_acquire [OF this]] Suc Some True show ?thesis
        by (simp add: reserve_backend_slot_def Let_def)
    qed
  qed
qed (auto simp: reserve_backend_slot_def not_less intro!: r_into_rtranclp [of pool_step] pool_step.reserve_full)

section \<open>Reaping keeps the minimum\<close>

lemma reap_scan_partition:
  "reap_scan now config lc retained idle = (kept, evicted) \<Longrightarrow>
   mset kept + mset (map fst evicted) = mset retained + mset idle"
  by (induction now config lc retained idle arbitrary: kept evicted rule: reap_scan.induct)
     (auto split: option.splits if_splits prod.splits)

lemma reap_scan_min:
  "reap_scan now config lc retained idle = (kept, evicted) \<Longrightarrow>
   plc_min_idle config \<le> length kept \<or> length retained + length idle \<le> length kept"
proof (induction now config lc retained idle arbitrary: kept evicted rule: reap_scan.induct)
  case (2 now config lc retained b idle)
  then show ?case
    by (cases "eviction_reason now config (lc (bk_id b))")
       (force split: if_splits prod.splits)+
qed simp

lemma reap_scan_expired:
  "reap_scan now config lc retained idle = (kept, evicted) \<Longrightarrow>
   (b, reason) \<in> set evicted \<Longrightarrow> eviction_reason now config (lc (bk_id b)) = Some reason"
  by (induction now config lc retained idle arbitrary: kept evicted rule: reap_scan.induct)
     (auto split: option.splits if_splits prod.splits)

lemma reap_scan_complete:
  assumes "reap_scan now config lc retained idle = (kept, evicted)"
    and "\<forall>b\<in>set retained. eviction_reason now config (lc (bk_id b)) \<noteq> None \<longrightarrow>
           length retained + length idle \<le> plc_min_idle config"
    and "b \<in> set kept" "eviction_reason now config (lc (bk_id b)) \<noteq> None"
  shows "length kept \<le> plc_min_idle config"
  using assms
proof (induction now config lc retained idle arbitrary: kept evicted rule: reap_scan.induct)
  case (2 now config lc retained a idle)
  then show ?case
    by (cases "eviction_reason now config (lc (bk_id a))")
       (force split: if_splits prod.splits)+
qed auto

text \<open>
  C29. The reaper divides the idle queue into the backends it keeps and those it evicts. Every evicted
  backend has expired for the reason recorded; the minimum of idle backends is kept, or everything if
  there were fewer; and an expired backend is kept only where the minimum requires it.
\<close>

theorem reaper_exact:
  assumes "reap_scan now config lc [] idle = (kept, evicted)"
  shows "mset kept + mset (map fst evicted) = mset idle
    \<and> (\<forall>(b, reason) \<in> set evicted. eviction_reason now config (lc (bk_id b)) = Some reason)
    \<and> min (plc_min_idle config) (length idle) \<le> length kept
    \<and> (\<forall>b \<in> set kept. eviction_reason now config (lc (bk_id b)) = None \<or> length kept \<le> plc_min_idle config)"
  using reap_scan_partition [OF assms] reap_scan_min [OF assms] reap_scan_expired [OF assms]
    reap_scan_complete [OF assms]
  by (auto simp: min_le_iff_disj simp del: not_None_eq)

text \<open>Three backends idle for eleven, two and thirty; the limit is ten, and two are to stay.\<close>

theorem reaper_exact_witness:
  "let config = \<lparr>plc_max_size = 5, plc_min_idle = 2, plc_idle_timeout = 10, plc_max_lifetime = 0\<rparr>;
       lc = [1 \<mapsto> \<lparr>bl_created_at = 0, bl_last_released_at = 89\<rparr>,
             2 \<mapsto> \<lparr>bl_created_at = 0, bl_last_released_at = 98\<rparr>,
             3 \<mapsto> \<lparr>bl_created_at = 0, bl_last_released_at = 70\<rparr>];
       idle = [\<lparr>bk_id = 1, bk_started = True\<rparr>, \<lparr>bk_id = 2, bk_started = True\<rparr>, \<lparr>bk_id = 3, bk_started = True\<rparr>]
   in reap_scan 100 config lc [] idle =
        ([\<lparr>bk_id = 2, bk_started = True\<rparr>, \<lparr>bk_id = 3, bk_started = True\<rparr>],
         [(\<lparr>bk_id = 1, bk_started = True\<rparr>, lit ''idle_timeout'')])
      \<and> min (plc_min_idle config) (length idle) \<le> 2"
  using reaper_exact [where now = 100 and
      config = "\<lparr>plc_max_size = 5, plc_min_idle = 2, plc_idle_timeout = 10, plc_max_lifetime = 0\<rparr>" and
      lc = "[1 \<mapsto> \<lparr>bl_created_at = 0, bl_last_released_at = 89\<rparr>,
             2 \<mapsto> \<lparr>bl_created_at = 0, bl_last_released_at = 98\<rparr>,
             3 \<mapsto> \<lparr>bl_created_at = 0, bl_last_released_at = 70\<rparr>]" and
      idle = "[\<lparr>bk_id = 1, bk_started = True\<rparr>, \<lparr>bk_id = 2, bk_started = True\<rparr>, \<lparr>bk_id = 3, bk_started = True\<rparr>]",
      OF prod.collapse [symmetric]]
  by (simp add: Let_def eviction_reason_def)

section \<open>A backend is in one place\<close>

fun holds_slot :: "pool_point \<Rightarrow> bool" where
  "holds_slot (PP_Global _) = True"
| "holds_slot (PP_Connecting _ _) = True"
| "holds_slot _ = False"

fun swept :: "pool_point \<Rightarrow> pool_backend multiset" where
  "swept (PP_Evict _ bs) = mset bs"
| "swept _ = {#}"

text \<open>A connection under way holds a global permit unless there is no global limit.\<close>

fun permit_agrees :: "bool \<Rightarrow> pool_point \<Rightarrow> bool" where
  "permit_agrees unlimited (PP_Connecting _ permit) = (permit \<noteq> unlimited)"
| "permit_agrees unlimited _ = True"

text \<open>The identifiers of the backends that are idle, leased, or being evicted.\<close>

definition live_ids :: "backend_store \<Rightarrow> (pool_backend \<times> bool) multiset \<Rightarrow> pool_point multiset \<Rightarrow> nat multiset" where
  "live_ids s ls ts =
     image_mset bk_id (mset (bs_idle s)) + image_mset (bk_id \<circ> fst) ls
     + image_mset bk_id (\<Sum>p\<in>#ts. swept p)"

definition live_store :: "backend_store \<Rightarrow> nat multiset \<Rightarrow> nat \<Rightarrow> bool" where
  "live_store s live n \<longleftrightarrow>
     (\<forall>i. count live i \<le> 1) \<and> (\<forall>i\<in>#live. i < n)
     \<and> bs_global_permits s = (if bs_global_slots s = None then {} else set_mset live)
     \<and> dom (bs_lifecycle s) = set_mset live"

fun pool_invariant :: "pool_system \<Rightarrow> bool" where
  "pool_invariant (s, ls, ts, n, c) \<longleftrightarrow>
     bs_active_backends s = size (live_ids s ls ts) + tasks_where holds_slot ts + c
     \<and> bs_active_backends s \<le> bs_max_backends s
     \<and> (\<forall>p\<in>#ts. permit_agrees (bs_global_slots s = None) p)
     \<and> live_store s (live_ids s ls ts) n"

lemma live_ids_task [simp]:
  "live_ids s ls (add_mset p ts) = image_mset bk_id (swept p) + live_ids s ls ts"
  by (simp add: live_ids_def)

lemma live_ids_lease [simp]: "live_ids s (add_mset l ls) ts = add_mset (bk_id (fst l)) (live_ids s ls ts)"
  by (simp add: live_ids_def)

lemma live_ids_cong: "bs_idle s' = bs_idle s \<Longrightarrow> live_ids s' ls ts = live_ids s ls ts"
  by (simp add: live_ids_def)

lemma live_store_cong:
  assumes "bs_global_permits s' = bs_global_permits s" "dom (bs_lifecycle s') = dom (bs_lifecycle s)"
    "bs_global_slots s' = None \<longleftrightarrow> bs_global_slots s = None"
  shows "live_store s' live n = live_store s live n"
  using assms by (simp add: live_store_def)

lemma store_op_fields [simp]:
  "bs_idle (drop_permit p s) = bs_idle s" "bs_active_backends (drop_permit p s) = bs_active_backends s"
  "bs_max_backends (drop_permit p s) = bs_max_backends s"
  "bs_global_permits (drop_permit p s) = bs_global_permits s" "bs_lifecycle (drop_permit p s) = bs_lifecycle s"
  "bs_global_slots (drop_permit p s) = None \<longleftrightarrow> bs_global_slots s = None"
  "bs_idle (forget_backend i s) = bs_idle s" "bs_active_backends (forget_backend i s) = bs_active_backends s"
  "bs_max_backends (forget_backend i s) = bs_max_backends s"
  "bs_global_slots (forget_backend i s) = None \<longleftrightarrow> bs_global_slots s = None"
  by (simp_all add: drop_permit_def forget_backend_def)

lemma registered_simps [simp]:
  "bs_idle_backends (register_backend now b p s) = bs_idle_backends s"
  "bs_active_backends (register_backend now b p s) = bs_active_backends s"
  "bs_max_backends (register_backend now b p s) = bs_max_backends s"
  "bs_global_slots (register_backend now b p s) = bs_global_slots s"
  "bs_idle (register_backend now b p s) = bs_idle s"
  by (simp_all add: register_backend_def)

lemma live_ids_update [simp]:
  "live_ids (s\<lparr>bs_active_backends := k\<rparr>) ls ts = live_ids s ls ts"
  "live_ids (s\<lparr>bs_idle_backends := w\<rparr>) ls ts = live_ids s ls ts"
  "live_ids (s\<lparr>bs_global_slots := g\<rparr>) ls ts = live_ids s ls ts"
  "live_ids (drop_permit p s) ls ts = live_ids s ls ts"
  "live_ids (forget_backend i s) ls ts = live_ids s ls ts"
  "live_ids (release_reserved_backend_slot p s) ls ts = live_ids s ls ts"
  "live_ids (register_backend now b p s) ls ts = live_ids s ls ts"
  by (simp_all add: live_ids_def release_reserved_backend_slot_def register_backend_def)

lemma live_store_update [simp]:
  "live_store (s\<lparr>bs_active_backends := k\<rparr>) live n = live_store s live n"
  "live_store (s\<lparr>bs_idle_backends := w\<rparr>) live n = live_store s live n"
  "live_store (s\<lparr>bs_idle := q\<rparr>) live n = live_store s live n"
  "live_store (s\<lparr>bs_idle := q, bs_idle_backends := w\<rparr>) live n = live_store s live n"
  "live_store (drop_permit p s) live n = live_store s live n"
  "live_store (release_reserved_backend_slot p s) live n = live_store s live n"
  by (simp_all add: live_store_def release_reserved_backend_slot_def)

lemma live_store_slots: "bs_global_slots s = Some k \<Longrightarrow>
  live_store (s\<lparr>bs_global_slots := Some k'\<rparr>) live n = live_store s live n"
  by (simp add: live_store_def)

lemma live_store_forget:
  assumes "live_store s (add_mset i live) n"
  shows "live_store (forget_backend i s) live n"
proof -
  have "count (add_mset i live) i \<le> 1" using assms unfolding live_store_def by blast
  then have "i \<notin># live" by (simp add: not_in_iff)
  moreover have "count live j \<le> 1" for j
    using assms unfolding live_store_def by (metis count_add_mset le_SucI le_trans lessI less_imp_le)
  ultimately show ?thesis
    using assms by (auto simp: live_store_def forget_backend_def)
qed

lemma live_store_register:
  assumes "live_store s live n" "permit \<longleftrightarrow> bs_global_slots s \<noteq> None" "bk_id b = n"
  shows "live_store (register_backend now b permit s) (add_mset n live) (Suc n)"
proof -
  have "n \<notin># live" using assms(1) by (auto simp: live_store_def)
  then show ?thesis
    using assms by (auto simp: live_store_def register_backend_def not_in_iff less_SucI)
qed

lemma first_point_simps [simp]:
  "\<not> holds_slot (first_point m)" "swept (first_point m) = {#}" "permit_agrees u (first_point m)"
  by (cases m; simp)+

lemma after_idle_simps [simp]:
  "\<not> holds_slot (after_idle m)" "swept (after_idle m) = {#}" "permit_agrees u (after_idle m)"
  "\<not> holds_slot (after_loop_idle m)" "swept (after_loop_idle m) = {#}" "permit_agrees u (after_loop_idle m)"
  by (cases m; simp)+

lemma after_no_slot_simps [simp]:
  "\<not> holds_slot (after_no_slot site)" "swept (after_no_slot site) = {#}" "permit_agrees u (after_no_slot site)"
  by (cases site; simp)+

lemma pool_step_invariant: "pool_step x y \<Longrightarrow> pool_invariant x \<Longrightarrow> pool_invariant y"
proof (induction rule: pool_step.induct)
  case (idle_hit s b s' p m ls ts n c)
  obtain bs where s: "bs_idle s = b # bs" and s': "s' = s\<lparr>bs_idle := bs, bs_idle_backends := bs_idle_backends s - 1\<rparr>"
    using idle_hit(1) by (auto simp: try_checkout_idle_backend_def split: list.splits)
  have "live_ids s ls ts = add_mset (bk_id b) (live_ids s' ls ts)"
    by (simp add: live_ids_def s s')
  moreover have "\<not> holds_slot p" "swept p = {#}" using idle_hit(2) by auto
  ultimately show ?case using idle_hit(3) by (simp add: s')
next
  case (connected b n s ls site permit ts c now)
  then have "live_store (register_backend now b permit s) (add_mset n (live_ids s ls ts)) (Suc n)"
    by (intro live_store_register) auto
  with connected show ?case by simp
next
  case (release s b startup ls ts n c now)
  have "live_ids (push_returned now (b\<lparr>bk_started := x\<rparr>) s) ls ts = add_mset (bk_id b) (live_ids s ls ts)" for x
    by (simp add: push_returned_def live_ids_def)
  moreover have "live_store (push_returned now (b\<lparr>bk_started := x\<rparr>) s) live n = live_store s live n" for x live
    by (rule live_store_cong) (auto simp: push_returned_def split: option.splits)
  ultimately show ?case using release by (simp add: push_returned_def)
next
  case (discard s b startup ls ts n c)
  then have "live_store (forget_backend (bk_id b) s) (live_ids s ls ts) n"
    by (intro live_store_forget) simp
  with discard show ?case by (simp add: discard_backend_def) (simp add: release_reserved_backend_slot_def)
next
  case (evict s ls w b bs ts n c)
  then have "live_store (forget_backend (bk_id b) s) (image_mset bk_id (mset bs) + live_ids s ls ts) n"
    by (intro live_store_forget) simp
  with evict show ?case by (simp add: evict_backend_def)
next
  case (reap now config s retained evicted ls ts n c)
  from reap_scan_partition [OF reap(1)]
  have "image_mset bk_id (mset (bs_idle s)) =
      image_mset bk_id (mset retained) + image_mset bk_id (mset (map fst evicted))"
    by (metis add_0 image_mset_union mset.simps(1))
  then have "live_ids s ls ts = image_mset bk_id (mset (map fst evicted)) + live_ids (s\<lparr>bs_idle := retained\<rparr>) ls ts"
    by (simp add: live_ids_def)
  with reap show ?case by simp
next
  case (retire s ls ts n c)
  have "live_ids s ls ts = image_mset bk_id (mset (bs_idle s)) + live_ids (s\<lparr>bs_idle := []\<rparr>) ls ts"
    by (simp add: live_ids_def)
  with retire show ?case by simp
qed (auto simp: live_store_slots count_returned_def release_reserved_backend_slot_def)

interpretation pool: step_invariant pool_step pool_invariant
  by unfold_locales (rule pool_step_invariant)

definition pool_start :: "nat \<Rightarrow> nat option \<Rightarrow> bool \<Rightarrow> pool_system" where
  "pool_start m slots available = (backend_store_new m slots available, {#}, {#}, 1, 0)"

lemma pool_start_invariant: "pool_invariant (pool_start m slots available)"
  by (simp add: pool_start_def backend_store_new_def live_ids_def live_store_def)

text \<open>
  C4. Whatever the interleaving of checkouts, releases, discards, timeouts, reaping and retirement: a
  backend is idle or leased but never both, and never leased twice; the slots in use never exceed
  the maximum of the pool, and they are the live backends, the connections under way, and the
  checkouts that were cancelled while connecting.
\<close>

theorem pool_leases_exclusive:
  assumes "pool_step\<^sup>*\<^sup>* (pool_start m slots available) (s, ls, ts, n, c)"
  shows "count (image_mset bk_id (mset (bs_idle s)) + image_mset (bk_id \<circ> fst) ls) i \<le> 1
    \<and> bs_active_backends s = size (live_ids s ls ts) + tasks_where holds_slot ts + c
    \<and> bs_active_backends s \<le> bs_max_backends s"
proof -
  have inv: "pool_invariant (s, ls, ts, n, c)"
    by (rule pool.run_invariant [OF assms pool_start_invariant])
  then have "count (live_ids s ls ts) i \<le> 1" by (simp add: live_store_def)
  moreover have "count (image_mset bk_id (mset (bs_idle s)) + image_mset (bk_id \<circ> fst) ls) i \<le> count (live_ids s ls ts) i"
    unfolding live_ids_def count_union by (rule le_add1)
  ultimately show ?thesis using inv by (simp del: count_union)
qed

section \<open>Runs\<close>

lemmas pool_run = run_step [where step = pool_step]

abbreviation pool_runs :: "nat \<Rightarrow> pool_system \<Rightarrow> bool" where
  "pool_runs m \<equiv> pool_step\<^sup>*\<^sup>* (pool_start m None False)"

abbreviation fresh_backend :: "nat \<Rightarrow> pool_backend" where
  "fresh_backend i \<equiv> \<lparr>bk_id = i, bk_started = False\<rparr>"

text \<open>An allow-connect checkout that finds no idle backend and reserves a slot.\<close>

lemma run_reserves:
  assumes "pool_runs m (s, ls, ts, n, c)" "bs_idle_backends s = 0"
  shows "pool_runs m (s, ls, add_mset (PP_Reserve CS_First) ts, n, c)"
proof -
  from pool_run [OF assms(1) pool_step.enter [where m = CM_AllowConnect]]
  have "pool_runs m (s, ls, add_mset (PP_TryIdle CM_AllowConnect) ts, n, c)" by simp
  from pool_run [OF this pool_step.idle_miss]
  have "pool_runs m (s, ls, add_mset (PP_CountIdle CM_AllowConnect) ts, n, c)" .
  from pool_run [OF this pool_step.idle_none] assms(2) show ?thesis by simp
qed

lemma run_connecting:
  assumes "pool_runs m (s, ls, add_mset (PP_Reserve site) ts, n, c)"
    "bs_active_backends s < bs_max_backends s" "bs_global_slots s = None"
  shows "pool_runs m (s\<lparr>bs_active_backends := bs_active_backends s + 1\<rparr>, ls,
           add_mset (PP_Connecting site False) ts, n, c)"
proof -
  from pool_run [OF assms(1) pool_step.reserve [OF assms(2)]]
  have "pool_runs m (s\<lparr>bs_active_backends := bs_active_backends s + 1\<rparr>, ls,
          add_mset (PP_Global site) ts, n, c)" .
  from pool_run [OF this pool_step.global_unlimited] assms(3) show ?thesis by simp
qed

abbreviation empty_store :: "nat \<Rightarrow> nat \<Rightarrow> backend_store" where
  "empty_store m k \<equiv> (backend_store_new m None False)\<lparr>bs_active_backends := k\<rparr>"

lemma empty_store_simps [simp]:
  "bs_idle_backends (empty_store m k) = 0" "bs_global_slots (empty_store m k) = None"
  "bs_max_backends (empty_store m k) = m" "bs_idle (empty_store m k) = []"
  "bs_lifecycle (empty_store m k) = Map.empty" "bs_global_permits (empty_store m k) = {}"
  by (simp_all add: backend_store_new_def)

lemma run_cancelled: "k \<le> m \<Longrightarrow> pool_runs m (empty_store m k, {#}, {#}, 1, k)"
proof (induction k)
  case 0
  show ?case by (simp add: pool_start_def backend_store_new_def)
next
  case (Suc k)
  then have "pool_runs m (empty_store m k, {#}, {#PP_Reserve CS_First#}, 1, k)"
    by (intro run_reserves) auto
  from run_connecting [OF this] Suc.prems
  have "pool_runs m (empty_store m (Suc k), {#}, {#PP_Connecting CS_First False#}, 1, k)" by simp
  from pool_run [OF this pool_step.connect_timeout] show ?case by (simp add: drop_permit_def)
qed

text \<open>Nothing is left in the store and no slot is free: every checkout only waits.\<close>

fun pool_dead :: "pool_system \<Rightarrow> bool" where
  "pool_dead (s, ls, ts, n, c) \<longleftrightarrow>
     bs_idle s = [] \<and> ls = {#} \<and> bs_active_backends s \<ge> bs_max_backends s
     \<and> tasks_where holds_slot ts = 0 \<and> (\<Sum>p\<in>#ts. swept p) = {#}"

lemma pool_dead_step: "pool_step x y \<Longrightarrow> pool_dead x \<Longrightarrow> pool_dead y"
  by (induction rule: pool_step.induct)
     (auto simp: try_checkout_idle_backend_def count_returned_def release_reserved_backend_slot_def)

interpretation dead_pool: step_invariant pool_step pool_dead
  by unfold_locales (rule pool_dead_step)

text \<open>
  C37. A checkout whose timeout fires while it is connecting never gives its slot back: after as many
  such timeouts as the pool has slots, the pool holds no backend and no connection is under way, and
  from there no run ever hands out a backend again.
\<close>

theorem cancelled_connects_exhaust_pool:
  "pool_runs m (empty_store m m, {#}, {#}, 1, m)
   \<and> (\<nexists>s l ls ts n c. pool_step\<^sup>*\<^sup>* (empty_store m m, {#}, {#}, 1, m) (s, add_mset l ls, ts, n, c))"
  using run_cancelled [OF order_refl] dead_pool.never_reached [of "(empty_store m m, {#}, {#}, 1, m)"] by auto

lemma run_leased:
  assumes "pool_runs m (s, ls, add_mset (PP_Connecting site False) ts, n, c)"
  shows "pool_runs m (register_backend 0 (fresh_backend n) False s,
           add_mset (fresh_backend n, site_requires_startup site) ls, ts, n + 1, c)"
  by (rule pool_run [OF assms pool_step.connected]) simp

lemma run_one_lease:
  "pool_runs 1 (register_backend 0 (fresh_backend 1) False (empty_store 1 1), {#(fresh_backend 1, True)#}, {#}, 2, 0)"
proof -
  have "pool_runs 1 (empty_store 1 0, {#}, {#PP_Reserve CS_First#}, 1, 0)"
    by (intro run_reserves run_cancelled) simp_all
  from run_leased [OF run_connecting [OF this]] show ?thesis by (simp add: numeral_2_eq_2)
qed

theorem pool_leases_exclusive_witness:
  "count (image_mset bk_id (mset (bs_idle (register_backend 0 (fresh_backend 1) False (empty_store 1 1))))
          + image_mset (bk_id \<circ> fst) {#(fresh_backend 1, True)#}) 1 \<le> 1
   \<and> bs_active_backends (register_backend 0 (fresh_backend 1) False (empty_store 1 1)) \<le> 1"
  using pool_leases_exclusive [OF run_one_lease, of 1] by simp

text \<open>
  A checkout that waited for a slot and then connects in the waiting loop hands out its new
  backend as one that needs no startup, although none has been run on it.
\<close>

lemma waiting_checkout_skips_startup:
  "\<exists>s n c. pool_runs 1 (s, {#(fresh_backend 2, False)#}, {#}, n, c)"
proof -
  let ?s = "register_backend 0 (fresh_backend 1) False (empty_store 1 1)"
  have "pool_runs 1 (?s, {#(fresh_backend 1, True)#}, {#PP_Reserve CS_First#}, 2, 0)"
    by (rule run_reserves [OF run_one_lease]) simp
  from pool_run [OF this pool_step.reserve_full]
  have "pool_runs 1 (?s, {#(fresh_backend 1, True)#}, {#PP_LoopIdle CM_AllowConnect#}, 2, 0)" by simp
  from pool_run [OF this pool_step.discard]
  have "pool_runs 1 (discard_backend 1 ?s, {#}, {#PP_LoopIdle CM_AllowConnect#}, 2, 0)" by simp
  from pool_run [OF this pool_step.loop_miss]
  have "pool_runs 1 (discard_backend 1 ?s, {#}, {#PP_Reserve CS_Loop#}, 2, 0)" by simp
  note waiting = this
  have slot: "bs_active_backends (discard_backend 1 ?s) < bs_max_backends (discard_backend 1 ?s)"
    and unlimited: "bs_global_slots (discard_backend 1 ?s) = None"
    by (simp_all add: discard_backend_def release_reserved_backend_slot_def)
  from run_leased [OF run_connecting [OF waiting slot unlimited]]
  show ?thesis unfolding site_requires_startup.simps by blast
qed

text \<open>
  The counter of idle backends can wrap: a backend released while a retirement of idle backends
  is under way is counted before the retirement stores zero, and taking it afterwards leaves an empty
  queue with a counter of \<open>2 ^ 64 - 1\<close>.
\<close>

lemma idle_counter_wraps:
  "\<exists>s ls n c. pool_runs 1 (s, ls, {#}, n, c) \<and> bs_idle s = [] \<and> bs_idle_backends s = 2 ^ 64 - 1"
proof -
  let ?s = "register_backend 0 (fresh_backend 1) False (empty_store 1 1)"
  let ?b = "\<lparr>bk_id = 1, bk_started = True\<rparr>"
  let ?t = "count_returned (push_returned 0 ?b (?s\<lparr>bs_idle := []\<rparr>))"
  from pool_run [OF run_one_lease pool_step.retire]
  have "pool_runs 1 (?s\<lparr>bs_idle := []\<rparr>, {#(fresh_backend 1, True)#}, {#PP_Evict SW_Retire []#}, 2, 0)" by simp
  from pool_run [OF this pool_step.release [where now = 0]]
  have "pool_runs 1 (push_returned 0 ?b (?s\<lparr>bs_idle := []\<rparr>), {#}, {#PP_CountReturned, PP_Evict SW_Retire []#}, 2, 0)"
    by simp
  from pool_run [OF this pool_step.count_returned]
  have "pool_runs 1 (?t, {#}, {#PP_Evict SW_Retire []#}, 2, 0)" .
  from pool_run [OF this pool_step.retired]
  have "pool_runs 1 (?t\<lparr>bs_idle_backends := 0\<rparr>, {#}, {#}, 2, 0)" .
  from pool_run [OF this pool_step.enter [where m = CM_ReuseOnly]]
  have "pool_runs 1 (?t\<lparr>bs_idle_backends := 0\<rparr>, {#}, {#PP_TryIdle CM_ReuseOnly#}, 2, 0)" by simp
  moreover have "try_checkout_idle_backend (?t\<lparr>bs_idle_backends := 0\<rparr>) =
      (Some ?b, ?t\<lparr>bs_idle := [], bs_idle_backends := - 1\<rparr>)"
    by (simp add: try_checkout_idle_backend_def count_returned_def push_returned_def)
  ultimately have "pool_runs 1 (?t\<lparr>bs_idle := [], bs_idle_backends := - 1\<rparr>, {#(?b, False)#}, {#}, 2, 0)"
    by (rule pool_run [OF _ pool_step.idle_hit]) auto
  moreover have "(- 1 :: 64 word) = 2 ^ 64 - 1" by simp
  ultimately show ?thesis by fastforce
qed

end
