(* ===== verification/Route_Pools.thy ===== *)
theory Route_Pools
  imports Pool_Store Read_Routing
begin

text \<open>
  The pools of a route, from \<open>pool.rs\<close>: references to pools with their health, the choice among
  replicas, the checkouts that fall back from one pool to another, and the registries that find the
  pools of a route or of a shard. A checkout from a single pool is the parameter \<open>checkout\<close>, a
  state-passing function; the pool itself is the type parameter \<open>'p\<close>.

  Shown: weighted round robin serves every healthy replica exactly as often as its weight in each
  window of as many selections as the weights add up to, and the least-waiting choice is a healthy
  replica none of the others undercuts.
\<close>

section \<open>References to pools\<close>

record 'p backend_pool_ref =
  bpr_id :: nat
  bpr_role :: backend_role
  bpr_weight :: nat
  bpr_healthy :: bool
  bpr_breaker :: breaker_data
  bpr_waiting_hint :: nat
  bpr_pool :: 'p

definition backend_pool_ref_new ::
  "nat \<Rightarrow> backend_role \<Rightarrow> nat \<Rightarrow> bool \<Rightarrow> breaker_data \<Rightarrow> 'p \<Rightarrow> 'p backend_pool_ref" where
  "backend_pool_ref_new i role weight healthy breaker pool =
     \<lparr>bpr_id = i, bpr_role = role, bpr_weight = max weight 1, bpr_healthy = healthy,
      bpr_breaker = breaker, bpr_waiting_hint = 0, bpr_pool = pool\<rparr>"

definition pool_ref_primary :: "bool \<Rightarrow> breaker_data \<Rightarrow> 'p \<Rightarrow> 'p backend_pool_ref" where
  "pool_ref_primary healthy breaker pool = backend_pool_ref_new 0 BR_Primary 1 healthy breaker pool"

definition pool_ref_replica :: "nat \<Rightarrow> nat \<Rightarrow> bool \<Rightarrow> breaker_data \<Rightarrow> 'p \<Rightarrow> 'p backend_pool_ref" where
  "pool_ref_replica i weight healthy breaker pool = backend_pool_ref_new i BR_Replica weight healthy breaker pool"

text \<open>Asking for the health reads the state of the breaker, which may become half open by it.\<close>

definition is_healthy :: "nat \<Rightarrow> 'p backend_pool_ref \<Rightarrow> bool \<times> 'p backend_pool_ref" where
  "is_healthy now r =
     (let (state, breaker) = breaker_state_at now (bpr_breaker r)
      in (bpr_healthy r \<or> state = BS_HalfOpen, r\<lparr>bpr_breaker := breaker\<rparr>))"

definition set_healthy :: "bool \<Rightarrow> 'p backend_pool_ref \<Rightarrow> 'p backend_pool_ref" where
  "set_healthy h r = r\<lparr>bpr_healthy := h\<rparr>"

definition set_waiting_hint :: "nat \<Rightarrow> 'p backend_pool_ref \<Rightarrow> 'p backend_pool_ref" where
  "set_waiting_hint n r = r\<lparr>bpr_waiting_hint := n\<rparr>"

definition resilience_label :: "'p backend_pool_ref \<Rightarrow> rstr" where
  "resilience_label r = backend_role_as_str (bpr_role r) @ lit ''-'' @ fmt_decimal (bpr_id r)"

text \<open>What a lease does to the health of its pool.\<close>

definition lease_mark_failed :: "nat \<Rightarrow> 'p backend_pool_ref \<Rightarrow> 'p backend_pool_ref" where
  "lease_mark_failed now r = r\<lparr>bpr_healthy := False, bpr_breaker := record_failure now (bpr_breaker r)\<rparr>"

definition lease_mark_succeeded :: "'p backend_pool_ref \<Rightarrow> 'p backend_pool_ref" where
  "lease_mark_succeeded r = r\<lparr>bpr_healthy := True, bpr_breaker := record_success (bpr_breaker r)\<rparr>"

section \<open>Choosing a replica\<close>

datatype replica_selection_strategy = RSS_LeastWaiting | RSS_WeightedRoundRobin

record replica_selector =
  rsel_strategy :: replica_selection_strategy
  rsel_cursor :: "64 word"

definition replica_selector_new :: "replica_selection_strategy \<Rightarrow> replica_selector" where
  "replica_selector_new strategy = \<lparr>rsel_strategy = strategy, rsel_cursor = 0\<rparr>"

fun wrr_scan :: "nat \<Rightarrow> nat \<Rightarrow> 'p backend_pool_ref list \<Rightarrow> 'p backend_pool_ref option" where
  "wrr_scan cursor offset [] = None"
| "wrr_scan cursor offset (r # rs) =
     (let offset' = offset + bpr_weight r in
      if cursor < offset' then Some r else wrr_scan cursor offset' rs)"

definition total_weight :: "'p backend_pool_ref list \<Rightarrow> nat" where
  "total_weight rs = sum_list (map bpr_weight rs)"

definition healthy_replicas :: "nat \<Rightarrow> 'p backend_pool_ref list \<Rightarrow> 'p backend_pool_ref list" where
  "healthy_replicas now rs = map snd (filter fst (map (is_healthy now) rs))"

definition replica_select ::
  "nat \<Rightarrow> 'p backend_pool_ref list \<Rightarrow> replica_selector \<Rightarrow> 'p backend_pool_ref option \<times> replica_selector" where
  "replica_select now replicas sel =
     (let healthy = healthy_replicas now replicas in
      if healthy = [] then (None, sel)
      else case rsel_strategy sel of
        RSS_LeastWaiting \<Rightarrow> (min_by_key (\<lambda>r. (bpr_waiting_hint r, bpr_id r)) healthy, sel)
      | RSS_WeightedRoundRobin \<Rightarrow>
          if total_weight healthy = 0 then (None, sel)
          else (wrr_scan (unat (rsel_cursor sel) mod total_weight healthy) 0 healthy,
                sel\<lparr>rsel_cursor := rsel_cursor sel + 1\<rparr>))"

section \<open>The pools of a route\<close>

record 'p route_pools =
  rpo_primary :: "'p backend_pool_ref"
  rpo_replicas :: "'p backend_pool_ref list"
  rpo_selector :: replica_selector

text \<open>\<open>RoutePools::new\<close> panics on a wrong role, which is the result \<open>None\<close>.\<close>

definition route_pools_new ::
  "'p backend_pool_ref \<Rightarrow> 'p backend_pool_ref list \<Rightarrow> replica_selector \<Rightarrow> 'p route_pools option" where
  "route_pools_new primary replicas selector =
     (if bpr_role primary = BR_Primary \<and> list_all (\<lambda>r. bpr_role r = BR_Replica) replicas
      then Some \<lparr>rpo_primary = primary, rpo_replicas = replicas, rpo_selector = selector\<rparr>
      else None)"

definition replica_by_id :: "nat \<Rightarrow> 'p route_pools \<Rightarrow> 'p backend_pool_ref option" where
  "replica_by_id i pools = find (\<lambda>r. bpr_id r = i) (rpo_replicas pools)"

fun pool_for_target :: "routing_target \<Rightarrow> 'p route_pools \<Rightarrow> 'p backend_pool_ref option" where
  "pool_for_target (RT_Primary _) pools = Some (rpo_primary pools)"
| "pool_for_target (RT_Replica candidate _) pools = replica_by_id (rc_replica_id candidate) pools"
| "pool_for_target _ pools = None"

record pool_snapshot =
  psn_configured_backends :: nat
  psn_active_backends :: nat
  psn_idle_backends :: nat
  psn_waiting_clients :: nat

definition pool_snapshot_add :: "pool_snapshot \<Rightarrow> pool_snapshot \<Rightarrow> pool_snapshot" where
  "pool_snapshot_add a b =
     \<lparr>psn_configured_backends = psn_configured_backends a + psn_configured_backends b,
      psn_active_backends = psn_active_backends a + psn_active_backends b,
      psn_idle_backends = psn_idle_backends a + psn_idle_backends b,
      psn_waiting_clients = psn_waiting_clients a + psn_waiting_clients b\<rparr>"

definition route_pools_snapshot ::
  "('p backend_pool_ref \<Rightarrow> pool_snapshot) \<Rightarrow> 'p route_pools \<Rightarrow> pool_snapshot" where
  "route_pools_snapshot snapshot pools =
     fold (\<lambda>r acc. pool_snapshot_add acc (snapshot r)) (rpo_replicas pools) (snapshot (rpo_primary pools))"

text \<open>A checkout from one pool: its result and the state after it.\<close>

type_synonym ('p, 's, 'l) pool_checkout = "'p backend_pool_ref \<Rightarrow> 's \<Rightarrow> (pool_error + 'l) \<times> 's"

abbreviation closed :: "pool_error + 'l" where
  "closed \<equiv> Inl (PE_Backpressure BE_Closed)"

definition checkout_primary :: "('p, 's, 'l) pool_checkout \<Rightarrow> 'p route_pools \<Rightarrow> 's \<Rightarrow> (pool_error + 'l) \<times> 's" where
  "checkout_primary checkout pools s = checkout (rpo_primary pools) s"

definition checkout_any_replica ::
  "nat \<Rightarrow> ('p, 's, 'l) pool_checkout \<Rightarrow> 'p route_pools \<Rightarrow> 's \<Rightarrow> ((pool_error + 'l) \<times> 's) \<times> 'p route_pools" where
  "checkout_any_replica now checkout pools s =
     (let (chosen, selector) = replica_select now (rpo_replicas pools) (rpo_selector pools);
          pools' = pools\<lparr>rpo_selector := selector\<rparr>
      in case chosen of
           None \<Rightarrow> ((closed, s), pools')
         | Some replica \<Rightarrow> (checkout replica s, pools'))"

definition checkout_replica_by_id ::
  "nat \<Rightarrow> ('p, 's, 'l) pool_checkout \<Rightarrow> nat \<Rightarrow> 'p route_pools \<Rightarrow> 's \<Rightarrow> (pool_error + 'l) \<times> 's" where
  "checkout_replica_by_id now checkout i pools s =
     (case replica_by_id i pools of
        None \<Rightarrow> (closed, s)
      | Some replica \<Rightarrow>
          (let (healthy, replica') = is_healthy now replica in
           if healthy then checkout replica' s else (closed, s)))"

definition checkout_replica_or_primary ::
  "nat \<Rightarrow> ('p, 's, 'l) pool_checkout \<Rightarrow> 'p route_pools \<Rightarrow> 's \<Rightarrow> ((pool_error + 'l) \<times> 's) \<times> 'p route_pools" where
  "checkout_replica_or_primary now checkout pools s =
     (let (chosen, selector) = replica_select now (rpo_replicas pools) (rpo_selector pools);
          pools' = pools\<lparr>rpo_selector := selector\<rparr>
      in case chosen of
           None \<Rightarrow> (checkout (rpo_primary pools) s, pools')
         | Some replica \<Rightarrow>
             (case checkout replica s of
                (Inr lease, s') \<Rightarrow> ((Inr lease, s'), pools')
              | (Inl replica_error, s') \<Rightarrow>
                  (case checkout (rpo_primary pools) s' of
                     (Inr lease, s'') \<Rightarrow> ((Inr lease, s''), pools')
                   | (Inl _, s'') \<Rightarrow> ((Inl replica_error, s''), pools'))))"

fun checkout_target ::
  "nat \<Rightarrow> ('p, 's, 'l) pool_checkout \<Rightarrow> routing_target \<Rightarrow> 'p route_pools \<Rightarrow> 's \<Rightarrow> (pool_error + 'l) \<times> 's" where
  "checkout_target now checkout (RT_Primary _) pools s = checkout_primary checkout pools s"
| "checkout_target now checkout (RT_Replica candidate _) pools s =
     checkout_replica_by_id now checkout (rc_replica_id candidate) pools s"
| "checkout_target now checkout _ pools s = (closed, s)"

section \<open>Registries\<close>

type_synonym 'p route_pool_registry = "pool_key \<rightharpoonup> 'p route_pools"

definition registry_insert ::
  "'addr route_key \<Rightarrow> 'p route_pools \<Rightarrow> 'p route_pool_registry \<Rightarrow> 'p route_pool_registry" where
  "registry_insert route pools registry = registry(route_selection_key route \<mapsto> pools)"

definition registry_route_pools :: "'addr route_key \<Rightarrow> 'p route_pool_registry \<Rightarrow> 'p route_pools option" where
  "registry_route_pools route registry = registry (route_selection_key route)"

definition registry_checkout_target ::
  "nat \<Rightarrow> ('p, 's, 'l) pool_checkout \<Rightarrow> 'addr route_key \<Rightarrow> routing_target \<Rightarrow> 'p route_pool_registry \<Rightarrow> 's
   \<Rightarrow> (pool_error + 'l) \<times> 's" where
  "registry_checkout_target now checkout route target registry s =
     (case registry_route_pools route registry of
        None \<Rightarrow> (closed, s)
      | Some pools \<Rightarrow> checkout_target now checkout target pools s)"

record 'addr shard_pool_key =
  spk_route :: "'addr route_key"
  spk_shard_id :: shard_id

definition shard_pool_key_eq :: "'addr shard_pool_key \<Rightarrow> 'addr shard_pool_key \<Rightarrow> bool" where
  "shard_pool_key_eq a b \<longleftrightarrow> route_key_eq (spk_route a) (spk_route b) \<and> spk_shard_id a = spk_shard_id b"

record 'addr shard_pool_checkout_target =
  spt_key :: "'addr shard_pool_key"
  spt_target_role :: backend_role
  spt_fallback_reason :: "target_reason option"

record 'p shard_pools =
  shp_shard_id :: shard_id
  shp_pools :: "'p route_pools"

type_synonym ('addr, 'p) sharded_pool_registry = "('addr shard_pool_key \<times> 'p shard_pools) list"

definition shard_pools_checkout_target ::
  "nat \<Rightarrow> ('p, 's, 'l) pool_checkout \<Rightarrow> 'addr shard_pool_checkout_target \<Rightarrow> 'p shard_pools \<Rightarrow> 's
   \<Rightarrow> ((pool_error + 'l) \<times> 's) \<times> 'p shard_pools" where
  "shard_pools_checkout_target now checkout target pools s =
     (if spk_shard_id (spt_key target) \<noteq> shp_shard_id pools then ((closed, s), pools)
      else case spt_target_role target of
        BR_Primary \<Rightarrow> (checkout_primary checkout (shp_pools pools) s, pools)
      | BR_Replica \<Rightarrow>
          (let (result, pools') = checkout_any_replica now checkout (shp_pools pools) s
           in (result, pools\<lparr>shp_pools := pools'\<rparr>))
      | BR_Unknown \<Rightarrow> ((closed, s), pools))"

text \<open>Inserting panics when the key and the pools disagree on the shard.\<close>

definition sharded_registry_insert ::
  "'addr shard_pool_key \<Rightarrow> 'p shard_pools \<Rightarrow> ('addr, 'p) sharded_pool_registry \<Rightarrow> ('addr, 'p) sharded_pool_registry option" where
  "sharded_registry_insert key pools registry =
     (if spk_shard_id key \<noteq> shp_shard_id pools then None
      else Some ((key, pools) # filter (\<lambda>(k, _). \<not> shard_pool_key_eq k key) registry))"

definition sharded_registry_lookup ::
  "'addr shard_pool_key \<Rightarrow> ('addr, 'p) sharded_pool_registry \<Rightarrow> 'p shard_pools option" where
  "sharded_registry_lookup key registry = map_option snd (find (\<lambda>(k, _). shard_pool_key_eq k key) registry)"

section \<open>Round robin is fair\<close>

text \<open>Successive selections among the same replicas.\<close>

fun select_run :: "nat \<Rightarrow> nat \<Rightarrow> 'p backend_pool_ref list \<Rightarrow> replica_selector \<Rightarrow> 'p backend_pool_ref option list" where
  "select_run 0 now replicas sel = []"
| "select_run (Suc n) now replicas sel =
     fst (replica_select now replicas sel) # select_run n now replicas (snd (replica_select now replicas sel))"

lemma wrr_scan_all:
  "map (\<lambda>i. wrr_scan (offset + i) offset rs) [0..<total_weight rs] =
   map Some (concat (map (\<lambda>r. replicate (bpr_weight r) r) rs))"
proof (induction rs arbitrary: offset)
  case (Cons r rs)
  let ?w = "bpr_weight r" and ?T = "total_weight rs"
  have "[0..<?w + ?T] = [0..<?w] @ map (\<lambda>i. ?w + i) [0..<?T]"
    by (rule nth_equalityI) (auto simp: nth_append)
  moreover have "map (\<lambda>i. wrr_scan (offset + i) offset (r # rs)) [0..<?w] = replicate ?w (Some r)"
    by (rule nth_equalityI) auto
  moreover have "map (\<lambda>i. wrr_scan (offset + (?w + i)) offset (r # rs)) [0..<?T] =
      map Some (concat (map (\<lambda>r. replicate (bpr_weight r) r) rs))"
    using Cons.IH [of "offset + ?w"] by (simp add: Let_def add.assoc)
  ultimately show ?case by (simp add: total_weight_def comp_def del: wrr_scan.simps)
qed (simp add: total_weight_def)

lemma mset_rotated: "mset (rotate n xs) = mset xs"
  unfolding rotate_drop_take by (metis add.commute append_take_drop_id mset_append)

lemma mset_window: "mset (map (\<lambda>i. f ((c + i) mod T)) [0..<T]) = mset (map f [0..<T])"
proof -
  have "map (\<lambda>i. (c + i) mod T) [0..<T] = rotate c [0..<T]"
    by (rule nth_equalityI) (auto simp: nth_rotate add.commute)
  then have "map (\<lambda>i. f ((c + i) mod T)) [0..<T] = map f (rotate c [0..<T])"
    by (metis (no_types, lifting) comp_apply map_eq_conv map_map)
  then show ?thesis by (metis mset_map mset_rotated)
qed

lemma select_run_wrr:
  assumes "rsel_strategy sel = RSS_WeightedRoundRobin" "total_weight (healthy_replicas now rs) > 0"
    "unat (rsel_cursor sel) + n \<le> 2 ^ 64"
  shows "select_run n now rs sel =
    map (\<lambda>i. wrr_scan ((unat (rsel_cursor sel) + i) mod total_weight (healthy_replicas now rs)) 0 (healthy_replicas now rs)) [0..<n]"
  using assms
proof (induction n arbitrary: sel)
  case (Suc n)
  let ?hs = "healthy_replicas now rs"
  have "?hs \<noteq> []" using Suc.prems(2) by (auto simp: total_weight_def)
  then have step: "replica_select now rs sel =
      (wrr_scan (unat (rsel_cursor sel) mod total_weight ?hs) 0 ?hs, sel\<lparr>rsel_cursor := rsel_cursor sel + 1\<rparr>)"
    using Suc.prems by (simp add: replica_select_def Let_def)
  show ?case
  proof (cases n)
    case (Suc k)
    then have "unat (rsel_cursor sel + 1) = unat (rsel_cursor sel) + 1"
      using Suc.prems(3) by (simp add: unat_word_ariths)
    moreover have "select_run n now rs (sel\<lparr>rsel_cursor := rsel_cursor sel + 1\<rparr>) =
        map (\<lambda>i. wrr_scan ((unat (rsel_cursor sel + 1) + i) mod total_weight ?hs) 0 ?hs) [0..<n]"
      using Suc.IH [of "sel\<lparr>rsel_cursor := rsel_cursor sel + 1\<rparr>"] Suc.prems calculation by simp
    ultimately show ?thesis
      by (simp add: step upt_conv_Cons map_Suc_upt [symmetric] del: upt_Suc)
  qed (simp add: step)
qed simp

lemma count_image_Some: "count (image_mset Some M) (Some x) = count M x"
  by (induction M) auto

lemma count_concat_replicate:
  "distinct rs \<Longrightarrow> count (mset (concat (map (\<lambda>r. replicate (w r) r) rs))) r = (if r \<in> set rs then w r else 0)"
  by (induction rs) auto

text \<open>
  C28. Weighted round robin is fair: in any window of as many selections as the weights of the healthy
  replicas add up to, these being distinct, and unless the cursor wraps in it, every healthy replica
  is chosen exactly as often as its weight says.
\<close>

theorem weighted_round_robin_fair:
  assumes "rsel_strategy sel = RSS_WeightedRoundRobin"
    and "distinct (healthy_replicas now rs)" and "r \<in> set (healthy_replicas now rs)"
    and "bpr_weight r > 0"
    and "unat (rsel_cursor sel) + total_weight (healthy_replicas now rs) \<le> 2 ^ 64"
  shows "count (mset (select_run (total_weight (healthy_replicas now rs)) now rs sel)) (Some r) = bpr_weight r"
proof -
  let ?hs = "healthy_replicas now rs"
  have pos: "total_weight ?hs > 0"
    using assms(3,4) member_le_sum_list [of "bpr_weight r" "map bpr_weight ?hs"] by (simp add: total_weight_def)
  have "mset (select_run (total_weight ?hs) now rs sel) =
      mset (map (\<lambda>i. wrr_scan i 0 ?hs) [0..<total_weight ?hs])"
    unfolding select_run_wrr [OF assms(1) pos assms(5)] by (rule mset_window)
  also have "\<dots> = image_mset Some (mset (concat (map (\<lambda>r. replicate (bpr_weight r) r) ?hs)))"
    using wrr_scan_all [of 0 ?hs] by simp
  finally show ?thesis
    using assms(2,3) count_concat_replicate [of ?hs bpr_weight r] by (simp add: count_image_Some)
qed

abbreviation example_replica :: "nat \<Rightarrow> nat \<Rightarrow> unit backend_pool_ref" where
  "example_replica i weight \<equiv> pool_ref_replica i weight True (breaker_new breaker_config_default) ()"

text \<open>A window of four selections between replicas of weights three and one.\<close>

theorem weighted_round_robin_fair_witness:
  "count (mset (select_run 4 0 [example_replica 1 3, example_replica 2 1]
     \<lparr>rsel_strategy = RSS_WeightedRoundRobin, rsel_cursor = 6\<rparr>)) (Some (example_replica 1 3)) = 3"
proof -
  let ?rs = "[example_replica 1 3, example_replica 2 1]"
  have "healthy_replicas 0 ?rs = ?rs"
    by (simp add: healthy_replicas_def is_healthy_def breaker_state_at_def half_open_after_cooldown_def
        breaker_new_def pool_ref_replica_def backend_pool_ref_new_def)
  then show ?thesis
    using weighted_round_robin_fair [where r = "example_replica 1 3" and now = 0 and rs = ?rs and
        sel = "\<lparr>rsel_strategy = RSS_WeightedRoundRobin, rsel_cursor = 6\<rparr>"]
    by (simp add: total_weight_def pool_ref_replica_def backend_pool_ref_new_def)
qed

text \<open>A least-waiting selection is healthy and not undercut by another healthy replica.\<close>

lemma least_waiting_selected:
  assumes "rsel_strategy sel = RSS_LeastWaiting" "replica_select now rs sel = (Some r, sel')"
    "r' \<in> set (healthy_replicas now rs)"
  shows "r \<in> set (healthy_replicas now rs) \<and> (bpr_waiting_hint r, bpr_id r) \<le> (bpr_waiting_hint r', bpr_id r')"
  using assms min_by_key_in min_by_key_least [OF _ assms(3), where k = "\<lambda>r. (bpr_waiting_hint r, bpr_id r)"]
  by (fastforce simp: replica_select_def Let_def split: if_splits)

text \<open>A registered route is found by every route key with the same database and user.\<close>

lemma registry_lookup_insert:
  "registry_route_pools r (registry_insert route pools registry) =
   (if rk_database r = rk_database route \<and> rk_user r = rk_user route then Some pools
    else registry_route_pools r registry)"
  by (simp add: registry_route_pools_def registry_insert_def route_selection_key_def)

end
