(* ===== verification/Prepared.thy ===== *)
theory Prepared
  imports Session BTree_Map Wire_Message Wire_Backend "HOL-Library.Product_Lexorder"
begin

text \<open>
  Prepared statements, \<open>protocol/prepare.rs\<close> and \<open>prepare_frame_for_backend\<close> of \<open>proxy/forwarding.rs\<close>.
  A client's statement names are renamed to names that are unique per session; the catalog
  remembers on which backends a statement was already prepared, and a statement that a backend does
  not have yet is prepared by a \<open>Parse\<close> message put before the client's message.

  The hash maps are entry lists (\<open>btree_map\<close>): the code reads them by key, or in loops whose result
  does not depend on the order. Statement numbers are unbounded here; the program's \<open>u64\<close> would
  overflow after \<open>2^64\<close> statements of one session. \<open>None\<close> and \<open>FwdPanic\<close> are the panic of \<open>classify\<close>.
  Metrics and snapshots handles are left out.
\<close>

datatype invalidation_scope = IS_None | IS_Backend | IS_AllBackends

record prepared_statement =
  ps_client_name :: rstr
  ps_backend_name :: rstr
  ps_query :: rstr
  ps_analysis :: sql_analysis
  ps_command :: sql_command
  ps_parameter_type_oids :: "i32 list"
  ps_route_map_generation_id :: u64
  ps_shard_summary :: prepared_shard_summary
  ps_cache_key :: nat

record prepared_statement_snapshot =
  pss_session_id :: u64
  pss_client_statement_name :: rstr
  pss_backend_statement_name :: rstr
  pss_materialized_backend_count :: nat
  pss_invalidation_count :: nat

record materialized_statement =
  ms_shard_id :: "shard_id option"

record prepared_catalog =
  pc_session_id :: u64
  pc_next_statement_id :: nat
  pc_route_map_generation_id :: u64
  pc_statements :: "(rstr, prepared_statement) btree_map"
  pc_materialized :: "(u64, (nat, materialized_statement) btree_map) btree_map"
  pc_invalidation_counts :: "(nat, nat) btree_map"

definition catalog_new :: "u64 \<Rightarrow> prepared_catalog" where
  "catalog_new session_id =
     \<lparr>pc_session_id = session_id, pc_next_statement_id = 1, pc_route_map_generation_id = 0,
      pc_statements = [], pc_materialized = [], pc_invalidation_counts = []\<rparr>"

definition set_route_map_generation_id :: "u64 \<Rightarrow> prepared_catalog \<Rightarrow> prepared_catalog" where
  "set_route_map_generation_id g c =
     (if pc_route_map_generation_id c = g then c
      else c\<lparr>pc_route_map_generation_id := g, pc_materialized := [], pc_invalidation_counts := []\<rparr>)"

definition is_current_route_map :: "prepared_catalog \<Rightarrow> prepared_statement \<Rightarrow> bool" where
  "is_current_route_map c st \<longleftrightarrow> ps_route_map_generation_id st = pc_route_map_generation_id c"

definition remove_materialized_statement :: "nat \<Rightarrow> prepared_catalog \<Rightarrow> prepared_catalog" where
  "remove_materialized_statement key c =
     (if key = 0 then c
      else c\<lparr>pc_materialized :=
        filter (\<lambda>(b, m). m \<noteq> []) (map (\<lambda>(b, m). (b, bt_remove key m)) (pc_materialized c))\<rparr>)"

definition backend_statement_name :: "u64 \<Rightarrow> nat \<Rightarrow> rstr" where
  "backend_statement_name session_id key =
     lit ''pgk_'' @ fmt_decimal (unat session_id) @ lit ''_'' @ fmt_decimal key"

definition forget_previous :: "rstr \<Rightarrow> prepared_catalog \<Rightarrow> prepared_catalog" where
  "forget_previous client_name c =
     (case map_of (pc_statements c) client_name of
        None \<Rightarrow> c
      | Some st \<Rightarrow>
          (remove_materialized_statement (ps_cache_key st) c)
            \<lparr>pc_invalidation_counts := bt_remove (ps_cache_key st) (pc_invalidation_counts c)\<rparr>)"

definition upsert ::
  "rstr \<Rightarrow> rstr \<Rightarrow> i32 list \<Rightarrow> prepared_catalog \<Rightarrow> (prepared_statement \<times> prepared_catalog) option" where
  "upsert client_name query oids c =
     (case classify query of None \<Rightarrow> None
      | Some command \<Rightarrow>
          let c = forget_previous client_name c;
              cache_key = (if client_name = [] then 0 else pc_next_statement_id c);
              backend_name =
                (if client_name = [] then [] else backend_statement_name (pc_session_id c) cache_key);
              c = (if client_name = [] then c else c\<lparr>pc_next_statement_id := pc_next_statement_id c + 1\<rparr>);
              st = \<lparr>ps_client_name = client_name, ps_backend_name = backend_name, ps_query = query,
                    ps_analysis = analyze_sql query, ps_command = command, ps_parameter_type_oids = oids,
                    ps_route_map_generation_id = pc_route_map_generation_id c,
                    ps_shard_summary = (if client_name = [] then CurrentShard else Deferred),
                    ps_cache_key = cache_key\<rparr>
          in Some (st, c\<lparr>pc_statements := bt_insert client_name st (pc_statements c)\<rparr>))"

definition catalog_get :: "rstr \<Rightarrow> prepared_catalog \<Rightarrow> prepared_statement option" where
  "catalog_get client_name c = map_of (pc_statements c) client_name"

definition get_for_current_route_map :: "rstr \<Rightarrow> prepared_catalog \<Rightarrow> prepared_statement option" where
  "get_for_current_route_map client_name c =
     (case catalog_get client_name c of
        Some st \<Rightarrow> if is_current_route_map c st then Some st else None
      | None \<Rightarrow> None)"

definition catalog_remove :: "rstr \<Rightarrow> prepared_catalog \<Rightarrow> prepared_statement option \<times> prepared_catalog" where
  "catalog_remove client_name c =
     (case map_of (pc_statements c) client_name of
        None \<Rightarrow> (None, c)
      | Some st \<Rightarrow>
          (Some st,
           (remove_materialized_statement (ps_cache_key st)
              (c\<lparr>pc_statements := bt_remove client_name (pc_statements c)\<rparr>))
             \<lparr>pc_invalidation_counts := bt_remove (ps_cache_key st) (pc_invalidation_counts c)\<rparr>))"

definition has_named_statements :: "prepared_catalog \<Rightarrow> bool" where
  "has_named_statements c \<longleftrightarrow> list_ex (\<lambda>(name, st). name \<noteq> []) (pc_statements c)"

definition backend_entry :: "u64 \<Rightarrow> prepared_catalog \<Rightarrow> (nat, materialized_statement) btree_map" where
  "backend_entry b c = (case map_of (pc_materialized c) b of Some m \<Rightarrow> m | None \<Rightarrow> [])"

definition is_materialized :: "u64 \<Rightarrow> prepared_statement \<Rightarrow> prepared_catalog \<Rightarrow> bool" where
  "is_materialized b st c =
     (if \<not> is_current_route_map c st then False
      else if ps_cache_key st = 0 then True
      else case map_of (backend_entry b c) (ps_cache_key st) of
        Some m \<Rightarrow> ms_shard_id m = prepared_shard_id (ps_shard_summary st)
      | None \<Rightarrow> False)"

definition mark_materialized :: "u64 \<Rightarrow> prepared_statement \<Rightarrow> prepared_catalog \<Rightarrow> prepared_catalog" where
  "mark_materialized b st c =
     (if ps_cache_key st = 0 \<or> \<not> is_current_route_map c st then c
      else c\<lparr>pc_materialized :=
        bt_insert b
          (bt_insert (ps_cache_key st) \<lparr>ms_shard_id = prepared_shard_id (ps_shard_summary st)\<rparr> (backend_entry b c))
          (pc_materialized c)\<rparr>)"

definition increment_invalidation_count :: "nat \<Rightarrow> prepared_catalog \<Rightarrow> prepared_catalog" where
  "increment_invalidation_count key c =
     (if key = 0 then c
      else c\<lparr>pc_invalidation_counts :=
        bt_insert key
          ((case map_of (pc_invalidation_counts c) key of Some n \<Rightarrow> n | None \<Rightarrow> 0) + 1)
          (pc_invalidation_counts c)\<rparr>)"

definition invalidate_all :: "prepared_catalog \<Rightarrow> invalidation_scope \<times> prepared_catalog" where
  "invalidate_all c =
     (IS_AllBackends,
      fold increment_invalidation_count (concat (map (\<lambda>(b, m). map fst m) (pc_materialized c)))
        (c\<lparr>pc_materialized := []\<rparr>))"

definition invalidate_for_sqlstate ::
  "sql_state \<Rightarrow> u64 \<Rightarrow> prepared_catalog \<Rightarrow> invalidation_scope \<times> prepared_catalog" where
  "invalidate_for_sqlstate sqlstate b c =
     (case sqlstate of
        InvalidSqlStatementName \<Rightarrow>
          (IS_Backend,
           fold increment_invalidation_count (map fst (backend_entry b c))
             (c\<lparr>pc_materialized := bt_remove b (pc_materialized c)\<rparr>))
      | FeatureNotSupported \<Rightarrow> invalidate_all c
      | UndefinedTable \<Rightarrow> invalidate_all c
      | UndefinedColumn \<Rightarrow> invalidate_all c
      | _ \<Rightarrow> (IS_None, c))"

definition materialized_backend_count :: "prepared_statement \<Rightarrow> prepared_catalog \<Rightarrow> nat" where
  "materialized_backend_count st c =
     (if ps_cache_key st = 0 then 0
      else length (filter
        (\<lambda>(b, m). case map_of m (ps_cache_key st) of
            Some ms \<Rightarrow> ms_shard_id ms = prepared_shard_id (ps_shard_summary st) | None \<Rightarrow> False)
        (pc_materialized c)))"

text \<open>The snapshots are sorted by client name, which is the order of the entry list.\<close>

definition catalog_snapshot :: "prepared_catalog \<Rightarrow> prepared_statement_snapshot list" where
  "catalog_snapshot c =
     sort_key (\<lambda>s. (pss_client_statement_name s, pss_backend_statement_name s))
       (map (\<lambda>(name, st).
          \<lparr>pss_session_id = pc_session_id c,
           pss_client_statement_name = ps_client_name st,
           pss_backend_statement_name = ps_backend_name st,
           pss_materialized_backend_count = materialized_backend_count st c,
           pss_invalidation_count =
             (case map_of (pc_invalidation_counts c) (ps_cache_key st) of Some n \<Rightarrow> n | None \<Rightarrow> 0)\<rparr>)
        (pc_statements c))"

section \<open>Forwarding\<close>

datatype forward_error = FwdWire wire_error | FwdPanic

record prepared_forward_plan =
  pf_prelude :: "frontend_frame list"
  pf_frame :: frontend_frame

definition plan_single :: "frontend_frame \<Rightarrow> prepared_forward_plan" where
  "plan_single frame = \<lparr>pf_prelude = [], pf_frame = frame\<rparr>"

definition wire :: "wire_error + 'a \<Rightarrow> forward_error + 'a" where
  "wire r = (case r of Inl e \<Rightarrow> Inl (FwdWire e) | Inr a \<Rightarrow> Inr a)"

text \<open>The block shared by \<open>Bind\<close> and \<open>Describe\<close>: prepare the statement on the backend if needed.\<close>

definition materialize ::
  "u64 \<Rightarrow> prepared_statement \<Rightarrow> prepared_catalog \<Rightarrow> frontend_frame list \<times> prepared_catalog" where
  "materialize b st c =
     (if is_materialized b st c then ([], c)
      else ([build_parse_frame (ps_backend_name st) (ps_query st) (ps_parameter_type_oids st)],
            mark_materialized b st c))"

definition forward_parse ::
  "u64 \<Rightarrow> frontend_frame \<Rightarrow> parse_message \<Rightarrow> prepared_catalog \<Rightarrow>
   forward_error + prepared_forward_plan \<times> prepared_catalog" where
  "forward_parse b frame parse c =
     (case upsert (pm_statement_name parse) (pm_query parse) (pm_parameter_type_oids parse) c of
        None \<Rightarrow> Inl FwdPanic
      | Some (st, c) \<Rightarrow>
          and_then (wire (rewrite_parse_statement_name frame (ps_backend_name st)))
            (\<lambda>frame. Inr (plan_single frame, mark_materialized b st c)))"

definition forward_bind ::
  "u64 \<Rightarrow> frontend_frame \<Rightarrow> prepared_statement \<Rightarrow> prepared_catalog \<Rightarrow>
   forward_error + prepared_forward_plan \<times> prepared_catalog" where
  "forward_bind b frame st c =
     (let (prelude, c) = materialize b st c
      in and_then (wire (rewrite_bind_statement_name frame (ps_backend_name st)))
           (\<lambda>frame. Inr (\<lparr>pf_prelude = prelude, pf_frame = frame\<rparr>, c)))"

definition forward_describe ::
  "u64 \<Rightarrow> frontend_frame \<Rightarrow> prepared_statement \<Rightarrow> prepared_catalog \<Rightarrow>
   forward_error + prepared_forward_plan \<times> prepared_catalog" where
  "forward_describe b frame st c =
     (let (prelude, c) = materialize b st c
      in and_then (wire (rewrite_describe_statement_name frame (ps_backend_name st)))
           (\<lambda>frame. Inr (\<lparr>pf_prelude = prelude, pf_frame = frame\<rparr>, c)))"

definition forward_close ::
  "frontend_frame \<Rightarrow> rstr \<Rightarrow> prepared_catalog \<Rightarrow> forward_error + prepared_forward_plan \<times> prepared_catalog" where
  "forward_close frame name c =
     (case catalog_remove name c of
        (Some st, c) \<Rightarrow>
          and_then (wire (rewrite_close_statement_name frame (ps_backend_name st)))
            (\<lambda>frame. Inr (plan_single frame, c))
      | (None, c) \<Rightarrow> Inr (plan_single frame, c))"

text \<open>
  The four readers look at different tags, so at most one of the blocks applies. A \<open>Bind\<close>, \<open>Describe\<close>
  or \<open>Close\<close> of a statement the catalog does not know passes through.
\<close>

definition prepare_frame_for_backend ::
  "u64 \<Rightarrow> frontend_frame \<Rightarrow> prepared_catalog \<Rightarrow> forward_error + prepared_forward_plan \<times> prepared_catalog" where
  "prepare_frame_for_backend b frame c =
     and_then (wire (parse_parse_message frame)) (\<lambda>parse.
     case parse of Some parse \<Rightarrow> forward_parse b frame parse c
     | None \<Rightarrow>
       and_then (wire (parse_bind_statement_name frame)) (\<lambda>bind.
       case Option.bind bind (\<lambda>name. get_for_current_route_map name c) of
         Some st \<Rightarrow> forward_bind b frame st c
       | None \<Rightarrow>
         and_then (wire (parse_describe_target frame)) (\<lambda>describe.
         case Option.bind describe
                (\<lambda>t. case t of DT_Statement name \<Rightarrow> get_for_current_route_map name c | DT_Portal _ \<Rightarrow> None) of
           Some st \<Rightarrow> forward_describe b frame st c
         | None \<Rightarrow>
           and_then (wire (parse_close_target frame)) (\<lambda>close.
           case close of
             Some (CT_Statement name) \<Rightarrow> forward_close frame name c
           | _ \<Rightarrow> Inr (plan_single frame, c)))))"

section \<open>Backend names\<close>

lemma backend_statement_name_inject:
  assumes "backend_statement_name sid k = backend_statement_name sid k'"
  shows "k = k'"
proof -
  have "fmt_decimal k = fmt_decimal k'" using assms by (simp add: backend_statement_name_def)
  then show ?thesis by (metis decimal_value_fmt)
qed

lemma backend_statement_name_cstr [simp]: "cstr_ok (backend_statement_name sid k)"
proof -
  have "\<forall>c\<in>set (fmt_decimal n). is_scalar c \<and> c \<noteq> 0" for n
    using fmt_decimal_digits [of n] by (auto simp: is_ascii_digit_def is_scalar_def)
  then show ?thesis
    by (auto simp: backend_statement_name_def cstr_ok_def lit_def is_scalar_def)
qed

lemma backend_statement_name_neq_Nil [simp]: "backend_statement_name sid k \<noteq> []"
  by (simp add: backend_statement_name_def lit_def)

section \<open>The catalog invariant\<close>

definition statement_ok :: "u64 \<Rightarrow> nat \<Rightarrow> rstr \<Rightarrow> prepared_statement \<Rightarrow> bool" where
  "statement_ok sid limit name st \<longleftrightarrow>
     ps_client_name st = name \<and> cstr_ok (ps_query st) \<and> length (ps_parameter_type_oids st) < 2 ^ 15 \<and>
     (if name = [] then ps_cache_key st = 0 \<and> ps_backend_name st = []
      else 0 < ps_cache_key st \<and> ps_cache_key st < limit \<and>
           ps_backend_name st = backend_statement_name sid (ps_cache_key st))"

definition catalog_ok :: "prepared_catalog \<Rightarrow> bool" where
  "catalog_ok c \<longleftrightarrow>
     bt_invar (pc_statements c) \<and> bt_invar (pc_materialized c) \<and>
     (\<forall>(b, m)\<in>set (pc_materialized c). bt_invar m) \<and>
     (\<forall>name st. catalog_get name c = Some st \<longrightarrow> statement_ok (pc_session_id c) (pc_next_statement_id c) name st) \<and>
     (\<forall>name name' st st'. catalog_get name c = Some st \<and> catalog_get name' c = Some st' \<and>
        ps_cache_key st = ps_cache_key st' \<longrightarrow> name = name') \<and>
     0 < pc_next_statement_id c"

lemma catalog_okI:
  assumes "bt_invar (pc_statements c)" and "bt_invar (pc_materialized c)"
    and "\<And>b m. (b, m) \<in> set (pc_materialized c) \<Longrightarrow> bt_invar m"
    and "\<And>name st. catalog_get name c = Some st \<Longrightarrow> statement_ok (pc_session_id c) (pc_next_statement_id c) name st"
    and "\<And>name name' st st'. catalog_get name c = Some st \<Longrightarrow> catalog_get name' c = Some st' \<Longrightarrow>
        ps_cache_key st = ps_cache_key st' \<Longrightarrow> name = name'"
    and "0 < pc_next_statement_id c"
  shows "catalog_ok c"
  using assms unfolding catalog_ok_def by blast

lemma catalog_okD:
  assumes "catalog_ok c" and "catalog_get name c = Some st"
  shows "statement_ok (pc_session_id c) (pc_next_statement_id c) name st"
  using assms by (simp add: catalog_ok_def)

text \<open>The keys a backend is recorded to have.\<close>

definition mat :: "prepared_catalog \<Rightarrow> u64 \<Rightarrow> nat \<Rightarrow> materialized_statement option" where
  "mat c b = map_of (backend_entry b c)"

lemma set_bt_remove: "set (bt_remove k m) \<subseteq> set m"
  by (auto simp: bt_remove_def)

lemma bt_invar_filter: "bt_invar m \<Longrightarrow> bt_invar (filter p m)"
  unfolding bt_invar_def by (induction m) auto

lemma bt_invar_map_values: "bt_invar (map (\<lambda>(k, v). (k, f v)) m) = bt_invar m"
  by (simp add: bt_invar_def comp_def case_prod_beta)

lemma map_of_filter_map:
  assumes "distinct (map fst m)"
  shows "map_of (filter (\<lambda>(k, v). p v) (map (\<lambda>(k, v). (k, f v)) m)) k =
    (case map_of m k of Some v \<Rightarrow> if p (f v) then Some (f v) else None | None \<Rightarrow> None)"
  using assms
proof (induction m)
  case (Cons e m)
  have "map_of m (fst e) = None" using Cons.prems by (simp add: map_of_eq_None_iff)
  then show ?case using Cons by (cases e) (auto split: option.splits)
qed simp

lemma mat_remove:
  assumes "catalog_ok c" and "key \<noteq> 0"
  shows "mat (remove_materialized_statement key c) b = (mat c b)(key := None)"
proof -
  have "distinct (map fst (pc_materialized c))"
    using assms(1) bt.entries_distinct by (auto simp: catalog_ok_def)
  note lookup = map_of_filter_map [OF this, of "\<lambda>m. m \<noteq> []" "bt_remove key" b]
  show ?thesis
  proof (cases "map_of (pc_materialized c) b")
    case None
    then show ?thesis
      using assms(2) lookup by (auto simp: mat_def backend_entry_def remove_materialized_statement_def)
  next
    case (Some m)
    then show ?thesis
      using assms(2) lookup map_of_bt_remove [of key m]
      by (auto simp: mat_def backend_entry_def remove_materialized_statement_def)
  qed
qed

lemma remove_materialized_ok: "catalog_ok c \<Longrightarrow> catalog_ok (remove_materialized_statement key c)"
  by (auto simp: catalog_ok_def remove_materialized_statement_def catalog_get_def bt_invar_filter
      bt_invar_map_values bt_invar_remove split: prod.splits)

lemma remove_materialized_frame [simp]:
  "pc_session_id (remove_materialized_statement key c) = pc_session_id c"
  "pc_next_statement_id (remove_materialized_statement key c) = pc_next_statement_id c"
  "pc_route_map_generation_id (remove_materialized_statement key c) = pc_route_map_generation_id c"
  "pc_statements (remove_materialized_statement key c) = pc_statements c"
  by (simp_all add: remove_materialized_statement_def)

lemma mat_counts [simp]: "mat (c\<lparr>pc_invalidation_counts := x\<rparr>) = mat c"
  by (simp add: mat_def backend_entry_def fun_eq_iff)

lemma mat_statements [simp]: "mat (c\<lparr>pc_statements := x\<rparr>) = mat c"
  by (simp add: mat_def backend_entry_def fun_eq_iff)

lemma mat_next [simp]: "mat (c\<lparr>pc_next_statement_id := x\<rparr>) = mat c"
  by (simp add: mat_def backend_entry_def fun_eq_iff)

lemma backend_entry_invar: "catalog_ok c \<Longrightarrow> bt_invar (backend_entry b c)"
  using map_of_SomeD [of "pc_materialized c" b]
  by (auto simp: backend_entry_def catalog_ok_def split: option.splits)

lemma mat_mark:
  assumes "catalog_ok c"
  shows "mat (mark_materialized b st c) b' =
    (if b' = b \<and> ps_cache_key st \<noteq> 0 \<and> is_current_route_map c st
     then (mat c b)(ps_cache_key st \<mapsto> \<lparr>ms_shard_id = prepared_shard_id (ps_shard_summary st)\<rparr>)
     else mat c b')"
proof -
  have "bt_invar (pc_materialized c)" using assms by (simp add: catalog_ok_def)
  then show ?thesis
    using map_of_bt_insert [OF backend_entry_invar [OF assms, of b]]
    by (auto simp: mat_def mark_materialized_def backend_entry_def map_of_bt_insert)
qed

lemma mark_materialized_frame [simp]:
  "pc_session_id (mark_materialized b st c) = pc_session_id c"
  "pc_next_statement_id (mark_materialized b st c) = pc_next_statement_id c"
  "pc_route_map_generation_id (mark_materialized b st c) = pc_route_map_generation_id c"
  "pc_statements (mark_materialized b st c) = pc_statements c"
  by (simp_all add: mark_materialized_def)

lemma mark_materialized_ok:
  assumes "catalog_ok c" shows "catalog_ok (mark_materialized b st c)"
proof -
  let ?m = "bt_insert (ps_cache_key st) \<lparr>ms_shard_id = prepared_shard_id (ps_shard_summary st)\<rparr> (backend_entry b c)"
  have "bt_invar ?m" by (intro bt_invar_insert backend_entry_invar assms)
  moreover have "set (bt_insert b ?m (pc_materialized c)) \<subseteq> insert (b, ?m) (set (pc_materialized c))"
    by (rule set_bt_insert)
  moreover have "bt_invar (bt_insert b ?m (pc_materialized c))"
    using assms by (intro bt_invar_insert) (simp add: catalog_ok_def)
  ultimately show ?thesis
    using assms unfolding catalog_ok_def mark_materialized_def catalog_get_def by auto
qed

lemma increment_frame [simp]:
  "pc_session_id (fold increment_invalidation_count ks c) = pc_session_id c"
  "pc_next_statement_id (fold increment_invalidation_count ks c) = pc_next_statement_id c"
  "pc_route_map_generation_id (fold increment_invalidation_count ks c) = pc_route_map_generation_id c"
  "pc_statements (fold increment_invalidation_count ks c) = pc_statements c"
  "pc_materialized (fold increment_invalidation_count ks c) = pc_materialized c"
  by (induction ks arbitrary: c) (simp_all add: increment_invalidation_count_def)

section \<open>What has been sent\<close>

text \<open>
  A record of messages, by statement name: the query and parameter types of the last \<open>Parse\<close> sent
  under the name, unless a \<open>Close\<close> of the name followed it. It speaks of what was sent, not of what
  the server did with it.
\<close>

type_synonym parses = "rstr \<rightharpoonup> rstr \<times> i32 list"

definition record_parse :: "frontend_frame \<Rightarrow> parses \<Rightarrow> parses" where
  "record_parse f K =
     (case parse_parse_message f of
        Inr (Some m) \<Rightarrow> K(pm_statement_name m \<mapsto> (pm_query m, pm_parameter_type_oids m))
      | _ \<Rightarrow> (case parse_close_target f of
                Inr (Some (CT_Statement name)) \<Rightarrow> K(name := None)
              | _ \<Rightarrow> K))"

definition record_plan :: "prepared_forward_plan \<Rightarrow> parses \<Rightarrow> parses" where
  "record_plan plan K = record_parse (pf_frame plan) (fold record_parse (pf_prelude plan) K)"

text \<open>
  The catalog agrees with what was sent to the backends: a statement that it marks as prepared on
  a backend was sent there under its name, with the query the client gave.
\<close>

definition agrees :: "prepared_catalog \<Rightarrow> (u64 \<Rightarrow> parses) \<Rightarrow> bool" where
  "agrees c K \<longleftrightarrow>
     catalog_ok c \<and>
     (\<forall>b k. mat c b k \<noteq> None \<longrightarrow> 0 < k \<and> k < pc_next_statement_id c) \<and>
     (\<forall>b name st. catalog_get name c = Some st \<and> name \<noteq> [] \<and> mat c b (ps_cache_key st) \<noteq> None \<longrightarrow>
        K b (ps_backend_name st) = Some (ps_query st, ps_parameter_type_oids st))"

lemma agreesI:
  assumes "catalog_ok c"
    and "\<And>b k. mat c b k \<noteq> None \<Longrightarrow> 0 < k \<and> k < pc_next_statement_id c"
    and "\<And>b name st. catalog_get name c = Some st \<Longrightarrow> name \<noteq> [] \<Longrightarrow> mat c b (ps_cache_key st) \<noteq> None \<Longrightarrow>
        K b (ps_backend_name st) = Some (ps_query st, ps_parameter_type_oids st)"
  shows "agrees c K"
  using assms unfolding agrees_def by blast

lemma agreesD:
  assumes "agrees c K"
  shows "catalog_ok c"
    and "mat c b k \<noteq> None \<Longrightarrow> 0 < k \<and> k < pc_next_statement_id c"
    and "catalog_get name c = Some st \<Longrightarrow> name \<noteq> [] \<Longrightarrow> mat c b (ps_cache_key st) \<noteq> None \<Longrightarrow>
        K b (ps_backend_name st) = Some (ps_query st, ps_parameter_type_oids st)"
  using assms unfolding agrees_def by blast+

text \<open>Without marks for a backend, the agreement says nothing of it.\<close>

lemma agrees_unmarked: "agrees c K \<Longrightarrow> (\<And>k. mat c b k = None) \<Longrightarrow> agrees c (K(b := S))"
  by (auto simp: agrees_def)

lemma agrees_no_marks: "agrees c K \<Longrightarrow> (\<And>b k. mat c b k = None) \<Longrightarrow> agrees c S"
  by (auto simp: agrees_def)

text \<open>Forgetting entries of the record keeps the agreement.\<close>

lemma agrees_forget:
  assumes "agrees c K" and "catalog_ok c'" and "pc_statements c' = pc_statements c"
    and "pc_next_statement_id c' = pc_next_statement_id c"
    and "\<And>b k. mat c' b k \<noteq> None \<Longrightarrow> mat c b k \<noteq> None"
  shows "agrees c' K"
proof (rule agreesI)
  show "catalog_ok c'" by (rule assms(2))
  show "0 < k \<and> k < pc_next_statement_id c'" if "mat c' b k \<noteq> None" for b k
    using agreesD(2) [OF assms(1)] assms(4) assms(5) [OF that] by metis
  show "K b (ps_backend_name st) = Some (ps_query st, ps_parameter_type_oids st)"
    if "catalog_get name c' = Some st" "name \<noteq> []" "mat c' b (ps_cache_key st) \<noteq> None" for b name st
    using agreesD(3) [OF assms(1)] assms(3) assms(5) [OF that(3)] that(1,2) by (metis catalog_get_def)
qed

lemma agrees_new: "agrees (catalog_new sid) K"
  by (rule agreesI) (simp_all add: catalog_ok_def catalog_new_def mat_def backend_entry_def catalog_get_def)

lemma agrees_generation: "agrees c K \<Longrightarrow> agrees (set_route_map_generation_id g c) K"
proof (cases "pc_route_map_generation_id c = g")
  case False
  assume a: "agrees c K"
  then show ?thesis
    by (rule agrees_forget)
      (use agreesD(1) [OF a] False in
        \<open>auto simp: set_route_map_generation_id_def mat_def backend_entry_def catalog_ok_def catalog_get_def\<close>)
qed (simp add: set_route_map_generation_id_def)

lemma agrees_invalidate: "agrees c K \<Longrightarrow> agrees (snd (invalidate_for_sqlstate st b c)) K"
proof -
  assume a: "agrees c K"
  then have ok: "catalog_ok c" by (rule agreesD)
  have all: "agrees (snd (invalidate_all c)) K"
    using a by (rule agrees_forget)
      (use ok in \<open>auto simp: invalidate_all_def mat_def backend_entry_def catalog_ok_def catalog_get_def\<close>)
  have one: "agrees (fold increment_invalidation_count ks (c\<lparr>pc_materialized := bt_remove b (pc_materialized c)\<rparr>)) K" for ks
    using a by (rule agrees_forget)
      (use ok in \<open>auto simp: mat_def backend_entry_def catalog_ok_def catalog_get_def bt_invar_remove map_of_bt_remove
          dest!: set_bt_remove [THEN subsetD] split: if_splits\<close>)
  show ?thesis using a all one by (cases st) (simp_all add: invalidate_for_sqlstate_def)
qed

text \<open>Messages that neither prepare nor close leave a backend's statements alone.\<close>

lemma parse_reader_tag: "ff_tag f \<noteq> frontend_tag_byte FE_Parse \<Longrightarrow> parse_parse_message f = Inr None"
  by (simp add: parse_parse_message_def)

lemma close_reader_tag: "ff_tag f \<noteq> frontend_tag_byte FE_Close \<Longrightarrow> parse_close_target f = Inr None"
  by (simp add: parse_close_target_def)

lemma record_parse_other:
  "ff_tag f \<noteq> frontend_tag_byte FE_Parse \<Longrightarrow> ff_tag f \<noteq> frontend_tag_byte FE_Close \<Longrightarrow> record_parse f K = K"
  by (simp add: record_parse_def parse_reader_tag close_reader_tag)

lemma oid_chunks_length: "length (oid_chunks bs) = length bs div 4"
  by (induction bs rule: oid_chunks.induct) simp_all

lemma parse_message_sound:
  assumes "parse_parse_message f = Inr (Some m)"
  shows "cstr_ok (pm_query m) \<and> length (pm_parameter_type_oids m) < 2 ^ 15"
proof -
  obtain name n1 query n2 cb oids where r:
    "read_cstr (ff_payload f) 0 = Inr (name, n1)" "read_cstr (ff_payload f) n1 = Inr (query, n2)"
    "slice_range (ff_payload f) (n2 + 2) (n2 + 2 + nat (sint (i16_from_be (cb ! 0) (cb ! 1))) * 4) = Some oids"
    "pm_query m = query" "pm_parameter_type_oids m = oid_chunks oids"
    using assms by (auto simp: parse_parse_message_def Let_def and_then_eq_Inr ok_or_def
        split: if_splits option.splits)
  have "length oids = nat (sint (i16_from_be (cb ! 0) (cb ! 1))) * 4"
    using r(3) by (auto simp: slice_range_def split: if_splits)
  moreover have "sint (i16_from_be (cb ! 0) (cb ! 1)) < 2 ^ 15"
    using sint_less [of "i16_from_be (cb ! 0) (cb ! 1)"] by simp
  ultimately have "length (oid_chunks oids) < 2 ^ 15" by (simp add: oid_chunks_length)
  then show ?thesis using read_cstr_Inr [OF r(2)] r(4,5) by simp
qed

section \<open>Forwarding keeps the agreement\<close>

lemma wire_simps [simp]: "wire (Inl e) = Inl (FwdWire e)" "wire (Inr x) = Inr x"
  by (simp_all add: wire_def)

lemma wire_Inr [simp]: "wire r = Inr x \<longleftrightarrow> r = Inr x"
  by (cases r) simp_all

lemma built_parse_recorded:
  assumes "statement_ok sid n name st" and "name \<noteq> []"
  shows "record_parse (build_parse_frame (ps_backend_name st) (ps_query st) (ps_parameter_type_oids st)) K =
    K(ps_backend_name st \<mapsto> (ps_query st, ps_parameter_type_oids st))"
  using assms parse_build_parse_frame [of "ps_backend_name st" "ps_query st" "ps_parameter_type_oids st"]
  by (simp add: record_parse_def statement_ok_def)

text \<open>A statement's name on the backends is not the name of another statement.\<close>

lemma backend_name_eq:
  assumes "catalog_ok c" and "catalog_get n c = Some st" and "catalog_get n' c = Some st'"
    and "n \<noteq> []" and "n' \<noteq> []" and "ps_backend_name st = ps_backend_name st'"
  shows "n = n'"
proof -
  have "ps_cache_key st = ps_cache_key st'"
    using catalog_okD [OF assms(1,2)] catalog_okD [OF assms(1,3)] assms(4-6) backend_statement_name_inject
    by (auto simp: statement_ok_def)
  then show ?thesis using assms(1-3) unfolding catalog_ok_def by blast
qed

text \<open>Recording a statement of the catalog as prepared on \<open>b\<close>, once \<open>b\<close> has it.\<close>

lemma agrees_mark:
  assumes a: "agrees c K" and st: "catalog_get name c = Some st"
    and K': "name \<noteq> [] \<Longrightarrow> K' = K(b := (K b)(ps_backend_name st \<mapsto> (ps_query st, ps_parameter_type_oids st)))"
    and U: "name = [] \<Longrightarrow> K' = K"
  shows "agrees (mark_materialized b st c) K'"
proof -
  have ok: "catalog_ok c" using a by (rule agreesD)
  have sok: "statement_ok (pc_session_id c) (pc_next_statement_id c) name st" using ok st by (rule catalog_okD)
  show ?thesis
  proof (rule agreesI)
    show "catalog_ok (mark_materialized b st c)" using ok by (rule mark_materialized_ok)
    show "0 < k \<and> k < pc_next_statement_id (mark_materialized b st c)"
      if "mat (mark_materialized b st c) b' k \<noteq> None" for b' k
      using that sok agreesD(2) [OF a, of b' k]
      by (auto simp: mat_mark [OF ok] statement_ok_def split: if_splits)
    show "K' b' (ps_backend_name st') = Some (ps_query st', ps_parameter_type_oids st')"
      if get: "catalog_get n (mark_materialized b st c) = Some st'" and n: "n \<noteq> []"
        and m: "mat (mark_materialized b st c) b' (ps_cache_key st') \<noteq> None" for b' n st'
    proof -
      have get': "catalog_get n c = Some st'" using get by (simp add: catalog_get_def)
      show ?thesis
      proof (cases "n = name")
        case True
        then have "st' = st" using get' st by simp
        then show ?thesis
          using True n K' m agreesD(3) [OF a get' n, of b'] by (auto simp: mat_mark [OF ok] split: if_splits)
      next
        case False
        then have "ps_cache_key st' \<noteq> ps_cache_key st"
          using ok get' st unfolding catalog_ok_def by blast
        then have "K b' (ps_backend_name st') = Some (ps_query st', ps_parameter_type_oids st')"
          using m agreesD(3) [OF a get' n, of b'] by (auto simp: mat_mark [OF ok] split: if_splits)
        moreover have "ps_backend_name st' \<noteq> ps_backend_name st" if "name \<noteq> []"
          using backend_name_eq [OF ok get' st n that] False by blast
        ultimately show ?thesis using K' U by (cases "name = []") auto
      qed
    qed
  qed
qed

lemma materialize_agrees:
  assumes a: "agrees c K" and st: "catalog_get name c = Some st" and n: "name \<noteq> []"
    and m: "materialize b st c = (prelude, c')"
  shows "agrees c' (K(b := fold record_parse prelude (K b)))"
proof (cases "is_materialized b st c")
  case True
  then show ?thesis using a m by (simp add: materialize_def)
next
  case False
  have "statement_ok (pc_session_id c) (pc_next_statement_id c) name st"
    using agreesD(1) [OF a] st by (rule catalog_okD)
  then have "fold record_parse prelude (K b) = (K b)(ps_backend_name st \<mapsto> (ps_query st, ps_parameter_type_oids st))"
    using False m n by (auto simp: materialize_def built_parse_recorded)
  then show ?thesis
    using agrees_mark [OF a st] False m n by (auto simp: materialize_def)
qed

lemma materialize_recorded:
  assumes a: "agrees c K" and st: "get_for_current_route_map name c = Some st" and n: "name \<noteq> []"
    and m: "materialize b st c = (prelude, c')"
  shows "fold record_parse prelude (K b) (ps_backend_name st) = Some (ps_query st, ps_parameter_type_oids st)"
proof -
  have get: "catalog_get name c = Some st" and cur: "is_current_route_map c st"
    using st by (auto simp: get_for_current_route_map_def split: option.splits if_splits)
  have sok: "statement_ok (pc_session_id c) (pc_next_statement_id c) name st"
    using agreesD(1) [OF a] get by (rule catalog_okD)
  show ?thesis
  proof (cases "is_materialized b st c")
    case True
    then have "mat c b (ps_cache_key st) \<noteq> None"
      using sok n cur by (auto simp: is_materialized_def mat_def statement_ok_def split: option.splits)
    then show ?thesis using agreesD(3) [OF a get n] True m by (simp add: materialize_def)
  next
    case False
    then show ?thesis using m sok n by (auto simp: materialize_def built_parse_recorded)
  qed
qed

lemma forget_previous_frame [simp]:
  "pc_session_id (forget_previous name c) = pc_session_id c"
  "pc_next_statement_id (forget_previous name c) = pc_next_statement_id c"
  "pc_route_map_generation_id (forget_previous name c) = pc_route_map_generation_id c"
  "pc_statements (forget_previous name c) = pc_statements c"
  by (simp_all add: forget_previous_def split: option.split)

lemma catalog_ok_counts [simp]: "catalog_ok (c\<lparr>pc_invalidation_counts := x\<rparr>) = catalog_ok c"
  by (simp add: catalog_ok_def catalog_get_def)

lemma mat_remove_less: "catalog_ok c \<Longrightarrow> mat (remove_materialized_statement key c) b k \<noteq> None \<Longrightarrow> mat c b k \<noteq> None"
proof (cases "key = 0")
  case False
  assume "catalog_ok c" and "mat (remove_materialized_statement key c) b k \<noteq> None"
  then show ?thesis using mat_remove [OF _ False] by (auto split: if_splits)
qed (simp add: remove_materialized_statement_def)

lemma agrees_forget_previous: "agrees c K \<Longrightarrow> agrees (forget_previous name c) K"
proof (cases "map_of (pc_statements c) name")
  case (Some st)
  assume a: "agrees c K"
  then have ok: "catalog_ok c" by (rule agreesD)
  from a show ?thesis
    by (rule agrees_forget)
      (use Some remove_materialized_ok [OF ok] mat_remove_less [OF ok] in \<open>auto simp: forget_previous_def\<close>)
qed (simp add: forget_previous_def)

text \<open>Adding a statement under a fresh number.\<close>

lemma agrees_insert:
  assumes a: "agrees c K" and st: "statement_ok (pc_session_id c) n' name st"
    and fresh: "name \<noteq> [] \<Longrightarrow> ps_cache_key st = pc_next_statement_id c \<and> n' = pc_next_statement_id c + 1"
    and unnamed: "name = [] \<Longrightarrow> n' = pc_next_statement_id c"
  shows "agrees (c\<lparr>pc_next_statement_id := n', pc_statements := bt_insert name st (pc_statements c)\<rparr>) K"
    (is "agrees ?c K")
proof -
  have ok: "catalog_ok c" using a by (rule agreesD)
  have inv: "bt_invar (pc_statements c)" using ok by (simp add: catalog_ok_def)
  have get: "catalog_get n ?c = (if n = name then Some st else catalog_get n c)" for n
    by (simp add: catalog_get_def map_of_bt_insert [OF inv])
  have le: "pc_next_statement_id c \<le> n'" using fresh unnamed by (cases "name = []") auto
  have old: "statement_ok (pc_session_id c) n' n st'" if "catalog_get n c = Some st'" for n st'
    using catalog_okD [OF ok that] le by (auto simp: statement_ok_def split: if_splits)
  have key: "ps_cache_key st' \<noteq> ps_cache_key st" if "catalog_get n c = Some st'" "n \<noteq> name" for n st'
    using catalog_okD [OF ok that(1)] st fresh that(2) by (cases "name = []"; cases "n = []") (auto simp: statement_ok_def)
  have uniq: "n1 = n2" if "catalog_get n1 ?c = Some s1" "catalog_get n2 ?c = Some s2"
      "ps_cache_key s1 = ps_cache_key s2" for n1 n2 s1 s2
  proof -
    have "catalog_get n1 c = Some s1 \<Longrightarrow> catalog_get n2 c = Some s2 \<Longrightarrow> n1 = n2"
      using ok that(3) unfolding catalog_ok_def by blast
    then show ?thesis using that key [of n1 s1] key [of n2 s2] by (auto simp: get split: if_splits)
  qed
  have okc: "catalog_ok ?c"
  proof (rule catalog_okI)
    show "statement_ok (pc_session_id ?c) (pc_next_statement_id ?c) n s'" if "catalog_get n ?c = Some s'" for n s'
      using that st old [of n s'] by (auto simp: get split: if_splits)
    show "n1 = n2" if "catalog_get n1 ?c = Some s1" "catalog_get n2 ?c = Some s2"
        "ps_cache_key s1 = ps_cache_key s2" for n1 n2 s1 s2
      using that by (rule uniq)
    show "bt_invar m" if "(b, m) \<in> set (pc_materialized ?c)" for b m
      using ok that by (auto simp: catalog_ok_def)
    show "0 < pc_next_statement_id ?c" using ok le by (simp add: catalog_ok_def)
  qed (use ok inv in \<open>simp_all add: bt_invar_insert catalog_ok_def\<close>)
  have mat: "mat ?c = mat c" by (simp add: mat_def backend_entry_def fun_eq_iff)
  show ?thesis
  proof (rule agreesI [OF okc])
    show "0 < k \<and> k < pc_next_statement_id ?c" if "mat ?c b k \<noteq> None" for b k
      using agreesD(2) [OF a] that le unfolding mat by fastforce
    show "K b (ps_backend_name s') = Some (ps_query s', ps_parameter_type_oids s')"
      if "catalog_get n ?c = Some s'" "n \<noteq> []" "mat ?c b (ps_cache_key s') \<noteq> None" for b n s'
    proof (cases "n = name")
      case True
      then have "s' = st" using that(1) unfolding get by simp
      then have "ps_cache_key s' = pc_next_statement_id c" using that(2) fresh True by simp
      then show ?thesis using agreesD(2) [OF a] that(3) unfolding mat by fastforce
    next
      case False
      then show ?thesis using agreesD(3) [OF a _ that(2)] that(1,3) unfolding mat get by simp
    qed
  qed
qed

lemma upsert_agrees:
  assumes a: "agrees c K" and q: "cstr_ok query" and l: "length oids < 2 ^ 15"
    and u: "upsert name query oids c = Some (st, c')"
  shows "agrees c' K" and "catalog_get name c' = Some st" and "ps_query st = query"
    and "ps_parameter_type_oids st = oids" and "pc_session_id c' = pc_session_id c"
    and "cstr_ok (ps_backend_name st)" and "name = [] \<Longrightarrow> ps_backend_name st = []"
proof -
  let ?c = "forget_previous name c"
  let ?n = "if name = [] then pc_next_statement_id c else pc_next_statement_id c + 1"
  have a': "agrees ?c K" using a by (rule agrees_forget_previous)
  have inv: "bt_invar (pc_statements c)" using agreesD(1) [OF a] by (simp add: catalog_ok_def)
  have c': "c' = ?c\<lparr>pc_next_statement_id := ?n, pc_statements := bt_insert name st (pc_statements ?c)\<rparr>"
    and st: "statement_ok (pc_session_id ?c) ?n name st"
    and key: "name \<noteq> [] \<Longrightarrow> ps_cache_key st = pc_next_statement_id ?c"
    and qs: "ps_query st = query" "ps_parameter_type_oids st = oids"
    using u q l agreesD(1) [OF a]
    by (auto simp: upsert_def Let_def statement_ok_def catalog_ok_def split: option.splits if_splits)
  show "agrees c' K" unfolding c' using key by (intro agrees_insert a' st) simp_all
  show "catalog_get name c' = Some st" unfolding c' by (simp add: catalog_get_def map_of_bt_insert [OF inv])
  show "ps_query st = query" "ps_parameter_type_oids st = oids" by (rule qs)+
  show "pc_session_id c' = pc_session_id c" unfolding c' by simp
  show "cstr_ok (ps_backend_name st)"
    using st by (cases "name = []") (simp_all add: statement_ok_def, simp add: cstr_ok_def)
  show "name = [] \<Longrightarrow> ps_backend_name st = []" using st by (simp add: statement_ok_def)
qed

lemma forward_parse_agrees:
  assumes a: "agrees c K" and p: "parse_parse_message f = Inr (Some m)"
    and fwd: "forward_parse b f m c = Inr (plan, c')"
  shows "agrees c' (K(b := record_plan plan (K b)))" and "pc_session_id c' = pc_session_id c"
proof -
  obtain st c1 where u: "upsert (pm_statement_name m) (pm_query m) (pm_parameter_type_oids m) c = Some (st, c1)"
    and r: "\<exists>f'. rewrite_parse_statement_name f (ps_backend_name st) = Inr f' \<and> plan = plan_single f'"
    and c': "c' = mark_materialized b st c1"
    using fwd by (auto simp: forward_parse_def and_then_eq_Inr split: option.splits)
  note ok = parse_message_sound [OF p]
  note up = upsert_agrees [OF a conjunct1 [OF ok] conjunct2 [OF ok] u]
  obtain f' where f': "rewrite_parse_statement_name f (ps_backend_name st) = Inr f'"
    "parse_parse_message f' = Inr (Some (m\<lparr>pm_statement_name := ps_backend_name st\<rparr>))"
    using rewrite_parse_only_renames [OF p up(6)] by blast
  have K: "record_plan plan (K b) = (K b)(ps_backend_name st \<mapsto> (ps_query st, ps_parameter_type_oids st))"
    using r f' up(3,4) by (auto simp: record_plan_def plan_single_def record_parse_def)
  show "pc_session_id c' = pc_session_id c" using up(5) by (simp add: c')
  show "agrees c' (K(b := record_plan plan (K b)))"
  proof (cases "pm_statement_name m = []")
    case True
    have "agrees c' K" unfolding c' using up(1,2) by (rule agrees_mark) (use True in simp_all)
    moreover have "ps_backend_name s' \<noteq> []" if "catalog_get n c' = Some s'" "n \<noteq> []" for n s'
      using catalog_okD [OF agreesD(1) [OF \<open>agrees c' K\<close>] that(1)] that(2) by (auto simp: statement_ok_def)
    ultimately show ?thesis using up(7) [OF True] unfolding K agrees_def by auto
  next
    case False
    show ?thesis unfolding c' K using up(1,2) by (rule agrees_mark) (use False in simp_all)
  qed
qed

end
