(* ===== verification/Prepared_Forward.thy ===== *)
theory Prepared_Forward
  imports Prepared
begin

text \<open>
  What is sent to the backends while a client's messages are forwarded. \<open>prepared_reach\<close> is the
  closure of the steps of \<open>prepare.rs\<close> and \<open>prepare_frame_for_backend\<close>: messages forwarded to any
  backend, invalidations, new route maps, and reset queries run on a backend. It carries the client's
  messages forwarded so far, the record of the messages each backend was sent by this session, and
  the backends that were reset since the catalog last forgot its marks for them.

  The record is of protocol messages. What SQL text does to prepared statements (\<open>DEALLOCATE\<close>,
  \<open>DISCARD ALL\<close> sent by the client), what a server answers to a \<open>Parse\<close>, and messages that another
  session sends to the same backend are not in it.
\<close>

section \<open>One forwarded message\<close>

lemma prepare_cases:
  assumes "prepare_frame_for_backend b f c = Inr (plan, c')"
  obtains (parse) m where "parse_parse_message f = Inr (Some m)" and "forward_parse b f m c = Inr (plan, c')"
  | (bind) name st where "parse_bind_statement_name f = Inr (Some name)"
      and "get_for_current_route_map name c = Some st" and "forward_bind b f st c = Inr (plan, c')"
  | (describe) name st where "parse_describe_target f = Inr (Some (DT_Statement name))"
      and "get_for_current_route_map name c = Some st" and "forward_describe b f st c = Inr (plan, c')"
  | (close) name where "parse_close_target f = Inr (Some (CT_Statement name))"
      and "forward_close f name c = Inr (plan, c')"
  | (pass) "plan = plan_single f" and "c' = c" and "parse_parse_message f = Inr None"
      and "\<And>name. parse_close_target f \<noteq> Inr (Some (CT_Statement name))"
proof -
  obtain p where p: "parse_parse_message f = Inr p"
    using assms by (auto simp: prepare_frame_for_backend_def and_then_eq_Inr)
  show ?thesis
  proof (cases p)
    case (Some m)
    then show ?thesis using p assms parse by (simp add: prepare_frame_for_backend_def)
  next
    case None
    then obtain bi where bi: "parse_bind_statement_name f = Inr bi"
      using assms p by (auto simp: prepare_frame_for_backend_def and_then_eq_Inr)
    show ?thesis
    proof (cases "Option.bind bi (\<lambda>name. get_for_current_route_map name c)")
      case (Some st)
      then show ?thesis
        using p None bi assms bind by (auto simp: prepare_frame_for_backend_def bind_eq_Some_conv)
    next
      case nobind: None
      then obtain d where d: "parse_describe_target f = Inr d"
        using assms p None bi by (auto simp: prepare_frame_for_backend_def and_then_eq_Inr)
      let ?d = "Option.bind d (\<lambda>t. case t of DT_Statement name \<Rightarrow> get_for_current_route_map name c | DT_Portal _ \<Rightarrow> None)"
      show ?thesis
      proof (cases ?d)
        case (Some st)
        then obtain t where "d = Some t" "(case t of DT_Statement name \<Rightarrow> get_for_current_route_map name c
            | DT_Portal _ \<Rightarrow> None) = Some st"
          by (auto simp: bind_eq_Some_conv)
        then obtain name where "d = Some (DT_Statement name)" "get_for_current_route_map name c = Some st"
          by (cases t) auto
        then show ?thesis
          using p None bi nobind d assms describe by (auto simp: prepare_frame_for_backend_def)
      next
        case nodesc: None
        then obtain cl where cl: "parse_close_target f = Inr cl"
          using assms p None bi nobind d by (auto simp: prepare_frame_for_backend_def and_then_eq_Inr)
        have rest: "(case cl of Some (CT_Statement name) \<Rightarrow> forward_close f name c
            | _ \<Rightarrow> Inr (plan_single f, c)) = Inr (plan, c')"
          using assms p None bi nobind d nodesc cl by (simp add: prepare_frame_for_backend_def)
        show ?thesis
        proof (cases "\<exists>name. cl = Some (CT_Statement name)")
          case True
          then show ?thesis using close cl rest by auto
        next
          case False
          then have "plan = plan_single f \<and> c' = c"
            using rest by (auto split: option.splits close_target.splits)
          then show ?thesis using pass p None cl False by auto
        qed
      qed
    qed
  qed
qed

lemma materialize_unnamed:
  assumes "catalog_ok c" and "get_for_current_route_map [] c = Some st"
  shows "materialize b st c = ([], c)"
proof -
  have "catalog_get [] c = Some st" "is_current_route_map c st"
    using assms(2) by (auto simp: get_for_current_route_map_def split: option.splits if_splits)
  then show ?thesis
    using catalog_okD [OF assms(1)] by (auto simp: materialize_def is_materialized_def statement_ok_def)
qed

lemma materialize_session: "materialize b st c = (prelude, c') \<Longrightarrow> pc_session_id c' = pc_session_id c"
  by (auto simp: materialize_def split: if_splits)

lemma materialize_step:
  assumes "agrees c K" and "get_for_current_route_map name c = Some st" and "materialize b st c = (prelude, c')"
    and "ff_tag f' \<noteq> frontend_tag_byte FE_Parse" and "ff_tag f' \<noteq> frontend_tag_byte FE_Close"
  shows "agrees c' (K(b := record_plan \<lparr>pf_prelude = prelude, pf_frame = f'\<rparr> (K b)))"
proof -
  have get: "catalog_get name c = Some st"
    using assms(2) by (auto simp: get_for_current_route_map_def split: option.splits if_splits)
  have "agrees c' (K(b := fold record_parse prelude (K b)))"
  proof (cases "name = []")
    case True
    then show ?thesis
      using materialize_unnamed [OF agreesD(1) [OF assms(1)]] assms(1-3) by auto
  next
    case False
    then show ?thesis using materialize_agrees [OF assms(1) get _ assms(3)] by blast
  qed
  then show ?thesis using assms(4,5) by (simp add: record_plan_def record_parse_other)
qed

lemma tag_bytes_distinct [simp]:
  "frontend_tag_byte FE_Bind \<noteq> frontend_tag_byte FE_Parse" "frontend_tag_byte FE_Bind \<noteq> frontend_tag_byte FE_Close"
  "frontend_tag_byte FE_Describe \<noteq> frontend_tag_byte FE_Parse" "frontend_tag_byte FE_Describe \<noteq> frontend_tag_byte FE_Close"
  "frontend_tag_byte FE_Close \<noteq> frontend_tag_byte FE_Parse"
  by simp_all

lemma reader_tags:
  "parse_bind_statement_name f = Inr (Some name) \<Longrightarrow> ff_tag f = frontend_tag_byte FE_Bind"
  "parse_describe_target f = Inr (Some t) \<Longrightarrow> ff_tag f = frontend_tag_byte FE_Describe"
  "parse_close_target f = Inr (Some u) \<Longrightarrow> ff_tag f = frontend_tag_byte FE_Close"
  by (auto simp: parse_bind_statement_name_def parse_describe_target_def parse_close_target_def split: if_splits)

lemma rewrite_tags:
  "rewrite_bind_statement_name f name = Inr f' \<Longrightarrow> ff_tag f' = ff_tag f"
  "rewrite_describe_statement_name f name = Inr f' \<Longrightarrow> ff_tag f' = ff_tag f"
  by (auto simp: rewrite_bind_statement_name_def rewrite_describe_statement_name_def
      rewrite_statement_target_def and_then_eq_Inr Let_def split: if_splits)

text \<open>
  A \<open>Close\<close> that names nothing in the catalog goes to the backend as it is. It must not name a
  statement there that the proxy prepared under its own name.
\<close>

definition close_avoids_backend_names :: "frontend_frame \<Rightarrow> prepared_catalog \<Rightarrow> bool" where
  "close_avoids_backend_names f c \<longleftrightarrow>
     (case parse_close_target f of
        Inr (Some (CT_Statement name)) \<Rightarrow>
          catalog_get name c \<noteq> None \<or> list_all (\<lambda>(n, st). ps_backend_name st \<noteq> name) (pc_statements c)
      | _ \<Rightarrow> True)"

lemma catalog_remove_ok:
  assumes "catalog_ok c" and "catalog_remove name c = (Some st, c')"
  shows "catalog_ok c'" and "catalog_get n c' = (if n = name then None else catalog_get n c)"
    and "pc_session_id c' = pc_session_id c" and "pc_next_statement_id c' = pc_next_statement_id c"
    and "mat c' b k \<noteq> None \<Longrightarrow> mat c b k \<noteq> None" and "catalog_get name c = Some st"
proof -
  let ?c = "c\<lparr>pc_statements := bt_remove name (pc_statements c)\<rparr>"
  have c': "c' = (remove_materialized_statement (ps_cache_key st) ?c)
      \<lparr>pc_invalidation_counts := bt_remove (ps_cache_key st) (pc_invalidation_counts c)\<rparr>"
    and st: "catalog_get name c = Some st"
    using assms(2) by (auto simp: catalog_remove_def catalog_get_def split: option.splits)
  have get: "catalog_get n ?c = (if n = name then None else catalog_get n c)" for n
    by (auto simp: catalog_get_def map_of_bt_remove)
  have ok: "catalog_ok ?c"
    by (rule catalog_okI) (use assms(1) get in \<open>auto simp: catalog_ok_def bt_invar_remove split: if_splits\<close>)
  show "catalog_ok c'" unfolding c' using remove_materialized_ok [OF ok] by simp
  show "catalog_get n c' = (if n = name then None else catalog_get n c)"
    unfolding c' using get by (simp add: catalog_get_def)
  show "pc_session_id c' = pc_session_id c" "pc_next_statement_id c' = pc_next_statement_id c"
    unfolding c' by simp_all
  show "mat c' b k \<noteq> None \<Longrightarrow> mat c b k \<noteq> None"
    unfolding c' using mat_remove_less [OF ok, of "ps_cache_key st" b k] by simp
  show "catalog_get name c = Some st" by (rule st)
qed

lemma statement_backend_cstr: "statement_ok sid n name st \<Longrightarrow> cstr_ok (ps_backend_name st)"
proof (cases "name = []")
  case True
  assume "statement_ok sid n name st"
  with True have "ps_backend_name st = []" by (simp add: statement_ok_def)
  then show ?thesis by (simp add: cstr_ok_def)
qed (simp add: statement_ok_def)

lemma forward_close_agrees:
  assumes a: "agrees c K" and t: "parse_close_target f = Inr (Some (CT_Statement name))"
    and g: "close_avoids_backend_names f c" and fwd: "forward_close f name c = Inr (plan, c')"
  shows "agrees c' (K(b := record_plan plan (K b)))"
proof (cases "catalog_get name c")
  case None
  then have c': "c' = c" "plan = plan_single f"
    using fwd by (auto simp: forward_close_def catalog_remove_def catalog_get_def)
  have K: "record_plan plan (K b) = (K b)(name := None)"
    using t reader_tags(3) [OF t] by (simp add: c' record_plan_def plan_single_def record_parse_def parse_reader_tag)
  have "ps_backend_name st \<noteq> name" if "catalog_get n c = Some st" for n st
    using g t None that map_of_SomeD [of "pc_statements c" n st]
    by (auto simp: close_avoids_backend_names_def list_all_iff catalog_get_def)
  then show ?thesis using a unfolding K unfolding c'(1) agrees_def by auto
next
  case (Some st)
  obtain c1 where r: "catalog_remove name c = (Some st, c1)"
    using Some by (auto simp: catalog_remove_def catalog_get_def)
  note ok = agreesD(1) [OF a]
  note rm = catalog_remove_ok [OF ok r]
  have "cstr_ok (ps_backend_name st)"
    using catalog_okD [OF ok Some] by (rule statement_backend_cstr)
  then obtain f' where f': "rewrite_close_statement_name f (ps_backend_name st) = Inr f'"
    "parse_close_target f' = Inr (Some (CT_Statement (ps_backend_name st)))"
    using rewrite_targets [of "ps_backend_name st" f] t by auto
  have c': "c' = c1" "plan = plan_single f'" using fwd r f' by (auto simp: forward_close_def)
  have K: "record_plan plan (K b) = (K b)(ps_backend_name st := None)"
    using f' reader_tags(3) [OF f'(2)] by (simp add: c' record_plan_def plan_single_def record_parse_def parse_reader_tag)
  show ?thesis unfolding K unfolding c'(1)
  proof (rule agreesI)
    show "catalog_ok c1" by (rule rm(1))
    show "0 < k \<and> k < pc_next_statement_id c1" if "mat c1 b' k \<noteq> None" for b' k
      using agreesD(2) [OF a rm(5) [OF that]] rm(4) by simp
    show "(K(b := (K b)(ps_backend_name st := None))) b' (ps_backend_name st') =
        Some (ps_query st', ps_parameter_type_oids st')"
      if "catalog_get n c1 = Some st'" "n \<noteq> []" "mat c1 b' (ps_cache_key st') \<noteq> None" for b' n st'
    proof -
      have n: "n \<noteq> name" "catalog_get n c = Some st'" using that(1) rm(2) [of n] by (auto split: if_splits)
      have "ps_backend_name st' \<noteq> ps_backend_name st"
        using backend_name_eq [OF ok n(2) Some that(2)] n(1) catalog_okD [OF ok n(2)] catalog_okD [OF ok Some] that(2)
        by (cases "name = []") (auto simp: statement_ok_def)
      then show ?thesis using agreesD(3) [OF a n(2) that(2) rm(5) [OF that(3)]] by auto
    qed
  qed
qed

lemma prepare_agrees:
  assumes a: "agrees c K" and g: "close_avoids_backend_names f c"
    and fwd: "prepare_frame_for_backend b f c = Inr (plan, c')"
  shows "agrees c' (K(b := record_plan plan (K b)))"
  using fwd
proof (cases rule: prepare_cases)
  case (parse m)
  then show ?thesis using forward_parse_agrees [OF a] by blast
next
  case (bind name st)
  obtain prelude f' where "materialize b st c = (prelude, c')" "plan = \<lparr>pf_prelude = prelude, pf_frame = f'\<rparr>"
    "ff_tag f' = frontend_tag_byte FE_Bind"
    using bind(3) reader_tags(1) [OF bind(1)] rewrite_tags(1)
    by (fastforce simp: forward_bind_def and_then_eq_Inr split: prod.splits)
  then show ?thesis using materialize_step [OF a bind(2)] by auto
next
  case (describe name st)
  obtain prelude f' where "materialize b st c = (prelude, c')" "plan = \<lparr>pf_prelude = prelude, pf_frame = f'\<rparr>"
    "ff_tag f' = frontend_tag_byte FE_Describe"
    using describe(3) reader_tags(2) [OF describe(1)] rewrite_tags(2)
    by (fastforce simp: forward_describe_def and_then_eq_Inr split: prod.splits)
  then show ?thesis using materialize_step [OF a describe(2)] by auto
next
  case (close name)
  then show ?thesis using forward_close_agrees [OF a _ g] by blast
next
  case pass
  then have "record_parse f (K b) = K b"
    by (auto simp: record_parse_def split: sum.splits option.splits close_target.splits)
  then show ?thesis using a pass by (simp add: record_plan_def plan_single_def)
qed

section \<open>The client's view\<close>

text \<open>The statements of the catalog, by the names the client gave them.\<close>

definition client_view :: "prepared_catalog \<Rightarrow> parses" where
  "client_view c name = map_option (\<lambda>st. (ps_query st, ps_parameter_type_oids st)) (catalog_get name c)"

lemma client_view_mark [simp]: "client_view (mark_materialized b st c) = client_view c"
  by (simp add: client_view_def catalog_get_def fun_eq_iff)

lemma client_view_materialize: "materialize b st c = (prelude, c') \<Longrightarrow> client_view c' = client_view c"
  by (auto simp: materialize_def split: if_splits)

lemma client_view_upsert:
  assumes "catalog_ok c" and "upsert name query oids c = Some (st, c')"
  shows "client_view c' = (client_view c)(name \<mapsto> (query, oids))"
proof -
  have "bt_invar (pc_statements c)" using assms(1) by (simp add: catalog_ok_def)
  moreover have "pc_statements c' = bt_insert name st (pc_statements c)" "ps_query st = query"
    "ps_parameter_type_oids st = oids"
    using assms(2) by (auto simp: upsert_def Let_def split: option.splits if_splits)
  ultimately show ?thesis
    by (auto simp: client_view_def catalog_get_def map_of_bt_insert fun_eq_iff)
qed

lemma client_view_close:
  assumes "catalog_ok c" and "forward_close f name c = Inr (plan, c')"
  shows "client_view c' = (client_view c)(name := None)"
proof (cases "catalog_remove name c")
  case (Pair r c1)
  show ?thesis
  proof (cases r)
    case None
    then show ?thesis
      using Pair assms(2)
      by (auto simp: forward_close_def catalog_remove_def client_view_def catalog_get_def fun_eq_iff split: option.splits)
  next
    case (Some st)
    then have "c' = c1" using Pair assms(2) by (auto simp: forward_close_def and_then_eq_Inr)
    then show ?thesis
      using catalog_remove_ok(2) [OF assms(1)] Pair Some by (auto simp: client_view_def fun_eq_iff)
  qed
qed

lemma prepare_refines:
  assumes ok: "catalog_ok c" and fwd: "prepare_frame_for_backend b f c = Inr (plan, c')"
  shows "client_view c' = record_parse f (client_view c)"
  using fwd
proof (cases rule: prepare_cases)
  case (parse m)
  then show ?thesis
    using client_view_upsert [OF ok]
    by (auto simp: forward_parse_def and_then_eq_Inr record_parse_def split: option.splits)
next
  case (bind name st)
  then show ?thesis
    using client_view_materialize reader_tags(1) [OF bind(1)]
    by (auto simp: forward_bind_def and_then_eq_Inr record_parse_other split: prod.splits)
next
  case (describe name st)
  then show ?thesis
    using client_view_materialize reader_tags(2) [OF describe(1)]
    by (auto simp: forward_describe_def and_then_eq_Inr record_parse_other split: prod.splits)
next
  case (close name)
  then show ?thesis
    using client_view_close [OF ok] reader_tags(3) [OF close(1)]
    by (auto simp: record_parse_def parse_reader_tag)
next
  case pass
  then show ?thesis by (auto simp: record_parse_def split: sum.splits option.splits close_target.splits)
qed

text \<open>Invalidations and new route maps leave the client's statements alone.\<close>

lemma client_view_invalidate: "client_view (snd (invalidate_for_sqlstate st b c)) = client_view c"
  by (cases st) (simp_all add: invalidate_for_sqlstate_def invalidate_all_def client_view_def catalog_get_def fun_eq_iff)

section \<open>A client's session over many backends\<close>

text \<open>
  The backends that stay reset after an invalidation. A backend whose marks are forgotten is treated
  like a new one by the next \<open>Bind\<close>.
\<close>

fun reset_after :: "invalidation_scope \<Rightarrow> u64 \<Rightarrow> u64 set \<Rightarrow> u64 set" where
  "reset_after IS_None b R = R"
| "reset_after IS_Backend b R = R - {b}"
| "reset_after IS_AllBackends b R = {}"

inductive prepared_reach ::
  "u64 \<Rightarrow> frontend_frame list \<Rightarrow> prepared_catalog \<Rightarrow> (u64 \<Rightarrow> parses) \<Rightarrow> u64 set \<Rightarrow> bool" for sid where
  start: "prepared_reach sid [] (catalog_new sid) (\<lambda>b. Map.empty) {}"
| forward: "prepared_reach sid fs c K R \<Longrightarrow> close_avoids_backend_names f c \<Longrightarrow>
    prepare_frame_for_backend b f c = Inr (plan, c') \<Longrightarrow>
    prepared_reach sid (fs @ [f]) c' (K(b := record_plan plan (K b))) R"
| invalidate: "prepared_reach sid fs c K R \<Longrightarrow> invalidate_for_sqlstate st b c = (scope, c') \<Longrightarrow>
    prepared_reach sid fs c' K (reset_after scope b R)"
| generation: "prepared_reach sid fs c K R \<Longrightarrow>
    prepared_reach sid fs (set_route_map_generation_id g c) K (if pc_route_map_generation_id c = g then R else {})"
| reset: "prepared_reach sid fs c K R \<Longrightarrow> prepared_reach sid fs c (K(b := Map.empty)) (insert b R)"

text \<open>
  The invariant: the marks agree with some record, and with the actual one at every backend that was
  not reset. The catalog itself never learns of a reset.
\<close>

definition agrees_off :: "prepared_catalog \<Rightarrow> (u64 \<Rightarrow> parses) \<Rightarrow> u64 set \<Rightarrow> bool" where
  "agrees_off c K R \<longleftrightarrow> (\<exists>S. agrees c S \<and> (\<forall>b. b \<notin> R \<longrightarrow> S b = K b))"

lemma agrees_off_ok: "agrees_off c K R \<Longrightarrow> catalog_ok c"
  by (auto simp: agrees_off_def dest: agreesD(1))

lemma agrees_off_forward:
  assumes "agrees_off c K R" and "close_avoids_backend_names f c"
    and "prepare_frame_for_backend b f c = Inr (plan, c')"
  shows "agrees_off c' (K(b := record_plan plan (K b))) R"
proof -
  obtain S where S: "agrees c S" "\<forall>b. b \<notin> R \<longrightarrow> S b = K b" using assms(1) by (auto simp: agrees_off_def)
  then show ?thesis
    using prepare_agrees [OF S(1) assms(2,3)]
    by (auto simp: agrees_off_def intro!: exI [of _ "S(b := record_plan plan (S b))"])
qed

lemma agrees_off_unmarked:
  assumes "agrees_off c K R" and "\<And>k. mat c b k = None"
  shows "agrees_off c K (R - {b})"
proof -
  obtain S where "agrees c S" "\<forall>b. b \<notin> R \<longrightarrow> S b = K b" using assms(1) by (auto simp: agrees_off_def)
  then show ?thesis
    using agrees_unmarked [of c S b "K b"] assms(2) unfolding agrees_off_def
    by (intro exI [of _ "S(b := K b)"]) auto
qed

lemma agrees_off_no_marks: "agrees_off c K R \<Longrightarrow> (\<And>b k. mat c b k = None) \<Longrightarrow> agrees_off c K {}"
  by (auto simp: agrees_off_def intro: agrees_no_marks)

lemma agrees_off_invalidate:
  assumes "agrees_off c K R" and "invalidate_for_sqlstate st b c = (scope, c')"
  shows "agrees_off c' K (reset_after scope b R)"
proof -
  have off: "agrees_off c' K R"
    using assms agrees_invalidate [of c _ st b] by (auto simp: agrees_off_def)
  have "mat c' b k = None" if "scope = IS_Backend" for k
    using that assms(2) agrees_off_ok [OF assms(1)]
    by (cases st) (auto simp: invalidate_for_sqlstate_def invalidate_all_def mat_def backend_entry_def
        map_of_bt_remove)
  moreover have "mat c' b k = None" if "scope = IS_AllBackends" for b k
    using that assms(2)
    by (cases st) (auto simp: invalidate_for_sqlstate_def invalidate_all_def mat_def backend_entry_def)
  ultimately show ?thesis
    using off agrees_off_unmarked [OF off] agrees_off_no_marks [OF off] by (cases scope) simp_all
qed

lemma agrees_off_generation:
  assumes "agrees_off c K R"
  shows "agrees_off (set_route_map_generation_id g c) K (if pc_route_map_generation_id c = g then R else {})"
proof (cases "pc_route_map_generation_id c = g")
  case True
  then show ?thesis using assms by (simp add: set_route_map_generation_id_def)
next
  case False
  have "agrees_off (set_route_map_generation_id g c) K R"
    using assms agrees_generation by (auto simp: agrees_off_def)
  then have "agrees_off (set_route_map_generation_id g c) K {}"
    by (rule agrees_off_no_marks) (simp add: False set_route_map_generation_id_def mat_def backend_entry_def)
  then show ?thesis using False by simp
qed

lemma reach_agrees: "prepared_reach sid fs c K R \<Longrightarrow> agrees_off c K R"
proof (induction rule: prepared_reach.induct)
  case start
  then show ?case using agrees_new by (auto simp: agrees_off_def)
next
  case (reset fs c K R b)
  then show ?case by (auto simp: agrees_off_def)
next
  case (forward fs c K R f b plan c')
  then show ?case by (intro agrees_off_forward)
qed (simp_all add: agrees_off_invalidate agrees_off_generation)

lemma client_view_generation: "client_view (set_route_map_generation_id g c) = client_view c"
  by (simp add: set_route_map_generation_id_def client_view_def catalog_get_def fun_eq_iff)

text \<open>C6. The catalog holds exactly what the client asked for. After any run of forwarded messages, to
  whatever backends, with invalidations, route map changes and backend resets in between, the
  statements of the catalog are those of the client's own \<open>Parse\<close> and \<open>Close\<close> messages: under each
  name the query and parameter types of the last \<open>Parse\<close> the client sent, unless it closed the name
  since.
\<close>

theorem catalog_refines_client:
  assumes "prepared_reach sid fs c K R"
  shows "client_view c = fold record_parse fs Map.empty"
  using assms
proof (induction rule: prepared_reach.induct)
  case start
  then show ?case by (simp add: client_view_def catalog_new_def catalog_get_def fun_eq_iff)
next
  case (forward fs c K R f b plan c')
  then show ?case using prepare_refines [OF agrees_off_ok [OF reach_agrees]] by simp
next
  case (invalidate fs c K R st b scope c')
  then show ?case using client_view_invalidate [of st b c] by simp
qed (simp_all add: client_view_generation)


text \<open>A client prepares \<open>select 1\<close> as \<open>s\<close> on backend 1 and then binds it on backend 2.\<close>

definition demo_parse :: frontend_frame where
  "demo_parse = build_parse_frame (lit ''s'') (lit ''select 1'') []"

definition demo_bind :: frontend_frame where
  "demo_bind = \<lparr>ff_tag = frontend_tag_byte FE_Bind, ff_payload = 0 # as_bytes (lit ''s'') @ [0, 0, 0, 0, 0, 0, 0]\<rparr>"

definition demo_step :: "forward_error + prepared_forward_plan \<times> prepared_catalog" where
  "demo_step = prepare_frame_for_backend 1 demo_parse (catalog_new 7)"

definition demo_catalog :: prepared_catalog where
  "demo_catalog = (case demo_step of Inr (plan, c) \<Rightarrow> c | Inl e \<Rightarrow> catalog_new 7)"

definition demo_parses :: "u64 \<Rightarrow> parses" where
  "demo_parses = (case demo_step of Inr (plan, c) \<Rightarrow> (\<lambda>b. Map.empty)(1 := record_plan plan Map.empty)
     | Inl e \<Rightarrow> (\<lambda>b. Map.empty))"

lemma demo_classify: "classify (lit ''select 1'') \<noteq> None"
proof -
  let ?t = "trim (trim_end_matches_char (trim (lit ''select 1'')) (chr CHR '';''))"
  have "cmd_normalize ?t = lit ''select 1''"
    by (simp add: cmd_normalize_def split_whitespace.simps join.simps trim_def trim_end_def trim_start_def
        trim_end_matches_char_def trim_end_pred_def lit_def is_whitespace_def to_ascii_lowercase_def
        char_lower_def is_ascii_upper_def)
  then have "classify_normalized ?t (cmd_normalize ?t) \<noteq> None"
    using classify_normalized_None [of ?t "cmd_normalize ?t"] by (auto simp: lit_def starts_with_def)
  then show ?thesis by (simp add: classify_def Let_def)
qed

lemma demo_parse_reads:
  "parse_parse_message demo_parse =
     Inr (Some \<lparr>pm_statement_name = lit ''s'', pm_query = lit ''select 1'', pm_parameter_type_oids = []\<rparr>)"
  unfolding demo_parse_def by (rule parse_build_parse_frame) (simp_all add: cstr_ok_def lit_def is_scalar_def)

lemma demo_bind_reads: "parse_bind_statement_name demo_bind = Inr (Some (lit ''s''))"
  by (simp add: demo_bind_def message_eval)

lemma demo_avoids: "close_avoids_backend_names demo_parse c"
  by (simp add: close_avoids_backend_names_def demo_parse_def build_parse_frame_def close_reader_tag)

lemma demo_step_ok: "\<exists>plan c. demo_step = Inr (plan, c)"
proof -
  obtain command where "classify (lit ''select 1'') = Some command" using demo_classify by blast
  then obtain st c where u: "upsert (lit ''s'') (lit ''select 1'') [] (catalog_new 7) = Some (st, c)"
    by (simp add: upsert_def Let_def)
  have "cstr_ok (ps_backend_name st)"
    using u by (auto simp: upsert_def Let_def lit_def split: option.splits)
  then obtain f' where "rewrite_parse_statement_name demo_parse (ps_backend_name st) = Inr f'"
    using rewrite_parse_only_renames [OF demo_parse_reads] by blast
  then show ?thesis
    using u by (simp add: demo_step_def prepare_frame_for_backend_def demo_parse_reads forward_parse_def)
qed

lemma demo_reach: "prepared_reach 7 [demo_parse] demo_catalog demo_parses {}"
proof -
  obtain plan c where s: "demo_step = Inr (plan, c)" using demo_step_ok by blast
  have "prepared_reach 7 [demo_parse] c ((\<lambda>b. Map.empty)(1 := record_plan plan Map.empty)) {}"
    using prepared_reach.forward [OF prepared_reach.start demo_avoids s [unfolded demo_step_def]] by simp
  then show ?thesis by (simp add: demo_catalog_def demo_parses_def s)
qed

lemma demo_statement:
  "\<exists>st. get_for_current_route_map (lit ''s'') demo_catalog = Some st \<and> ps_backend_name st = lit ''pgk_7_1'' \<and>
     ps_query st = lit ''select 1'' \<and> ps_parameter_type_oids st = [] \<and> mat demo_catalog 1 (ps_cache_key st) \<noteq> None"
proof -
  obtain plan c where s: "demo_step = Inr (plan, c)" using demo_step_ok by blast
  have "demo_catalog = c" by (simp add: demo_catalog_def s)
  moreover have "\<exists>st. get_for_current_route_map (lit ''s'') c = Some st \<and> ps_backend_name st = lit ''pgk_7_1'' \<and>
      ps_query st = lit ''select 1'' \<and> ps_parameter_type_oids st = [] \<and> mat c 1 (ps_cache_key st) \<noteq> None"
    using s by (auto simp: demo_step_def prepare_frame_for_backend_def demo_parse_reads forward_parse_def
        and_then_eq_Inr upsert_def Let_def catalog_new_def forget_previous_def get_for_current_route_map_def
        catalog_get_def is_current_route_map_def mark_materialized_def backend_statement_name_def lit_def
        fmt_decimal.simps mat_def backend_entry_def split: option.splits)
  ultimately show ?thesis by simp
qed

theorem catalog_refines_client_witness:
  "client_view demo_catalog = fold record_parse [demo_parse] Map.empty"
  by (rule catalog_refines_client [OF demo_reach])


lemma demo_agrees: "agrees demo_catalog demo_parses"
proof -
  obtain S where "agrees demo_catalog S" "\<forall>b. S b = demo_parses b"
    using reach_agrees [OF demo_reach] by (auto simp: agrees_off_def)
  then show ?thesis by (metis ext)
qed

text \<open>After an \<open>undefined table\<close> error the proxy forgets what it sent to its backends, but closes
  nothing there. The next \<open>Bind\<close> of a statement that was sent to backend 1 is preceded by a second
  \<open>Parse\<close> of the same name.
\<close>

lemma invalidation_reparses_held_statement:
  "\<exists>f' c'. demo_parses 1 (lit ''pgk_7_1'') \<noteq> None \<and>
    prepare_frame_for_backend 1 demo_bind (snd (invalidate_for_sqlstate UndefinedTable 1 demo_catalog)) =
      Inr (\<lparr>pf_prelude = [build_parse_frame (lit ''pgk_7_1'') (lit ''select 1'') []], pf_frame = f'\<rparr>, c')"
proof -
  let ?c = "snd (invalidate_for_sqlstate UndefinedTable 1 demo_catalog)"
  obtain st where st: "get_for_current_route_map (lit ''s'') demo_catalog = Some st" "ps_backend_name st = lit ''pgk_7_1''"
    "ps_query st = lit ''select 1''" "ps_parameter_type_oids st = []" "mat demo_catalog 1 (ps_cache_key st) \<noteq> None"
    using demo_statement by blast
  then have get: "catalog_get (lit ''s'') demo_catalog = Some st"
    by (auto simp: get_for_current_route_map_def split: option.splits if_splits)
  have sok: "statement_ok (pc_session_id demo_catalog) (pc_next_statement_id demo_catalog) (lit ''s'') st"
    using catalog_okD [OF agreesD(1) [OF demo_agrees] get] .
  then have key: "ps_cache_key st \<noteq> 0" by (auto simp: statement_ok_def lit_def)
  have "map_of (backend_entry 1 ?c) k = None" for k
    by (simp add: invalidate_for_sqlstate_def invalidate_all_def backend_entry_def)
  then have fresh: "\<not> is_materialized 1 st ?c" by (simp add: is_materialized_def key)
  have "demo_parses 1 (lit ''pgk_7_1'') \<noteq> None"
    using agreesD(3) [OF demo_agrees get _ st(5)] st(2) by (simp add: lit_def)
  moreover have g: "get_for_current_route_map (lit ''s'') ?c = Some st"
    using st(1) by (auto simp: invalidate_for_sqlstate_def invalidate_all_def get_for_current_route_map_def
        catalog_get_def is_current_route_map_def split: option.splits if_splits)
  moreover obtain c' where "materialize 1 st ?c = ([build_parse_frame (lit ''pgk_7_1'') (lit ''select 1'') []], c')"
    using fresh st(2-4) by (simp add: materialize_def)
  moreover obtain f' where "rewrite_bind_statement_name demo_bind (ps_backend_name st) = Inr f'"
    using rewrite_bind_only_renames [OF demo_bind_reads statement_backend_cstr [OF sok]] by blast
  ultimately show ?thesis
    using reader_tags(1) [OF demo_bind_reads]
    by (simp add: prepare_frame_for_backend_def parse_reader_tag demo_bind_reads forward_bind_def)
qed

text \<open>A reset query leaves the marks of other sessions in place. A session that has a statement marked
  on a backend binds it there, after the backend was reset, with no \<open>Parse\<close> ahead and none sent since
  the reset. The documentation has a backend reset drop the backend's prepared state.
\<close>

lemma reset_backend_bound_unprepared:
  assumes "prepared_reach sid fs c K R" and "parse_bind_statement_name f = Inr (Some name)"
    and "get_for_current_route_map name c = Some st" and "is_materialized b st c"
  shows "\<exists>K' R' f'. prepared_reach sid fs c K' R' \<and> K' b = Map.empty \<and>
    prepare_frame_for_backend b f c = Inr (\<lparr>pf_prelude = [], pf_frame = f'\<rparr>, c) \<and>
    parse_bind_statement_name f' = Inr (Some (ps_backend_name st))"
proof -
  have "catalog_get name c = Some st"
    using assms(3) by (auto simp: get_for_current_route_map_def split: option.splits if_splits)
  then have "cstr_ok (ps_backend_name st)"
    using catalog_okD [OF agrees_off_ok [OF reach_agrees [OF assms(1)]]] statement_backend_cstr by blast
  from rewrite_bind_only_renames [OF assms(2) this] obtain f' where
    f': "rewrite_bind_statement_name f (ps_backend_name st) = Inr f'"
    "parse_bind_statement_name f' = Inr (Some (ps_backend_name st))" by blast
  have "prepare_frame_for_backend b f c = Inr (\<lparr>pf_prelude = [], pf_frame = f'\<rparr>, c)"
    using assms(2-4) f'(1) reader_tags(1) [OF assms(2)]
    by (simp add: prepare_frame_for_backend_def parse_reader_tag forward_bind_def materialize_def)
  then show ?thesis using prepared_reach.reset [OF assms(1), of b] f'(2) by force
qed

end
