(* ===== verification/Frontend_Cycle.thy ===== *)
theory Frontend_Cycle
  imports Wire_Message
begin

text \<open>
  The unit the proxy forwards, \<open>engine/io_runtime.rs\<close>: how the client's receive buffer is cut into
  startup packets and request cycles, and what replies the shape of a cycle announces. The errors
  of \<open>anyhow::Result\<close> are the wire errors; \<open>CyclePanic\<close> is a \<open>unreachable!\<close> or \<open>expect\<close> that fails.
\<close>

section \<open>Cutting the buffer\<close>

datatype cycle_error = CycleWire wire_error | CyclePanic

record frontend_cycle_shape =
  cs_expected_ready_count :: nat
  cs_expected_completion_count :: nat
  cs_needs_sync :: bool

definition is_extended_cycle_boundary :: "u8 \<Rightarrow> bool" where
  "is_extended_cycle_boundary tag \<longleftrightarrow> tag = frontend_tag_byte FE_Sync \<or> tag = frontend_tag_byte FE_Flush"

definition expects_backend_completion :: "u8 \<Rightarrow> bool" where
  "expects_backend_completion tag \<longleftrightarrow>
     tag = frontend_tag_byte FE_Parse \<or> tag = frontend_tag_byte FE_Bind \<or>
     tag = frontend_tag_byte FE_Describe \<or> tag = frontend_tag_byte FE_Execute \<or>
     tag = frontend_tag_byte FE_Close"

datatype frontend_cycle_read =
    FCR_Complete bytes frontend_cycle_shape
  | FCR_Terminate bytes
  | FCR_BufferLimitExceeded
  | FCR_NeedMoreBytes

datatype startup_encryption_request = SER_Ssl | SER_Gss

datatype startup_packet_read =
    SPR_Packet bytes
  | SPR_Cancel bytes i32 i32
  | SPR_EncryptionRequest startup_encryption_request
  | SPR_BufferLimitExceeded
  | SPR_NeedMoreBytes

definition from_frames :: "frontend_frame list \<Rightarrow> frontend_cycle_shape" where
  "from_frames frames =
     (let query_count = length (filter (\<lambda>frame. ff_tag frame = frontend_tag_byte FE_Query) frames);
          needs_sync = list_ex (\<lambda>frame. ff_tag frame \<noteq> frontend_tag_byte FE_Query) frames;
          ends_with_sync = (frames \<noteq> [] \<and> ff_tag (last frames) = frontend_tag_byte FE_Sync);
          expected_ready_count = query_count + (if ends_with_sync then 1 else 0);
          expected_completion_count =
            (if expected_ready_count = 0
             then length (filter (\<lambda>frame. expects_backend_completion (ff_tag frame)) frames) else 0)
      in \<lparr>cs_expected_ready_count = expected_ready_count,
          cs_expected_completion_count = expected_completion_count, cs_needs_sync = needs_sync\<rparr>)"

definition from_wire_bytes :: "bytes \<Rightarrow> wire_error + frontend_cycle_shape option" where
  "from_wire_bytes bs =
     (case fst (frontend_frames_loop bs) of
        Inl e \<Rightarrow> Inl e
      | Inr frames \<Rightarrow> if frames = [] then Inr None else Inr (Some (from_frames frames)))"

definition shape_expects_ready :: "frontend_cycle_shape \<Rightarrow> bool" where
  "shape_expects_ready shape \<longleftrightarrow> cs_expected_ready_count shape > 0"

definition expects_no_response :: "frontend_cycle_shape \<Rightarrow> bool" where
  "expects_no_response shape \<longleftrightarrow> cs_expected_ready_count shape = 0 \<and> cs_expected_completion_count shape = 0"

definition parse_frontend_cycle_frames :: "bytes \<Rightarrow> wire_error + frontend_frame list" where
  "parse_frontend_cycle_frames bs = fst (frontend_frames_loop bs)"

definition complete_frontend_frame_len :: "bytes \<Rightarrow> cycle_error + nat option" where
  "complete_frontend_frame_len bs =
     (if length bs < 5 then Inr None
      else
        let len = frame_length bs in
        if sint len < 4 then
          (case fst (parse_frontend_frame bs) of Inl e \<Rightarrow> Inl (CycleWire e) | Inr _ \<Rightarrow> Inl CyclePanic)
        else
          let total_len = 1 + nat (sint len) in
          Inr (if length bs \<ge> total_len then Some total_len else None))"

lemma complete_len_bounds: "complete_frontend_frame_len bs = Inr (Some n) \<Longrightarrow> 5 \<le> n \<and> n \<le> length bs"
  by (auto simp: complete_frontend_frame_len_def Let_def split: if_splits sum.splits)

text \<open>The loop over further simple queries, from offset \<open>cycle_len\<close>.\<close>

function query_cycle_len :: "bytes \<Rightarrow> nat \<Rightarrow> cycle_error + nat" where
  "query_cycle_len buffer cycle_len =
     (case complete_frontend_frame_len (drop cycle_len buffer) of
        Inl e \<Rightarrow> Inl e
      | Inr None \<Rightarrow> Inr cycle_len
      | Inr (Some next_len) \<Rightarrow>
          if buffer ! cycle_len \<noteq> frontend_tag_byte FE_Query then Inr cycle_len
          else query_cycle_len buffer (cycle_len + next_len))"
  by pat_completeness auto
termination
  by (relation "measure (\<lambda>(b, n). length b - n)") (auto dest!: sym [of "Inr _"] complete_len_bounds)

text \<open>The walk to the \<open>Sync\<close> or \<open>Flush\<close> that ends an extended cycle.\<close>

function extended_cycle_len :: "bytes \<Rightarrow> nat \<Rightarrow> u8 \<Rightarrow> cycle_error + nat option" where
  "extended_cycle_len buffer cycle_len last_tag =
     (if is_extended_cycle_boundary last_tag then Inr (Some cycle_len)
      else
        case complete_frontend_frame_len (drop cycle_len buffer) of
          Inl e \<Rightarrow> Inl e
        | Inr None \<Rightarrow> Inr None
        | Inr (Some next_len) \<Rightarrow> extended_cycle_len buffer (cycle_len + next_len) (buffer ! cycle_len))"
  by pat_completeness auto
termination
  by (relation "measure (\<lambda>(b, n, t). length b - n)") (auto dest!: sym [of "Inr _"] complete_len_bounds)

declare query_cycle_len.simps [simp del]
declare extended_cycle_len.simps [simp del]

definition finish_cycle :: "bytes \<Rightarrow> nat \<Rightarrow> (cycle_error + frontend_cycle_read) \<times> bytes" where
  "finish_cycle buffer cycle_len =
     (let bs = take cycle_len buffer; rest = drop cycle_len buffer in
      case from_wire_bytes bs of
        Inl e \<Rightarrow> (Inl (CycleWire e), rest)
      | Inr None \<Rightarrow> (Inl CyclePanic, rest)
      | Inr (Some shape) \<Rightarrow> (Inr (FCR_Complete bs shape), rest))"

definition take_frontend_cycle_bytes ::
  "bytes \<Rightarrow> nat \<Rightarrow> (cycle_error + frontend_cycle_read) \<times> bytes" where
  "take_frontend_cycle_bytes buffer max_client_buffer_bytes =
     (if length buffer > max_client_buffer_bytes then (Inr FCR_BufferLimitExceeded, buffer)
      else
        case complete_frontend_frame_len buffer of
          Inl e \<Rightarrow> (Inl e, buffer)
        | Inr None \<Rightarrow> (Inr FCR_NeedMoreBytes, buffer)
        | Inr (Some first_len) \<Rightarrow>
            let first_tag = buffer ! 0 in
            if first_tag = frontend_tag_byte FE_Terminate then
              (Inr (FCR_Terminate (take first_len buffer)), drop first_len buffer)
            else if first_tag = frontend_tag_byte FE_Query then
              (case query_cycle_len buffer first_len of
                 Inl e \<Rightarrow> (Inl e, buffer)
               | Inr cycle_len \<Rightarrow> finish_cycle buffer cycle_len)
            else
              (case extended_cycle_len buffer first_len first_tag of
                 Inl e \<Rightarrow> (Inl e, buffer)
               | Inr None \<Rightarrow> (Inr FCR_NeedMoreBytes, buffer)
               | Inr (Some cycle_len) \<Rightarrow> finish_cycle buffer cycle_len))"

definition take_startup_packet_bytes ::
  "bytes \<Rightarrow> nat \<Rightarrow> (cycle_error + startup_packet_read) \<times> bytes" where
  "take_startup_packet_bytes buffer max_client_buffer_bytes =
     (if length buffer > max_client_buffer_bytes then (Inr SPR_BufferLimitExceeded, buffer)
      else if length buffer < 4 then (Inr SPR_NeedMoreBytes, buffer)
      else
        let len = i32_at buffer 0 in
        if sint len < 8 then
          (case parse_startup_packet buffer of
             Inl e \<Rightarrow> (Inl (CycleWire e), buffer)
           | Inr _ \<Rightarrow> (Inl CyclePanic, buffer))
        else
          let len = nat (sint len) in
          if length buffer < len then (Inr SPR_NeedMoreBytes, buffer)
          else
            let packet = take len buffer; rest = drop len buffer in
            case parse_startup_packet packet of
              Inl e \<Rightarrow> (Inl (CycleWire e), rest)
            | Inr (Startup _ _ _) \<Rightarrow> (Inr (SPR_Packet packet), rest)
            | Inr (CancelRequest process_id secret_key) \<Rightarrow> (Inr (SPR_Cancel packet process_id secret_key), rest)
            | Inr SslRequest \<Rightarrow> (Inr (SPR_EncryptionRequest SER_Ssl), rest)
            | Inr GssEncRequest \<Rightarrow> (Inr (SPR_EncryptionRequest SER_Gss), rest))"

section \<open>Frame lengths\<close>

abbreviation encode_frames :: "frontend_frame list \<Rightarrow> bytes" where
  "encode_frames fs \<equiv> concat (map encode_frontend_frame fs)"

abbreviation frames_fit :: "frontend_frame list \<Rightarrow> bool" where
  "frames_fit fs \<equiv> \<forall>f\<in>set fs. payload_fits (ff_payload f)"

lemma complete_len_parse:
  "parse_frontend_frame b = (Inr (Some f), r) \<Longrightarrow>
     complete_frontend_frame_len b = Inr (Some (length (encode_frontend_frame f)))"
  "parse_frontend_frame b = (Inr None, r) \<Longrightarrow> complete_frontend_frame_len b = Inr None"
  "parse_frontend_frame b = (Inl e, r) \<Longrightarrow> complete_frontend_frame_len b = Inl (CycleWire e)"
  by (auto simp: complete_frontend_frame_len_def frontend_parse_iffs encode_frontend_frame_def Let_def)
    (auto simp: parse_frontend_frame_def Let_def)

text \<open>The \<open>unreachable!\<close> of the length check is one: the parser rejects what the check rejects.\<close>

lemma complete_len_cases:
  obtains (frame) f r where "b = encode_frontend_frame f @ r" and "payload_fits (ff_payload f)"
      and "complete_frontend_frame_len b = Inr (Some (length (encode_frontend_frame f)))"
  | (wait) "parse_frontend_frame b = (Inr None, b)" and "complete_frontend_frame_len b = Inr None"
  | (fail) e where "parse_frontend_frame b = (Inl e, b)" and "complete_frontend_frame_len b = Inl (CycleWire e)"
proof (cases b rule: fe_loop.loop_cases)
  case wait
  then show thesis using that(2) complete_len_parse(2) by blast
next
  case (fail e)
  then show thesis using that(3) complete_len_parse(3) by blast
next
  case (frame f r)
  then show thesis using that(1) parse_frontend_inverse [OF frame(1)] complete_len_parse(1) [OF frame(1)] by blast
qed

lemma complete_len_encode [simp]:
  "payload_fits (ff_payload f) \<Longrightarrow>
     complete_frontend_frame_len (encode_frontend_frame f @ r) = Inr (Some (length (encode_frontend_frame f)))"
  using parse_encode_frontend [of f r] complete_len_parse(1) by blast

lemma encode_head [simp]: "(encode_frontend_frame f @ r) ! 0 = ff_tag f"
  by (simp add: encode_frontend_frame_def)

lemma nth_pre_encode: "(pre @ encode_frontend_frame f @ r) ! length pre = ff_tag f"
  by (simp add: nth_append encode_frontend_frame_def)

lemma wire_bytes_of_frames:
  assumes "frames_fit fs" and "fs \<noteq> []"
  shows "from_wire_bytes (encode_frames fs) = Inr (Some (from_frames fs))"
  using assms frontend_loop_encode [of fs "[]"] by (simp add: from_wire_bytes_def)

section \<open>Cutting whole frames\<close>

abbreviation is_query :: "frontend_frame \<Rightarrow> bool" where
  "is_query f \<equiv> ff_tag f = frontend_tag_byte FE_Query"

abbreviation is_boundary :: "frontend_frame \<Rightarrow> bool" where
  "is_boundary f \<equiv> is_extended_cycle_boundary (ff_tag f)"

text \<open>The frames up to and with the first boundary.\<close>

fun through_boundary :: "frontend_frame list \<Rightarrow> frontend_frame list option" where
  "through_boundary [] = None"
| "through_boundary (f # fs) = (if is_boundary f then Some [f] else map_option ((#) f) (through_boundary fs))"

text \<open>Every buffer is a list of complete frames and a rest that starts no complete frame.\<close>

lemma buffer_frames:
  obtains fs r where "b = encode_frames fs @ r" and "frames_fit fs"
    and "complete_frontend_frame_len r = Inr None \<or> (\<exists>e. complete_frontend_frame_len r = Inl (CycleWire e))"
proof (induction b arbitrary: thesis rule: length_induct)
  case (1 b)
  show ?case
  proof (cases b rule: complete_len_cases)
    case (frame f r)
    then have "length r < length b" by (simp add: encode_frontend_frame_def)
    then obtain fs r' where "r = encode_frames fs @ r'" "frames_fit fs"
      "complete_frontend_frame_len r' = Inr None \<or> (\<exists>e. complete_frontend_frame_len r' = Inl (CycleWire e))"
      using 1(1) by blast
    then show ?thesis using frame 1(2) [of "f # fs" r'] by simp
  qed (use 1(2) [of "[]" b] in auto)
qed

lemma query_len_frames:
  assumes "frames_fit fs" and "\<And>n. complete_frontend_frame_len r \<noteq> Inr (Some n)"
  shows "query_cycle_len (pre @ encode_frames fs @ r) (length pre) =
    (if list_all is_query fs \<and> isl (complete_frontend_frame_len r) then Inl (projl (complete_frontend_frame_len r))
     else Inr (length pre + length (encode_frames (takeWhile is_query fs))))"
  using assms(1)
proof (induction fs arbitrary: pre)
  case Nil
  then show ?case
    using assms(2) by (subst query_cycle_len.simps) (auto split: sum.splits option.splits)
next
  case (Cons f fs)
  note IH = Cons.IH [of "pre @ encode_frontend_frame f"]
  show ?case
    using Cons.prems nth_pre_encode [of pre f] IH by (subst query_cycle_len.simps) (simp add: add.assoc)
qed

lemma extended_len_frames:
  assumes "frames_fit fs" and "\<And>n. complete_frontend_frame_len r \<noteq> Inr (Some n)"
    and "\<not> is_extended_cycle_boundary tag"
  shows "extended_cycle_len (pre @ encode_frames fs @ r) (length pre) tag =
    (if through_boundary fs = None \<and> isl (complete_frontend_frame_len r)
     then Inl (projl (complete_frontend_frame_len r))
     else Inr (map_option (\<lambda>c. length pre + length (encode_frames c)) (through_boundary fs)))"
  using assms(1,3)
proof (induction fs arbitrary: pre tag)
  case Nil
  then show ?case
    using assms(2) by (subst extended_cycle_len.simps) (auto split: sum.splits option.splits)
next
  case (Cons f fs)
  note IH = Cons.IH [of "ff_tag f" "pre @ encode_frontend_frame f"]
  have stop: "extended_cycle_len b n (ff_tag f) = Inr (Some n)" if "is_boundary f" for b n
    using that by (subst extended_cycle_len.simps) simp
  show ?case
    using Cons.prems nth_pre_encode [of pre f] IH stop
    by (subst extended_cycle_len.simps) (simp add: option.map_comp comp_def add.assoc)
qed

text \<open>The frames of the cycle at the front of a list of frames.\<close>

definition cycle_of :: "frontend_frame list \<Rightarrow> frontend_frame list option" where
  "cycle_of fs =
     (if fs \<noteq> [] \<and> is_query (hd fs) then Some (takeWhile is_query fs) else through_boundary fs)"

lemma through_boundary_prefix: "through_boundary fs = Some c \<Longrightarrow> c \<noteq> [] \<and> fs = c @ drop (length c) fs"
  by (induction fs arbitrary: c) (auto split: if_splits)

lemma cycle_of_prefix: "cycle_of fs = Some c \<Longrightarrow> c \<noteq> [] \<and> fs = c @ drop (length c) fs"
proof (cases "fs \<noteq> [] \<and> is_query (hd fs)")
  case True
  assume "cycle_of fs = Some c"
  then have c: "c = takeWhile is_query fs" using True by (simp add: cycle_of_def)
  then have "c \<noteq> []" using True by (cases fs) auto
  moreover have "drop (length c) fs = dropWhile is_query fs" unfolding c by (simp add: dropWhile_eq_drop)
  ultimately show ?thesis using c by simp
next
  case False
  assume "cycle_of fs = Some c"
  then show ?thesis using False through_boundary_prefix [of fs c] by (auto simp: cycle_of_def split: if_splits)
qed

lemma finish_cycle_frames:
  assumes "frames_fit fs" and "cycle_of fs = Some c"
  shows "finish_cycle (encode_frames fs @ r) (length (encode_frames c)) =
    (Inr (FCR_Complete (encode_frames c) (from_frames c)), encode_frames (drop (length c) fs) @ r)"
proof -
  note p = cycle_of_prefix [OF assms(2)]
  have split: "encode_frames fs = encode_frames c @ encode_frames (drop (length c) fs)"
    using p by (metis concat_append map_append)
  have "frames_fit c" using assms(1) p by (metis Un_iff set_append)
  then show ?thesis using wire_bytes_of_frames [of c] p by (simp add: finish_cycle_def split)
qed

lemma not_isl: "(\<And>n. r \<noteq> Inr (Some n)) \<Longrightarrow> \<not> isl r \<Longrightarrow> r = Inr None"
  by (cases r) auto

section \<open>What a read of the buffer returns\<close>

definition cycle_read_spec :: "frontend_frame list \<Rightarrow> bytes \<Rightarrow> (cycle_error + frontend_cycle_read) \<times> bytes" where
  "cycle_read_spec fs r =
     (if fs \<noteq> [] \<and> ff_tag (hd fs) = frontend_tag_byte FE_Terminate then
        (Inr (FCR_Terminate (encode_frontend_frame (hd fs))), encode_frames (tl fs) @ r)
      else
        case cycle_of fs of
          None \<Rightarrow> (Inr FCR_NeedMoreBytes, encode_frames fs @ r)
        | Some c \<Rightarrow> (Inr (FCR_Complete (encode_frames c) (from_frames c)), encode_frames (drop (length c) fs) @ r))"

definition no_frame :: "bytes \<Rightarrow> bool" where
  "no_frame r \<longleftrightarrow> (\<forall>n. complete_frontend_frame_len r \<noteq> Inr (Some n))"

definition read_or_error :: "frontend_frame list \<Rightarrow> bytes \<Rightarrow> (cycle_error + frontend_cycle_read) \<times> bytes \<Rightarrow> bool" where
  "read_or_error fs r res \<longleftrightarrow>
     res = cycle_read_spec fs r \<or>
     (\<exists>e. complete_frontend_frame_len r = Inl e \<and> res = (Inl e, encode_frames fs @ r))"

lemma take_first:
  assumes "frames_fit (f # gs)" and "length (encode_frames (f # gs) @ r) \<le> limit"
    and b: "b = encode_frames (f # gs) @ r" and n: "n = length (encode_frontend_frame f)"
  shows "take_frontend_cycle_bytes b limit =
    (if ff_tag f = frontend_tag_byte FE_Terminate then (Inr (FCR_Terminate (encode_frontend_frame f)), encode_frames gs @ r)
     else if is_query f then
       (case query_cycle_len b n of Inl e \<Rightarrow> (Inl e, b) | Inr m \<Rightarrow> finish_cycle b m)
     else (case extended_cycle_len b n (ff_tag f) of
        Inl e \<Rightarrow> (Inl e, b) | Inr None \<Rightarrow> (Inr FCR_NeedMoreBytes, b) | Inr (Some m) \<Rightarrow> finish_cycle b m))"
proof -
  have b': "b = encode_frontend_frame f @ encode_frames gs @ r" by (simp add: b)
  have "complete_frontend_frame_len b = Inr (Some n)" "b ! 0 = ff_tag f"
    unfolding b' n using assms(1) by simp_all
  then show ?thesis using assms(2) unfolding take_frontend_cycle_bytes_def b n by simp
qed

lemma take_query_frames:
  assumes fit: "frames_fit (f # gs)" and r: "no_frame r" and limit: "length (encode_frames (f # gs) @ r) \<le> limit"
    and query: "is_query f"
  shows "read_or_error (f # gs) r (take_frontend_cycle_bytes (encode_frames (f # gs) @ r) limit)"
proof -
  let ?b = "encode_frames (f # gs) @ r" and ?n = "length (encode_frontend_frame f)"
  have c: "cycle_of (f # gs) = Some (f # takeWhile is_query gs)" using query by (simp add: cycle_of_def)
  have "query_cycle_len ?b ?n =
      (if list_all is_query gs \<and> isl (complete_frontend_frame_len r) then Inl (projl (complete_frontend_frame_len r))
       else Inr (length (encode_frames (f # takeWhile is_query gs))))"
    using fit r query_len_frames [of gs r "encode_frontend_frame f"] by (simp add: no_frame_def)
  then show ?thesis
    using take_first [OF fit limit refl refl] query finish_cycle_frames [OF fit c, of r] c
    by (auto simp: read_or_error_def cycle_read_spec_def isl_def)
qed

lemma take_extended_frames:
  assumes fit: "frames_fit (f # gs)" and r: "no_frame r" and limit: "length (encode_frames (f # gs) @ r) \<le> limit"
    and ext: "ff_tag f \<noteq> frontend_tag_byte FE_Terminate" "\<not> is_query f"
  shows "read_or_error (f # gs) r (take_frontend_cycle_bytes (encode_frames (f # gs) @ r) limit)"
proof (cases "through_boundary (f # gs)")
  case None
  let ?b = "encode_frames (f # gs) @ r" and ?n = "length (encode_frontend_frame f)"
  have "extended_cycle_len ?b ?n (ff_tag f) =
      (if isl (complete_frontend_frame_len r) then Inl (projl (complete_frontend_frame_len r)) else Inr None)"
    using None fit r extended_len_frames [of gs r "ff_tag f" "encode_frontend_frame f"]
    by (simp add: no_frame_def split: if_splits)
  then show ?thesis
    using take_first [OF fit limit refl refl] ext None
    by (auto simp: read_or_error_def cycle_read_spec_def cycle_of_def isl_def)
next
  case (Some c)
  let ?b = "encode_frames (f # gs) @ r" and ?n = "length (encode_frontend_frame f)"
  have "extended_cycle_len ?b ?n (ff_tag f) = Inr (Some (length (encode_frames c)))"
  proof (cases "is_boundary f")
    case True
    then show ?thesis using Some by (subst extended_cycle_len.simps) auto
  next
    case False
    then obtain d where "through_boundary gs = Some d" "c = f # d" using Some by auto
    then show ?thesis
      using fit r extended_len_frames [of gs r "ff_tag f" "encode_frontend_frame f"] False by (simp add: no_frame_def)
  qed
  moreover have c: "cycle_of (f # gs) = Some c" using Some ext by (simp add: cycle_of_def)
  ultimately show ?thesis
    using take_first [OF fit limit refl refl] ext finish_cycle_frames [OF fit c, of r]
    by (simp add: read_or_error_def cycle_read_spec_def)
qed

lemma take_cycle_frames:
  assumes fit: "frames_fit fs" and r: "no_frame r" and limit: "length (encode_frames fs @ r) \<le> limit"
  shows "read_or_error fs r (take_frontend_cycle_bytes (encode_frames fs @ r) limit)"
proof (cases fs)
  case Nil
  then show ?thesis
    using r limit by (cases "complete_frontend_frame_len r")
      (auto simp: take_frontend_cycle_bytes_def read_or_error_def cycle_read_spec_def cycle_of_def no_frame_def
        split: option.splits)
next
  case (Cons f gs)
  have "ff_tag f = frontend_tag_byte FE_Terminate \<Longrightarrow>
      read_or_error (f # gs) r (take_frontend_cycle_bytes (encode_frames (f # gs) @ r) limit)"
    using take_first [OF _ _ refl refl, of f gs r limit] fit limit Cons
    by (simp add: read_or_error_def cycle_read_spec_def)
  then show ?thesis
    using take_query_frames [of f gs r limit] take_extended_frames [of f gs r limit] fit r limit
    unfolding Cons by blast
qed

lemma read_spec_no_panic: "fst (cycle_read_spec fs r) \<noteq> Inl e"
  by (simp add: cycle_read_spec_def split: option.split)

text \<open>C12. The cutter of request cycles is exact. When the client's buffer holds the complete frames \<open>fs\<close>
  and the beginning of a further frame, the read returns the first cycle of \<open>fs\<close> with the shape of
  its frames, and leaves everything after it: all leading simple queries, or the frames through the
  first \<open>Sync\<close> or \<open>Flush\<close>, or the single \<open>Terminate\<close>. While the cycle is not complete it asks
  for more bytes and takes nothing.\<close>

theorem take_frontend_cycle_exact:
  assumes "\<forall>f\<in>set fs. payload_fits (ff_payload f)" and "parse_frontend_frame r = (Inr None, r)"
    and "length (encode_frames fs @ r) \<le> limit"
  shows "take_frontend_cycle_bytes (encode_frames fs @ r) limit = cycle_read_spec fs r"
  using take_cycle_frames [of fs r limit] complete_len_parse(2) [OF assms(2)] assms(1,3)
  by (auto simp: read_or_error_def no_frame_def)

theorem take_frontend_cycle_exact_witness:
  "take_frontend_cycle_bytes
     (encode_frames [\<lparr>ff_tag = 80, ff_payload = [0, 0]\<rparr>, \<lparr>ff_tag = 83, ff_payload = []\<rparr>,
        \<lparr>ff_tag = 81, ff_payload = [0]\<rparr>] @ [88]) 64 =
   (Inr (FCR_Complete (encode_frames [\<lparr>ff_tag = 80, ff_payload = [0, 0]\<rparr>, \<lparr>ff_tag = 83, ff_payload = []\<rparr>])
      \<lparr>cs_expected_ready_count = 1, cs_expected_completion_count = 0, cs_needs_sync = True\<rparr>),
    encode_frames [\<lparr>ff_tag = 81, ff_payload = [0]\<rparr>] @ [88])"
  by (subst take_frontend_cycle_exact)
    (simp_all add: payload_fits_def parse_frontend_frame_def encode_frontend_frame_def cycle_read_spec_def
      cycle_of_def is_extended_cycle_boundary_def from_frames_def)

text \<open>Cutting cycles never runs into its \<open>unreachable!\<close> or \<open>expect\<close>, whatever bytes the client
  sends.\<close>

lemma take_frontend_cycle_no_panic: "fst (take_frontend_cycle_bytes b limit) \<noteq> Inl CyclePanic"
proof (cases "length b \<le> limit")
  case True
  obtain fs r where b: "b = encode_frames fs @ r" "frames_fit fs"
    and r: "complete_frontend_frame_len r = Inr None \<or> (\<exists>e. complete_frontend_frame_len r = Inl (CycleWire e))"
    by (rule buffer_frames)
  then have "read_or_error fs r (take_frontend_cycle_bytes b limit)"
    using take_cycle_frames [of fs r limit] True by (auto simp: no_frame_def)
  then show ?thesis using r read_spec_no_panic [of fs r] by (auto simp: read_or_error_def)
qed (simp add: take_frontend_cycle_bytes_def)

text \<open>Every simple query and the \<open>Sync\<close> of a cycle is answered by one \<open>ReadyForQuery\<close>: the shape of a
  cycle counts them.\<close>

lemma through_boundary_shape:
  "through_boundary fs = Some c \<Longrightarrow> is_boundary (last c) \<and> (\<forall>f\<in>set (butlast c). \<not> is_boundary f)"
  by (induction fs arbitrary: c) (auto split: if_splits dest: through_boundary_prefix)

definition answers_ready :: "frontend_frame \<Rightarrow> bool" where
  "answers_ready f \<longleftrightarrow> is_query f \<or> ff_tag f = frontend_tag_byte FE_Sync"

lemma cycle_ready_count:
  assumes "cycle_of fs = Some c"
  shows "cs_expected_ready_count (from_frames c) = length (filter answers_ready c)"
proof (cases "fs \<noteq> [] \<and> is_query (hd fs)")
  case True
  then have c: "\<forall>f\<in>set c. is_query f" using assms set_takeWhileD by (fastforce simp: cycle_of_def)
  then have "filter answers_ready c = c" "filter is_query c = c" by (auto simp: answers_ready_def filter_id_conv)
  moreover have "c \<noteq> [] \<Longrightarrow> ff_tag (last c) \<noteq> frontend_tag_byte FE_Sync" using c by auto
  ultimately show ?thesis by (auto simp: from_frames_def Let_def)
next
  case False
  then have t: "through_boundary fs = Some c" using assms by (auto simp: cycle_of_def split: if_splits)
  then obtain d l where c: "c = d @ [l]" using through_boundary_prefix by (metis append_butlast_last_id)
  then have d: "\<forall>f\<in>set d. \<not> is_boundary f" and l: "is_boundary l" using through_boundary_shape [OF t] by simp_all
  have "filter answers_ready d = filter is_query d"
    using d by (intro filter_cong) (auto simp: answers_ready_def is_extended_cycle_boundary_def)
  then show ?thesis using l by (auto simp: c from_frames_def Let_def answers_ready_def is_extended_cycle_boundary_def)
qed

text \<open>Startup packets are cut off whole, as the parser accepted them, and no input panics.\<close>

lemma take_startup_packet_sound:
  "case take_startup_packet_bytes b limit of
     (Inr (SPR_Packet p), rest) \<Rightarrow> b = p @ rest \<and> (\<exists>major minor params. parse_startup_packet p = Inr (Startup major minor params))
   | (Inr (SPR_Cancel p pid key), rest) \<Rightarrow> b = p @ rest \<and> parse_startup_packet p = Inr (CancelRequest pid key)
   | (Inr (SPR_EncryptionRequest SER_Ssl), rest) \<Rightarrow> (\<exists>p. b = p @ rest \<and> parse_startup_packet p = Inr SslRequest)
   | (Inr (SPR_EncryptionRequest SER_Gss), rest) \<Rightarrow> (\<exists>p. b = p @ rest \<and> parse_startup_packet p = Inr GssEncRequest)
   | (Inr SPR_NeedMoreBytes, rest) \<Rightarrow> rest = b \<and> (length b < 4 \<or> int (length b) < sint (i32_at b 0))
   | (Inr SPR_BufferLimitExceeded, rest) \<Rightarrow> rest = b \<and> limit < length b
   | (Inl e, rest) \<Rightarrow> e \<noteq> CyclePanic"
proof -
  have short: "\<exists>e. parse_startup_packet b = Inl e" if "\<not> length b < 4" "sint (i32_at b 0) < 8"
    using that by (simp add: parse_startup_packet_def Let_def)
  have cut: "\<exists>p. b = p @ drop n b \<and> parse_startup_packet p = x" if "parse_startup_packet (take n b) = x" for n x
    using that by (metis append_take_drop_id)
  show ?thesis
    using short unfolding take_startup_packet_bytes_def Let_def
    by (auto split: sum.split startup_packet.split intro: cut)
qed

end
