(* ===== verification/Backend_Drain.thy ===== *)
theory Backend_Drain
  imports Frontend_Cycle Wire_Backend
begin

text \<open>
  The way back, \<open>engine/io_runtime.rs\<close>: the drain that turns backend bytes into what the client is
  sent, and the loop that forwards until the request cycle is answered. A backend connection is the
  list of the reads it will deliver; a read of no bytes is a closed connection, and so is the end of
  the list. Writes to the client are collected; a write that fails ends the loop with its error and
  is not modelled.
\<close>

section \<open>The drain\<close>

definition is_backend_cycle_completion :: "u8 \<Rightarrow> bool" where
  "is_backend_cycle_completion tag \<longleftrightarrow>
     tag = backend_tag_byte BE_ParseComplete \<or> tag = backend_tag_byte BE_BindComplete \<or>
     tag = backend_tag_byte BE_CloseComplete \<or> tag = backend_tag_byte BE_RowDescription \<or>
     tag = backend_tag_byte BE_NoData \<or> tag = backend_tag_byte BE_CommandComplete \<or>
     tag = backend_tag_byte BE_EmptyQueryResponse \<or> tag = backend_tag_byte BE_PortalSuspended"

datatype response_drain_event =
    RDE_Frames "ready_status option" bool
  | RDE_BufferLimitExceeded
  | RDE_NeedMoreBytes

datatype backend_bytes_drain_event =
    BDE_Bytes bytes "ready_status option"
  | BDE_BufferLimitExceeded
  | BDE_NeedMoreBytes

record backend_cycle_progress =
  cp_ready_count :: nat
  cp_injected_parse_completes :: nat
  cp_completion_count :: nat
  cp_saw_error :: bool
  cp_response_started :: bool

record backend_response_drain =
  bd_injected_parse_completes :: nat
  bd_ready_count :: nat
  bd_expected_ready_count :: nat
  bd_completion_count :: nat
  bd_expected_completion_count :: nat
  bd_saw_error :: bool
  bd_response_started :: bool

definition drain_new :: "nat \<Rightarrow> nat \<Rightarrow> backend_response_drain" where
  "drain_new expected_ready_count injected_parse_completes =
     \<lparr>bd_injected_parse_completes = injected_parse_completes, bd_ready_count = 0,
      bd_expected_ready_count = expected_ready_count, bd_completion_count = 0,
      bd_expected_completion_count = 0, bd_saw_error = False, bd_response_started = False\<rparr>"

definition for_cycle :: "frontend_cycle_shape \<Rightarrow> nat \<Rightarrow> backend_response_drain" where
  "for_cycle shape injected_parse_completes =
     \<lparr>bd_injected_parse_completes = injected_parse_completes, bd_ready_count = 0,
      bd_expected_ready_count = cs_expected_ready_count shape, bd_completion_count = 0,
      bd_expected_completion_count = cs_expected_completion_count shape, bd_saw_error = False,
      bd_response_started = False\<rparr>"

definition drain_resume :: "frontend_cycle_shape \<Rightarrow> backend_cycle_progress \<Rightarrow> backend_response_drain" where
  "drain_resume shape progress =
     \<lparr>bd_injected_parse_completes = cp_injected_parse_completes progress,
      bd_ready_count = cp_ready_count progress, bd_expected_ready_count = cs_expected_ready_count shape,
      bd_completion_count = cp_completion_count progress,
      bd_expected_completion_count = cs_expected_completion_count shape,
      bd_saw_error = cp_saw_error progress, bd_response_started = cp_response_started progress\<rparr>"

definition drain_progress :: "backend_response_drain \<Rightarrow> backend_cycle_progress" where
  "drain_progress d =
     \<lparr>cp_ready_count = bd_ready_count d, cp_injected_parse_completes = bd_injected_parse_completes d,
      cp_completion_count = bd_completion_count d, cp_saw_error = bd_saw_error d,
      cp_response_started = bd_response_started d\<rparr>"

definition drain_expects_ready :: "backend_response_drain \<Rightarrow> bool" where
  "drain_expects_ready d \<longleftrightarrow> bd_expected_ready_count d > 0"

definition flush_cycle_complete :: "backend_response_drain \<Rightarrow> bool" where
  "flush_cycle_complete d \<longleftrightarrow> bd_saw_error d \<or> bd_completion_count d \<ge> bd_expected_completion_count d"

text \<open>The header a forwarded frame gets, and the body of the drain loop for one frame.\<close>

definition frame_header :: "backend_frame \<Rightarrow> bytes" where
  "frame_header frame = bf_tag frame # put_i32 (usize_as_i32 (length (bf_payload frame) + 4))"

definition swallows :: "backend_response_drain \<Rightarrow> backend_frame \<Rightarrow> bool" where
  "swallows d frame \<longleftrightarrow> bd_injected_parse_completes d > 0 \<and> bf_tag frame = backend_tag_byte BE_ParseComplete"

definition drain_count :: "backend_frame \<Rightarrow> backend_response_drain \<Rightarrow> backend_response_drain" where
  "drain_count frame d =
     (if swallows d frame then
        d\<lparr>bd_injected_parse_completes := bd_injected_parse_completes d - 1\<rparr>
      else
        d\<lparr>bd_response_started := True,
          bd_ready_count := bd_ready_count d + (if frame_ready_status frame \<noteq> None then 1 else 0),
          bd_completion_count := bd_completion_count d + (if is_backend_cycle_completion (bf_tag frame) then 1 else 0),
          bd_saw_error := (bd_saw_error d \<or> bf_tag frame = backend_tag_byte BE_ErrorResponse)\<rparr>)"

text \<open>
  The loop of \<open>drain_with\<close>. \<open>on_frame\<close> is the caller's callback, which threads the caller's state \<open>'s\<close>
  and may fail; \<open>ready\<close> and the forwarded frames are the loop's local variables. An error leaves
  the frames pushed so far behind.
\<close>

datatype 'e drain_error = DrainWire wire_error | DrainCallback 'e

function drain_frames ::
  "('s \<Rightarrow> backend_frame \<Rightarrow> 'e + 's) \<Rightarrow> 's \<Rightarrow> backend_response_drain \<Rightarrow> bytes \<Rightarrow> (bytes \<times> bytes) list \<Rightarrow>
   ready_status option \<Rightarrow>
   ('e drain_error + ready_status option \<times> 's) \<times> backend_response_drain \<times> bytes \<times> (bytes \<times> bytes) list" where
  "drain_frames on_frame s d buffer forwarded ready =
     (case parse_backend_frame buffer of
        (Inl e, rest) \<Rightarrow> (Inl (DrainWire e), d, rest, forwarded)
      | (Inr None, rest) \<Rightarrow> (Inr (ready, s), d, rest, forwarded)
      | (Inr (Some frame), rest) \<Rightarrow>
          if swallows d frame then drain_frames on_frame s (drain_count frame d) rest forwarded ready
          else
            (case on_frame s frame of
               Inl e \<Rightarrow> (Inl (DrainCallback e), d\<lparr>bd_response_started := True\<rparr>, rest, forwarded)
             | Inr s' \<Rightarrow>
                 drain_frames on_frame s' (drain_count frame d) rest
                   (forwarded @ [(frame_header frame, bf_payload frame)])
                   (case frame_ready_status frame of Some status \<Rightarrow> Some status | None \<Rightarrow> ready)))"
  by pat_completeness auto
termination
  by (relation "measure (\<lambda>(_, _, _, b, _, _). length b)")
    (auto dest!: sym [of _ "parse_backend_frame _"] be_parser.parse_shrinks)

declare drain_frames.simps [simp del]

definition drain_with ::
  "('s \<Rightarrow> backend_frame \<Rightarrow> 'e + 's) \<Rightarrow> 's \<Rightarrow> backend_response_drain \<Rightarrow> bytes \<Rightarrow> (bytes \<times> bytes) list \<Rightarrow>
   ('e drain_error + response_drain_event \<times> 's) \<times> backend_response_drain \<times> bytes \<times> (bytes \<times> bytes) list" where
  "drain_with on_frame s d buffer forwarded =
     (case drain_frames on_frame s d buffer forwarded None of
        (Inl e, d, rest, forwarded) \<Rightarrow> (Inl e, d, rest, forwarded)
      | (Inr (ready, s), d, rest, forwarded) \<Rightarrow>
          (Inr (if ready \<noteq> None \<and> bd_ready_count d \<ge> bd_expected_ready_count d
                then RDE_Frames ready (bd_response_started d)
                else if forwarded = [] then RDE_NeedMoreBytes
                else RDE_Frames None (bd_response_started d), s),
           d, rest, forwarded))"

definition drain ::
  "backend_response_drain \<Rightarrow> bytes \<Rightarrow> (bytes \<times> bytes) list \<Rightarrow>
   (unit drain_error + response_drain_event \<times> unit) \<times> backend_response_drain \<times> bytes \<times> (bytes \<times> bytes) list" where
  "drain d buffer forwarded = drain_with (\<lambda>_ _. Inr ()) () d buffer forwarded"

definition drain_with_limit ::
  "backend_response_drain \<Rightarrow> bytes \<Rightarrow> (bytes \<times> bytes) list \<Rightarrow> nat \<Rightarrow>
   (unit drain_error + response_drain_event \<times> unit) \<times> backend_response_drain \<times> bytes \<times> (bytes \<times> bytes) list" where
  "drain_with_limit d buffer forwarded max_backend_buffer_bytes =
     (if length buffer > max_backend_buffer_bytes then (Inr (RDE_BufferLimitExceeded, ()), d, buffer, forwarded)
      else drain d buffer forwarded)"

definition drain_backend_response_bytes ::
  "bytes \<Rightarrow> backend_response_drain \<Rightarrow> nat \<Rightarrow>
   (unit drain_error + backend_bytes_drain_event) \<times> backend_response_drain \<times> bytes" where
  "drain_backend_response_bytes buffer d max_backend_buffer_bytes =
     (case drain_with_limit d buffer [] max_backend_buffer_bytes of
        (Inl e, d, rest, _) \<Rightarrow> (Inl e, d, rest)
      | (Inr (RDE_Frames ready _, _), d, rest, forwarded) \<Rightarrow>
          (Inr (BDE_Bytes (concat (map (\<lambda>(header, payload). header @ payload) forwarded)) ready), d, rest)
      | (Inr (RDE_BufferLimitExceeded, _), d, rest, _) \<Rightarrow> (Inr BDE_BufferLimitExceeded, d, rest)
      | (Inr (RDE_NeedMoreBytes, _), d, rest, _) \<Rightarrow> (Inr BDE_NeedMoreBytes, d, rest))"

section \<open>The forwarding loop\<close>

datatype backend_forward_outcome = BFO_Ready ready_status | BFO_Flushed

datatype forward_loop_error =
  FLE_Closed | FLE_BufferLimit | FLE_Drain "unit drain_error" | FLE_FlushedWithoutReady

text \<open>
  The result of the loop: its outcome, the drain, the bytes written to the client, the reads left,
  and the backend buffer.
\<close>

record forward_result =
  fr_outcome :: "forward_loop_error + backend_forward_outcome"
  fr_drain :: backend_response_drain
  fr_written :: bytes
  fr_reads :: "bytes list"
  fr_buffer :: bytes

fun forward_loop ::
  "bytes list \<Rightarrow> bytes \<Rightarrow> backend_response_drain \<Rightarrow> nat \<Rightarrow> bytes \<Rightarrow> forward_result" where
  "forward_loop [] buffer d limit written =
     \<lparr>fr_outcome = Inl FLE_Closed, fr_drain = d, fr_written = written, fr_reads = [], fr_buffer = buffer\<rparr>"
| "forward_loop (chunk # reads) buffer d limit written =
     (if chunk = [] then
        \<lparr>fr_outcome = Inl FLE_Closed, fr_drain = d, fr_written = written, fr_reads = reads, fr_buffer = buffer\<rparr>
      else
        case drain_backend_response_bytes (buffer @ chunk) d limit of
          (Inl e, d, rest) \<Rightarrow>
            \<lparr>fr_outcome = Inl (FLE_Drain e), fr_drain = d, fr_written = written, fr_reads = reads, fr_buffer = rest\<rparr>
        | (Inr (BDE_Bytes bs ready), d, rest) \<Rightarrow>
            (case ready of
               Some status \<Rightarrow>
                 \<lparr>fr_outcome = Inr (BFO_Ready status), fr_drain = d, fr_written = written @ bs, fr_reads = reads,
                  fr_buffer = rest\<rparr>
             | None \<Rightarrow>
                 if \<not> drain_expects_ready d \<and> flush_cycle_complete d then
                   \<lparr>fr_outcome = Inr BFO_Flushed, fr_drain = d, fr_written = written @ bs, fr_reads = reads,
                    fr_buffer = rest\<rparr>
                 else forward_loop reads rest d limit (written @ bs))
        | (Inr BDE_BufferLimitExceeded, d, rest) \<Rightarrow>
            \<lparr>fr_outcome = Inl FLE_BufferLimit, fr_drain = d, fr_written = written, fr_reads = reads, fr_buffer = rest\<rparr>
        | (Inr BDE_NeedMoreBytes, d, rest) \<Rightarrow> forward_loop reads rest d limit written)"

definition forward_backend_until_cycle_complete ::
  "bytes list \<Rightarrow> bytes \<Rightarrow> backend_response_drain \<Rightarrow> nat \<Rightarrow> forward_result" where
  "forward_backend_until_cycle_complete reads buffer d limit =
     (if \<not> drain_expects_ready d \<and> flush_cycle_complete d then
        \<lparr>fr_outcome = Inr BFO_Flushed, fr_drain = d, fr_written = [], fr_reads = reads, fr_buffer = buffer\<rparr>
      else forward_loop reads buffer d limit [])"

definition forward_backend_until_ready ::
  "bytes list \<Rightarrow> bytes \<Rightarrow> backend_response_drain \<Rightarrow> nat \<Rightarrow> forward_loop_error + ready_status" where
  "forward_backend_until_ready reads buffer d limit =
     (case fr_outcome (forward_backend_until_cycle_complete reads buffer d limit) of
        Inl e \<Rightarrow> Inl e
      | Inr (BFO_Ready status) \<Rightarrow> Inr status
      | Inr BFO_Flushed \<Rightarrow> Inl FLE_FlushedWithoutReady)"

section \<open>What the client sees of a list of frames\<close>

text \<open>The frames left when the first \<open>k\<close> \<open>ParseComplete\<close> replies are swallowed.\<close>

fun visible :: "nat \<Rightarrow> backend_frame list \<Rightarrow> backend_frame list" where
  "visible k [] = []"
| "visible k (f # fs) =
     (if 0 < k \<and> bf_tag f = backend_tag_byte BE_ParseComplete then visible (k - 1) fs else f # visible k fs)"

abbreviation encode_backend :: "backend_frame \<Rightarrow> bytes" where
  "encode_backend f \<equiv> backend_message (bf_tag f) (bf_payload f)"

abbreviation encode_replies :: "backend_frame list \<Rightarrow> bytes" where
  "encode_replies fs \<equiv> concat (map encode_backend fs)"

abbreviation is_ready :: "backend_frame \<Rightarrow> bool" where
  "is_ready f \<equiv> frame_ready_status f \<noteq> None"

abbreviation ready_frames :: "backend_frame list \<Rightarrow> nat" where
  "ready_frames fs \<equiv> length (filter is_ready fs)"

abbreviation completions :: "backend_frame list \<Rightarrow> nat" where
  "completions fs \<equiv> length (filter (\<lambda>f. is_backend_cycle_completion (bf_tag f)) fs)"

definition last_ready :: "ready_status option \<Rightarrow> backend_frame list \<Rightarrow> ready_status option" where
  "last_ready ready fs =
     fold (\<lambda>f ready. case frame_ready_status f of Some status \<Rightarrow> Some status | None \<Rightarrow> ready) fs ready"

lemma ready_tag: "is_ready f \<Longrightarrow> bf_tag f = backend_tag_byte BE_ReadyForQuery"
  by (auto simp: frame_ready_status_def split: if_splits)

lemma not_ready_parse_complete [simp]: "bf_tag f = backend_tag_byte BE_ParseComplete \<Longrightarrow> frame_ready_status f = None"
  by (simp add: frame_ready_status_def)

lemma ready_frames_visible [simp]: "filter is_ready (visible k fs) = filter is_ready fs"
  by (induction k fs rule: visible.induct) auto

lemma visible_0 [simp]: "visible 0 fs = fs"
  by (induction fs) auto

lemma last_ready_append: "last_ready ready (fs @ gs) = last_ready (last_ready ready fs) gs"
  by (simp add: last_ready_def)

lemma last_ready_snoc: "frame_ready_status f = Some st \<Longrightarrow> last_ready ready (fs @ [f]) = Some st"
  by (simp add: last_ready_append) (simp add: last_ready_def)

lemma last_ready_none: "filter is_ready fs = [] \<Longrightarrow> last_ready ready fs = ready"
  by (induction fs arbitrary: ready) (auto simp: last_ready_def split: if_splits)

lemma last_ready_Some: "last_ready ready fs = None \<longleftrightarrow> ready = None \<and> filter is_ready fs = []"
proof (induction fs arbitrary: ready)
  case (Cons f fs)
  then show ?case by (cases "frame_ready_status f") (simp_all add: last_ready_def)
qed (simp add: last_ready_def)

text \<open>The counters after a list of frames.\<close>

lemma fold_drain_count:
  "fold drain_count fs d =
     d\<lparr>bd_injected_parse_completes :=
         bd_injected_parse_completes d - (length fs - length (visible (bd_injected_parse_completes d) fs)),
       bd_ready_count := bd_ready_count d + ready_frames fs,
       bd_completion_count := bd_completion_count d + completions (visible (bd_injected_parse_completes d) fs),
       bd_saw_error := (bd_saw_error d \<or> (\<exists>f\<in>set fs. bf_tag f = backend_tag_byte BE_ErrorResponse)),
       bd_response_started := (bd_response_started d \<or> visible (bd_injected_parse_completes d) fs \<noteq> [])\<rparr>"
proof (induction fs arbitrary: d)
  case (Cons f fs)
  have len: "length (visible k fs) \<le> length fs" for k by (induction k fs rule: visible.induct) auto
  show ?case
  proof (cases "swallows d f")
    case True
    then have "bf_tag f = backend_tag_byte BE_ParseComplete" "0 < bd_injected_parse_completes d"
      by (simp_all add: swallows_def)
    then show ?thesis
      using Cons True len [of "bd_injected_parse_completes d - 1"] by (simp add: drain_count_def)
  next
    case False
    then have "\<not> (0 < bd_injected_parse_completes d \<and> bf_tag f = backend_tag_byte BE_ParseComplete)"
      by (simp add: swallows_def)
    then show ?thesis using Cons False by (auto simp: drain_count_def)
  qed
qed simp

lemma visible_append:
  "visible k (fs @ gs) = visible k fs @ visible (k - (length fs - length (visible k fs))) gs"
proof (induction k fs rule: visible.induct)
  case (2 k f fs)
  have len: "length (visible k fs) \<le> length fs" for k by (induction k fs rule: visible.induct) auto
  show ?case using 2 len [of "k - 1"] by auto
qed simp

section \<open>Draining a buffer\<close>

lemma drain_frames_run:
  assumes "backend_frames_loop b = (Inr fs, r)"
  shows "drain_frames (\<lambda>_ _. Inr ()) () d b forwarded ready =
    (Inr (last_ready ready fs, ()), fold drain_count fs d, r,
     forwarded @ map (\<lambda>f. (frame_header f, bf_payload f)) (visible (bd_injected_parse_completes d) fs))"
  using assms
proof (induction b arbitrary: fs d forwarded ready rule: be_loop.loop_induct)
  case (step b)
  show ?case
  proof (cases b rule: be_loop.loop_cases)
    case wait
    then show ?thesis using step.prems by (subst drain_frames.simps) (simp add: last_ready_def)
  next
    case (fail e)
    then show ?thesis using step.prems by simp
  next
    case (frame f b')
    then obtain gs where gs: "backend_frames_loop b' = (Inr gs, r)" "fs = f # gs"
      using step.prems by (auto split: prod.splits sum.splits)
    note IH = step.IH [OF frame(1) gs(1)]
    show ?thesis
    proof (cases "swallows d f")
      case True
      then have "bd_injected_parse_completes (drain_count f d) = bd_injected_parse_completes d - 1"
        by (simp add: drain_count_def)
      then show ?thesis
        using frame IH [of "drain_count f d"] gs(2) True
        by (subst drain_frames.simps) (simp add: swallows_def last_ready_def)
    next
      case False
      then have "bd_injected_parse_completes (drain_count f d) = bd_injected_parse_completes d"
        by (simp add: drain_count_def)
      then show ?thesis
        using frame IH [of "drain_count f d"] gs(2) False
        by (subst drain_frames.simps) (auto simp: swallows_def last_ready_def)
    qed
  qed
qed

lemma forwarded_bytes:
  "concat (map (\<lambda>(header, payload). header @ payload) (map (\<lambda>f. (frame_header f, bf_payload f)) fs)) = encode_replies fs"
  by (induction fs) (simp_all add: frame_header_def backend_message_def)

lemma drain_bytes_run:
  assumes "backend_frames_loop b = (Inr fs, r)" and "length b \<le> limit"
  shows "drain_backend_response_bytes b d limit =
    (let v = visible (bd_injected_parse_completes d) fs; d' = fold drain_count fs d; ready = last_ready None fs in
     (Inr (if ready \<noteq> None \<and> bd_ready_count d' \<ge> bd_expected_ready_count d' then BDE_Bytes (encode_replies v) ready
           else if v = [] then BDE_NeedMoreBytes else BDE_Bytes (encode_replies v) None), d', r))"
  using assms forwarded_bytes
  by (simp add: drain_backend_response_bytes_def drain_with_limit_def drain_def drain_with_def drain_frames_run
      Let_def del: map_map)

text \<open>One turn of the forwarding loop.\<close>

lemma forward_loop_step:
  assumes "backend_frames_loop (b @ chunk) = (Inr fs, r)" and "length (b @ chunk) \<le> limit" and "chunk \<noteq> []"
    and v: "v = visible (bd_injected_parse_completes d) fs" and d': "d' = fold drain_count fs d"
  shows "forward_loop (chunk # reads) b d limit written =
    (if last_ready None fs \<noteq> None \<and> bd_ready_count d' \<ge> bd_expected_ready_count d' then
       \<lparr>fr_outcome = Inr (BFO_Ready (the (last_ready None fs))), fr_drain = d', fr_written = written @ encode_replies v,
        fr_reads = reads, fr_buffer = r\<rparr>
     else if v \<noteq> [] \<and> \<not> drain_expects_ready d' \<and> flush_cycle_complete d' then
       \<lparr>fr_outcome = Inr BFO_Flushed, fr_drain = d', fr_written = written @ encode_replies v, fr_reads = reads, fr_buffer = r\<rparr>
     else forward_loop reads r d' limit (written @ encode_replies v))"
  using drain_bytes_run [OF assms(1,2), of d] assms(3) by (auto simp: Let_def v d')

lemma backend_encode_loop:
  "\<forall>f\<in>set fs. payload_fits (bf_payload f) \<Longrightarrow> backend_frames_loop (encode_replies fs) = (Inr fs, [])"
  using backend_loop_message by (induction fs) auto

section \<open>The loop forwards the whole response\<close>

lemma parse_backend_inverse: "parse_backend_frame b = (Inr (Some f), r) \<Longrightarrow> b = encode_backend f @ r"
  using parse_frontend_inverse [of b "\<lparr>ff_tag = bf_tag f, ff_payload = bf_payload f\<rparr>" r]
  by (simp add: parse_backend_frame_Some parse_frontend_frame_Some encode_frontend_frame_def backend_message_def)

lemma backend_loop_inverse: "backend_frames_loop b = (Inr fs, r) \<Longrightarrow> b = encode_replies fs @ r"
proof (induction b arbitrary: fs rule: be_loop.loop_induct)
  case (step b)
  show ?case
  proof (cases b rule: be_loop.loop_cases)
    case (frame f r1)
    with step parse_backend_inverse [OF frame(1)] show ?thesis by (auto split: prod.splits sum.splits)
  qed (use step.prems in auto)
qed

text \<open>What waits in the buffer is shorter than the frame it begins.\<close>

lemma wait_short:
  assumes "parse_backend_frame b = (Inr None, b)" and "b @ rest = encode_replies (f # fs)"
    and "payload_fits (bf_payload f)"
  shows "length b < length (encode_backend f)"
proof (rule ccontr)
  assume "\<not> length b < length (encode_backend f)"
  then have "take (length (encode_backend f)) b = encode_backend f"
    using arg_cong [OF assms(2), of "take (length (encode_backend f))"] by simp
  then obtain b' where "b = encode_backend f @ b'" by (metis append_take_drop_id)
  then show False using assms(1) parse_backend_message [OF assms(3), of "bf_tag f" b'] by simp
qed

text \<open>Reads of at most \<open>n\<close> bytes and frames of at most \<open>m\<close> stay within the buffer limit.\<close>

definition reads_of :: "bytes list \<Rightarrow> bytes \<Rightarrow> backend_frame list \<Rightarrow> nat \<Rightarrow> nat \<Rightarrow> bool" where
  "reads_of chunks b fs m n \<longleftrightarrow>
     parse_backend_frame b = (Inr None, b) \<and> b @ concat chunks = encode_replies fs \<and>
     (\<forall>c\<in>set chunks. c \<noteq> [] \<and> length c \<le> n) \<and>
     (\<forall>f\<in>set fs. payload_fits (bf_payload f) \<and> length (encode_backend f) \<le> m)"

lemma reads_of_buffer:
  assumes "reads_of chunks b fs m n" shows "length b \<le> m"
proof (cases fs)
  case Nil
  then show ?thesis using assms by (simp add: reads_of_def)
next
  case (Cons f gs)
  then show ?thesis using assms wait_short [of b "concat chunks" f gs] by (fastforce simp: reads_of_def)
qed

lemma reads_of_end: "reads_of [] b fs m n \<Longrightarrow> b = [] \<and> fs = []"
  using wait_short [of b "[]"] by (cases fs) (force simp: reads_of_def)+

lemma reads_of_step:
  assumes "reads_of (c # chunks) b fs m n" and "m + n \<le> limit"
  obtains gs hs r where "backend_frames_loop (b @ c) = (Inr gs, r)" and "fs = gs @ hs"
    and "reads_of chunks r hs m n" and "length (b @ c) \<le> limit" and "c \<noteq> []"
proof -
  have "backend_frames_loop ((b @ c) @ concat chunks) = (Inr fs, [])"
    using assms(1) backend_encode_loop [of fs] by (simp add: reads_of_def)
  then obtain gs hs r where l: "backend_frames_loop (b @ c) = (Inr gs, r)" "backend_frames_loop (r @ concat chunks) = (Inr hs, [])"
    "fs = gs @ hs" "parse_backend_frame r = (Inr None, r)"
    by (rule be_loop.loop_split)
  have "r @ concat chunks = encode_replies hs" using backend_loop_inverse [OF l(2)] by simp
  moreover have "length b \<le> m" using assms(1) by (rule reads_of_buffer)
  ultimately show thesis using that [of gs r hs] l assms by (auto simp: reads_of_def)
qed

lemma ready_frames_pos: "fs \<noteq> [] \<Longrightarrow> is_ready (last fs) \<Longrightarrow> 0 < ready_frames fs"
  using filter_empty_conv [of is_ready fs] last_in_set [of fs] by blast

lemma forward_until_ready_run:
  assumes "reads_of chunks b fs m n" and "m + n \<le> limit" and "fs \<noteq> []"
    and "frame_ready_status (last fs) = Some st"
    and "bd_ready_count d + ready_frames fs = bd_expected_ready_count d"
  shows "forward_loop chunks b d limit written =
    \<lparr>fr_outcome = Inr (BFO_Ready st), fr_drain = fold drain_count fs d,
     fr_written = written @ encode_replies (visible (bd_injected_parse_completes d) fs),
     fr_reads = [], fr_buffer = []\<rparr>"
  using assms
proof (induction chunks arbitrary: b fs d written)
  case Nil
  then show ?case using reads_of_end by blast
next
  case (Cons c chunks)
  let ?k = "bd_injected_parse_completes d"
  obtain gs hs r where st: "backend_frames_loop (b @ c) = (Inr gs, r)" "fs = gs @ hs" "reads_of chunks r hs m n"
    "length (b @ c) \<le> limit" "c \<noteq> []"
    using reads_of_step [OF Cons.prems(1,2)] by blast
  note step = forward_loop_step [OF st(1,4,5) refl refl, where d = d and reads = chunks and written = written]
  show ?case
  proof (cases "hs = []")
    case True
    then have "chunks = [] \<and> r = []" using st(3) by (cases chunks) (auto simp: reads_of_def)
    moreover have "last_ready None fs = Some st"
      using Cons.prems(3,4) last_ready_snoc [of "last fs" st None "butlast fs"] by simp
    ultimately show ?thesis using step True st(2) Cons.prems(5) by (simp add: fold_drain_count)
  next
    case False
    then have last: "last hs = last fs" using st(2) by simp
    then have hpos: "0 < ready_frames hs" using False Cons.prems(4) by (intro ready_frames_pos) simp_all
    let ?d = "fold drain_count gs d"
    have cnt: "bd_ready_count ?d + ready_frames hs = bd_expected_ready_count ?d"
      using Cons.prems(5) st(2) by (simp add: fold_drain_count)
    have "forward_loop (c # chunks) b d limit written = forward_loop chunks r ?d limit (written @ encode_replies (visible ?k gs))"
      using step cnt hpos by (simp add: drain_expects_ready_def)
    also have "\<dots> = \<lparr>fr_outcome = Inr (BFO_Ready st), fr_drain = fold drain_count hs ?d,
       fr_written = (written @ encode_replies (visible ?k gs)) @ encode_replies (visible (bd_injected_parse_completes ?d) hs),
       fr_reads = [], fr_buffer = []\<rparr>"
      using Cons.IH [OF st(3) Cons.prems(2) False _ cnt] last Cons.prems(4) by simp
    finally show ?thesis using st(2) by (simp add: visible_append fold_drain_count [of gs d])
  qed
qed

text \<open>The same for a cycle that ends with \<open>Flush\<close>: it is over with its last completion.\<close>

lemma visible_last:
  "fs \<noteq> [] \<Longrightarrow> k = 0 \<or> bf_tag (last fs) \<noteq> backend_tag_byte BE_ParseComplete \<Longrightarrow>
     visible k fs \<noteq> [] \<and> last (visible k fs) = last fs"
  by (induction k fs rule: visible.induct) (auto split: if_splits)

lemma completions_pos:
  assumes "fs \<noteq> []" and "is_backend_cycle_completion (bf_tag (last fs))"
    and "k = 0 \<or> bf_tag (last fs) \<noteq> backend_tag_byte BE_ParseComplete"
  shows "0 < completions (visible k fs)"
  using visible_last [OF assms(1,3)] assms(2) last_in_set [of "visible k fs"]
    filter_empty_conv [of "\<lambda>f. is_backend_cycle_completion (bf_tag f)" "visible k fs"] by auto

lemma forward_until_flushed_run:
  assumes "reads_of chunks b fs m n" and "m + n \<le> limit" and "fs \<noteq> []"
    and "is_backend_cycle_completion (bf_tag (last fs))"
    and "bd_injected_parse_completes d = 0 \<or> bf_tag (last fs) \<noteq> backend_tag_byte BE_ParseComplete"
    and "\<forall>f\<in>set fs. \<not> is_ready f \<and> bf_tag f \<noteq> backend_tag_byte BE_ErrorResponse"
    and "bd_expected_ready_count d = 0" and "\<not> bd_saw_error d"
    and "bd_completion_count d + completions (visible (bd_injected_parse_completes d) fs) = bd_expected_completion_count d"
  shows "forward_loop chunks b d limit written =
    \<lparr>fr_outcome = Inr BFO_Flushed, fr_drain = fold drain_count fs d,
     fr_written = written @ encode_replies (visible (bd_injected_parse_completes d) fs),
     fr_reads = [], fr_buffer = []\<rparr>"
  using assms
proof (induction chunks arbitrary: b fs d written)
  case Nil
  then show ?case using reads_of_end by blast
next
  case (Cons c chunks)
  let ?k = "bd_injected_parse_completes d"
  obtain gs hs r where st: "backend_frames_loop (b @ c) = (Inr gs, r)" "fs = gs @ hs" "reads_of chunks r hs m n"
    "length (b @ c) \<le> limit" "c \<noteq> []"
    using reads_of_step [OF Cons.prems(1,2)] by blast
  note step = forward_loop_step [OF st(1,4,5) refl refl, where d = d and reads = chunks and written = written]
  have quiet: "filter is_ready gs = []" "\<not> (\<exists>f\<in>set gs. bf_tag f = backend_tag_byte BE_ErrorResponse)"
    using Cons.prems(6) st(2) by (auto simp: filter_empty_conv)
  then have none: "last_ready None gs = None" by (simp add: last_ready_Some)
  show ?case
  proof (cases "hs = []")
    case True
    then have "chunks = [] \<and> r = []" using st(3) by (cases chunks) (auto simp: reads_of_def)
    moreover have "visible ?k gs \<noteq> []" using visible_last [of gs ?k] Cons.prems(3,5) st(2) True by simp
    ultimately show ?thesis
      using step none quiet True st(2) Cons.prems(7-9)
      by (simp add: fold_drain_count drain_expects_ready_def flush_cycle_complete_def)
  next
    case False
    let ?d = "fold drain_count gs d"
    have last: "last hs = last fs" using False st(2) by simp
    have k: "bd_injected_parse_completes ?d = ?k - (length gs - length (visible ?k gs))" by (simp add: fold_drain_count)
    have inj: "bd_injected_parse_completes ?d = 0 \<or> bf_tag (last hs) \<noteq> backend_tag_byte BE_ParseComplete"
      using Cons.prems(5) last k by auto
    have lc: "is_backend_cycle_completion (bf_tag (last hs))" using last Cons.prems(4) by simp
    have hquiet: "\<forall>f\<in>set hs. \<not> is_ready f \<and> bf_tag f \<noteq> backend_tag_byte BE_ErrorResponse"
      using Cons.prems(6) unfolding st(2) set_append by blast
    have pos: "0 < completions (visible (bd_injected_parse_completes ?d) hs)"
      using completions_pos [OF False lc inj] .
    have cnt: "bd_completion_count ?d + completions (visible (bd_injected_parse_completes ?d) hs) = bd_expected_completion_count ?d"
      using Cons.prems(9) st(2) by (simp add: fold_drain_count [of gs d] visible_append)
    have err: "\<not> bd_saw_error ?d" "bd_expected_ready_count ?d = 0"
      using Cons.prems(7,8) quiet by (simp_all add: fold_drain_count [of gs d])
    have "bd_completion_count ?d < bd_expected_completion_count ?d" using cnt pos by linarith
    then have "\<not> flush_cycle_complete ?d" using err by (simp add: flush_cycle_complete_def)
    then have "forward_loop (c # chunks) b d limit written = forward_loop chunks r ?d limit (written @ encode_replies (visible ?k gs))"
      using step none by simp
    also have "\<dots> = \<lparr>fr_outcome = Inr BFO_Flushed, fr_drain = fold drain_count hs ?d,
       fr_written = (written @ encode_replies (visible ?k gs)) @ encode_replies (visible (bd_injected_parse_completes ?d) hs),
       fr_reads = [], fr_buffer = []\<rparr>"
      by (rule Cons.IH [OF st(3) Cons.prems(2) False lc inj hquiet err(2,1) cnt])
    finally show ?thesis using st(2) k by (simp add: visible_append)
  qed
qed

section \<open>Request cycles are answered\<close>

lemma for_cycle_fields [simp]:
  "bd_injected_parse_completes (for_cycle shape k) = k" "bd_ready_count (for_cycle shape k) = 0"
  "bd_expected_ready_count (for_cycle shape k) = cs_expected_ready_count shape"
  "bd_completion_count (for_cycle shape k) = 0" "\<not> bd_saw_error (for_cycle shape k)"
  "bd_expected_completion_count (for_cycle shape k) = cs_expected_completion_count shape"
  by (simp_all add: for_cycle_def)

lemma ready_frames_replies:
  assumes "\<forall>f\<in>set c. ready_frames (reply f) = (if answers_ready f then 1 else 0)"
  shows "ready_frames (concat (map reply c)) = length (filter answers_ready c)"
  using assms by (induction c) auto

lemma completions_replies:
  assumes "\<forall>f\<in>set c. completions (reply f) = (if p f then 1 else 0)"
  shows "completions (concat (map reply c)) = length (filter p c)"
  using assms by (induction c) auto

lemma reads_of_start:
  assumes "concat chunks = encode_replies fs" and "\<forall>c\<in>set chunks. c \<noteq> [] \<and> length c \<le> n"
    and "\<forall>f\<in>set fs. payload_fits (bf_payload f) \<and> length (encode_backend f) \<le> m"
  shows "reads_of chunks [] fs m n"
  using assms by (simp add: reads_of_def parse_backend_frame_def)

text \<open>C13. A request cycle that waits for \<open>ReadyForQuery\<close> is answered in full. Let \<open>reply\<close> give the
  backend's answer to each forwarded frame, with one \<open>ReadyForQuery\<close> for every \<open>Query\<close> and \<open>Sync\<close>
  and none for another frame, and let the network cut the answers into any nonempty reads whose
  size together with a frame stays within the buffer limit. Then the forwarding loop ends with the
  status of the last \<open>ReadyForQuery\<close>, after it has read every byte and has written to the client
  exactly the answers without the swallowed \<open>ParseComplete\<close> replies.\<close>

theorem ready_cycle_answered:
  assumes "cycle_of fs = Some c" and "answers_ready (last c)"
    and "\<forall>f\<in>set c. ready_frames (reply f) = (if answers_ready f then 1 else 0)"
    and "reply (last c) \<noteq> []" and "frame_ready_status (last (reply (last c))) = Some status"
    and "concat chunks = encode_replies (concat (map reply c))"
    and "\<forall>chunk\<in>set chunks. chunk \<noteq> [] \<and> length chunk \<le> n"
    and "\<forall>f\<in>set (concat (map reply c)). payload_fits (bf_payload f) \<and> length (encode_backend f) \<le> m"
    and "m + n \<le> limit"
  shows "\<exists>d. forward_backend_until_cycle_complete chunks [] (for_cycle (from_frames c) k) limit =
    \<lparr>fr_outcome = Inr (BFO_Ready status), fr_drain = d,
     fr_written = encode_replies (visible k (concat (map reply c))), fr_reads = [], fr_buffer = []\<rparr>"
proof -
  have c: "c \<noteq> []" using cycle_of_prefix [OF assms(1)] by simp
  then have rs: "concat (map reply c) = concat (map reply (butlast c)) @ reply (last c)"
    by (cases c rule: rev_cases) simp_all
  let ?rs = "concat (map reply c)" and ?d = "for_cycle (from_frames c) k"
  have "?rs \<noteq> []" "frame_ready_status (last ?rs) = Some status" using assms(4,5) rs by simp_all
  moreover have n: "bd_ready_count ?d + ready_frames ?rs = bd_expected_ready_count ?d"
    using cycle_ready_count [OF assms(1)] ready_frames_replies [OF assms(3)] by simp
  moreover have "drain_expects_ready ?d"
    using n ready_frames_pos [of ?rs] calculation by (simp add: drain_expects_ready_def)
  ultimately show ?thesis
    using forward_until_ready_run [OF reads_of_start [OF assms(6-8)] assms(9), of status ?d "[]"]
    by (simp add: forward_backend_until_cycle_complete_def)
qed

text \<open>C14. A request cycle that ends with \<open>Flush\<close>, and into which no \<open>Parse\<close> was injected, is answered in full as well, although no
  \<open>ReadyForQuery\<close> tells its end: when the backend answers every \<open>Parse\<close>, \<open>Bind\<close>, \<open>Describe\<close>,
  \<open>Execute\<close> and \<open>Close\<close> with one terminating reply and none fails, the loop stops right after the
  last of them and no reply is left in the connection.\<close>

theorem flush_cycle_answered:
  assumes "cycle_of fs = Some c" and "\<forall>f\<in>set c. \<not> answers_ready f"
    and "\<forall>f\<in>set c. completions (reply f) = (if expects_backend_completion (ff_tag f) then 1 else 0)"
    and "\<forall>f\<in>set (concat (map reply c)). \<not> is_ready f \<and> bf_tag f \<noteq> backend_tag_byte BE_ErrorResponse"
    and "concat (map reply c) \<noteq> []" and "is_backend_cycle_completion (bf_tag (last (concat (map reply c))))"
    and "concat chunks = encode_replies (concat (map reply c))"
    and "\<forall>chunk\<in>set chunks. chunk \<noteq> [] \<and> length chunk \<le> n"
    and "\<forall>f\<in>set (concat (map reply c)). payload_fits (bf_payload f) \<and> length (encode_backend f) \<le> m"
    and "m + n \<le> limit"
  shows "\<exists>d. forward_backend_until_cycle_complete chunks [] (for_cycle (from_frames c) 0) limit =
    \<lparr>fr_outcome = Inr BFO_Flushed, fr_drain = d,
     fr_written = encode_replies (concat (map reply c)), fr_reads = [], fr_buffer = []\<rparr>"
proof -
  let ?rs = "concat (map reply c)" and ?d = "for_cycle (from_frames c) 0"
  have r0: "cs_expected_ready_count (from_frames c) = 0"
    using cycle_ready_count [OF assms(1)] assms(2) by (simp add: filter_empty_conv)
  then have cc: "cs_expected_completion_count (from_frames c) = completions ?rs"
    using completions_replies [OF assms(3)] by (simp add: from_frames_def Let_def split: if_splits)
  moreover have "0 < completions ?rs" using completions_pos [OF assms(5,6), of 0] by simp
  ultimately have start: "\<not> flush_cycle_complete ?d" by (simp add: flush_cycle_complete_def)
  have "forward_loop chunks [] ?d limit [] = \<lparr>fr_outcome = Inr BFO_Flushed, fr_drain = fold drain_count ?rs ?d,
      fr_written = [] @ encode_replies (visible (bd_injected_parse_completes ?d) ?rs), fr_reads = [], fr_buffer = []\<rparr>"
    by (rule forward_until_flushed_run [OF reads_of_start [OF assms(7-9)] assms(10,5,6)])
      (use assms(4) r0 cc in simp_all)
  then show ?thesis using start by (simp add: forward_backend_until_cycle_complete_def)
qed

text \<open>A \<open>Bind\<close> for which the proxy injected a \<open>Parse\<close>, with its answers in three reads.\<close>

definition demo_reply :: "frontend_frame \<Rightarrow> backend_frame list" where
  "demo_reply f =
     (if ff_tag f = frontend_tag_byte FE_Sync then [\<lparr>bf_tag = backend_tag_byte BE_ReadyForQuery, bf_payload = [73]\<rparr>]
      else if ff_tag f = frontend_tag_byte FE_Bind then
        [\<lparr>bf_tag = backend_tag_byte BE_ParseComplete, bf_payload = []\<rparr>,
         \<lparr>bf_tag = backend_tag_byte BE_BindComplete, bf_payload = []\<rparr>]
      else if ff_tag f = frontend_tag_byte FE_Describe then
        [\<lparr>bf_tag = backend_tag_byte BE_ParameterDescription, bf_payload = [0, 0]\<rparr>,
         \<lparr>bf_tag = backend_tag_byte BE_NoData, bf_payload = []\<rparr>]
      else [])"

lemmas demo_eval =
  demo_reply_def cycle_of_def is_extended_cycle_boundary_def answers_ready_def frame_ready_status_def
  backend_message_def put_i32_def usize_as_i32_def payload_fits_def is_backend_cycle_completion_def
  expects_backend_completion_def

theorem ready_cycle_answered_witness:
  "fr_written (forward_backend_until_cycle_complete
      [[49, 0, 0], [0, 4, 50, 0, 0, 0, 4, 90], [0, 0, 0, 5, 73]] []
      (for_cycle (from_frames [\<lparr>ff_tag = 66, ff_payload = []\<rparr>, \<lparr>ff_tag = 83, ff_payload = []\<rparr>]) 1) 64) =
    [50, 0, 0, 0, 4, 90, 0, 0, 0, 5, 73]"
proof -
  let ?c = "[\<lparr>ff_tag = 66, ff_payload = []\<rparr>, \<lparr>ff_tag = 83, ff_payload = []\<rparr>]"
  have "\<exists>d. forward_backend_until_cycle_complete [[49, 0, 0], [0, 4, 50, 0, 0, 0, 4, 90], [0, 0, 0, 5, 73]] []
      (for_cycle (from_frames ?c) 1) 64 =
    \<lparr>fr_outcome = Inr (BFO_Ready RS_Idle), fr_drain = d,
     fr_written = encode_replies (visible 1 (concat (map demo_reply ?c))), fr_reads = [], fr_buffer = []\<rparr>"
    by (rule ready_cycle_answered [of ?c _ _ _ _ 8 6]) (simp_all add: demo_eval)
  then show ?thesis by (auto simp: demo_eval)
qed

theorem flush_cycle_answered_witness:
  "fr_outcome (forward_backend_until_cycle_complete
      [[116, 0, 0, 0, 6, 0], [0, 110, 0, 0, 0, 4]] []
      (for_cycle (from_frames [\<lparr>ff_tag = 68, ff_payload = []\<rparr>, \<lparr>ff_tag = 72, ff_payload = []\<rparr>]) 0) 64) =
    Inr BFO_Flushed"
proof -
  let ?c = "[\<lparr>ff_tag = 68, ff_payload = []\<rparr>, \<lparr>ff_tag = 72, ff_payload = []\<rparr>]"
  have "\<exists>d. forward_backend_until_cycle_complete [[116, 0, 0, 0, 6, 0], [0, 110, 0, 0, 0, 4]] []
      (for_cycle (from_frames ?c) 0) 64 =
    \<lparr>fr_outcome = Inr BFO_Flushed, fr_drain = d,
     fr_written = encode_replies (concat (map demo_reply ?c)), fr_reads = [], fr_buffer = []\<rparr>"
    by (rule flush_cycle_answered [of ?c _ _ _ 6 7]) (simp_all add: demo_eval)
  then show ?thesis by auto
qed

lemma visible_none: "\<forall>f\<in>set fs. bf_tag f \<noteq> backend_tag_byte BE_ParseComplete \<Longrightarrow> visible k fs = fs"
  by (induction fs) auto

lemma visible_first:
  assumes "\<forall>f\<in>set xs. bf_tag f \<noteq> backend_tag_byte BE_ParseComplete" and "bf_tag pc = backend_tag_byte BE_ParseComplete"
  shows "visible 1 (xs @ pc # zs) = xs @ zs"
proof -
  have "visible 0 zs = zs" by (induction zs) simp_all
  with assms show ?thesis by (induction xs) auto
qed

text \<open>C40. The drain swallows the first \<open>ParseComplete\<close> replies, not those of the injected messages. Take
  any cycle in which the backend answers the client's own \<open>Parse\<close> (\<open>mine\<close>), then other messages
  of the client (\<open>ys\<close>), and then the one \<open>Parse\<close> the proxy injected (\<open>injected\<close>). However the answers
  are cut into reads, the client gets the answers \<open>ys\<close> before a \<open>ParseComplete\<close>, which is not the
  order of its messages.\<close>

theorem injected_parse_reorders_replies:
  assumes "\<forall>f\<in>set (xs @ ys). bf_tag f \<noteq> backend_tag_byte BE_ParseComplete" and "ys \<noteq> []"
    and "bf_tag mine = backend_tag_byte BE_ParseComplete" and "bf_tag injected = backend_tag_byte BE_ParseComplete"
    and "rs = xs @ [mine] @ ys @ [injected] @ zs" and "zs \<noteq> []" and "frame_ready_status (last zs) = Some status"
    and "ready_frames rs = cs_expected_ready_count (from_frames c)"
    and "concat chunks = encode_replies rs" and "\<forall>chunk\<in>set chunks. chunk \<noteq> [] \<and> length chunk \<le> n"
    and "\<forall>f\<in>set rs. payload_fits (bf_payload f) \<and> length (encode_backend f) \<le> m" and "m + n \<le> limit"
  shows "fr_written (forward_backend_until_cycle_complete chunks [] (for_cycle (from_frames c) 1) limit) =
      encode_replies (xs @ ys @ [injected] @ zs) \<and>
    encode_replies (xs @ ys @ [injected] @ zs) \<noteq> encode_replies (xs @ [mine] @ ys @ zs)"
proof
  let ?d = "for_cycle (from_frames c) 1"
  have rs: "rs \<noteq> []" "frame_ready_status (last rs) = Some status" using assms(5-7) by simp_all
  have "0 < ready_frames rs" by (rule ready_frames_pos) (use rs in simp_all)
  then have e: "drain_expects_ready ?d" unfolding assms(8) by (simp add: drain_expects_ready_def)
  have "bd_ready_count ?d + ready_frames rs = bd_expected_ready_count ?d" using assms(8) by simp
  from forward_until_ready_run [OF reads_of_start [OF assms(9-11)] assms(12) rs this, of "[]"] e
  have "fr_written (forward_backend_until_cycle_complete chunks [] ?d limit) = encode_replies (visible 1 rs)"
    by (simp add: forward_backend_until_cycle_complete_def)
  moreover have "visible 1 rs = xs @ ys @ [injected] @ zs"
    unfolding assms(5) using visible_first [of xs mine] assms(1,3) by simp
  ultimately show "fr_written (forward_backend_until_cycle_complete chunks [] ?d limit) =
      encode_replies (xs @ ys @ [injected] @ zs)" by simp
  obtain y ys' where "ys = y # ys'" "bf_tag y \<noteq> bf_tag mine" using assms(1-3) by (cases ys) auto
  then show "encode_replies (xs @ ys @ [injected] @ zs) \<noteq> encode_replies (xs @ [mine] @ ys @ zs)"
    by (simp add: backend_message_def)
qed

text \<open>A client prepares and binds a new statement and then binds an older one: it reads \<open>BindComplete\<close>
  before \<open>ParseComplete\<close>.\<close>

theorem injected_parse_reorders_replies_witness:
  "fr_written (forward_backend_until_cycle_complete
      [encode_replies [\<lparr>bf_tag = 49, bf_payload = []\<rparr>, \<lparr>bf_tag = 50, bf_payload = []\<rparr>,
         \<lparr>bf_tag = 49, bf_payload = []\<rparr>, \<lparr>bf_tag = 50, bf_payload = []\<rparr>, \<lparr>bf_tag = 90, bf_payload = [73]\<rparr>]] []
      (for_cycle (from_frames [\<lparr>ff_tag = 80, ff_payload = []\<rparr>, \<lparr>ff_tag = 66, ff_payload = []\<rparr>,
         \<lparr>ff_tag = 66, ff_payload = []\<rparr>, \<lparr>ff_tag = 83, ff_payload = []\<rparr>]) 1) 64) =
    encode_replies [\<lparr>bf_tag = 50, bf_payload = []\<rparr>, \<lparr>bf_tag = 49, bf_payload = []\<rparr>,
      \<lparr>bf_tag = 50, bf_payload = []\<rparr>, \<lparr>bf_tag = 90, bf_payload = [73]\<rparr>]"
  using injected_parse_reorders_replies [of "[]" "[\<lparr>bf_tag = 50, bf_payload = []\<rparr>]" "\<lparr>bf_tag = 49, bf_payload = []\<rparr>"
      "\<lparr>bf_tag = 49, bf_payload = []\<rparr>" _ "[\<lparr>bf_tag = 50, bf_payload = []\<rparr>, \<lparr>bf_tag = 90, bf_payload = [73]\<rparr>]"
      RS_Idle "[\<lparr>ff_tag = 80, ff_payload = []\<rparr>, \<lparr>ff_tag = 66, ff_payload = []\<rparr>,
         \<lparr>ff_tag = 66, ff_payload = []\<rparr>, \<lparr>ff_tag = 83, ff_payload = []\<rparr>]"
      "[encode_replies [\<lparr>bf_tag = 49, bf_payload = []\<rparr>, \<lparr>bf_tag = 50, bf_payload = []\<rparr>,
         \<lparr>bf_tag = 49, bf_payload = []\<rparr>, \<lparr>bf_tag = 50, bf_payload = []\<rparr>, \<lparr>bf_tag = 90, bf_payload = [73]\<rparr>]]" 26 6 64]
  by (simp add: backend_message_def payload_fits_def frame_ready_status_def from_frames_def)

end
