(* ===== verification/Forward_Plan.thy ===== *)
theory Forward_Plan
  imports Prepared_Forward Backend_Drain Virtual_Session Shard_Extract "HOL-Library.AList"
begin

text \<open>
  From a cycle of frontend frames to a backend and back: the plans made for the statements of a
  cycle and the cache of statement texts (\<open>proxy/request_plan.rs\<close>), the bytes sent to the backend,
  the session state that follows the statements, and the loop that forwards the reply
  (\<open>proxy/forwarding.rs\<close>), with the decision to retry (\<open>proxy/connection.rs\<close>). Metrics, timers and
  published snapshots are left out; \<open>None\<close> and \<open>FwdPanic\<close> stand for the panic of \<open>classify\<close>.

  Shown: the cache is transparent and bounded; only a lone read outside a transaction is ever sent a
  second time; and the bytes sent to a backend are the frames of the cycle, each with its statement
  name rewritten and its injected \<open>Parse\<close> before it, so that the counts the reply loop waits for are
  right.
\<close>

section \<open>Plans\<close>

record cached_sql_plan =
  csp_command :: sql_command
  csp_analysis :: "sql_analysis option"

text \<open>The cache is keyed by the bytes of the text, which determine the text.\<close>

record sql_plan_cache =
  spc_capacity :: nat
  spc_plans :: "(rstr \<times> cached_sql_plan) list"
  spc_insertion_order :: "rstr list"

definition sql_plan_cache_new :: "nat \<Rightarrow> sql_plan_cache" where
  "sql_plan_cache_new capacity = \<lparr>spc_capacity = capacity, spc_plans = [], spc_insertion_order = []\<rparr>"

fun evict_to_capacity ::
  "nat \<Rightarrow> (rstr \<times> cached_sql_plan) list \<Rightarrow> rstr list \<Rightarrow> (rstr \<times> cached_sql_plan) list \<times> rstr list" where
  "evict_to_capacity capacity plans [] = (plans, [])"
| "evict_to_capacity capacity plans (key # order) =
     (if length plans > capacity then evict_to_capacity capacity (AList.delete key plans) order
      else (plans, key # order))"

definition cache_insert :: "rstr \<Rightarrow> cached_sql_plan \<Rightarrow> sql_plan_cache \<Rightarrow> sql_plan_cache" where
  "cache_insert sql plan c =
     (let order = (if map_of (spc_plans c) sql = None then spc_insertion_order c @ [sql]
                   else spc_insertion_order c);
          (plans, order') = evict_to_capacity (spc_capacity c) (AList.update sql plan (spc_plans c)) order
      in c\<lparr>spc_plans := plans, spc_insertion_order := order'\<rparr>)"

definition get_or_insert :: "rstr \<Rightarrow> bool \<Rightarrow> sql_plan_cache \<Rightarrow> (cached_sql_plan \<times> sql_plan_cache) option" where
  "get_or_insert sql needs_analysis c =
     (case map_of (spc_plans c) sql of
        Some plan \<Rightarrow>
          if \<not> needs_analysis \<or> csp_analysis plan \<noteq> None then Some (plan, c)
          else
            (let plan' = \<lparr>csp_command = csp_command plan, csp_analysis = Some (analyze_sql sql)\<rparr>
             in Some (plan', if spc_capacity c = 0 then c else cache_insert sql plan' c))
      | None \<Rightarrow>
          (case classify sql of
             None \<Rightarrow> None
           | Some command \<Rightarrow>
               (let plan' = \<lparr>csp_command = command,
                             csp_analysis = (if needs_analysis then Some (analyze_sql sql) else None)\<rparr>
                in Some (plan', if spc_capacity c = 0 then c else cache_insert sql plan' c))))"

record request_plan =
  rp_sql :: rstr
  rp_command :: sql_command
  rp_analysis :: "sql_analysis option"
  rp_updates_transaction_state :: bool
  rp_updates_session_state :: bool

definition request_plan_new ::
  "rstr \<Rightarrow> bool \<Rightarrow> bool \<Rightarrow> bool \<Rightarrow> sql_plan_cache \<Rightarrow> (request_plan \<times> sql_plan_cache) option" where
  "request_plan_new sql updates_transaction updates_session needs_analysis cache =
     (case get_or_insert sql needs_analysis cache of
        None \<Rightarrow> None
      | Some (cached, cache') \<Rightarrow>
          Some (\<lparr>rp_sql = sql, rp_command = csp_command cached, rp_analysis = csp_analysis cached,
                 rp_updates_transaction_state = updates_transaction,
                 rp_updates_session_state = updates_session\<rparr>, cache'))"

definition plan_from_prepared :: "prepared_statement \<Rightarrow> request_plan" where
  "plan_from_prepared st =
     \<lparr>rp_sql = ps_query st, rp_command = ps_command st, rp_analysis = Some (ps_analysis st),
      rp_updates_transaction_state = False, rp_updates_session_state = False\<rparr>"

definition plan_analysis :: "request_plan \<Rightarrow> sql_analysis" where
  "plan_analysis p = (case rp_analysis p of Some a \<Rightarrow> a | None \<Rightarrow> analyze_sql (rp_sql p))"

text \<open>The prepared statement a \<open>Bind\<close> or a \<open>Describe\<close> refers to; here a malformed frame is no error.\<close>

definition frame_statement :: "prepared_catalog \<Rightarrow> frontend_frame \<Rightarrow> prepared_statement option" where
  "frame_statement prepared frame =
     (case (case parse_bind_statement_name frame of
              Inr (Some name) \<Rightarrow> get_for_current_route_map name prepared | _ \<Rightarrow> None) of
        Some st \<Rightarrow> Some st
      | None \<Rightarrow>
          (case parse_describe_target frame of
             Inr (Some (DT_Statement name)) \<Rightarrow> get_for_current_route_map name prepared
           | _ \<Rightarrow> None))"

text \<open>The body of the loop for one frame, and the loop; an error leaves the cache as it is by then.\<close>

definition plan_frame ::
  "prepared_catalog \<Rightarrow> bool \<Rightarrow> frontend_frame \<Rightarrow> sql_plan_cache
   \<Rightarrow> forward_error + (request_plan list \<times> sql_plan_cache)" where
  "plan_frame prepared analyze frame cache =
     and_then (wire (parse_simple_query frame)) (\<lambda>query.
     case query of
       Some sql \<Rightarrow>
         (case request_plan_new sql True True analyze cache of
            None \<Rightarrow> Inl FwdPanic | Some (plan, cache') \<Rightarrow> Inr ([plan], cache'))
     | None \<Rightarrow>
       and_then (wire (parse_parse_message frame)) (\<lambda>parse.
       case parse of
         Some message \<Rightarrow>
           (case request_plan_new (pm_query message) True False analyze cache of
              None \<Rightarrow> Inl FwdPanic | Some (plan, cache') \<Rightarrow> Inr ([plan], cache'))
       | None \<Rightarrow>
         (case frame_statement prepared frame of
            Some st \<Rightarrow> Inr ([plan_from_prepared st], cache)
          | None \<Rightarrow> Inr ([], cache))))"

fun request_plans_for_frames ::
  "prepared_catalog \<Rightarrow> bool \<Rightarrow> frontend_frame list \<Rightarrow> sql_plan_cache
   \<Rightarrow> forward_error + (request_plan list \<times> sql_plan_cache)" where
  "request_plans_for_frames prepared analyze [] cache = Inr ([], cache)"
| "request_plans_for_frames prepared analyze (frame # frames) cache =
     and_then (plan_frame prepared analyze frame cache) (\<lambda>(plans, cache').
     and_then (request_plans_for_frames prepared analyze frames cache') (\<lambda>(rest, cache'').
       Inr (plans @ rest, cache'')))"

definition safe_request_to_replay ::
  "frontend_frame list \<Rightarrow> request_plan list \<Rightarrow> virtual_session \<Rightarrow> bool \<Rightarrow> bool" where
  "safe_request_to_replay frames plans session replay_session_state \<longleftrightarrow>
     frames \<noteq> [] \<and> list_all (\<lambda>frame. ff_tag frame = frontend_tag_byte FE_Query) frames
     \<and> length plans = 1 \<and> routes_to_replica (sa_query_class (plan_analysis (hd plans)))
     \<and> vs_pin_reason session = None
     \<and> (replay_session_state \<or> \<not> vs_has_replayable_settings session)"

definition mirror_sql_command_for_request_plan :: "request_plan option \<Rightarrow> sql_command" where
  "mirror_sql_command_for_request_plan plan =
     (case plan of Some p \<Rightarrow> rp_command p | None \<Rightarrow> Cmd_Query)"

section \<open>Retrying\<close>

datatype backend_failure_kind = BFK_Connect | BFK_Read | BFK_Write | BFK_Authentication

datatype retry_disposition = RD_Never | RD_RetryBeforeResponse

definition retry_disposition_of :: "backend_failure_kind \<Rightarrow> bool \<Rightarrow> bool \<Rightarrow> retry_disposition" where
  "retry_disposition_of kind response_started safe =
     (if kind = BFK_Read \<and> \<not> response_started \<and> safe then RD_RetryBeforeResponse else RD_Never)"

definition bounded_reconnect_timeout :: "nat \<Rightarrow> nat \<Rightarrow> nat \<Rightarrow> nat option" where
  "bounded_reconnect_timeout now max_reconnect query_deadline =
     (if query_deadline < now then None else Some (min max_reconnect (query_deadline - now)))"

text \<open>The condition under which a cycle is sent to a second backend.\<close>

definition retries_cycle ::
  "backend_failure_kind \<Rightarrow> bool \<Rightarrow> bool \<Rightarrow> bool \<Rightarrow> bool
   \<Rightarrow> frontend_frame list \<Rightarrow> request_plan list \<Rightarrow> virtual_session \<Rightarrow> bool" where
  "retries_cycle kind response_started retry_attempted failover_enabled failover_replay frames plans session \<longleftrightarrow>
     \<not> retry_attempted
     \<and> retry_disposition_of kind response_started
         (safe_request_to_replay frames plans session False
          \<or> (failover_enabled \<and> safe_request_to_replay frames plans session failover_replay))
       = RD_RetryBeforeResponse"

section \<open>The session behind a cycle\<close>

definition transaction_shard_id_from_sql :: "rstr \<Rightarrow> shard_id option" where
  "transaction_shard_id_from_sql sql =
     (case extract_shard_hint sql of
        SH_Shard v \<Rightarrow> (case shard_id_new v of Inr i \<Rightarrow> Some i | Inl _ \<Rightarrow> None)
      | SH_Tenant v \<Rightarrow> (case shard_id_new v of Inr i \<Rightarrow> Some i | Inl _ \<Rightarrow> None)
      | SH_Route v \<Rightarrow> (case shard_id_new v of Inr i \<Rightarrow> Some i | Inl _ \<Rightarrow> None)
      | _ \<Rightarrow> None)"

definition update_transaction_shard_state_from_sql :: "rstr \<Rightarrow> virtual_session \<Rightarrow> virtual_session" where
  "update_transaction_shard_state_from_sql sql s =
     (case vs_read_routing s of
        None \<Rightarrow> s
      | Some r \<Rightarrow>
          (case transaction_shard_id_from_sql sql of
             None \<Rightarrow>
               if vs_transaction_shard s \<noteq> None then vs_mark_transaction_cross_shard_violation s else s
           | Some sid \<Rightarrow>
               (let (decision, s') =
                      vs_apply_transaction_shard_affinity (Some sid) (rr_route_reason r) MSP_Reject s
                in if decision = Rejected then vs_mark_transaction_cross_shard_violation s' else s')))"

definition update_transaction_state_from_request_plan ::
  "bool \<Rightarrow> request_plan \<Rightarrow> virtual_session \<Rightarrow> (bool \<times> virtual_session) option" where
  "update_transaction_state_from_request_plan track plan s =
     map_option (\<lambda>(committed, s').
         (committed, if track then update_transaction_shard_state_from_sql (rp_sql plan) s' else s'))
       (vs_apply_transaction_sql_with_routing (rp_sql plan) track s)"

fun update_transaction_state_from_request_plans ::
  "bool \<Rightarrow> request_plan list \<Rightarrow> bool \<times> virtual_session \<Rightarrow> (bool \<times> virtual_session) option" where
  "update_transaction_state_from_request_plans track [] acc = Some acc"
| "update_transaction_state_from_request_plans track (plan # plans) (committed, s) =
     (if rp_updates_transaction_state plan then
        (case update_transaction_state_from_request_plan track plan s of
           None \<Rightarrow> None
         | Some (c, s') \<Rightarrow> update_transaction_state_from_request_plans track plans (committed \<or> c, s'))
      else update_transaction_state_from_request_plans track plans (committed, s))"

fun application_name_after :: "sql_command \<Rightarrow> rstr option \<Rightarrow> rstr option" where
  "application_name_after (Cmd_Set Scope_Session key value) name =
     (if key = lit ''application_name'' then Some value else name)"
| "application_name_after (Cmd_Reset key) name = (if key = lit ''application_name'' then None else name)"
| "application_name_after Cmd_DiscardAll name = None"
| "application_name_after _ name = name"

definition update_virtual_session_from_frame ::
  "sql_command option \<Rightarrow> virtual_session \<times> rstr option \<Rightarrow> virtual_session \<times> rstr option" where
  "update_virtual_session_from_frame command acc =
     (case command of
        None \<Rightarrow> acc
      | Some c \<Rightarrow>
          (case c of
             Cmd_Begin _ \<Rightarrow> fst acc
           | Cmd_Commit \<Rightarrow> fst acc
           | Cmd_Rollback \<Rightarrow> fst acc
           | Cmd_SetTransaction _ \<Rightarrow> fst acc
           | _ \<Rightarrow> vs_apply_sql c (fst acc),
           application_name_after c (snd acc)))"

section \<open>The cycle sent to a backend\<close>

datatype plan_error = PLE_Forward forward_error | PLE_MissingPlan

record planned_frontend_cycle =
  pfc_backend_bytes :: bytes
  pfc_injected_parse_completes :: nat
  pfc_needs_sync :: bool

text \<open>
  The loop of \<open>plan_frontend_cycle\<close> with its state: the catalog, the session and the application
  name, the commands of the simple queries still to come, the bytes written, and the number of
  injected \<open>Parse\<close> messages.
\<close>

record cycle_plan_state =
  cps_prepared :: prepared_catalog
  cps_session :: "virtual_session \<times> rstr option"
  cps_commands :: "sql_command list"
  cps_bytes :: bytes
  cps_injected :: nat

definition is_query_frame :: "frontend_frame \<Rightarrow> bool" where
  "is_query_frame frame \<longleftrightarrow> ff_tag frame = frontend_tag_byte FE_Query"

definition plan_cycle_frame ::
  "u64 \<Rightarrow> frontend_frame \<Rightarrow> cycle_plan_state \<Rightarrow> plan_error + cycle_plan_state" where
  "plan_cycle_frame backend_id frame st =
     (if is_query_frame frame \<and> cps_commands st = [] then Inl PLE_MissingPlan
      else
        (let command = (if is_query_frame frame then Some (hd (cps_commands st)) else None);
             commands = (if is_query_frame frame then tl (cps_commands st) else cps_commands st)
         in case prepare_frame_for_backend backend_id frame (cps_prepared st) of
              Inl e \<Rightarrow> Inl (PLE_Forward e)
            | Inr (plan, prepared) \<Rightarrow>
                Inr \<lparr>cps_prepared = prepared,
                     cps_session = update_virtual_session_from_frame command (cps_session st),
                     cps_commands = commands,
                     cps_bytes = cps_bytes st @ concat (map encode_frontend_frame (pf_prelude plan))
                       @ encode_frontend_frame (pf_frame plan),
                     cps_injected = cps_injected st
                       + length (filter (\<lambda>f. ff_tag f = frontend_tag_byte FE_Parse) (pf_prelude plan))\<rparr>))"

fun plan_cycle_frames ::
  "u64 \<Rightarrow> frontend_frame list \<Rightarrow> cycle_plan_state \<Rightarrow> plan_error + cycle_plan_state" where
  "plan_cycle_frames backend_id [] st = Inr st"
| "plan_cycle_frames backend_id (frame # frames) st =
     and_then (plan_cycle_frame backend_id frame st) (plan_cycle_frames backend_id frames)"

definition plan_frontend_cycle ::
  "u64 \<Rightarrow> frontend_frame list \<Rightarrow> sql_command list \<Rightarrow> prepared_catalog \<Rightarrow> virtual_session \<times> rstr option
   \<Rightarrow> plan_error + (planned_frontend_cycle \<times> cycle_plan_state)" where
  "plan_frontend_cycle backend_id frames commands prepared session =
     and_then (plan_cycle_frames backend_id frames
         \<lparr>cps_prepared = prepared, cps_session = session, cps_commands = commands, cps_bytes = [], cps_injected = 0\<rparr>)
       (\<lambda>st. Inr (\<lparr>pfc_backend_bytes = cps_bytes st, pfc_injected_parse_completes = cps_injected st,
                   pfc_needs_sync = cs_needs_sync (from_frames frames)\<rparr>, st))"

definition simple_query_frame :: "rstr \<Rightarrow> frontend_frame" where
  "simple_query_frame sql = \<lparr>ff_tag = frontend_tag_byte FE_Query, ff_payload = as_bytes sql @ [0]\<rparr>"

definition replay_frames :: "virtual_session \<Rightarrow> frontend_frame list" where
  "replay_frames session = map simple_query_frame (vs_replay_sql session)"

definition sync_frame :: frontend_frame where
  "sync_frame = \<lparr>ff_tag = frontend_tag_byte FE_Sync, ff_payload = []\<rparr>"

section \<open>The reply of a backend\<close>

record query_progress =
  qp_response_started :: bool
  qp_rows :: nat
  qp_error :: bool

definition query_progress_default :: query_progress where
  "query_progress_default = \<lparr>qp_response_started = False, qp_rows = 0, qp_error = False\<rparr>"

record forward_cycle_state =
  fcs_session :: virtual_session
  fcs_prepared :: prepared_catalog
  fcs_progress :: query_progress

text \<open>The callback of \<open>classify_backend_frames\<close> for a frame that goes to the client.\<close>

definition classify_frame :: "u64 \<Rightarrow> forward_cycle_state \<Rightarrow> backend_frame \<Rightarrow> forward_cycle_state" where
  "classify_frame backend_id st frame =
     (let is_error = (bf_tag frame = backend_tag_byte BE_ErrorResponse);
          p = fcs_progress st;
          p' = \<lparr>qp_response_started = True,
                qp_rows = (if bf_tag frame = backend_tag_byte BE_DataRow then sat_add64 (qp_rows p) 1 else qp_rows p),
                qp_error = (qp_error p \<or> is_error)\<rparr>;
          prepared = (case frame_sqlstate frame of
             Some sqlstate \<Rightarrow> snd (invalidate_for_sqlstate sqlstate backend_id (fcs_prepared st))
           | None \<Rightarrow> fcs_prepared st);
          session = (if is_error \<and> vs_pin_reason (fcs_session st) = Some VPR_OpenTransaction
                     then vs_mark_failed_transaction (fcs_session st) else fcs_session st)
      in \<lparr>fcs_session = session, fcs_prepared = prepared, fcs_progress = p'\<rparr>)"

text \<open>The same for the frames a drain put out: what the callback did to the state before the drain ended,
  also when it ended with an error.\<close>

definition classify_forwarded ::
  "u64 \<Rightarrow> (bytes \<times> bytes) list \<Rightarrow> forward_cycle_state \<Rightarrow> forward_cycle_state" where
  "classify_forwarded backend_id forwarded st =
     fold (\<lambda>(header, payload) st. classify_frame backend_id st \<lparr>bf_tag = hd header, bf_payload = payload\<rparr>) forwarded st"

definition classify_backend_frames ::
  "u64 \<Rightarrow> frontend_cycle_shape \<Rightarrow> forward_cycle_state \<Rightarrow> backend_cycle_progress \<Rightarrow> bytes
   \<Rightarrow> (unit drain_error \<times> forward_cycle_state + ready_status option \<times> forward_cycle_state)
       \<times> backend_cycle_progress \<times> bytes \<times> (bytes \<times> bytes) list" where
  "classify_backend_frames backend_id shape st progress buffer =
     (let progress = progress\<lparr>cp_response_started := qp_response_started (fcs_progress st)\<rparr>;
          d = drain_resume shape progress in
      case drain_with (\<lambda>st frame. Inr (classify_frame backend_id st frame)) st d buffer [] of
        (Inl e, d', rest, forwarded) \<Rightarrow>
          (Inl (e, classify_forwarded backend_id forwarded st), progress, rest, forwarded)
      | (Inr (event, st'), d', rest, forwarded) \<Rightarrow>
          (Inr (case event of RDE_Frames ready _ \<Rightarrow> ready | _ \<Rightarrow> None, st'), drain_progress d', rest, forwarded))"

definition is_copy_from_client_request :: "u8 \<Rightarrow> bool" where
  "is_copy_from_client_request tag \<longleftrightarrow>
     tag = backend_tag_byte BE_CopyInResponse \<or> tag = backend_tag_byte BE_CopyBothResponse"

datatype forward_outcome =
    FO_Ready ready_status
  | FO_ClientDisconnectedAfterReady ready_status
  | FO_Flushed
  | FO_AbandonedResponse bool
  | FO_BufferLimitExceeded

datatype message_cycle_error =
    MCE_Backend backend_failure_kind bool
  | MCE_Drain "unit drain_error"
  | MCE_ClientRead
  | MCE_Pending

text \<open>
  What arrives: bytes of the backend (none at the end of its stream) or an error, and bytes of the
  client or an error. With bytes comes whether the write that follows them succeeds.
\<close>

datatype cycle_event =
    EV_Backend bytes bool
  | EV_BackendError
  | EV_Client bytes bool
  | EV_ClientError

record message_cycle_result =
  mcr_outcome :: "message_cycle_error + forward_outcome"
  mcr_state :: forward_cycle_state
  mcr_to_client :: bytes
  mcr_to_backend :: bytes
  mcr_buffer :: bytes

definition forwarded_bytes :: "(bytes \<times> bytes) list \<Rightarrow> bytes" where
  "forwarded_bytes forwarded = concat (map (\<lambda>(header, payload). header @ payload) forwarded)"

text \<open>What the loop does with the frames of one read; \<open>None\<close> when it goes on.\<close>

definition message_cycle_outcome ::
  "frontend_cycle_shape \<Rightarrow> bool \<Rightarrow> ready_status option \<Rightarrow> backend_cycle_progress \<Rightarrow> bool \<Rightarrow> forward_outcome option" where
  "message_cycle_outcome shape written ready progress nothing_forwarded =
     (let done = (if cp_ready_count progress \<ge> cs_expected_ready_count shape then ready else None) in
      if \<not> nothing_forwarded \<and> \<not> written then
        Some (case done of Some status \<Rightarrow> FO_ClientDisconnectedAfterReady status
              | None \<Rightarrow> FO_AbandonedResponse (cs_needs_sync shape))
      else case done of
        Some status \<Rightarrow> Some (FO_Ready status)
      | None \<Rightarrow>
          if \<not> shape_expects_ready shape
             \<and> (cp_saw_error progress \<or> cp_completion_count progress \<ge> cs_expected_completion_count shape)
          then Some FO_Flushed else None)"

fun of_client :: "cycle_event \<Rightarrow> bool" where
  "of_client (EV_Client bs ok) = True"
| "of_client EV_ClientError = True"
| "of_client _ = False"

text \<open>
  The next read and what is left to read. Until the client drives a copy only the backend is read:
  what the client sends in the meantime stays in its connection, in order.
\<close>

definition next_read :: "bool \<Rightarrow> cycle_event list \<Rightarrow> (cycle_event \<times> cycle_event list) option" where
  "next_read copying events =
     (case (if copying then events else dropWhile of_client events) of
        [] \<Rightarrow> None
      | e # later \<Rightarrow> Some (e, (if copying then [] else takeWhile of_client events) @ later))"

lemma next_read_less:
  assumes "next_read copying events = Some (e, events')" shows "length events' < length events"
proof (cases copying)
  case False
  then have "dropWhile of_client events = e # drop (length (takeWhile of_client events)) events'"
    "events' = takeWhile of_client events @ drop (length (takeWhile of_client events)) events'"
    using assms by (auto simp: next_read_def split: list.splits)
  then show ?thesis
    by (metis takeWhile_dropWhile_id length_append length_Cons add_less_cancel_left lessI)
qed (use assms in \<open>auto simp: next_read_def split: list.splits\<close>)

lemma next_read_backend [simp]:
  "next_read copying (EV_Backend bs ok # events) = Some (EV_Backend bs ok, events)"
  by (simp add: next_read_def)

function message_cycle_loop ::
  "u64 \<Rightarrow> frontend_cycle_shape \<Rightarrow> nat \<Rightarrow> cycle_event list \<Rightarrow> bool \<Rightarrow> backend_cycle_progress
   \<Rightarrow> message_cycle_result \<Rightarrow> message_cycle_result" where
  "message_cycle_loop backend_id shape limit events copying progress r =
     (if length (mcr_buffer r) \<ge> limit then r\<lparr>mcr_outcome := Inr FO_BufferLimitExceeded\<rparr>
      else case next_read copying events of
        None \<Rightarrow> r\<lparr>mcr_outcome := Inl MCE_Pending\<rparr>
      | Some (EV_BackendError, _) \<Rightarrow>
          r\<lparr>mcr_outcome := Inl (MCE_Backend BFK_Read (qp_response_started (fcs_progress (mcr_state r))))\<rparr>
      | Some (EV_Client bs ok, events') \<Rightarrow>
          if bs = [] then r\<lparr>mcr_outcome := Inr (FO_AbandonedResponse (cs_needs_sync shape))\<rparr>
          else if \<not> ok then
            r\<lparr>mcr_outcome := Inl (MCE_Backend BFK_Write (qp_response_started (fcs_progress (mcr_state r))))\<rparr>
          else message_cycle_loop backend_id shape limit events' copying progress
                 (r\<lparr>mcr_to_backend := mcr_to_backend r @ bs\<rparr>)
      | Some (EV_ClientError, _) \<Rightarrow> r\<lparr>mcr_outcome := Inl MCE_ClientRead\<rparr>
      | Some (EV_Backend bs ok, events') \<Rightarrow>
          if bs = [] then
            r\<lparr>mcr_outcome := Inl (MCE_Backend BFK_Read (qp_response_started (fcs_progress (mcr_state r))))\<rparr>
          else if length (mcr_buffer r @ bs) > limit then
            r\<lparr>mcr_buffer := mcr_buffer r @ bs, mcr_outcome := Inr FO_BufferLimitExceeded\<rparr>
          else
            (case classify_backend_frames backend_id shape (mcr_state r) progress (mcr_buffer r @ bs) of
               (Inl (e, st'), progress', rest, forwarded) \<Rightarrow>
                 r\<lparr>mcr_outcome := Inl (MCE_Drain e), mcr_state := st', mcr_buffer := []\<rparr>
             | (Inr (ready, st'), progress', rest, forwarded) \<Rightarrow>
                 (let r' = r\<lparr>mcr_state := st', mcr_buffer := rest,
                             mcr_to_client := mcr_to_client r @ (if ok then forwarded_bytes forwarded else [])\<rparr>;
                      copying' = (copying \<or> list_ex (\<lambda>(header, _). is_copy_from_client_request (hd header)) forwarded)
                  in case message_cycle_outcome shape ok ready progress' (forwarded = []) of
                       Some outcome \<Rightarrow> r'\<lparr>mcr_outcome := Inr outcome\<rparr>
                     | None \<Rightarrow> message_cycle_loop backend_id shape limit events' copying' progress' r')))"
  by pat_completeness auto
termination
  by (relation "measure (\<lambda>(b, s, l, events, c, p, r). length events)") (auto dest: next_read_less)

declare message_cycle_loop.simps [simp del]

text \<open>
  \<open>forward_message_cycle\<close> after the planned bytes have been written: \<open>buffer\<close> holds what an earlier
  cycle left unread.
\<close>

definition forward_message_cycle ::
  "u64 \<Rightarrow> frontend_cycle_shape \<Rightarrow> nat \<Rightarrow> nat \<Rightarrow> cycle_event list \<Rightarrow> bytes \<Rightarrow> forward_cycle_state \<Rightarrow> message_cycle_result" where
  "forward_message_cycle backend_id shape injected limit events buffer st =
     (let r = \<lparr>mcr_outcome = Inr FO_Flushed, mcr_state = st, mcr_to_client = [], mcr_to_backend = [], mcr_buffer = buffer\<rparr>
      in if expects_no_response shape then r
         else message_cycle_loop backend_id shape limit events False
                \<lparr>cp_ready_count = 0, cp_injected_parse_completes = injected, cp_completion_count = 0,
                 cp_saw_error = False, cp_response_started = False\<rparr> r)"

section \<open>The plan cache is transparent\<close>

definition plan_right :: "rstr \<Rightarrow> cached_sql_plan \<Rightarrow> bool" where
  "plan_right sql plan \<longleftrightarrow>
     classify sql = Some (csp_command plan) \<and> csp_analysis plan \<in> {None, Some (analyze_sql sql)}"

definition cache_keys_ok :: "(rstr \<times> cached_sql_plan) list \<Rightarrow> rstr list \<Rightarrow> bool" where
  "cache_keys_ok plans order \<longleftrightarrow>
     distinct (map fst plans) \<and> distinct order \<and> set order = fst ` set plans"

definition cache_ok :: "sql_plan_cache \<Rightarrow> bool" where
  "cache_ok c \<longleftrightarrow>
     cache_keys_ok (spc_plans c) (spc_insertion_order c) \<and> length (spc_plans c) \<le> spc_capacity c
     \<and> (\<forall>sql plan. map_of (spc_plans c) sql = Some plan \<longrightarrow> plan_right sql plan)"

lemma evict_to_capacity_ok:
  assumes "cache_keys_ok plans order" "evict_to_capacity capacity plans order = (plans', order')"
  shows "cache_keys_ok plans' order' \<and> length plans' \<le> capacity \<and> map_of plans' \<subseteq>\<^sub>m map_of plans"
  using assms
proof (induction capacity plans order rule: evict_to_capacity.induct)
  case (2 capacity plans key order)
  show ?case
  proof (cases "length plans > capacity")
    case True
    have k: "map fst (AList.delete key plans) = removeAll key (map fst plans)" by (rule delete_keys)
    then have "fst ` set (AList.delete key plans) = fst ` set plans - {key}"
      by (metis set_map set_removeAll)
    moreover have "distinct (map fst (AList.delete key plans))"
      unfolding k using 2(2) by (intro distinct_removeAll) (simp add: cache_keys_ok_def)
    ultimately have "cache_keys_ok (AList.delete key plans) order"
      using 2(2) unfolding cache_keys_ok_def by auto
    with 2(1,3) True have "cache_keys_ok plans' order' \<and> length plans' \<le> capacity
        \<and> map_of plans' \<subseteq>\<^sub>m map_of (AList.delete key plans)" by simp
    moreover have "map_of (AList.delete key plans) \<subseteq>\<^sub>m map_of plans"
      by (auto simp: map_le_def delete_conv' split: if_splits)
    ultimately show ?thesis using map_le_trans by blast
  next
    case False
    with 2(2,3) show ?thesis by simp
  qed
qed (simp add: cache_keys_ok_def)

lemma cache_insert_ok:
  assumes "cache_ok c" "plan_right sql plan"
  shows "cache_ok (cache_insert sql plan c) \<and> spc_capacity (cache_insert sql plan c) = spc_capacity c"
proof -
  let ?order = "if map_of (spc_plans c) sql = None then spc_insertion_order c @ [sql] else spc_insertion_order c"
  let ?plans = "AList.update sql plan (spc_plans c)"
  obtain plans order where e: "evict_to_capacity (spc_capacity c) ?plans ?order = (plans, order)"
    by (cases "evict_to_capacity (spc_capacity c) ?plans ?order")
  have "sql \<in> fst ` set (spc_plans c) \<longleftrightarrow> map_of (spc_plans c) sql \<noteq> None"
    by (metis dom_map_of_conv_image_fst domIff)
  then have "cache_keys_ok ?plans ?order"
    using assms(1) by (auto simp: cache_ok_def cache_keys_ok_def distinct_update update_keys
        simp flip: set_map)
  note r = evict_to_capacity_ok [OF this e]
  have "plan_right q x" if "map_of plans q = Some x" for q x
  proof -
    have "map_of ?plans q = Some x" using r that by (metis domI map_le_def)
    with assms show ?thesis by (auto simp: cache_ok_def update_conv' split: if_splits)
  qed
  with r e show ?thesis by (simp add: cache_ok_def cache_insert_def Let_def)
qed

lemma get_or_insert_ok:
  assumes "cache_ok c" "get_or_insert sql needs c = Some (plan, c')"
  shows "plan_right sql plan \<and> (needs \<longrightarrow> csp_analysis plan \<noteq> None) \<and> cache_ok c' \<and> spc_capacity c' = spc_capacity c"
proof (cases "map_of (spc_plans c) sql")
  case None
  then show ?thesis
    using assms cache_insert_ok [OF assms(1), of sql plan]
    by (auto simp: get_or_insert_def plan_right_def Let_def split: option.splits if_splits)
next
  case (Some old)
  then have "plan_right sql old" using assms(1) by (simp add: cache_ok_def)
  with Some show ?thesis
    using assms cache_insert_ok [OF assms(1), of sql plan]
    by (auto simp: get_or_insert_def plan_right_def Let_def split: if_splits)
qed

text \<open>A sequence of lookups.\<close>

fun lookup_run :: "(rstr \<times> bool) list \<Rightarrow> sql_plan_cache \<Rightarrow> (cached_sql_plan list \<times> sql_plan_cache) option" where
  "lookup_run [] c = Some ([], c)"
| "lookup_run ((sql, needs) # qs) c =
     Option.bind (get_or_insert sql needs c) (\<lambda>(plan, c').
       map_option (\<lambda>(plans, c''). (plan # plans, c'')) (lookup_run qs c'))"

lemma lookup_run_ok:
  "cache_ok c \<Longrightarrow> lookup_run qs c = Some (plans, c') \<Longrightarrow>
   list_all2 (\<lambda>(sql, needs) plan. plan_right sql plan \<and> (needs \<longrightarrow> csp_analysis plan \<noteq> None)) qs plans
   \<and> cache_ok c' \<and> spc_capacity c' = spc_capacity c"
proof (induction qs arbitrary: c plans)
  case (Cons q qs)
  obtain sql needs where q: "q = (sql, needs)" by (cases q)
  then obtain plan c1 rest where g: "get_or_insert sql needs c = Some (plan, c1)"
    and l: "lookup_run qs c1 = Some (rest, c')" and plans: "plans = plan # rest"
    using Cons.prems(2) by (auto simp: bind_eq_Some_conv)
  from get_or_insert_ok [OF Cons.prems(1) g] Cons.IH [OF _ l] show ?case
    by (simp add: q plans)
qed simp

lemma cache_new_ok: "cache_ok (sql_plan_cache_new capacity)"
  by (simp add: cache_ok_def cache_keys_ok_def sql_plan_cache_new_def)

text \<open>
  C24. The cache of statement plans is transparent and bounded: whatever texts have been looked up
  before, each lookup returns the command and, where asked for, the analysis that classifying the
  text anew would give, and the cache never holds more plans than its capacity.
\<close>

theorem plan_cache_transparent:
  assumes "lookup_run qs (sql_plan_cache_new capacity) = Some (plans, c)"
  shows "list_all2 (\<lambda>(sql, needs) plan.
            classify sql = Some (csp_command plan)
            \<and> (if needs then csp_analysis plan = Some (analyze_sql sql)
               else csp_analysis plan \<in> {None, Some (analyze_sql sql)})) qs plans
    \<and> length (spc_plans c) \<le> capacity"
proof -
  note r = lookup_run_ok [OF cache_new_ok assms]
  have "list_all2 (\<lambda>(sql, needs) plan. classify sql = Some (csp_command plan)
            \<and> (if needs then csp_analysis plan = Some (analyze_sql sql)
               else csp_analysis plan \<in> {None, Some (analyze_sql sql)})) qs plans"
    using r by (auto simp: plan_right_def elim!: list_all2_mono)
  with r show ?thesis by (simp add: cache_ok_def sql_plan_cache_new_def)
qed

theorem plan_cache_transparent_witness:
  "\<exists>plans c. lookup_run [(lit ''commit'', False), (lit ''begin'', True), (lit ''commit'', True)] (sql_plan_cache_new 1)
     = Some (plans, c) \<and> csp_command (plans ! 2) = Cmd_Commit \<and> length (spc_plans c) \<le> 1"
proof -
  have "lit ''commit'' \<noteq> lit ''begin''" by (simp add: lit_def)
  then have "\<exists>plans c. lookup_run [(lit ''commit'', False), (lit ''begin'', True), (lit ''commit'', True)] (sql_plan_cache_new 1)
      = Some (plans, c)"
    by (simp add: get_or_insert_def commit_command begin_command cache_insert_def sql_plan_cache_new_def Let_def split_beta)
  then obtain plans c where r: "lookup_run [(lit ''commit'', False), (lit ''begin'', True), (lit ''commit'', True)]
      (sql_plan_cache_new 1) = Some (plans, c)" by blast
  from plan_cache_transparent [OF r] show ?thesis
    using r commit_command by (auto simp: list_all2_Cons1)
qed

section \<open>Only reads are sent twice\<close>

lemma plan_frame_query:
  assumes "is_query_frame frame" "plan_frame prepared analyze frame cache = Inr (plans, cache')" "cache_ok cache"
  shows "\<exists>sql plan. parse_simple_query frame = Inr (Some sql) \<and> plans = [plan] \<and> rp_sql plan = sql
    \<and> sa_query_class (plan_analysis plan) = classify_sql sql \<and> cache_ok cache'"
proof -
  have "\<exists>sql. parse_simple_query frame = Inr (Some sql)"
    using assms(1,2) by (auto simp: plan_frame_def parse_simple_query_def is_query_frame_def and_then_eq_Inr)
  then obtain sql where q: "parse_simple_query frame = Inr (Some sql)" ..
  with assms(2) obtain cached where g: "get_or_insert sql analyze cache = Some (cached, cache')"
    and p: "plans = [\<lparr>rp_sql = sql, rp_command = csp_command cached, rp_analysis = csp_analysis cached,
                 rp_updates_transaction_state = True, rp_updates_session_state = True\<rparr>]"
    by (auto simp: plan_frame_def request_plan_new_def split: option.splits)
  from get_or_insert_ok [OF assms(3) g] show ?thesis
    by (auto simp: q p plan_right_def plan_analysis_def analyze_sql_def)
qed

lemma query_frames_plans:
  assumes "list_all is_query_frame frames" "request_plans_for_frames prepared analyze frames cache = Inr (plans, cache')"
    "cache_ok cache"
  shows "length plans = length frames"
  using assms
proof (induction frames arbitrary: cache plans)
  case (Cons frame frames)
  then obtain ps c rest where p: "plan_frame prepared analyze frame cache = Inr (ps, c)"
    and r: "request_plans_for_frames prepared analyze frames c = Inr (rest, cache')" and "plans = ps @ rest"
    by (auto simp: and_then_eq_Inr)
  with plan_frame_query [OF _ p] Cons show ?case by auto
qed simp

text \<open>
  C23. A cycle is sent to a second backend only if that cannot repeat a write: the first backend
  failed while being read, before any of its reply reached the client and for the first time, the
  session is not pinned, and the cycle is a single simple query none of whose statements writes.
\<close>

theorem retried_cycle_is_read:
  assumes "request_plans_for_frames prepared analyze frames cache = Inr (plans, cache')" and "cache_ok cache"
    and "retries_cycle kind started attempted failover replay frames plans session"
  shows "kind = BFK_Read \<and> \<not> started \<and> \<not> attempted \<and> vs_pin_reason session = None
    \<and> (\<exists>frame sql. frames = [frame] \<and> parse_simple_query frame = Inr (Some sql)
         \<and> (\<forall>st \<in> set (split_top_level_statements (strip_leading_comments_and_whitespace sql)).
              \<not> is_write_statement st))"
proof -
  from assms(3) obtain r where safe: "safe_request_to_replay frames plans session r"
    and k: "kind = BFK_Read \<and> \<not> started \<and> \<not> attempted"
    by (auto simp: retries_cycle_def retry_disposition_of_def split: if_splits)
  then have q: "list_all is_query_frame frames" and len: "length plans = 1"
    and pin: "vs_pin_reason session = None" and reads: "routes_to_replica (sa_query_class (plan_analysis (hd plans)))"
    by (auto simp: safe_request_to_replay_def is_query_frame_def list_all_iff)
  from query_frames_plans [OF q assms(1,2)] len obtain frame where f: "frames = [frame]"
    by (metis One_nat_def length_0_conv length_Suc_conv)
  with assms(1) have "plan_frame prepared analyze frame cache = Inr (plans, cache')"
    by (auto simp: and_then_eq_Inr)
  with q f assms(2) obtain sql where "parse_simple_query frame = Inr (Some sql)"
    "sa_query_class (plan_analysis (hd plans)) = classify_sql sql"
    using plan_frame_query by fastforce
  with reads write_statement_not_replica [of _ sql] k pin f show ?thesis by metis
qed

text \<open>The statement of the examples.\<close>

lemma select_class: "classify_sql (lit ''select 1'') = QC_ReadCandidate"
proof -
  have c: "classify_sql (lit ''select 1'') = classify_single_statement (lit ''select 1'')"
    by (rule single_statement_text)
      (simp_all add: statement_eval split_top_level_statements_def visit_statement_def command_eval)
  have s: "strip_token_separators (lit ''select 1'') = lit ''select 1''"
    by (simp add: statement_eval)
  have n: "sql_normalize (lit ''select 1'') = lit ''select 1''"
    by (simp add: sql_normalize_def split_whitespace.simps join.simps command_eval)
  have "\<not> contains_data_modifying_cte_normalized (lit ''select 1'')"
    by (simp add: contains_data_modifying_cte_normalized_def starts_with_def lit_def)
  moreover have "\<not> contains_select_side_effects (lit ''select 1'')"
    by (simp add: contains_select_side_effects_def contains_str_def lit_def starts_with_def)
  moreover have "keyword_is (lit ''select 1'') (lit ''select'')" "\<not> keyword_is (lit ''select 1'') (lit ''explain'')"
    "\<not> keyword_is (lit ''select 1'') (lit ''with'')" "\<not> keyword_is (lit ''select 1'') (lit ''copy'')"
    by (simp_all add: keyword_is_def statement_eval)
  moreover have "\<not> is_transaction_control (lit ''select 1'')" "\<not> is_session_mutation (lit ''select 1'')"
    by (simp_all add: is_transaction_control_def is_session_mutation_def keyword_is_exact_def
        keyword_is_followed_by_more_def statement_eval)
  moreover have "lit ''select 1'' \<noteq> []" by (simp add: lit_def)
  ultimately show ?thesis by (simp add: c classify_single_statement.simps s n Let_def)
qed

lemma select_query: "parse_simple_query (simple_query_frame (lit ''select 1'')) = Inr (Some (lit ''select 1''))"
proof -
  have "cstr_ok (lit ''select 1'')" by (simp add: cstr_ok_def is_scalar_def lit_def)
  from read_cstr_0 [OF this, of "[]"] show ?thesis
    by (simp add: parse_simple_query_def simple_query_frame_def)
qed

lemma select_plans:
  obtains plan cache' where
    "request_plans_for_frames prepared analyze [simple_query_frame (lit ''select 1'')] (sql_plan_cache_new n)
       = Inr ([plan], cache')"
    "rp_sql plan = lit ''select 1''" "sa_query_class (plan_analysis plan) = QC_ReadCandidate"
proof -
  obtain command where "classify (lit ''select 1'') = Some command" using demo_classify by blast
  then obtain cached cache' where "get_or_insert (lit ''select 1'') analyze (sql_plan_cache_new n) = Some (cached, cache')"
    by (auto simp: get_or_insert_def sql_plan_cache_new_def Let_def)
  then obtain plan where p: "plan_frame prepared analyze (simple_query_frame (lit ''select 1'')) (sql_plan_cache_new n)
      = Inr ([plan], cache')"
    by (auto simp: plan_frame_def select_query request_plan_new_def)
  have "is_query_frame (simple_query_frame (lit ''select 1''))"
    by (simp add: is_query_frame_def simple_query_frame_def)
  from plan_frame_query [OF this p cache_new_ok] p that show ?thesis
    by (auto simp: select_query select_class)
qed

theorem retried_cycle_is_read_witness:
  "\<exists>plans cache'. request_plans_for_frames (catalog_new 7) True [simple_query_frame (lit ''select 1'')] (sql_plan_cache_new 8)
       = Inr (plans, cache')
     \<and> retries_cycle BFK_Read False False True False [simple_query_frame (lit ''select 1'')] plans vs_default
     \<and> (\<exists>frame sql. [simple_query_frame (lit ''select 1'')] = [frame] \<and> parse_simple_query frame = Inr (Some sql))"
proof -
  let ?f = "simple_query_frame (lit ''select 1'')"
  obtain plan cache' where r: "request_plans_for_frames (catalog_new 7) True [?f] (sql_plan_cache_new 8) = Inr ([plan], cache')"
    and c: "sa_query_class (plan_analysis plan) = QC_ReadCandidate"
    using select_plans [of "catalog_new 7" True 8] by blast
  have t: "retries_cycle BFK_Read False False True False [?f] [plan] vs_default"
    by (simp add: retries_cycle_def retry_disposition_of_def safe_request_to_replay_def c simple_query_frame_def
        vs_pin_reason_def vs_default_def vs_has_replayable_settings_def)
  from retried_cycle_is_read [OF r cache_new_ok t] r t show ?thesis by blast
qed

section \<open>The bytes of a planned cycle\<close>

lemma rewritten_tag:
  "rewrite_parse_statement_name f n = Inr g \<Longrightarrow> ff_tag g = ff_tag f"
  "rewrite_bind_statement_name f n = Inr g \<Longrightarrow> ff_tag g = ff_tag f"
  "rewrite_describe_statement_name f n = Inr g \<Longrightarrow> ff_tag g = ff_tag f"
  "rewrite_close_statement_name f n = Inr g \<Longrightarrow> ff_tag g = ff_tag f"
  by (auto simp: rewrite_parse_statement_name_def rewrite_bind_statement_name_def rewrite_describe_statement_name_def
      rewrite_close_statement_name_def rewrite_statement_target_def and_then_eq_Inr Let_def split: if_splits)

definition parse_frames :: "frontend_frame list \<Rightarrow> bool" where
  "parse_frames = list_all (\<lambda>f. ff_tag f = frontend_tag_byte FE_Parse)"

lemma parse_frames_Nil [simp]: "parse_frames []"
  by (simp add: parse_frames_def)

lemma materialize_prelude: "materialize b st c = (prelude, c') \<Longrightarrow> parse_frames prelude"
  by (auto simp: materialize_def parse_frames_def build_parse_frame_def Let_def split: if_splits)

lemma forward_tags:
  "forward_parse b frame parse c = Inr (plan, c') \<Longrightarrow> ff_tag (pf_frame plan) = ff_tag frame \<and> parse_frames (pf_prelude plan)"
  "forward_bind b frame st c = Inr (plan, c') \<Longrightarrow> ff_tag (pf_frame plan) = ff_tag frame \<and> parse_frames (pf_prelude plan)"
  "forward_describe b frame st c = Inr (plan, c') \<Longrightarrow> ff_tag (pf_frame plan) = ff_tag frame \<and> parse_frames (pf_prelude plan)"
  "forward_close frame name c = Inr (plan, c') \<Longrightarrow> ff_tag (pf_frame plan) = ff_tag frame \<and> parse_frames (pf_prelude plan)"
  by (auto simp: forward_parse_def forward_bind_def forward_describe_def forward_close_def plan_single_def
      and_then_eq_Inr parse_frames_def rewritten_tag
      split: option.splits prod.splits dest: materialize_prelude [unfolded parse_frames_def])

lemma prepare_frame_tags:
  assumes "prepare_frame_for_backend b frame c = Inr (plan, c')"
  shows "ff_tag (pf_frame plan) = ff_tag frame \<and> parse_frames (pf_prelude plan)"
proof -
  note defn = assms [unfolded prepare_frame_for_backend_def]
  from defn obtain parse where p: "parse_parse_message frame = Inr parse"
    by (cases "parse_parse_message frame") auto
  show ?thesis
  proof (cases parse)
    case (Some m)
    with defn p show ?thesis by (simp add: forward_tags)
  next
    case None
    note defn = defn [unfolded p wire_simps None and_then_simps option.case]
    from defn obtain bind where bind: "parse_bind_statement_name frame = Inr bind"
      by (cases "parse_bind_statement_name frame") auto
    note defn = defn [unfolded bind wire_simps and_then_simps]
    from defn obtain describe where d: "(\<exists>st. forward_bind b frame st c = Inr (plan, c'))
        \<or> parse_describe_target frame = Inr describe"
      by (cases "parse_describe_target frame"; cases "Option.bind bind (\<lambda>name. get_for_current_route_map name c)") auto
    from defn d consider st where "forward_bind b frame st c = Inr (plan, c')"
      | st where "forward_describe b frame st c = Inr (plan, c')"
      | name where "forward_close frame name c = Inr (plan, c')"
      | "plan = plan_single frame"
      by (auto simp: and_then_eq_Inr split: option.split_asm close_target.split_asm; metis close_target.exhaust)
    then show ?thesis by cases (simp_all add: forward_tags plan_single_def)
  qed
qed

text \<open>What was sent for each frame of a cycle: the injected messages and the frame itself.\<close>

definition group_frames :: "(frontend_frame list \<times> frontend_frame) list \<Rightarrow> frontend_frame list" where
  "group_frames groups = concat (map (\<lambda>(prelude, frame). prelude @ [frame]) groups)"

lemma plan_cycle_groups:
  assumes "plan_cycle_frames b frames st = Inr st'"
  obtains groups where "cps_bytes st' = cps_bytes st @ concat (map encode_frontend_frame (group_frames groups))"
    "map (\<lambda>g. ff_tag (snd g)) groups = map ff_tag frames" "list_all (\<lambda>g. parse_frames (fst g)) groups"
    "cps_injected st' = cps_injected st + length (concat (map fst groups))"
  using assms
proof (induction frames arbitrary: st thesis)
  case Nil
  from Nil(1) [of "[]"] Nil(2) show ?case by (simp add: group_frames_def)
next
  case (Cons frame frames)
  from Cons.prems(2) obtain st1 where s1: "plan_cycle_frame b frame st = Inr st1"
    and s2: "plan_cycle_frames b frames st1 = Inr st'" by (auto simp: and_then_eq_Inr)
  from s1 obtain plan c where p: "prepare_frame_for_backend b frame (cps_prepared st) = Inr (plan, c)"
    and b1: "cps_bytes st1 = cps_bytes st @ concat (map encode_frontend_frame (pf_prelude plan)) @ encode_frontend_frame (pf_frame plan)"
    and i1: "cps_injected st1 = cps_injected st + length (filter (\<lambda>f. ff_tag f = frontend_tag_byte FE_Parse) (pf_prelude plan))"
    by (auto simp: plan_cycle_frame_def Let_def split: if_splits sum.splits)
  note tags = prepare_frame_tags [OF p]
  then have i: "filter (\<lambda>f. ff_tag f = frontend_tag_byte FE_Parse) (pf_prelude plan) = pf_prelude plan"
    by (auto simp: parse_frames_def list_all_iff intro: filter_True)
  from Cons.IH [OF _ s2] obtain groups where g: "cps_bytes st' = cps_bytes st1 @ concat (map encode_frontend_frame (group_frames groups))"
    "map (\<lambda>g. ff_tag (snd g)) groups = map ff_tag frames" "list_all (\<lambda>g. parse_frames (fst g)) groups"
    "cps_injected st' = cps_injected st1 + length (concat (map fst groups))" .
  show ?case
    by (rule Cons.prems(1) [of "(pf_prelude plan, pf_frame plan) # groups"])
       (use g b1 i1 i tags in \<open>simp_all add: group_frames_def\<close>)
qed

lemma encoded_fits:
  assumes "length (concat (map encode_frontend_frame fs)) < 2 ^ 31"
  shows "\<forall>f\<in>set fs. payload_fits (ff_payload f)"
proof
  fix f assume "f \<in> set fs"
  then have "length (encode_frontend_frame f) \<le> length (concat (map encode_frontend_frame fs))"
    by (induction fs) auto
  with assms show "payload_fits (ff_payload f)"
    by (simp add: encode_frontend_frame_def payload_fits_def put_i32_def)
qed

text \<open>
  What a backend reads of a planned cycle: the frames of the client's cycle in their order and
  with their tags, each with the \<open>Parse\<close> messages injected before it, and as many of those as the
  plan counts. So the reply loop, which is told the shape of the client's cycle, waits for as many
  \<open>ReadyForQuery\<close> as the bytes sent will produce.
\<close>

lemma planned_cycle_decodes:
  assumes "plan_frontend_cycle b frames commands prepared session = Inr (planned, st)"
    and "length (pfc_backend_bytes planned) < 2 ^ 31"
  shows "\<exists>groups. parse_frontend_cycle_frames (pfc_backend_bytes planned) = Inr (group_frames groups)
    \<and> map (\<lambda>g. ff_tag (snd g)) groups = map ff_tag frames
    \<and> list_all (\<lambda>g. parse_frames (fst g)) groups
    \<and> pfc_injected_parse_completes planned = length (concat (map fst groups))"
proof -
  from assms(1) have p: "plan_cycle_frames b frames
      \<lparr>cps_prepared = prepared, cps_session = session, cps_commands = commands, cps_bytes = [], cps_injected = 0\<rparr> = Inr st"
    and planned: "pfc_backend_bytes planned = cps_bytes st" "pfc_injected_parse_completes planned = cps_injected st"
    by (auto simp: plan_frontend_cycle_def and_then_eq_Inr)
  from plan_cycle_groups [OF p] obtain groups where
    g: "cps_bytes st = concat (map encode_frontend_frame (group_frames groups))"
    "map (\<lambda>g. ff_tag (snd g)) groups = map ff_tag frames" "list_all (\<lambda>g. parse_frames (fst g)) groups"
    "cps_injected st = length (concat (map fst groups))" by auto
  have "\<forall>f\<in>set (group_frames groups). payload_fits (ff_payload f)"
    using encoded_fits assms(2) g(1) planned by simp
  from frontend_loop_encode [OF this, of "[]"] have
    "parse_frontend_cycle_frames (pfc_backend_bytes planned) = Inr (group_frames groups)"
    by (simp add: parse_frontend_cycle_frames_def planned g(1))
  with g planned show ?thesis by auto
qed

lemma plan_sync: "prepare_frame_for_backend b sync_frame c = Inr (plan_single sync_frame, c)"
  by (simp add: prepare_frame_for_backend_def sync_frame_def parse_parse_message_def parse_bind_statement_name_def
      parse_describe_target_def parse_close_target_def)

lemma planned_cycle_decodes_witness:
  "\<exists>planned st groups.
     plan_frontend_cycle 1 [sync_frame] [] (catalog_new 7) (vs_default, None) = Inr (planned, st)
     \<and> parse_frontend_cycle_frames (pfc_backend_bytes planned) = Inr (group_frames groups)
     \<and> map (\<lambda>g. ff_tag (snd g)) groups = [frontend_tag_byte FE_Sync]"
proof -
  have "\<not> is_query_frame sync_frame" by (simp add: is_query_frame_def sync_frame_def)
  then obtain planned st where r: "plan_frontend_cycle 1 [sync_frame] [] (catalog_new 7) (vs_default, None) = Inr (planned, st)"
    and "pfc_backend_bytes planned = encode_frontend_frame sync_frame"
    by (auto simp: plan_frontend_cycle_def plan_cycle_frame_def plan_sync plan_single_def)
  then have "length (pfc_backend_bytes planned) < 2 ^ 31"
    by (simp add: encode_frontend_frame_def sync_frame_def put_i32_def)
  from planned_cycle_decodes [OF r this] r show ?thesis by (auto simp: sync_frame_def)
qed

end
