(* ===== verification/Cleanup.thy ===== *)
theory Cleanup
  imports Virtual_Session Wire_Backend
begin

text \<open>
  What happens to a backend when its response is complete: the decision of \<open>cluster/cleanup.rs\<close>, the
  pin of \<open>protocol/pin.rs\<close>, the recovery table of \<open>cluster/recovery.rs\<close>, and the handler
  \<open>finish_ready_backend\<close> of \<open>proxy/client_session.rs\<close> that carries the decision out.

  The queries the handler sends (\<open>ROLLBACK\<close>, the reset query, the LSN probe) are I/O; their outcomes
  are parameters of the model. Metrics, debug samples and snapshots are left out.
\<close>

section \<open>Decisions\<close>

datatype cleanup_kind =
    CA_Reuse | CA_ResetThenReuse | CA_KeepPinned | CA_RollbackThenReuse | CA_RollbackThenKeepPinned | CA_Discard

datatype pool_mode = PM_Transaction | PM_Session

fun cleanup_kind_label :: "cleanup_kind \<Rightarrow> rstr" where
  "cleanup_kind_label CA_Reuse = lit ''reuse''"
| "cleanup_kind_label CA_ResetThenReuse = lit ''reset_then_reuse''"
| "cleanup_kind_label CA_KeepPinned = lit ''keep_pinned''"
| "cleanup_kind_label CA_RollbackThenReuse = lit ''rollback_then_reuse''"
| "cleanup_kind_label CA_RollbackThenKeepPinned = lit ''rollback_then_keep_pinned''"
| "cleanup_kind_label CA_Discard = lit ''discard''"

definition cleanup_action :: "virtual_session \<Rightarrow> ready_status \<Rightarrow> pool_mode \<Rightarrow> cleanup_kind" where
  "cleanup_action session backend_status mode =
     (if vs_pin_reason session = Some VPR_UnknownProtocolState then CA_Discard
      else case backend_status of
        RS_FailedTransaction \<Rightarrow>
          (case mode of PM_Session \<Rightarrow> CA_RollbackThenKeepPinned | PM_Transaction \<Rightarrow> CA_RollbackThenReuse)
      | RS_InTransaction \<Rightarrow> CA_KeepPinned
      | RS_Idle \<Rightarrow>
          (case mode of PM_Session \<Rightarrow> CA_KeepPinned
           | PM_Transaction \<Rightarrow>
               if vs_pin_reason session \<noteq> None then CA_KeepPinned
               else if vs_has_replayable_settings session then CA_ResetThenReuse
               else CA_Reuse))"

datatype recovery_mode = RM_Recover | RM_RollbackOnly | RM_Drop

datatype recovery_trigger =
    RT_FailedTransaction | RT_AbandonedTransaction | RT_AbandonedResponse | RT_UnknownProtocolState

fun recovery_trigger_label :: "recovery_trigger \<Rightarrow> rstr" where
  "recovery_trigger_label RT_FailedTransaction = lit ''failed_transaction''"
| "recovery_trigger_label RT_AbandonedTransaction = lit ''abandoned_transaction''"
| "recovery_trigger_label RT_AbandonedResponse = lit ''abandoned_response''"
| "recovery_trigger_label RT_UnknownProtocolState = lit ''unknown_protocol_state''"

datatype recovery_action = RA_None | RA_Rollback | RA_DrainAndSync | RA_RollbackAndDrain | RA_Discard

fun recovery_action_label :: "recovery_action \<Rightarrow> rstr" where
  "recovery_action_label RA_None = lit ''none''"
| "recovery_action_label RA_Rollback = lit ''rollback''"
| "recovery_action_label RA_DrainAndSync = lit ''drain_and_sync''"
| "recovery_action_label RA_RollbackAndDrain = lit ''rollback_and_drain''"
| "recovery_action_label RA_Discard = lit ''discard''"

fun recovery_action_for :: "recovery_trigger \<Rightarrow> recovery_mode \<Rightarrow> recovery_action" where
  "recovery_action_for trigger RM_Drop = RA_Discard"
| "recovery_action_for trigger RM_RollbackOnly =
     (case trigger of
        RT_FailedTransaction \<Rightarrow> RA_Rollback
      | RT_AbandonedTransaction \<Rightarrow> RA_Rollback
      | RT_AbandonedResponse \<Rightarrow> RA_Discard
      | RT_UnknownProtocolState \<Rightarrow> RA_Discard)"
| "recovery_action_for trigger RM_Recover =
     (case trigger of
        RT_FailedTransaction \<Rightarrow> RA_Rollback
      | RT_AbandonedTransaction \<Rightarrow> RA_Rollback
      | RT_AbandonedResponse \<Rightarrow> RA_DrainAndSync
      | RT_UnknownProtocolState \<Rightarrow> RA_Discard)"

record pinned_backend =
  pinned_backend_id :: "u64 option"

definition mark_pinned :: "u64 \<Rightarrow> pinned_backend \<Rightarrow> pinned_backend" where
  "mark_pinned backend_id p = p\<lparr>pinned_backend_id := Some backend_id\<rparr>"

definition clear_pin :: "pinned_backend \<Rightarrow> pinned_backend" where
  "clear_pin p = p\<lparr>pinned_backend_id := None\<rparr>"

definition is_pinned :: "pinned_backend \<Rightarrow> bool" where
  "is_pinned p \<longleftrightarrow> pinned_backend_id p \<noteq> None"

section \<open>Carrying the decision out\<close>

text \<open>Where the backend is when the handler returns; \<open>BF_Dropped\<close> when a query failed and the handler
  returned the error.\<close>

datatype backend_fate = BF_Released | BF_Held u64 | BF_Discarded | BF_Dropped

record 'addr ready_backend_request =
  rb_session :: virtual_session
  rb_session_route :: "'addr route_key"
  rb_route_application_name :: "rstr option"
  rb_pinned :: pinned_backend
  rb_backend_id :: u64
  rb_status :: ready_status
  rb_pool_mode :: pool_mode
  rb_has_named_statements :: bool
  rb_committed_write :: bool
  rb_protection_enabled :: bool

record 'addr ready_backend_result =
  rr_session :: virtual_session
  rr_session_route :: "'addr route_key"
  rr_pinned :: pinned_backend
  rr_fate :: backend_fate

text \<open>
  \<open>probe\<close> is the result of the LSN probe, \<open>query_ok\<close> whether the simple query of the chosen action
  succeeded.
\<close>

definition ready_session :: "'addr ready_backend_request \<Rightarrow> pg_lsn option \<Rightarrow> virtual_session" where
  "ready_session req probe =
     (let session =
        (if rb_committed_write req \<and> rb_protection_enabled req \<and> rb_status req = RS_Idle
         then (case probe of
                 Some lsn \<Rightarrow> vs_set_read_after_write (RAW_Required lsn) (rb_session req)
               | None \<Rightarrow> vs_set_read_after_write RAW_Unknown (rb_session req))
         else rb_session req)
      in vs_mark_ready_after_copy session)"

definition ready_action :: "'addr ready_backend_request \<Rightarrow> virtual_session \<Rightarrow> cleanup_kind" where
  "ready_action req session =
     (if rb_status req = RS_Idle \<and> rb_has_named_statements req then CA_KeepPinned
      else cleanup_action session (rb_status req) (rb_pool_mode req))"

definition finish_ready_backend ::
  "'addr ready_backend_request \<Rightarrow> pg_lsn option \<Rightarrow> bool \<Rightarrow> 'addr ready_backend_result" where
  "finish_ready_backend req probe query_ok =
     (let route = with_application_name (rb_session_route req) (rb_route_application_name req);
          session = ready_session req probe;
          result = (\<lambda>session pinned fate.
            \<lparr>rr_session = session, rr_session_route = route, rr_pinned = pinned, rr_fate = fate\<rparr>);
          pinned = rb_pinned req
      in case ready_action req session of
           CA_Reuse \<Rightarrow> result session (clear_pin pinned) BF_Released
         | CA_ResetThenReuse \<Rightarrow>
             if query_ok then result session (clear_pin pinned) BF_Released
             else result session pinned BF_Dropped
         | CA_KeepPinned \<Rightarrow> result session (mark_pinned (rb_backend_id req) pinned) (BF_Held (rb_backend_id req))
         | CA_RollbackThenReuse \<Rightarrow>
             if query_ok
             then result (vs_apply_sql Cmd_Rollback session) (clear_pin pinned) BF_Released
             else result session pinned BF_Dropped
         | CA_RollbackThenKeepPinned \<Rightarrow>
             if query_ok
             then result (vs_apply_sql Cmd_Rollback session) (mark_pinned (rb_backend_id req) pinned)
                    (BF_Held (rb_backend_id req))
             else result session pinned BF_Dropped
         | CA_Discard \<Rightarrow> result session (clear_pin pinned) BF_Discarded)"

section \<open>When a backend goes back to the pool\<close>

lemma ready_session_pin [simp]:
  "vs_pin_reason (ready_session req probe) = vs_pin_reason ((rb_session req)\<lparr>vs_in_copy := False\<rparr>)"
  by (simp add: ready_session_def vs_set_read_after_write_def vs_mark_ready_after_copy_def vs_pin_reason_def
      Let_def split: option.split)

lemma cleanup_action_release:
  "cleanup_action s status mode \<in> {CA_Reuse, CA_ResetThenReuse, CA_RollbackThenReuse} \<longleftrightarrow>
     mode = PM_Transaction \<and> \<not> vs_unknown_protocol_state s \<and>
     (status = RS_FailedTransaction \<or> status = RS_Idle \<and> vs_pin_reason s = None)"
proof -
  have "vs_pin_reason s = Some VPR_UnknownProtocolState \<longleftrightarrow> vs_unknown_protocol_state s"
    by (simp add: vs_pin_reason_def)
  then show ?thesis
    by (cases status; cases mode) (auto simp: cleanup_action_def vs_pin_reason_None)
qed

text \<open>C10. When exactly a backend is released to the pool after a cycle: in transaction mode, by a session
  that knows the protocol state, in one of two cases. At an idle status, when the session holds no
  temporary table, advisory lock, listen registration, unreplayable setting or named prepared
  statement and has no transaction of its own open, and the reset query has succeeded if settings
  were changed. Or at a failed transaction, when the rollback has succeeded, whatever the session
  holds.\<close>

theorem released_backend_exact:
  "rr_fate (finish_ready_backend req probe query_ok) = BF_Released \<longleftrightarrow>
    rb_pool_mode req = PM_Transaction \<and> \<not> vs_unknown_protocol_state (rb_session req) \<and>
    (rb_status req = RS_Idle \<and> \<not> rb_has_named_statements req \<and>
       vs_transaction (rb_session req) = VT_Idle \<and> \<not> vs_has_temp_table (rb_session req) \<and>
       \<not> vs_has_advisory_lock (rb_session req) \<and> \<not> vs_has_listen (rb_session req) \<and>
       \<not> vs_has_unsafe_session_state (rb_session req) \<and> (vs_settings (rb_session req) = [] \<or> query_ok)
     \<or> rb_status req = RS_FailedTransaction \<and> query_ok)"
proof -
  let ?s = "ready_session req probe"
  have settings: "vs_settings ?s = vs_settings (rb_session req)"
    by (simp add: ready_session_def vs_set_read_after_write_def vs_mark_ready_after_copy_def Let_def split: option.split)
  have pin: "vs_pin_reason ?s = None \<longleftrightarrow>
      vs_transaction (rb_session req) = VT_Idle \<and> \<not> vs_has_temp_table (rb_session req) \<and>
      \<not> vs_has_advisory_lock (rb_session req) \<and> \<not> vs_has_listen (rb_session req) \<and>
      \<not> vs_has_unsafe_session_state (rb_session req) \<and> \<not> vs_unknown_protocol_state (rb_session req)"
    unfolding ready_session_pin vs_pin_reason_None by simp
  have unknown: "vs_pin_reason ?s = Some VPR_UnknownProtocolState \<longleftrightarrow> vs_unknown_protocol_state (rb_session req)"
    unfolding ready_session_pin by (simp add: vs_pin_reason_def)
  have "rr_fate (finish_ready_backend req probe query_ok) = BF_Released \<longleftrightarrow>
      ready_action req ?s = CA_Reuse \<or>
      ready_action req ?s \<in> {CA_ResetThenReuse, CA_RollbackThenReuse} \<and> query_ok"
    by (cases "ready_action req ?s") (simp_all add: finish_ready_backend_def Let_def)
  also have "\<dots> \<longleftrightarrow> rb_pool_mode req = PM_Transaction \<and> \<not> vs_unknown_protocol_state (rb_session req) \<and>
      (rb_status req = RS_Idle \<and> \<not> rb_has_named_statements req \<and> vs_pin_reason ?s = None \<and>
         (vs_settings (rb_session req) = [] \<or> query_ok)
       \<or> rb_status req = RS_FailedTransaction \<and> query_ok)"
    using pin unknown by (cases "rb_status req"; cases "rb_pool_mode req")
      (auto simp: ready_action_def cleanup_action_def vs_has_replayable_settings_def settings
        simp del: ready_session_pin)
  finally show ?thesis unfolding pin by blast
qed

definition example_request :: "virtual_session \<Rightarrow> ready_status \<Rightarrow> nat ready_backend_request" where
  "example_request session status =
     \<lparr>rb_session = session, rb_session_route = route_key_new (lit ''app'') (lit ''bob'') None None RQ_Default,
      rb_route_application_name = None, rb_pinned = \<lparr>pinned_backend_id = None\<rparr>, rb_backend_id = 7,
      rb_status = status, rb_pool_mode = PM_Transaction, rb_has_named_statements = False,
      rb_committed_write = False, rb_protection_enabled = False\<rparr>"

text \<open>A failed transaction overrides every pin: in transaction mode a session that holds a temporary
  table, an advisory lock and a listen registration has its backend rolled back and released to
  the pool, where the next client finds them, although the same session at an idle status keeps
  its backend.\<close>

lemma failed_transaction_releases_pinned:
  "rr_fate (finish_ready_backend
     (example_request (vs_mark_failed_transaction (vs_begin_transaction ReadWrite
        (vs_default\<lparr>vs_has_temp_table := True, vs_has_advisory_lock := True, vs_has_listen := True\<rparr>)))
        RS_FailedTransaction) None True) = BF_Released \<and>
   rr_fate (finish_ready_backend
     (example_request (vs_default\<lparr>vs_has_temp_table := True, vs_has_advisory_lock := True, vs_has_listen := True\<rparr>)
        RS_Idle) None True) = BF_Held 7"
  by (simp add: finish_ready_backend_def ready_action_def cleanup_action_def example_request_def
      ready_session_def vs_mark_failed_transaction_def vs_mark_transaction_write_def vs_begin_transaction_def
      vs_mark_ready_after_copy_def vs_default_def vs_pin_reason_def Let_def)

text \<open>After the handler the pin names the held backend, or nothing when the backend was released or
  discarded: the client never believes itself pinned to a backend it gave away.\<close>

lemma pin_follows_backend:
  "case rr_fate (finish_ready_backend req probe query_ok) of
     BF_Released \<Rightarrow> \<not> is_pinned (rr_pinned (finish_ready_backend req probe query_ok))
   | BF_Discarded \<Rightarrow> \<not> is_pinned (rr_pinned (finish_ready_backend req probe query_ok))
   | BF_Held b \<Rightarrow> b = rb_backend_id req \<and>
       pinned_backend_id (rr_pinned (finish_ready_backend req probe query_ok)) = Some b
   | BF_Dropped \<Rightarrow> \<not> query_ok"
  by (cases "ready_action req (ready_session req probe)")
    (simp_all add: finish_ready_backend_def Let_def is_pinned_def clear_pin_def mark_pinned_def)

end
