(* ===== verification/Cycle_Reply.thy ===== *)
theory Cycle_Reply
  imports Forward_Plan
begin

text \<open>
  The reply loop of a client session, \<open>forward_message_cycle\<close> of \<open>proxy/forwarding.rs\<close>, forwards the
  whole answer of a request cycle and tracks the session over exactly the frames the client sees.
\<close>

section \<open>The frames of one read\<close>

abbreviation frame_parts :: "backend_frame \<Rightarrow> bytes \<times> bytes" where
  "frame_parts f \<equiv> (frame_header f, bf_payload f)"

lemma drain_frames_total:
  assumes "backend_frames_loop b = (Inr fs, r)"
  shows "drain_frames (\<lambda>s f. Inr (g s f)) s d b forwarded ready =
    (Inr (last_ready ready fs, fold (\<lambda>f s. g s f) (visible (bd_injected_parse_completes d) fs) s),
     fold drain_count fs d, r, forwarded @ map frame_parts (visible (bd_injected_parse_completes d) fs))"
  using assms
proof (induction b arbitrary: fs d forwarded ready s rule: be_loop.loop_induct)
  case (step b)
  show ?case
  proof (cases b rule: be_loop.loop_cases)
    case wait
    then show ?thesis using step.prems by (subst drain_frames.simps) (simp add: last_ready_def)
  next
    case (fail e)
    then show ?thesis using step.prems by simp
  next
    case (frame f b')
    then obtain gs where gs: "backend_frames_loop b' = (Inr gs, r)" "fs = f # gs"
      using step.prems by (auto split: prod.splits sum.splits)
    note IH = step.IH [OF frame(1) gs(1)]
    show ?thesis
    proof (cases "swallows d f")
      case True
      then have "bd_injected_parse_completes (drain_count f d) = bd_injected_parse_completes d - 1"
        by (simp add: drain_count_def)
      then show ?thesis
        using frame IH [of s "drain_count f d"] gs(2) True
        by (subst drain_frames.simps) (simp add: swallows_def last_ready_def)
    next
      case False
      then have "bd_injected_parse_completes (drain_count f d) = bd_injected_parse_completes d"
        by (simp add: drain_count_def)
      then show ?thesis
        using frame IH [of "g s f" "drain_count f d"] gs(2) False
        by (subst drain_frames.simps) (auto simp: swallows_def last_ready_def)
    qed
  qed
qed

text \<open>The session, the catalog and the progress after the frames the client sees.\<close>

abbreviation classify_all :: "u64 \<Rightarrow> backend_frame list \<Rightarrow> forward_cycle_state \<Rightarrow> forward_cycle_state" where
  "classify_all backend_id fs st \<equiv> fold (\<lambda>f s. classify_frame backend_id s f) fs st"

lemma classify_forwarded_frames: "classify_forwarded backend_id (map frame_parts fs) st = classify_all backend_id fs st"
proof (induction fs arbitrary: st)
  case (Cons f fs)
  then show ?case by (cases f) (simp add: classify_forwarded_def frame_header_def)
qed (simp add: classify_forwarded_def)

lemma drain_resume_fields [simp]:
  "bd_injected_parse_completes (drain_resume shape p) = cp_injected_parse_completes p"
  "bd_ready_count (drain_resume shape p) = cp_ready_count p"
  "bd_expected_ready_count (drain_resume shape p) = cs_expected_ready_count shape"
  "bd_completion_count (drain_resume shape p) = cp_completion_count p"
  "bd_expected_completion_count (drain_resume shape p) = cs_expected_completion_count shape"
  "bd_saw_error (drain_resume shape p) = cp_saw_error p"
  by (simp_all add: drain_resume_def)

definition progress_after ::
  "frontend_cycle_shape \<Rightarrow> forward_cycle_state \<Rightarrow> backend_cycle_progress \<Rightarrow> backend_frame list \<Rightarrow> backend_cycle_progress" where
  "progress_after shape st p fs =
     drain_progress (fold drain_count fs
       (drain_resume shape (p\<lparr>cp_response_started := qp_response_started (fcs_progress st)\<rparr>)))"

lemma progress_after_fields [simp]:
  "cp_ready_count (progress_after shape st p fs) = cp_ready_count p + ready_frames fs"
  "cp_injected_parse_completes (progress_after shape st p fs) =
     cp_injected_parse_completes p - (length fs - length (visible (cp_injected_parse_completes p) fs))"
  "cp_completion_count (progress_after shape st p fs) =
     cp_completion_count p + completions (visible (cp_injected_parse_completes p) fs)"
  "cp_saw_error (progress_after shape st p fs) \<longleftrightarrow>
     cp_saw_error p \<or> (\<exists>f\<in>set fs. bf_tag f = backend_tag_byte BE_ErrorResponse)"
  by (simp_all add: progress_after_def drain_progress_def fold_drain_count)

lemma classify_backend_frames_run:
  assumes "backend_frames_loop b = (Inr fs, r)"
  shows "classify_backend_frames backend_id shape st p b =
    (Inr (if cp_ready_count p + ready_frames fs \<ge> cs_expected_ready_count shape then last_ready None fs else None,
          classify_all backend_id (visible (cp_injected_parse_completes p) fs) st),
     progress_after shape st p fs, r, map frame_parts (visible (cp_injected_parse_completes p) fs))"
  by (simp add: classify_backend_frames_def drain_with_def drain_frames_total [OF assms] Let_def progress_after_def
      fold_drain_count)

section \<open>The loop\<close>

abbreviation backend_events :: "bytes list \<Rightarrow> cycle_event list" where
  "backend_events chunks \<equiv> map (\<lambda>c. EV_Backend c True) chunks"

lemma message_cycle_step:
  assumes "backend_frames_loop (mcr_buffer r @ c) = (Inr gs, rest)" and "length (mcr_buffer r @ c) \<le> limit" and "c \<noteq> []"
    and v: "v = visible (cp_injected_parse_completes p) gs"
    and r': "r' = r\<lparr>mcr_state := classify_all backend_id v (mcr_state r), mcr_buffer := rest,
                   mcr_to_client := mcr_to_client r @ encode_replies v\<rparr>"
    and p': "p' = progress_after shape (mcr_state r) p gs"
  shows "message_cycle_loop backend_id shape limit (EV_Backend c True # events) copying p r =
    (if last_ready None gs \<noteq> None \<and> cp_ready_count p' \<ge> cs_expected_ready_count shape then
       r'\<lparr>mcr_outcome := Inr (FO_Ready (the (last_ready None gs)))\<rparr>
     else if \<not> shape_expects_ready shape
             \<and> (cp_saw_error p' \<or> cp_completion_count p' \<ge> cs_expected_completion_count shape) then
       r'\<lparr>mcr_outcome := Inr FO_Flushed\<rparr>
     else message_cycle_loop backend_id shape limit events
            (copying \<or> list_ex (\<lambda>f. is_copy_from_client_request (bf_tag f)) v) p' r')"
proof -
  have short: "length (mcr_buffer r) < limit" using assms(2,3) by (cases c) auto
  have bytes: "forwarded_bytes (map frame_parts u) = encode_replies u" for u
    by (simp only: forwarded_bytes_def Backend_Drain.forwarded_bytes)
  have copies: "list_ex (\<lambda>(header, _). is_copy_from_client_request (hd header)) (map frame_parts u) =
      list_ex (\<lambda>f. is_copy_from_client_request (bf_tag f)) u" for u
    by (simp add: list_ex_iff frame_header_def)
  show ?thesis
    unfolding message_cycle_loop.simps [of backend_id shape limit "EV_Backend c True # events"]
    using assms(2,3) short classify_backend_frames_run [OF assms(1), of backend_id shape "mcr_state r" p]
    by (auto simp: Let_def r' p' bytes copies v message_cycle_outcome_def simp del: map_map split: option.split)
qed

lemma message_cycle_run:
  assumes "reads_of chunks (mcr_buffer r) fs m n" and "m + n \<le> limit" and "fs \<noteq> []"
    and "frame_ready_status (last fs) = Some st"
    and "cp_ready_count p + ready_frames fs = cs_expected_ready_count shape"
  shows "message_cycle_loop backend_id shape limit (backend_events chunks @ later) copying p r =
    (let v = visible (cp_injected_parse_completes p) fs in
     r\<lparr>mcr_outcome := Inr (FO_Ready st), mcr_state := classify_all backend_id v (mcr_state r),
       mcr_to_client := mcr_to_client r @ encode_replies v, mcr_buffer := []\<rparr>)"
  using assms
proof (induction chunks arbitrary: r fs p copying)
  case Nil
  then show ?case using reads_of_end by blast
next
  case (Cons c chunks)
  obtain gs hs b where st: "backend_frames_loop (mcr_buffer r @ c) = (Inr gs, b)" "fs = gs @ hs" "reads_of chunks b hs m n"
    "length (mcr_buffer r @ c) \<le> limit" "c \<noteq> []"
    using reads_of_step [OF Cons.prems(1,2)] by blast
  note step = message_cycle_step [OF st(1,4,5) refl refl refl, of backend_id shape "backend_events chunks @ later" copying p]
  show ?case
  proof (cases "hs = []")
    case True
    then have "chunks = [] \<and> b = []" using st(3) by (cases chunks) (auto simp: reads_of_def)
    moreover have "last_ready None fs = Some st"
      using Cons.prems(3,4) last_ready_snoc [of "last fs" st None "butlast fs"] by simp
    ultimately show ?thesis using step True st(2) Cons.prems(5) by (simp add: Let_def)
  next
    case False
    then have last: "last hs = last fs" using st(2) by simp
    then have hpos: "0 < ready_frames hs" using False Cons.prems(4) by (intro ready_frames_pos) simp_all
    let ?v = "visible (cp_injected_parse_completes p) gs"
    let ?r = "r\<lparr>mcr_state := classify_all backend_id ?v (mcr_state r), mcr_buffer := b,
                mcr_to_client := mcr_to_client r @ encode_replies ?v\<rparr>"
    let ?p = "progress_after shape (mcr_state r) p gs"
    have cnt: "cp_ready_count ?p + ready_frames hs = cs_expected_ready_count shape"
      using Cons.prems(5) st(2) by simp
    then have less: "cp_ready_count ?p < cs_expected_ready_count shape" using hpos by linarith
    let ?copying = "copying \<or> list_ex (\<lambda>f. is_copy_from_client_request (bf_tag f)) ?v"
    have eq: "message_cycle_loop backend_id shape limit (backend_events (c # chunks) @ later) copying p r =
        message_cycle_loop backend_id shape limit (backend_events chunks @ later) ?copying ?p ?r"
      using step less by (simp add: shape_expects_ready_def)
    have "reads_of chunks (mcr_buffer ?r) hs m n" using st(3) by simp
    from Cons.IH [OF this Cons.prems(2) False _ cnt, of ?copying] last Cons.prems(4) show ?thesis
      unfolding eq using st(2) by (simp add: visible_append Let_def)
  qed
qed

lemma forward_cycle_run:
  assumes "reads_of chunks [] fs m n" and "m + n \<le> limit" and "fs \<noteq> []" and "frame_ready_status (last fs) = Some status"
    and "ready_frames fs = cs_expected_ready_count shape"
  shows "forward_message_cycle backend_id shape k limit (backend_events chunks @ later) [] st =
    \<lparr>mcr_outcome = Inr (FO_Ready status), mcr_state = classify_all backend_id (visible k fs) st,
     mcr_to_client = encode_replies (visible k fs), mcr_to_backend = [], mcr_buffer = []\<rparr>"
proof -
  have "0 < cs_expected_ready_count shape"
    unfolding assms(5) [symmetric] by (rule ready_frames_pos) (simp_all add: assms(3,4))
  then have "\<not> expects_no_response shape" by (simp add: expects_no_response_def)
  then show ?thesis
    using message_cycle_run [of chunks "\<lparr>mcr_outcome = Inr FO_Flushed, mcr_state = st, mcr_to_client = [],
        mcr_to_backend = [], mcr_buffer = []\<rparr>" fs m n limit status
        "\<lparr>cp_ready_count = 0, cp_injected_parse_completes = k, cp_completion_count = 0, cp_saw_error = False,
          cp_response_started = False\<rparr>" shape backend_id later False] assms
    by (simp add: forward_message_cycle_def Let_def)
qed

text \<open>C2. A request cycle of a client session that waits for \<open>ReadyForQuery\<close> is answered in full. Let
  \<open>reply\<close> give the backend's answer to each frame, with one \<open>ReadyForQuery\<close> for every \<open>Query\<close> and \<open>Sync\<close>
  and none for another frame, and let the network cut the answers into any nonempty reads whose
  size together with a frame stays within the buffer limit. Then the session's loop ends with the
  status of the last \<open>ReadyForQuery\<close> and an empty buffer, whatever is read later; the client has got
  exactly the answers without the swallowed \<open>ParseComplete\<close> replies, and the session, the prepared
  statements and the progress have been updated by exactly those frames, in order.\<close>

theorem session_cycle_answered:
  assumes "cycle_of fs = Some c" and "answers_ready (last c)"
    and "\<forall>f\<in>set c. ready_frames (reply f) = (if answers_ready f then 1 else 0)"
    and "reply (last c) \<noteq> []" and "frame_ready_status (last (reply (last c))) = Some status"
    and "concat chunks = encode_replies (concat (map reply c))"
    and "\<forall>chunk\<in>set chunks. chunk \<noteq> [] \<and> length chunk \<le> n"
    and "\<forall>f\<in>set (concat (map reply c)). payload_fits (bf_payload f) \<and> length (encode_backend f) \<le> m"
    and "m + n \<le> limit"
  shows "forward_message_cycle backend_id (from_frames c) k limit (backend_events chunks @ later) [] st =
    \<lparr>mcr_outcome = Inr (FO_Ready status),
     mcr_state = fold (\<lambda>f s. classify_frame backend_id s f) (visible k (concat (map reply c))) st,
     mcr_to_client = encode_replies (visible k (concat (map reply c))), mcr_to_backend = [], mcr_buffer = []\<rparr>"
proof -
  have c: "c \<noteq> []" using cycle_of_prefix [OF assms(1)] by simp
  then have rs: "concat (map reply c) = concat (map reply (butlast c)) @ reply (last c)"
    by (cases c rule: rev_cases) simp_all
  let ?rs = "concat (map reply c)"
  have ready: "?rs \<noteq> []" "frame_ready_status (last ?rs) = Some status" using assms(4,5) rs by simp_all
  have n: "ready_frames ?rs = cs_expected_ready_count (from_frames c)"
    using cycle_ready_count [OF assms(1)] ready_frames_replies [OF assms(3)] by simp
  have "reads_of chunks [] ?rs m n" using assms(6-8) by (rule reads_of_start)
  then show ?thesis using forward_cycle_run assms(9) ready n by blast
qed

theorem session_cycle_answered_witness:
  "mcr_to_client (forward_message_cycle 7 (from_frames [\<lparr>ff_tag = 66, ff_payload = []\<rparr>, \<lparr>ff_tag = 83, ff_payload = []\<rparr>]) 1 64
      (backend_events [[49, 0, 0], [0, 4, 50, 0, 0, 0, 4, 90], [0, 0, 0, 5, 73]] @ [EV_Backend [84] True]) []
      \<lparr>fcs_session = vs_default, fcs_prepared = catalog_new 1, fcs_progress = query_progress_default\<rparr>) =
    [50, 0, 0, 0, 4, 90, 0, 0, 0, 5, 73]"
proof -
  let ?c = "[\<lparr>ff_tag = 66, ff_payload = []\<rparr>, \<lparr>ff_tag = 83, ff_payload = []\<rparr>]"
  let ?chunks = "[[49, 0, 0], [0, 4, 50, 0, 0, 0, 4, 90], [0, 0, 0, 5, 73]] :: bytes list"
  let ?st = "\<lparr>fcs_session = vs_default, fcs_prepared = catalog_new 1, fcs_progress = query_progress_default\<rparr>"
  have "forward_message_cycle 7 (from_frames ?c) 1 64 (backend_events ?chunks @ [EV_Backend [84] True]) [] ?st =
    \<lparr>mcr_outcome = Inr (FO_Ready RS_Idle),
     mcr_state = fold (\<lambda>f s. classify_frame 7 s f) (visible 1 (concat (map demo_reply ?c))) ?st,
     mcr_to_client = encode_replies (visible 1 (concat (map demo_reply ?c))), mcr_to_backend = [], mcr_buffer = []\<rparr>"
    by (rule session_cycle_answered [of ?c _ _ _ _ 8 6]) (simp_all add: demo_eval)
  then show ?thesis by (simp add: demo_eval)
qed

end
