(* ===== verification/Backend_Recovery.thy ===== *)
theory Backend_Recovery
  imports Cleanup Cycle_Reply
begin

text \<open>
  Conversations the proxy has with a backend on its own account, \<open>proxy/recovery.rs\<close>: batches of
  frames and simple queries, the LSN probe, the recovery of an abandoned backend, and the handlers of
  timeouts and disconnects. \<open>finish_ready_backend\<close> and \<open>handle_forward_result\<close> of
  \<open>proxy/client_session.rs\<close> are carried out on a connection here.

  A connection is the list of reads it will deliver; where the list ends the backend stays silent, so
  that a timeout around the conversation fires. Metrics, debug samples, snapshots and the cancel
  registry are left out.
\<close>

section \<open>A connection to a backend\<close>

datatype backend_read = BR_Data bytes | BR_Error

record backend_conn =
  bk_reads :: "backend_read list"
  bk_write_ok :: bool
  bk_sent :: bytes

datatype query_error =
    QE_Write
  | QE_Read
  | QE_Disconnected
  | QE_BufferLimit
  | QE_Wire wire_error
  | QE_Status ready_status
  | QE_ErrorResponse
  | QE_NoLsn
  | QE_Utf8
  | QE_Lsn lsn_parse_error
  | QE_Silent
  | QE_TimedOut

definition backend_write :: "bytes \<Rightarrow> backend_conn \<Rightarrow> (query_error + unit) \<times> backend_conn" where
  "backend_write bs c =
     (if bk_write_ok c then (Inr (), c\<lparr>bk_sent := bk_sent c @ bs\<rparr>) else (Inl QE_Write, c))"

text \<open>The read loop: the frames of a read are all parsed before the status of the last
  \<open>ReadyForQuery\<close> among them ends it, and what is left of the buffer is dropped with it.\<close>

fun await_ready_loop ::
  "nat \<Rightarrow> bytes \<Rightarrow> backend_read list \<Rightarrow> (query_error + ready_status) \<times> backend_read list" where
  "await_ready_loop limit buffer reads =
     (if length buffer \<ge> limit then (Inl QE_BufferLimit, reads)
      else case reads of
        [] \<Rightarrow> (Inl QE_Silent, [])
      | BR_Error # reads' \<Rightarrow> (Inl QE_Read, reads')
      | BR_Data bs # reads' \<Rightarrow>
          if bs = [] then (Inl QE_Disconnected, reads')
          else if length (buffer @ bs) > limit then (Inl QE_BufferLimit, reads')
          else case backend_frames_loop (buffer @ bs) of
            (Inl e, rest) \<Rightarrow> (Inl (QE_Wire e), reads')
          | (Inr frames, rest) \<Rightarrow>
              (case last_ready None frames of
                 Some status \<Rightarrow> (Inr status, reads')
               | None \<Rightarrow> await_ready_loop limit rest reads'))"

declare await_ready_loop.simps [simp del]

definition await_ready_status :: "nat \<Rightarrow> backend_conn \<Rightarrow> (query_error + ready_status) \<times> backend_conn" where
  "await_ready_status limit c =
     (let (result, reads) = await_ready_loop limit [] (bk_reads c) in (result, c\<lparr>bk_reads := reads\<rparr>))"

definition execute_backend_batch ::
  "frontend_frame list \<Rightarrow> nat \<Rightarrow> backend_conn \<Rightarrow> (query_error + ready_status) \<times> backend_conn" where
  "execute_backend_batch frames limit c =
     (case backend_write (encode_frames frames) c of
        (Inl e, c') \<Rightarrow> (Inl e, c')
      | (Inr _, c') \<Rightarrow> await_ready_status limit c')"

text \<open>\<open>anyhow::ensure!\<close> on the status of a conversation.\<close>

definition ensure_idle :: "(query_error + ready_status) \<times> backend_conn \<Rightarrow> (query_error + unit) \<times> backend_conn" where
  "ensure_idle rc =
     (case rc of
        (Inl e, c) \<Rightarrow> (Inl e, c)
      | (Inr status, c) \<Rightarrow> (if status = RS_Idle then Inr () else Inl (QE_Status status), c))"

definition execute_simple_query :: "rstr \<Rightarrow> nat \<Rightarrow> backend_conn \<Rightarrow> (query_error + unit) \<times> backend_conn" where
  "execute_simple_query sql limit c = ensure_idle (execute_backend_batch [simple_query_frame sql] limit c)"

section \<open>The LSN probe\<close>

definition parse_read_after_write_lsn :: "bytes \<Rightarrow> query_error + pg_lsn option" where
  "parse_read_after_write_lsn payload =
     (case get_i16 payload of
        None \<Rightarrow> Inr None
      | Some (columns, payload) \<Rightarrow>
          if sint columns \<le> 0 then Inr None
          else (case get_i32 payload of
             None \<Rightarrow> Inr None
           | Some (len, payload) \<Rightarrow>
               if sint len < 0 then Inr None
               else if length payload < nat (sint len) then Inr None
               else (case from_utf8 (take (nat (sint len)) payload) of
                  None \<Rightarrow> Inl QE_Utf8
                | Some value \<Rightarrow>
                    (case lsn_from_str value of Inl e \<Rightarrow> Inl (QE_Lsn e) | Inr lsn \<Rightarrow> Inr (Some lsn)))))"

text \<open>The frames of one read, up to the frame that ends the probe.\<close>

function probe_frames ::
  "pg_lsn option \<Rightarrow> bytes \<Rightarrow> (query_error + pg_lsn) option \<times> pg_lsn option \<times> bytes" where
  "probe_frames lsn buffer =
     (case parse_backend_frame buffer of
        (Inl e, rest) \<Rightarrow> (Some (Inl (QE_Wire e)), lsn, rest)
      | (Inr None, rest) \<Rightarrow> (None, lsn, rest)
      | (Inr (Some frame), rest) \<Rightarrow>
          if bf_tag frame = backend_tag_byte BE_DataRow \<and> lsn = None then
            (case parse_read_after_write_lsn (bf_payload frame) of
               Inl e \<Rightarrow> (Some (Inl e), lsn, rest)
             | Inr lsn' \<Rightarrow> probe_frames lsn' rest)
          else if bf_tag frame = backend_tag_byte BE_ErrorResponse then (Some (Inl QE_ErrorResponse), lsn, rest)
          else if bf_tag frame = backend_tag_byte BE_ReadyForQuery then
            (Some (case lsn of None \<Rightarrow> Inl QE_NoLsn | Some l \<Rightarrow> Inr l), lsn, rest)
          else probe_frames lsn rest)"
  by pat_completeness auto
termination
  by (relation "measure (length \<circ> snd)") (auto dest: be_parser.parse_shrinks [OF sym])

declare probe_frames.simps [simp del]

fun probe_loop ::
  "nat \<Rightarrow> pg_lsn option \<Rightarrow> bytes \<Rightarrow> backend_read list \<Rightarrow> (query_error + pg_lsn) \<times> backend_read list" where
  "probe_loop limit lsn buffer reads =
     (if length buffer \<ge> limit then (Inl QE_BufferLimit, reads)
      else case reads of
        [] \<Rightarrow> (Inl QE_Silent, [])
      | BR_Error # reads' \<Rightarrow> (Inl QE_Read, reads')
      | BR_Data bs # reads' \<Rightarrow>
          if bs = [] then (Inl QE_Disconnected, reads')
          else if length (buffer @ bs) > limit then (Inl QE_BufferLimit, reads')
          else case probe_frames lsn (buffer @ bs) of
            (Some result, lsn', rest) \<Rightarrow> (result, reads')
          | (None, lsn', rest) \<Rightarrow> probe_loop limit lsn' rest reads')"

declare probe_loop.simps [simp del]

definition probe_read_after_write_requirement ::
  "nat \<Rightarrow> backend_conn \<Rightarrow> (query_error + pg_lsn) \<times> backend_conn" where
  "probe_read_after_write_requirement limit c =
     (case backend_write (encode_frontend_frame (simple_query_frame (lit ''SELECT pg_current_wal_lsn()''))) c of
        (Inl e, c') \<Rightarrow> (Inl e, c')
      | (Inr _, c') \<Rightarrow>
          (let (result, reads) = probe_loop limit None [] (bk_reads c')
           in (if result = Inl QE_Silent then Inl QE_TimedOut else result, c'\<lparr>bk_reads := reads\<rparr>)))"

section \<open>Recovering a backend\<close>

definition drain_for_recovery :: "bool \<Rightarrow> nat \<Rightarrow> backend_conn \<Rightarrow> (query_error + unit) \<times> backend_conn" where
  "drain_for_recovery needs_sync limit c =
     ensure_idle (if needs_sync then execute_backend_batch [sync_frame] limit c else await_ready_status limit c)"

definition rollback_for_recovery ::
  "nat \<Rightarrow> virtual_session \<Rightarrow> backend_conn \<Rightarrow> (query_error + bool) \<times> virtual_session \<times> backend_conn" where
  "rollback_for_recovery limit session c =
     (case execute_simple_query (lit ''ROLLBACK'') limit c of
        (Inl e, c') \<Rightarrow> (Inl e, session, c')
      | (Inr _, c') \<Rightarrow> (Inr True, vs_apply_sql Cmd_Rollback session, c'))"

fun recovery_conversation ::
  "recovery_action \<Rightarrow> bool \<Rightarrow> nat \<Rightarrow> virtual_session \<Rightarrow> backend_conn
   \<Rightarrow> (query_error + bool) \<times> virtual_session \<times> backend_conn" where
  "recovery_conversation RA_None needs_sync limit session c = (Inr True, session, c)"
| "recovery_conversation RA_Rollback needs_sync limit session c = rollback_for_recovery limit session c"
| "recovery_conversation RA_DrainAndSync needs_sync limit session c =
     (case drain_for_recovery needs_sync limit c of
        (Inl e, c') \<Rightarrow> (Inl e, session, c')
      | (Inr _, c') \<Rightarrow> (Inr True, session, c'))"
| "recovery_conversation RA_RollbackAndDrain needs_sync limit session c =
     (case drain_for_recovery needs_sync limit c of
        (Inl e, c') \<Rightarrow> (Inl e, session, c')
      | (Inr _, c') \<Rightarrow> rollback_for_recovery limit session c')"
| "recovery_conversation RA_Discard needs_sync limit session c = (Inr False, session, c)"

text \<open>A silent backend makes the recovery timeout fire.\<close>

definition recover_backend ::
  "recovery_trigger \<Rightarrow> recovery_mode \<Rightarrow> bool \<Rightarrow> nat \<Rightarrow> virtual_session \<Rightarrow> backend_conn
   \<Rightarrow> (query_error + bool) \<times> virtual_session \<times> backend_conn" where
  "recover_backend trigger mode needs_sync limit session c =
     (case recovery_conversation (recovery_action_for trigger mode) needs_sync limit session c of
        (Inr reuse, session', c') \<Rightarrow> (Inr reuse, session', c')
      | (Inl e, session', c') \<Rightarrow>
          (if e = QE_BufferLimit \<or> e = QE_Silent then Inr False else Inl e, session', c'))"

definition should_replay_session :: "virtual_session \<Rightarrow> pinned_backend \<Rightarrow> u64 \<Rightarrow> bool" where
  "should_replay_session session pinned backend_id \<longleftrightarrow>
     vs_has_replayable_settings session \<and> pinned_backend_id pinned \<noteq> Some backend_id"

text \<open>The replay ahead of a cycle in \<open>handle_frame_cycle\<close>.\<close>

definition replay_before_cycle ::
  "nat \<Rightarrow> virtual_session \<Rightarrow> pinned_backend \<Rightarrow> u64 \<Rightarrow> backend_conn \<Rightarrow> (query_error + unit) \<times> backend_conn" where
  "replay_before_cycle limit session pinned backend_id c =
     (if should_replay_session session pinned backend_id
      then ensure_idle (execute_backend_batch (replay_frames session) limit c)
      else (Inr (), c))"

section \<open>Answers of the proxy's own\<close>

definition ready_for_query :: "ready_status \<Rightarrow> bytes" where
  "ready_for_query status =
     backend_tag_byte BE_ReadyForQuery # put_i32 5 @
       [ready_status_byte_code (case status of RS_Idle \<Rightarrow> RSB_Idle | RS_InTransaction \<Rightarrow> RSB_InTransaction
          | RS_FailedTransaction \<Rightarrow> RSB_FailedTransaction)]"

definition error_response_and_ready_with_state :: "rstr \<Rightarrow> rstr \<Rightarrow> ready_status \<Rightarrow> bytes" where
  "error_response_and_ready_with_state sqlstate message status =
     build_error_response sqlstate message @ ready_for_query status"

definition error_response_and_ready :: "rstr \<Rightarrow> rstr \<Rightarrow> bytes" where
  "error_response_and_ready overload_error_code message =
     error_response_and_ready_with_state overload_error_code message RS_Idle"

definition error_response_only :: "rstr \<Rightarrow> rstr \<Rightarrow> bytes" where
  "error_response_only sqlstate message = build_error_response sqlstate message"

definition reject_client_during_drain :: bytes where
  "reject_client_during_drain =
     error_response_and_ready_with_state (sqlstate_as_str OperatorIntervention) (lit ''proxy is draining'') RS_Idle"

datatype idle_timeout_kind = ITK_Client | ITK_Transaction

fun handle_idle_timeout :: "idle_timeout_kind \<Rightarrow> bytes" where
  "handle_idle_timeout ITK_Client =
     error_response_and_ready_with_state (sqlstate_as_str OperatorIntervention) (lit ''idle client timed out'') RS_Idle"
| "handle_idle_timeout ITK_Transaction =
     error_response_only (sqlstate_as_str OperatorIntervention) (lit ''idle transaction timed out'')"

section \<open>Timeouts and disconnects\<close>

text \<open>
  What a handler leaves behind. \<open>bo_result\<close> is its error, or whether the session goes on; an error
  drops the backend, and a handler whose error is \<open>QE_Silent\<close> is still waiting for it.
\<close>

datatype handler_error =
    HE_Client
  | HE_Query query_error
  | HE_Forward message_cycle_error

record backend_outcome =
  bo_result :: "handler_error + bool"
  bo_session :: virtual_session
  bo_pinned :: pinned_backend
  bo_fate :: backend_fate
  bo_conn :: backend_conn
  bo_to_client :: bytes

definition in_transaction_pin :: "vs_pin_kind option \<Rightarrow> bool" where
  "in_transaction_pin r \<longleftrightarrow> r = Some VPR_OpenTransaction \<or> r = Some VPR_FailedTransaction"

text \<open>\<open>client_ok\<close> is whether the client's socket takes what is written to it.\<close>

definition handle_query_timeout ::
  "bool \<Rightarrow> recovery_mode \<Rightarrow> pool_mode \<Rightarrow> bool \<Rightarrow> nat \<Rightarrow> virtual_session \<Rightarrow> pinned_backend \<Rightarrow> u64 \<Rightarrow> backend_conn
   \<Rightarrow> backend_outcome" where
  "handle_query_timeout client_ok mode pool response_started limit session pinned backend_id c =
     (let trigger = (if in_transaction_pin (vs_pin_reason session) then RT_AbandonedTransaction else RT_AbandonedResponse)
      in if \<not> response_started \<and> \<not> client_ok then
           \<lparr>bo_result = Inl HE_Client, bo_session = session, bo_pinned = pinned, bo_fate = BF_Dropped, bo_conn = c,
            bo_to_client = []\<rparr>
         else
           (let (recovered, session', c') = recover_backend trigger mode False limit session c;
                reused = (case recovered of Inl _ \<Rightarrow> False | Inr r \<Rightarrow> r)
            in \<lparr>bo_result = Inr (\<not> response_started), bo_session = session', bo_pinned = clear_pin pinned,
                bo_fate = (if \<not> reused then BF_Discarded
                           else case pool of PM_Session \<Rightarrow> BF_Held backend_id | PM_Transaction \<Rightarrow> BF_Released),
                bo_conn = c',
                bo_to_client =
                  (if response_started then []
                   else error_response_and_ready_with_state (sqlstate_as_str QueryCanceled)
                          (lit ''query timed out'') RS_Idle)\<rparr>))"

text \<open>A recovery whose result decides between release and discard, and whose error ends the session.\<close>

definition recover_or_discard ::
  "recovery_trigger \<Rightarrow> recovery_mode \<Rightarrow> bool \<Rightarrow> nat \<Rightarrow> virtual_session \<Rightarrow> pinned_backend \<Rightarrow> backend_conn \<Rightarrow> backend_outcome" where
  "recover_or_discard trigger mode needs_sync limit session pinned c =
     (case recover_backend trigger mode needs_sync limit session c of
        (Inl e, session', c') \<Rightarrow>
          \<lparr>bo_result = Inl (HE_Query e), bo_session = session', bo_pinned = pinned, bo_fate = BF_Dropped, bo_conn = c',
           bo_to_client = []\<rparr>
      | (Inr reused, session', c') \<Rightarrow>
          \<lparr>bo_result = Inr False, bo_session = session', bo_pinned = clear_pin pinned,
           bo_fate = (if reused then BF_Released else BF_Discarded), bo_conn = c', bo_to_client = []\<rparr>)"

definition finalize_backend_on_disconnect ::
  "rstr \<Rightarrow> recovery_mode \<Rightarrow> nat \<Rightarrow> virtual_session \<Rightarrow> pinned_backend \<Rightarrow> backend_conn \<Rightarrow> backend_outcome" where
  "finalize_backend_on_disconnect reset_query mode limit session pinned c =
     (let outcome = (\<lambda>result pinned fate c.
            \<lparr>bo_result = result, bo_session = session, bo_pinned = pinned, bo_fate = fate, bo_conn = c, bo_to_client = []\<rparr>)
      in case vs_pin_reason session of
           Some reason \<Rightarrow>
             if in_transaction_pin (Some reason)
             then recover_or_discard RT_AbandonedTransaction mode False limit session pinned c
             else outcome (Inr False) (clear_pin pinned) BF_Discarded c
         | None \<Rightarrow>
             if vs_has_replayable_settings session
             then (case execute_simple_query reset_query limit c of
                     (Inl e, c') \<Rightarrow> outcome (Inl (HE_Query e)) pinned BF_Dropped c'
                   | (Inr _, c') \<Rightarrow> outcome (Inr False) (clear_pin pinned) BF_Released c')
             else outcome (Inr False) (clear_pin pinned) BF_Released c)"

section \<open>The end of a cycle\<close>

text \<open>\<open>finish_ready_backend\<close> with its probe and its query carried out; their results are those that
  \<open>Cleanup\<close> takes as given.\<close>

definition ready_probe ::
  "nat \<Rightarrow> 'addr ready_backend_request \<Rightarrow> backend_conn \<Rightarrow> pg_lsn option \<times> backend_conn" where
  "ready_probe limit req c =
     (if rb_committed_write req \<and> rb_protection_enabled req \<and> rb_status req = RS_Idle
      then (case probe_read_after_write_requirement limit c of
              (Inl _, c') \<Rightarrow> (None, c')
            | (Inr lsn, c') \<Rightarrow> (Some lsn, c'))
      else (None, c))"

definition ready_query ::
  "rstr \<Rightarrow> nat \<Rightarrow> cleanup_kind \<Rightarrow> backend_conn \<Rightarrow> (query_error + unit) \<times> backend_conn" where
  "ready_query reset_query limit action c =
     (case action of
        CA_ResetThenReuse \<Rightarrow> execute_simple_query reset_query limit c
      | CA_RollbackThenReuse \<Rightarrow> execute_simple_query (lit ''ROLLBACK'') limit c
      | CA_RollbackThenKeepPinned \<Rightarrow> execute_simple_query (lit ''ROLLBACK'') limit c
      | _ \<Rightarrow> (Inr (), c))"

definition finish_ready_on ::
  "rstr \<Rightarrow> nat \<Rightarrow> 'addr ready_backend_request \<Rightarrow> backend_conn \<Rightarrow> (query_error + unit) \<times> 'addr ready_backend_result \<times> backend_conn" where
  "finish_ready_on reset_query limit req c =
     (let (probe, c') = ready_probe limit req c;
          (result, c'') = ready_query reset_query limit (ready_action req (ready_session req probe)) c'
      in (result, finish_ready_backend req probe (result = Inr ()), c''))"

definition CONNECTION_FAILURE_SQLSTATE :: rstr where
  "CONNECTION_FAILURE_SQLSTATE = lit ''08006''"

definition failover_ready_status :: "vs_pin_kind \<Rightarrow> ready_status" where
  "failover_ready_status reason = (if in_transaction_pin (Some reason) then RS_FailedTransaction else RS_Idle)"

record 'addr forward_result_request =
  fq_ready :: "'addr ready_backend_request"
  fq_reset_query :: rstr
  fq_recovery_mode :: recovery_mode
  fq_limit :: nat
  fq_response_started :: bool
  fq_client_ok :: bool

text \<open>The answer to a client whose backend failed before it answered.\<close>

definition lost_backend_answer :: "virtual_session \<Rightarrow> bytes" where
  "lost_backend_answer session =
     (case vs_pin_reason session of
        Some reason \<Rightarrow>
          error_response_and_ready_with_state (lit ''57P01'')
            (lit ''backend connection lost; failover unavailable for this session state'') (failover_ready_status reason)
      | None \<Rightarrow>
          error_response_and_ready_with_state CONNECTION_FAILURE_SQLSTATE
            (lit ''backend connection failed before response'') RS_Idle)"

definition handle_ready_result ::
  "'addr forward_result_request \<Rightarrow> bool \<Rightarrow> ready_status \<Rightarrow> backend_conn \<Rightarrow> backend_outcome" where
  "handle_ready_result q disconnected status c =
     (let (result, r, c') = finish_ready_on (fq_reset_query q) (fq_limit q) ((fq_ready q)\<lparr>rb_status := status\<rparr>) c;
          outcome = (\<lambda>b. \<lparr>bo_result = b, bo_session = rr_session r, bo_pinned = rr_pinned r, bo_fate = rr_fate r,
                         bo_conn = c', bo_to_client = []\<rparr>)
      in case result of
           Inl e \<Rightarrow> outcome (Inl (HE_Query e))
         | Inr _ \<Rightarrow>
             if \<not> disconnected then outcome (Inr True)
             else (case rr_fate r of
                     BF_Held _ \<Rightarrow>
                       finalize_backend_on_disconnect (fq_reset_query q) (fq_recovery_mode q) (fq_limit q)
                         (rr_session r) (rr_pinned r) c'
                   | _ \<Rightarrow> outcome (Inr False)))"

text \<open>
  \<open>handle_forward_result\<close>; the query timeout that ended a cycle is the error \<open>MCE_Pending\<close>. The
  change of the application name in the session's route is left to \<open>Cleanup\<close>.
\<close>

definition handle_forward_result ::
  "'addr forward_result_request \<Rightarrow> message_cycle_error + forward_outcome \<Rightarrow> backend_conn \<Rightarrow> backend_outcome" where
  "handle_forward_result q result c =
     (let session = rb_session (fq_ready q); pinned = rb_pinned (fq_ready q); backend_id = rb_backend_id (fq_ready q);
          outcome = (\<lambda>result pinned fate to_client.
            \<lparr>bo_result = result, bo_session = session, bo_pinned = pinned, bo_fate = fate, bo_conn = c,
             bo_to_client = to_client\<rparr>)
      in case result of
           Inr (FO_Ready status) \<Rightarrow> handle_ready_result q False status c
         | Inr (FO_ClientDisconnectedAfterReady status) \<Rightarrow> handle_ready_result q True status c
         | Inr FO_Flushed \<Rightarrow> outcome (Inr True) pinned (BF_Held backend_id) []
         | Inr (FO_AbandonedResponse needs_sync) \<Rightarrow>
             recover_or_discard RT_AbandonedResponse (fq_recovery_mode q) needs_sync (fq_limit q) session pinned c
         | Inr FO_BufferLimitExceeded \<Rightarrow> outcome (Inr False) (clear_pin pinned) BF_Discarded []
         | Inl MCE_Pending \<Rightarrow>
             handle_query_timeout (fq_client_ok q) (fq_recovery_mode q) (rb_pool_mode (fq_ready q))
               (fq_response_started q) (fq_limit q) session pinned backend_id c
         | Inl (MCE_Backend kind response_started) \<Rightarrow>
             if response_started then outcome (Inr False) (clear_pin pinned) BF_Discarded []
             else if fq_client_ok q
             then outcome (Inr False) (clear_pin pinned) BF_Discarded (lost_backend_answer session)
             else outcome (Inl HE_Client) (clear_pin pinned) BF_Dropped []
         | Inl e \<Rightarrow> outcome (Inl (HE_Forward e)) (clear_pin pinned) BF_Discarded [])"

section \<open>A conversation reads its whole answer\<close>

lemma await_ready_run:
  assumes "reads_of chunks b fs m n" and "m + n \<le> limit" and "fs = gs @ [f]" and "filter is_ready gs = []"
    and "frame_ready_status f = Some st"
  shows "await_ready_loop limit b (map BR_Data chunks @ later) = (Inr st, later)"
  using assms
proof (induction chunks arbitrary: b fs gs)
  case Nil
  then show ?case using reads_of_end by blast
next
  case (Cons c chunks)
  obtain hs ks r where step: "backend_frames_loop (b @ c) = (Inr hs, r)" "fs = hs @ ks" "reads_of chunks r ks m n"
    "length (b @ c) \<le> limit" "c \<noteq> []"
    using reads_of_step [OF Cons.prems(1,2)] by blast
  have short: "length b < limit" using step(4,5) by (cases c) auto
  show ?case
  proof (cases "ks = []")
    case True
    then have "chunks = []" using step(3) by (cases chunks) (auto simp: reads_of_def)
    moreover have "last_ready None hs = Some st"
      using True step(2) Cons.prems(3,5) by (auto simp: last_ready_snoc)
    ultimately show ?thesis using step short by (simp add: await_ready_loop.simps [of limit b])
  next
    case False
    then obtain ks' where ks: "ks = ks' @ [f]" "gs = hs @ ks'"
      using step(2) Cons.prems(3) by (metis append.assoc append_butlast_last_id last_appendR last_snoc butlast_snoc butlast_append)
    then have "last_ready None hs = None" using Cons.prems(4) by (simp add: last_ready_none)
    then have "await_ready_loop limit b (map BR_Data (c # chunks) @ later) = await_ready_loop limit r (map BR_Data chunks @ later)"
      using step short by (simp add: await_ready_loop.simps [of limit b])
    then show ?thesis using Cons.IH [OF step(3) Cons.prems(2) ks(1) _ Cons.prems(5)] Cons.prems(4) ks(2) by simp
  qed
qed

text \<open>The first read with a \<open>ReadyForQuery\<close> ends it, whatever else the backend still has to say.\<close>

lemma await_ready_first_read:
  assumes "\<forall>f\<in>set fs. payload_fits (bf_payload f)" and "last_ready None fs = Some st"
    and "length (encode_replies fs) \<le> limit"
  shows "await_ready_loop limit [] (BR_Data (encode_replies fs) # later) = (Inr st, later)"
proof -
  have "fs \<noteq> []" using assms(2) by (auto simp: last_ready_def)
  then have ne: "encode_replies fs \<noteq> []" by (cases fs) (simp_all add: backend_message_def)
  then have "0 < limit" using assms(3) by (cases limit) auto
  then show ?thesis using ne assms backend_encode_loop [OF assms(1)]
    by (simp add: await_ready_loop.simps [of limit "[]"])
qed

lemma execute_backend_batch_run:
  assumes "bk_write_ok c" and "bk_reads c = map BR_Data chunks @ later" and "reads_of chunks [] (gs @ [f]) m n"
    and "m + n \<le> limit" and "filter is_ready gs = []" and "frame_ready_status f = Some st"
  shows "execute_backend_batch frames limit c =
    (Inr st, c\<lparr>bk_reads := later, bk_sent := bk_sent c @ encode_frames frames\<rparr>)"
  using await_ready_run [OF assms(3,4) refl assms(5,6)] assms(1,2)
  by (simp add: execute_backend_batch_def backend_write_def await_ready_status_def)

lemma await_ready_status_run:
  assumes "bk_reads c = map BR_Data chunks @ later" and "reads_of chunks [] (gs @ [f]) m n"
    and "m + n \<le> limit" and "filter is_ready gs = []" and "frame_ready_status f = Some st"
  shows "await_ready_status limit c = (Inr st, c\<lparr>bk_reads := later\<rparr>)"
  using await_ready_run [OF assms(2,3) refl assms(4,5)] assms(1) by (simp add: await_ready_status_def)

text \<open>The bytes a recovery in mode \<open>Recover\<close> sends, and the session after it.\<close>

definition recovery_request :: "recovery_trigger \<Rightarrow> bool \<Rightarrow> bytes" where
  "recovery_request trigger needs_sync =
     (if trigger = RT_AbandonedResponse then (if needs_sync then encode_frontend_frame sync_frame else [])
      else encode_frontend_frame (simple_query_frame (lit ''ROLLBACK'')))"

text \<open>C7. In the recovery mode \<open>Recover\<close> a recovered backend owes nothing. When what a backend still has to send, its answer to the
  recovery's own request included, is one response that ends with its only \<open>ReadyForQuery\<close>, then the
  recovery reads exactly that response, however the network cuts it, and leaves what comes later
  unread. It reports the backend as reusable exactly when the response ends idle, and the session has
  then left its transaction if the recovery sent \<open>ROLLBACK\<close>.\<close>

theorem recovered_backend_owes_nothing:
  assumes "trigger \<noteq> RT_UnknownProtocolState" and "bk_write_ok c" and "bk_reads c = map BR_Data chunks @ later"
    and "concat chunks = encode_replies (gs @ [f])" and "\<forall>c\<in>set chunks. c \<noteq> [] \<and> length c \<le> n"
    and "\<forall>g\<in>set (gs @ [f]). payload_fits (bf_payload g) \<and> length (encode_backend g) \<le> m" and "m + n \<le> limit"
    and "\<forall>g\<in>set gs. frame_ready_status g = None" and "frame_ready_status f = Some st"
  shows "recover_backend trigger RM_Recover needs_sync limit session c =
    (if st = RS_Idle then Inr True else Inl (QE_Status st),
     if trigger = RT_AbandonedResponse \<or> st \<noteq> RS_Idle then session else vs_apply_sql Cmd_Rollback session,
     c\<lparr>bk_reads := later, bk_sent := bk_sent c @ recovery_request trigger needs_sync\<rparr>)"
proof -
  have reads: "reads_of chunks [] (gs @ [f]) m n" using assms(4-6) by (rule reads_of_start)
  have gs: "filter is_ready gs = []" using assms(8) by (simp add: filter_empty_conv)
  note batch = execute_backend_batch_run [OF assms(2,3) reads assms(7) gs assms(9)]
  note await = await_ready_status_run [OF assms(3) reads assms(7) gs assms(9)]
  show ?thesis
    by (cases trigger) (use assms(1) in \<open>simp_all add: recover_backend_def drain_for_recovery_def rollback_for_recovery_def
      execute_simple_query_def ensure_idle_def recovery_request_def batch await\<close>)
qed

definition demo_conn :: "backend_read list \<Rightarrow> backend_conn" where
  "demo_conn reads = \<lparr>bk_reads = reads, bk_write_ok = True, bk_sent = []\<rparr>"

abbreviation ready_frame :: backend_frame where
  "ready_frame \<equiv> \<lparr>bf_tag = backend_tag_byte BE_ReadyForQuery, bf_payload = [73]\<rparr>"

abbreviation complete_frame :: backend_frame where
  "complete_frame \<equiv> \<lparr>bf_tag = backend_tag_byte BE_CommandComplete, bf_payload = [83, 69, 84, 0]\<rparr>"

lemmas conn_eval =
  demo_conn_def frame_ready_status_def backend_message_def put_i32_def usize_as_i32_def payload_fits_def

theorem recovered_backend_owes_nothing_witness:
  "recover_backend RT_AbandonedResponse RM_Recover False 64 vs_default
     (demo_conn [BR_Data [67, 0, 0], BR_Data [0, 8, 83, 69, 84, 0, 90, 0, 0, 0, 5], BR_Data [73], BR_Data [84]]) =
   (Inr True, vs_default, demo_conn [BR_Data [84]])"
  by (subst recovered_backend_owes_nothing [where gs = "[complete_frame]" and f = ready_frame and m = 9 and n = 11
        and chunks = "[[67, 0, 0], [0, 8, 83, 69, 84, 0, 90, 0, 0, 0, 5], [73]]" and later = "[BR_Data [84]]"
        and st = RS_Idle])
    (simp_all add: conn_eval recovery_request_def)

section \<open>The probe reads the LSN\<close>

fun probe_scan :: "pg_lsn option \<Rightarrow> backend_frame list \<Rightarrow> (query_error + pg_lsn) option \<times> pg_lsn option" where
  "probe_scan lsn [] = (None, lsn)"
| "probe_scan lsn (frame # frames) =
     (if bf_tag frame = backend_tag_byte BE_DataRow \<and> lsn = None then
        (case parse_read_after_write_lsn (bf_payload frame) of
           Inl e \<Rightarrow> (Some (Inl e), lsn)
         | Inr lsn' \<Rightarrow> probe_scan lsn' frames)
      else if bf_tag frame = backend_tag_byte BE_ErrorResponse then (Some (Inl QE_ErrorResponse), lsn)
      else if bf_tag frame = backend_tag_byte BE_ReadyForQuery then
        (Some (case lsn of None \<Rightarrow> Inl QE_NoLsn | Some l \<Rightarrow> Inr l), lsn)
      else probe_scan lsn frames)"

lemma probe_scan_append:
  "probe_scan lsn (fs @ gs) = (case probe_scan lsn fs of (None, l) \<Rightarrow> probe_scan l gs | stop \<Rightarrow> stop)"
  by (induction lsn fs rule: probe_scan.induct) (simp_all split: sum.split)

lemma probe_frames_scan:
  assumes "backend_frames_loop b = (Inr fs, r)"
  shows "\<exists>r'. probe_frames lsn b = (fst (probe_scan lsn fs), snd (probe_scan lsn fs), r') \<and>
    (fst (probe_scan lsn fs) = None \<longrightarrow> r' = r)"
  using assms
proof (induction b arbitrary: lsn fs rule: be_loop.loop_induct)
  case (step b)
  show ?case
  proof (cases b rule: be_loop.loop_cases)
    case wait
    then show ?thesis using step.prems by (subst probe_frames.simps) simp
  next
    case (fail e)
    then show ?thesis using step.prems by simp
  next
    case (frame f b')
    then obtain gs where gs: "backend_frames_loop b' = (Inr gs, r)" "fs = f # gs"
      using step.prems by (auto split: prod.splits sum.splits)
    show ?thesis
      using frame gs(2) step.IH [OF frame(1) gs(1)]
      by (subst probe_frames.simps) (auto split: sum.split)
  qed
qed

lemma probe_run:
  assumes "reads_of chunks b fs m n" and "m + n \<le> limit" and "fs = gs @ [f]" and "probe_scan lsn gs = (None, l)"
    and "probe_scan l [f] = (Some result, l')"
  shows "probe_loop limit lsn b (map BR_Data chunks @ later) = (result, later)"
  using assms
proof (induction chunks arbitrary: b fs gs lsn)
  case Nil
  then show ?case using reads_of_end by blast
next
  case (Cons c chunks)
  obtain hs ks r where step: "backend_frames_loop (b @ c) = (Inr hs, r)" "fs = hs @ ks" "reads_of chunks r ks m n"
    "length (b @ c) \<le> limit" "c \<noteq> []"
    using reads_of_step [OF Cons.prems(1,2)] by blast
  have short: "length b < limit" using step(4,5) by (cases c) auto
  obtain r' where scan: "probe_frames lsn (b @ c) = (fst (probe_scan lsn hs), snd (probe_scan lsn hs), r')"
    "fst (probe_scan lsn hs) = None \<longrightarrow> r' = r"
    using probe_frames_scan [OF step(1), of lsn] by (elim exE conjE)
  show ?case
  proof (cases "ks = []")
    case True
    then have "chunks = []" using step(3) by (cases chunks) (auto simp: reads_of_def)
    moreover have "probe_scan lsn hs = (Some result, l')"
      using True step(2) Cons.prems(3-5) by (auto simp: probe_scan_append simp del: probe_scan.simps(2))
    ultimately show ?thesis using scan(1) step(4,5) short by (simp add: probe_loop.simps [of limit lsn b])
  next
    case False
    then obtain ks' where ks: "ks = ks' @ [f]" "gs = hs @ ks'"
      using step(2) Cons.prems(3) by (metis append.assoc append_butlast_last_id last_appendR last_snoc butlast_snoc butlast_append)
    then obtain l1 where l1: "probe_scan lsn hs = (None, l1)" "probe_scan l1 ks' = (None, l)"
      using Cons.prems(4) by (auto simp: probe_scan_append split: prod.splits option.splits)
    then have "probe_loop limit lsn b (map BR_Data (c # chunks) @ later) = probe_loop limit l1 r (map BR_Data chunks @ later)"
      using scan step(4,5) short by (simp add: probe_loop.simps [of limit lsn b])
    then show ?thesis using Cons.IH [OF step(3) Cons.prems(2) ks(1) l1(2) Cons.prems(5)] by simp
  qed
qed

text \<open>The row PostgreSQL answers the probe with.\<close>

definition lsn_row :: "pg_lsn \<Rightarrow> backend_frame" where
  "lsn_row lsn =
     (let text = as_bytes (lsn_display lsn)
      in \<lparr>bf_tag = backend_tag_byte BE_DataRow, bf_payload = put_i16 1 @ put_i32 (usize_as_i32 (length text)) @ text\<rparr>)"

lemma scalars_lsn_display: "scalars (lsn_display l)"
proof -
  have "scalars (fmt_upper_hex n)" for n
  proof (induction n rule: fmt_upper_hex.induct)
    case (1 n)
    show ?case
    proof (cases "n < 16")
      case True
      then show ?thesis by (simp add: fmt_upper_hex_less upper_hex_digit_def is_scalar_def)
    next
      case False
      have "upper_hex_digit (n mod 16) \<le> 71"
        using mod_less_divisor [of 16 n] by (simp add: upper_hex_digit_def)
      then show ?thesis using 1 [OF False] False by (simp add: fmt_upper_hex_rec is_scalar_def)
    qed
  qed
  moreover have "is_scalar 47" by (simp add: is_scalar_def)
  ultimately show ?thesis by (auto simp: lsn_display_def)
qed

lemma parse_lsn_row:
  "payload_fits (bf_payload (lsn_row l)) \<Longrightarrow> parse_read_after_write_lsn (bf_payload (lsn_row l)) = Inr (Some l)"
  using scalars_lsn_display [of l]
  by (simp add: lsn_row_def Let_def payload_fits_def parse_read_after_write_lsn_def lsn_roundtrip)

text \<open>Frames the probe passes over.\<close>

definition probe_ignores :: "backend_frame \<Rightarrow> bool" where
  "probe_ignores f \<longleftrightarrow>
     bf_tag f \<notin> {backend_tag_byte BE_DataRow, backend_tag_byte BE_ErrorResponse, backend_tag_byte BE_ReadyForQuery}"

lemma probe_scan_ignores: "\<forall>f\<in>set fs. probe_ignores f \<Longrightarrow> probe_scan lsn fs = (None, lsn)"
  by (induction fs) (auto simp: probe_ignores_def)

text \<open>C16. After a committed write the session requires the position the backend reports, where
  read-after-write protection is enabled and the write left the backend idle. When the answer to the probe has one row with an LSN and no error, then however the network cuts it the
  probe reads exactly this answer, and the session's reads wait from then on for the LSN of the row,
  whatever becomes of the backend.\<close>

theorem committed_write_requires_lsn:
  assumes "rb_committed_write req" and "rb_protection_enabled req" and "rb_status req = RS_Idle"
    and "bk_write_ok c" and "bk_reads c = map BR_Data chunks @ later"
    and "concat chunks = encode_replies (gs @ [lsn_row lsn] @ hs @ [ready])"
    and "\<forall>c\<in>set chunks. c \<noteq> [] \<and> length c \<le> n"
    and "\<forall>g\<in>set (gs @ [lsn_row lsn] @ hs @ [ready]). payload_fits (bf_payload g) \<and> length (encode_backend g) \<le> m"
    and "m + n \<le> limit" and "\<forall>g\<in>set (gs @ hs). probe_ignores g"
    and "bf_tag ready = backend_tag_byte BE_ReadyForQuery"
  shows "bk_reads (snd (ready_probe limit req c)) = later \<and>
    vs_read_after_write (rr_session (fst (snd (finish_ready_on reset_query limit req c)))) = RAW_Required lsn"
proof -
  have "probe_scan None (gs @ [lsn_row lsn] @ hs) = (None, Some lsn)"
    using assms(8,10) parse_lsn_row [of lsn] probe_scan_ignores [of gs None] probe_scan_ignores [of hs "Some lsn"]
    by (simp add: probe_scan_append) (simp add: lsn_row_def Let_def)
  moreover have "probe_scan (Some lsn) [ready] = (Some (Inr lsn), Some lsn)" using assms(11) by simp
  moreover have "reads_of chunks [] ((gs @ [lsn_row lsn] @ hs) @ [ready]) m n"
    by (rule reads_of_start) (use assms(6-8) in simp_all)
  ultimately have "probe_loop limit None [] (map BR_Data chunks @ later) = (Inr lsn, later)"
    using probe_run [OF _ assms(9) refl] by blast
  then have probe: "fst (ready_probe limit req c) = Some lsn" "bk_reads (snd (ready_probe limit req c)) = later"
    using assms(1-5) by (simp_all add: ready_probe_def probe_read_after_write_requirement_def backend_write_def)
  have "ready_action req s \<noteq> CA_RollbackThenReuse" "ready_action req s \<noteq> CA_RollbackThenKeepPinned" for s
    using assms(3) by (auto simp: ready_action_def cleanup_action_def split: pool_mode.split)
  then have "vs_read_after_write (rr_session (finish_ready_backend req (Some lsn) ok)) = RAW_Required lsn" for ok
    using assms(1-3) by (cases "ready_action req (ready_session req (Some lsn))")
      (auto simp: finish_ready_backend_def Let_def ready_session_def vs_set_read_after_write_def vs_mark_ready_after_copy_def)
  then show ?thesis using probe by (auto simp: finish_ready_on_def split: prod.split)
qed

lemma demo_lsn_row:
  "lsn_row (PgLsn 16) = \<lparr>bf_tag = 68, bf_payload = [0, 1, 0, 0, 0, 4, 48, 47, 49, 48]\<rparr>"
proof -
  have "lsn_display (PgLsn 16) = [48, 47, 49, 48]"
    by (simp add: lsn_display_def lsn_segment_def lsn_offset_def fmt_upper_hex.simps upper_hex_digit_def)
  moreover have "as_bytes [48, 47, 49, 48] = [48, 47, 49, 48]" by (simp add: as_bytes_def encode_char_def byte_of_def)
  ultimately show ?thesis by (simp add: lsn_row_def put_i16_def put_i32_def usize_as_i32_def)
qed

theorem committed_write_requires_lsn_witness:
  "vs_read_after_write (rr_session (fst (snd (finish_ready_on (lit ''DISCARD ALL'') 64
     ((example_request vs_default RS_Idle)\<lparr>rb_committed_write := True, rb_protection_enabled := True\<rparr>)
     (demo_conn [BR_Data [68, 0, 0, 0, 14, 0, 1, 0], BR_Data [0, 0, 4, 48, 47, 49, 48, 90, 0, 0, 0, 5, 73]]))))) =
   RAW_Required (PgLsn 16)"
  by (rule conjunct2 [OF committed_write_requires_lsn [where gs = "[]" and hs = "[]" and ready = ready_frame
        and m = 15 and n = 13 and later = "[]"
        and chunks = "[[68, 0, 0, 0, 14, 0, 1, 0], [0, 0, 4, 48, 47, 49, 48, 90, 0, 0, 0, 5, 73]]"]])
    (simp_all add: conn_eval example_request_def demo_lsn_row)

section \<open>Answers left behind\<close>

lemma first_answer_ends_batch:
  assumes "\<forall>f\<in>set fs. payload_fits (bf_payload f)" and "last_ready None fs = Some st"
    and "length (encode_replies fs) \<le> limit" and "bk_write_ok c" and "bk_reads c = BR_Data (encode_replies fs) # later"
  shows "execute_backend_batch frames limit c =
      (Inr st, c\<lparr>bk_reads := later, bk_sent := bk_sent c @ encode_frames frames\<rparr>)"
    and "await_ready_status limit c = (Inr st, c\<lparr>bk_reads := later\<rparr>)"
  using await_ready_first_read [OF assms(1-3)] assms(4,5)
  by (simp_all add: execute_backend_batch_def backend_write_def await_ready_status_def)

lemma encode_backend_le: "x \<in> set fs \<Longrightarrow> length (encode_backend x) \<le> length (encode_replies fs)"
  by (induction fs) auto

lemma reads_of_single:
  assumes "\<forall>x\<in>set fs. payload_fits (bf_payload x)" and "fs \<noteq> []"
  shows "reads_of [encode_replies fs] [] fs (length (encode_replies fs)) (length (encode_replies fs))"
proof -
  have "encode_replies fs \<noteq> []" using assms(2) by (cases fs) (simp_all add: backend_message_def)
  then show ?thesis by (intro reads_of_start) (use assms(1) encode_backend_le [of _ fs] in auto)
qed

text \<open>A client that sends one simple query gets the first answer the backend delivers.\<close>

lemma stale_answer_forwarded:
  assumes "\<forall>x\<in>set (hs @ [g]). payload_fits (bf_payload x)" and "2 * length (encode_replies (hs @ [g])) \<le> limit"
    and "filter is_ready hs = []" and "frame_ready_status g = Some RS_Idle"
  shows "forward_message_cycle backend_id (from_frames [simple_query_frame sql]) 0 limit
      (EV_Backend (encode_replies (hs @ [g])) True # events) [] st =
    \<lparr>mcr_outcome = Inr (FO_Ready RS_Idle), mcr_state = classify_all backend_id (hs @ [g]) st,
     mcr_to_client = encode_replies (hs @ [g]), mcr_to_backend = [], mcr_buffer = []\<rparr>"
proof -
  let ?hs = "hs @ [g]"
  have reads: "reads_of [encode_replies ?hs] [] ?hs (length (encode_replies ?hs)) (length (encode_replies ?hs))"
    by (rule reads_of_single) (use assms(1) in auto)
  have "ready_frames ?hs = cs_expected_ready_count (from_frames [simple_query_frame sql])"
    using assms(3,4) by (simp add: from_frames_def simple_query_frame_def)
  then have "forward_message_cycle backend_id (from_frames [simple_query_frame sql]) 0 limit
      (backend_events [encode_replies ?hs] @ events) [] st =
    \<lparr>mcr_outcome = Inr (FO_Ready RS_Idle), mcr_state = classify_all backend_id (visible 0 ?hs) st,
     mcr_to_client = encode_replies (visible 0 ?hs), mcr_to_backend = [], mcr_buffer = []\<rparr>"
    by (intro forward_cycle_run [OF reads]) (use assms(2,4) in simp_all)
  then show ?thesis by simp
qed

text \<open>C31. The replay of a session's settings waits for one \<open>ReadyForQuery\<close> however many settings it sends.
  When the answer to the first \<open>SET\<close> arrives in a read of its own, the replay is over with the
  answers to the others unread, and the client's query is answered with the answer to the second
  \<open>SET\<close>, its own answer being left for a later cycle.\<close>

theorem replayed_settings_answer_query:
  assumes "vs_has_replayable_settings session" and "pinned_backend_id pinned \<noteq> Some backend_id" and "bk_write_ok c"
    and "bk_reads c = BR_Data (encode_replies (gs @ [f])) # BR_Data (encode_replies (hs @ [g])) # later"
    and "\<forall>x\<in>set ((gs @ [f]) @ (hs @ [g])). payload_fits (bf_payload x)"
    and "length (encode_replies (gs @ [f])) \<le> limit" and "2 * length (encode_replies (hs @ [g])) \<le> limit"
    and "frame_ready_status f = Some RS_Idle" and "filter is_ready hs = []" and "frame_ready_status g = Some RS_Idle"
  shows "replay_before_cycle limit session pinned backend_id c =
      (Inr (), c\<lparr>bk_reads := BR_Data (encode_replies (hs @ [g])) # later,
                bk_sent := bk_sent c @ encode_frames (replay_frames session)\<rparr>) \<and>
    mcr_outcome (forward_message_cycle backend_id (from_frames [simple_query_frame sql]) 0 limit
      (EV_Backend (encode_replies (hs @ [g])) True # events) [] st) = Inr (FO_Ready RS_Idle) \<and>
    mcr_to_client (forward_message_cycle backend_id (from_frames [simple_query_frame sql]) 0 limit
      (EV_Backend (encode_replies (hs @ [g])) True # events) [] st) = encode_replies (hs @ [g])"
proof -
  let ?hs = "hs @ [g]"
  have "last_ready None (gs @ [f]) = Some RS_Idle" using assms(8) by (simp add: last_ready_snoc)
  then have replay: "replay_before_cycle limit session pinned backend_id c =
      (Inr (), c\<lparr>bk_reads := BR_Data (encode_replies ?hs) # later,
                bk_sent := bk_sent c @ encode_frames (replay_frames session)\<rparr>)"
    using first_answer_ends_batch(1) [of "gs @ [f]" RS_Idle limit c _ "replay_frames session"] assms
    by (simp add: replay_before_cycle_def should_replay_session_def ensure_idle_def)
  show ?thesis using replay stale_answer_forwarded [OF _ assms(7,9,10), of backend_id sql events st] assms(5) by auto
qed

abbreviation set_answer :: bytes where
  "set_answer \<equiv> [67, 0, 0, 0, 8, 83, 69, 84, 0, 90, 0, 0, 0, 5, 73]"

theorem replayed_settings_answer_query_witness:
  "mcr_to_client (forward_message_cycle 7 (from_frames [simple_query_frame (lit ''select 1'')]) 0 64
      [EV_Backend set_answer True, EV_Backend [84] True] []
      \<lparr>fcs_session = vs_default, fcs_prepared = catalog_new 1, fcs_progress = query_progress_default\<rparr>) = set_answer \<and>
   fst (replay_before_cycle 64
      (vs_default\<lparr>vs_settings := [(lit ''application_name'', lit ''api''), (lit ''search_path'', lit ''app'')]\<rparr>)
      \<lparr>pinned_backend_id = None\<rparr> 7 (demo_conn [BR_Data set_answer, BR_Data set_answer, BR_Data [84]])) = Inr ()"
  using replayed_settings_answer_query [of
      "vs_default\<lparr>vs_settings := [(lit ''application_name'', lit ''api''), (lit ''search_path'', lit ''app'')]\<rparr>"
      "\<lparr>pinned_backend_id = None\<rparr>" 7 "demo_conn [BR_Data set_answer, BR_Data set_answer, BR_Data [84]]"
      "[complete_frame]" ready_frame "[complete_frame]" ready_frame "[BR_Data [84]]" 64 "lit ''select 1''"
      "[EV_Backend [84] True]"
      "\<lparr>fcs_session = vs_default, fcs_prepared = catalog_new 1, fcs_progress = query_progress_default\<rparr>"]
  by (simp add: conn_eval vs_has_replayable_settings_def)

text \<open>C32. A query that times out outside a transaction gives its backend back too early when the client
  had sent more than one query: the recovery ends with the first answer, the backend is released
  with the other answers unread, and the next client that sends it a query gets the answer to a
  query of the first.\<close>

theorem timed_out_pipeline_answers_next_client:
  assumes "\<not> in_transaction_pin (vs_pin_reason session)"
    and "bk_reads c = BR_Data (encode_replies (gs @ [f])) # BR_Data (encode_replies (hs @ [g])) # later"
    and "\<forall>x\<in>set ((gs @ [f]) @ (hs @ [g])). payload_fits (bf_payload x)"
    and "length (encode_replies (gs @ [f])) \<le> limit" and "2 * length (encode_replies (hs @ [g])) \<le> limit"
    and "frame_ready_status f = Some RS_Idle" and "filter is_ready hs = []" and "frame_ready_status g = Some RS_Idle"
  shows "bo_fate (handle_query_timeout True RM_Recover PM_Transaction started limit session pinned backend_id c) = BF_Released \<and>
    bk_reads (bo_conn (handle_query_timeout True RM_Recover PM_Transaction started limit session pinned backend_id c)) =
      BR_Data (encode_replies (hs @ [g])) # later \<and>
    mcr_to_client (forward_message_cycle backend_id (from_frames [simple_query_frame sql]) 0 limit
      (EV_Backend (encode_replies (hs @ [g])) True # events) [] st) = encode_replies (hs @ [g])"
proof -
  have "last_ready None (gs @ [f]) = Some RS_Idle" using assms(6) by (simp add: last_ready_snoc)
  then have "await_ready_loop limit [] (bk_reads c) = (Inr RS_Idle, BR_Data (encode_replies (hs @ [g])) # later)"
    unfolding assms(2) by (intro await_ready_first_read) (use assms(3,4) in auto)
  then have "recover_backend RT_AbandonedResponse RM_Recover False limit session c =
      (Inr True, session, c\<lparr>bk_reads := BR_Data (encode_replies (hs @ [g])) # later\<rparr>)"
    by (simp add: recover_backend_def drain_for_recovery_def ensure_idle_def await_ready_status_def)
  then show ?thesis
    using assms(1,3) stale_answer_forwarded [OF _ assms(5,7,8), of backend_id sql events st]
    by (simp add: handle_query_timeout_def)
qed

theorem timed_out_pipeline_answers_next_client_witness:
  "bo_fate (handle_query_timeout True RM_Recover PM_Transaction False 64 vs_default \<lparr>pinned_backend_id = None\<rparr> 7
      (demo_conn [BR_Data set_answer, BR_Data set_answer])) = BF_Released"
  using timed_out_pipeline_answers_next_client [of vs_default "demo_conn [BR_Data set_answer, BR_Data set_answer]"
      "[complete_frame]" ready_frame "[complete_frame]" ready_frame "[]" 64 False "\<lparr>pinned_backend_id = None\<rparr>" 7
      "lit ''select 1''" "[]" "\<lparr>fcs_session = vs_default, fcs_prepared = catalog_new 1, fcs_progress = query_progress_default\<rparr>"]
  by (simp add: conn_eval vs_default_def vs_pin_reason_def in_transaction_pin_def)

text \<open>A probe that times out is forgotten: its answer stays ahead in a backend that goes back to the pool.\<close>

lemma silent_probe_released:
  assumes "bk_write_ok c" and "bk_reads c = []" and "0 < limit"
  shows "rr_fate (fst (snd (finish_ready_on reset_query limit
      ((example_request vs_default RS_Idle)\<lparr>rb_committed_write := True, rb_protection_enabled := True\<rparr>) c))) = BF_Released \<and>
    bk_sent (snd (snd (finish_ready_on reset_query limit
      ((example_request vs_default RS_Idle)\<lparr>rb_committed_write := True, rb_protection_enabled := True\<rparr>) c))) =
    bk_sent c @ encode_frontend_frame (simple_query_frame (lit ''SELECT pg_current_wal_lsn()''))"
  using assms
  by (simp add: finish_ready_on_def ready_probe_def probe_read_after_write_requirement_def backend_write_def
      probe_loop.simps example_request_def ready_session_def ready_action_def cleanup_action_def ready_query_def
      vs_default_def vs_set_read_after_write_def vs_mark_ready_after_copy_def vs_pin_reason_def finish_ready_backend_def
      vs_has_replayable_settings_def)

text \<open>C33. A client that ends a cycle with \<open>Flush\<close> and then leaves has its backend released as it is. The
  session knows of no transaction, so that nothing is sent to the backend: neither the \<open>Sync\<close> that
  would end the implicit transaction of the cycle nor a \<open>ROLLBACK\<close>.\<close>

theorem flushed_cycle_released_unsynced:
  assumes "vs_pin_reason (rb_session (fq_ready q)) = None" and "vs_settings (rb_session (fq_ready q)) = []"
  shows "let cycle = handle_forward_result q (Inr FO_Flushed) c;
             end = finalize_backend_on_disconnect (fq_reset_query q) (fq_recovery_mode q) (fq_limit q)
                     (bo_session cycle) (bo_pinned cycle) (bo_conn cycle)
         in bo_fate cycle = BF_Held (rb_backend_id (fq_ready q)) \<and> bo_result cycle = Inr True \<and>
            bo_fate end = BF_Released \<and> bk_sent (bo_conn end) = bk_sent c"
  using assms
  by (simp add: handle_forward_result_def finalize_backend_on_disconnect_def vs_has_replayable_settings_def Let_def)

theorem flushed_cycle_released_unsynced_witness:
  "bo_fate (finalize_backend_on_disconnect (lit ''DISCARD ALL'') RM_Recover 64 vs_default \<lparr>pinned_backend_id = None\<rparr>
     (demo_conn [])) = BF_Released"
  using flushed_cycle_released_unsynced [of "\<lparr>fq_ready = example_request vs_default RS_Idle, fq_reset_query = lit ''DISCARD ALL'',
      fq_recovery_mode = RM_Recover, fq_limit = 64, fq_response_started = True, fq_client_ok = True\<rparr>" "demo_conn []"]
  by (simp add: example_request_def vs_default_def vs_pin_reason_def handle_forward_result_def Let_def)

text \<open>When a client leaves, its backend goes back to the pool exactly when the session left nothing on it,
  or when the reset query or the \<open>ROLLBACK\<close> that removes what it left has ended idle.\<close>

lemma disconnect_release_exact:
  "bo_fate (finalize_backend_on_disconnect reset_query mode limit session pinned c) = BF_Released \<longleftrightarrow>
     (case vs_pin_reason session of
        None \<Rightarrow> vs_settings session = [] \<or> fst (execute_simple_query reset_query limit c) = Inr ()
      | Some reason \<Rightarrow> in_transaction_pin (Some reason) \<and> mode \<noteq> RM_Drop
                       \<and> fst (execute_simple_query (lit ''ROLLBACK'') limit c) = Inr ())"
  by (cases mode; cases "execute_simple_query (lit ''ROLLBACK'') limit c"; cases "execute_simple_query reset_query limit c")
    (auto simp: finalize_backend_on_disconnect_def recover_or_discard_def recover_backend_def rollback_for_recovery_def
      vs_has_replayable_settings_def Let_def split: option.split sum.split)

end
