(* ===== verification/Cancel_Registry.thy ===== *)
theory Cancel_Registry
  imports Frontend_Cycle Interleaving
begin

text \<open>
  Query cancellation, \<open>cancel.rs\<close> of the proxy: the keys issued to clients, the backend each key
  stands for, and the hand-over between a session that gives its backend back and the tasks that
  forward cancel requests to it. The entropy behind the keys is a parameter. The registry's
  operations are given as functions; the accesses to one binding are also given as steps of the
  session and of any number of forwarding tasks.
\<close>

section \<open>The registry\<close>

record 'addr cancel_target =
  ct_backend_addr :: 'addr
  ct_process_id :: i32
  ct_secret_key :: i32

record 'addr cancel_binding =
  cb_target :: "'addr cancel_target option"
  cb_forwarding :: bool

type_synonym client_key = "i32 \<times> i32"

type_synonym 'addr cancel_registry = "client_key \<rightharpoonup> 'addr cancel_binding"

definition cancel_binding_new :: "'addr cancel_binding" where
  "cancel_binding_new = \<lparr>cb_target = None, cb_forwarding = False\<rparr>"

text \<open>
  \<open>issue_client_key\<close> over the digests of the nonces it draws, \<open>None\<close> where no nonce could be drawn.
  The result is the error, or the key with the registry; no result means that the loop still draws.
\<close>

fun issue_client_key ::
  "bytes option list \<Rightarrow> 'addr cancel_registry \<Rightarrow> (unit + client_key \<times> 'addr cancel_registry) option" where
  "issue_client_key [] r = None"
| "issue_client_key (None # digests) r = Some (Inl ())"
| "issue_client_key (Some digest # digests) r =
     (let process_id = i32_at digest 0 AND 0x7fffffff in
      if process_id = 0 then issue_client_key digests r
      else
        (let key = (process_id, i32_at digest 4) in
         if r key = None then Some (Inr (key, r(key \<mapsto> cancel_binding_new)))
         else issue_client_key digests r))"

definition cancel_bind :: "client_key \<Rightarrow> 'addr cancel_target \<Rightarrow> 'addr cancel_registry \<Rightarrow> 'addr cancel_registry" where
  "cancel_bind key target r =
     (case r key of None \<Rightarrow> r | Some b \<Rightarrow> r(key \<mapsto> b\<lparr>cb_target := Some target\<rparr>))"

text \<open>\<open>unbind\<close> up to its wait, and whether it has to wait.\<close>

definition cancel_unbind :: "client_key \<Rightarrow> 'addr cancel_registry \<Rightarrow> bool \<times> 'addr cancel_registry" where
  "cancel_unbind key r =
     (case r key of
        None \<Rightarrow> (False, r)
      | Some b \<Rightarrow> (cb_forwarding b, r(key \<mapsto> b\<lparr>cb_target := None\<rparr>)))"

definition cancel_lookup :: "client_key \<Rightarrow> 'addr cancel_registry \<Rightarrow> 'addr cancel_target option" where
  "cancel_lookup key r = (case r key of None \<Rightarrow> None | Some b \<Rightarrow> cb_target b)"

definition acquire_forwarding ::
  "client_key \<Rightarrow> 'addr cancel_registry \<Rightarrow> 'addr cancel_target option \<times> 'addr cancel_registry" where
  "acquire_forwarding key r =
     (case r key of
        None \<Rightarrow> (None, r)
      | Some b \<Rightarrow>
          if cb_forwarding b then (None, r)
          else (case cb_target b of
                  Some target \<Rightarrow> (Some target, r(key \<mapsto> b\<lparr>cb_forwarding := True\<rparr>))
                | None \<Rightarrow> (None, r)))"

definition drop_lease :: "client_key \<Rightarrow> 'addr cancel_registry \<Rightarrow> 'addr cancel_registry" where
  "drop_lease key r = (case r key of None \<Rightarrow> r | Some b \<Rightarrow> r(key \<mapsto> b\<lparr>cb_forwarding := False\<rparr>))"

definition remove_session :: "client_key \<Rightarrow> 'addr cancel_registry \<Rightarrow> 'addr cancel_registry" where
  "remove_session key r = r(key := None)"

definition registry_cancel_packet :: "i32 \<Rightarrow> i32 \<Rightarrow> bytes" where
  "registry_cancel_packet process_id secret_key =
     put_i32 16 @ put_i32 CANCEL_REQUEST_CODE @ put_i32 process_id @ put_i32 secret_key"

text \<open>
  \<open>forward_cancel\<close> without interference: where the packet is sent, and the packet.
  \<open>connect_ok\<close> is whether the backend takes it.
\<close>

definition forward_cancel ::
  "bool \<Rightarrow> client_key \<Rightarrow> 'addr cancel_registry \<Rightarrow> ('addr \<times> bytes) option \<times> 'addr cancel_registry" where
  "forward_cancel connect_ok key r =
     (case acquire_forwarding key r of
        (None, r') \<Rightarrow> (None, r')
      | (Some t, r') \<Rightarrow>
          (if connect_ok then Some (ct_backend_addr t, registry_cancel_packet (ct_process_id t) (ct_secret_key t)) else None,
           drop_lease key r'))"

section \<open>Keys\<close>

text \<open>A key that is issued was free, names a positive process id, and is bound to nothing; the other
  keys keep their bindings.\<close>

lemma issue_client_key_fresh:
  assumes "issue_client_key digests r = Some (Inr (key, r'))"
  shows "r key = None \<and> r' = r(key \<mapsto> cancel_binding_new) \<and> 0 < sint (fst key)"
proof -
  have pos: "0 < sint (w AND 0x7fffffff)" if "w AND 0x7fffffff \<noteq> 0" for w :: i32
  proof -
    have "\<not> bit (w AND 0x7fffffff) 31" by (simp add: bit_and_iff)
    then have "0 \<le> sint (w AND 0x7fffffff)" using bit_last_iff [of "w AND 0x7fffffff"] by simp
    moreover have "sint (w AND 0x7fffffff) \<noteq> 0"
      using that usize_as_i32_sint [of "w AND 0x7fffffff" 0] by (auto simp: usize_as_i32_def)
    ultimately show ?thesis by linarith
  qed
  show ?thesis using assms
    by (induction digests r rule: issue_client_key.induct) (auto simp: Let_def pos split: if_splits)
qed

lemma issue_client_key_skips:
  "i32_at digest 0 AND 0x7fffffff = 0 \<Longrightarrow> issue_client_key (Some digest # digests) r = issue_client_key digests r"
  by simp

text \<open>C18. A cancel request reaches the backend the session is bound to and no other. A client that was
  issued a key and bound to a backend has its cancel request sent to that backend's address, as a
  packet PostgreSQL reads as a cancel request for that backend's process and secret; once the session
  is unbound or gone the request is sent nowhere.\<close>

theorem cancel_reaches_bound_backend:
  assumes "issue_client_key digests r = Some (Inr (key, r1))" and "r2 = cancel_bind key t r1"
  shows "fst (forward_cancel True key r2) = Some (ct_backend_addr t, registry_cancel_packet (ct_process_id t) (ct_secret_key t))
    \<and> parse_startup_packet (registry_cancel_packet (ct_process_id t) (ct_secret_key t)) =
        Inr (CancelRequest (ct_process_id t) (ct_secret_key t))
    \<and> snd (forward_cancel True key r2) = r2
    \<and> fst (forward_cancel True key (snd (cancel_unbind key r2))) = None
    \<and> fst (forward_cancel True key (remove_session key r2)) = None
    \<and> (\<forall>other. other \<noteq> key \<longrightarrow> cancel_lookup other r2 = cancel_lookup other r)"
proof -
  have "r1 = r(key \<mapsto> cancel_binding_new)" using issue_client_key_fresh [OF assms(1)] by simp
  then have r2: "r2 = r(key \<mapsto> cancel_binding_new\<lparr>cb_target := Some t\<rparr>)"
    using assms(2) by (simp add: cancel_bind_def)
  have "parse_startup_packet (registry_cancel_packet (ct_process_id t) (ct_secret_key t)) =
      Inr (CancelRequest (ct_process_id t) (ct_secret_key t))"
    by (simp add: registry_cancel_packet_def parse_startup_packet_def SSL_REQUEST_CODE_def CANCEL_REQUEST_CODE_def
        GSSENC_REQUEST_CODE_def)
  then show ?thesis
    by (simp add: r2 forward_cancel_def acquire_forwarding_def drop_lease_def cancel_unbind_def remove_session_def
        cancel_lookup_def cancel_binding_new_def)
qed

theorem cancel_reaches_bound_backend_witness:
  "fst (forward_cancel True (1, 2) (cancel_bind (1, 2)
     \<lparr>ct_backend_addr = (5432 :: nat), ct_process_id = 7, ct_secret_key = 9\<rparr> [(1, 2) \<mapsto> cancel_binding_new])) =
   Some (5432, registry_cancel_packet 7 9)"
proof -
  have "issue_client_key [Some [0, 0, 0, 0, 0, 0, 0, 5], Some [0, 0, 0, 1, 0, 0, 0, 2]] Map.empty =
      Some (Inr ((1, 2), [(1, 2) \<mapsto> cancel_binding_new :: nat cancel_binding]))"
    by (simp add: i32_at_def i32_from_be_def Let_def)
  from cancel_reaches_bound_backend [OF this refl, of "\<lparr>ct_backend_addr = 5432, ct_process_id = 7, ct_secret_key = 9\<rparr>"]
  show ?thesis by simp
qed

section \<open>Forwarding and unbinding\<close>

text \<open>
  Where the session of a binding stands: it holds no backend, it holds the backend \<open>t\<close>, or it gives
  \<open>t\<close> back: it clears the target, tests whether a request is being forwarded, asks to be notified,
  and waits.
\<close>

datatype 'addr session_point =
    SP_Unbound
  | SP_Bound "'addr cancel_target"
  | SP_TestForwarding "'addr cancel_target"
  | SP_AskNotified "'addr cancel_target"
  | SP_Waiting "'addr cancel_target"

text \<open>
  Where a forwarding task stands: before the exchange of the flag, before it reads the target, with
  the lease of a target, before it resets the flag, before it notifies.
\<close>

datatype 'addr forward_point =
    FP_Exchange
  | FP_ReadTarget
  | FP_Lease "'addr cancel_target"
  | FP_Reset
  | FP_Notify

type_synonym 'addr cancel_system = "'addr cancel_binding \<times> 'addr session_point \<times> 'addr forward_point multiset"

text \<open>\<open>notify_waiters\<close> wakes the session if it waits, and nobody later.\<close>

fun woken :: "'addr session_point \<Rightarrow> 'addr session_point" where
  "woken (SP_Waiting t) = SP_TestForwarding t"
| "woken p = p"

inductive cancel_step :: "'addr cancel_system \<Rightarrow> 'addr cancel_system \<Rightarrow> bool" where
  request: "cancel_step (b, s, ts) (b, s, add_mset FP_Exchange ts)"
| bind: "s = SP_Unbound \<or> s = SP_Bound t \<Longrightarrow> cancel_step (b, s, ts) (b\<lparr>cb_target := Some t\<rparr>, SP_Bound t, ts)"
| unbind: "cancel_step (b, SP_Bound t, ts) (b\<lparr>cb_target := None\<rparr>, SP_TestForwarding t, ts)"
| test_free: "\<not> cb_forwarding b \<Longrightarrow> cancel_step (b, SP_TestForwarding t, ts) (b, SP_Unbound, ts)"
| test_busy: "cb_forwarding b \<Longrightarrow> cancel_step (b, SP_TestForwarding t, ts) (b, SP_AskNotified t, ts)"
| ask: "cancel_step (b, SP_AskNotified t, ts) (b, SP_Waiting t, ts)"
| exchange_busy: "cb_forwarding b \<Longrightarrow> cancel_step (b, s, add_mset FP_Exchange ts) (b, s, ts)"
| exchange_free: "\<not> cb_forwarding b \<Longrightarrow>
    cancel_step (b, s, add_mset FP_Exchange ts) (b\<lparr>cb_forwarding := True\<rparr>, s, add_mset FP_ReadTarget ts)"
| read_bound: "cb_target b = Some t \<Longrightarrow>
    cancel_step (b, s, add_mset FP_ReadTarget ts) (b, s, add_mset (FP_Lease t) ts)"
| read_unbound: "cb_target b = None \<Longrightarrow>
    cancel_step (b, s, add_mset FP_ReadTarget ts) (b, s, add_mset FP_Reset ts)"
| forwarded: "cancel_step (b, s, add_mset (FP_Lease t) ts) (b, s, add_mset FP_Reset ts)"
| reset: "cancel_step (b, s, add_mset FP_Reset ts) (b\<lparr>cb_forwarding := False\<rparr>, s, add_mset FP_Notify ts)"
| notify: "cancel_step (b, s, add_mset FP_Notify ts) (b, woken s, ts)"

text \<open>The backend the session holds: until \<open>unbind\<close> has returned it is not given back.\<close>

fun held_target :: "'addr session_point \<Rightarrow> 'addr cancel_target option" where
  "held_target SP_Unbound = None"
| "held_target (SP_Bound t) = Some t"
| "held_target (SP_TestForwarding t) = Some t"
| "held_target (SP_AskNotified t) = Some t"
| "held_target (SP_Waiting t) = Some t"

fun is_bound :: "'addr session_point \<Rightarrow> bool" where
  "is_bound (SP_Bound t) = True"
| "is_bound p = False"

text \<open>Tasks between the exchange of the flag and its reset.\<close>

fun forwards :: "'addr forward_point \<Rightarrow> bool" where
  "forwards FP_ReadTarget = True"
| "forwards (FP_Lease t) = True"
| "forwards FP_Reset = True"
| "forwards p = False"

fun cancel_invariant :: "'addr cancel_system \<Rightarrow> bool" where
  "cancel_invariant (b, s, ts) \<longleftrightarrow>
     tasks_where forwards ts = (if cb_forwarding b then 1 else 0) \<and>
     cb_target b = (if is_bound s then held_target s else None) \<and>
     (\<forall>t. FP_Lease t \<in># ts \<longrightarrow> held_target s = Some t)"

lemma held_woken [simp]: "held_target (woken s) = held_target s" "is_bound (woken s) = is_bound s"
  by (cases s; simp)+

lemma lease_forwards: "FP_Lease t \<in># ts \<Longrightarrow> 0 < tasks_where forwards ts"
  by (induction ts) auto

interpretation cancelling: step_invariant cancel_step cancel_invariant
proof
  fix x y :: "'a cancel_system"
  assume "cancel_step x y" and "cancel_invariant x"
  then show "cancel_invariant y"
    by (induction rule: cancel_step.induct) (auto dest: lease_forwards split: if_splits)
qed

definition cancel_start :: "'addr cancel_system" where
  "cancel_start = (cancel_binding_new, SP_Unbound, {#})"

text \<open>C9. A cancel request is only ever sent to the backend its session holds: however requests,
  sessions that bind and unbind, and forwarding tasks interleave, a task that is about to send a
  request to a backend has that backend held until it is done. A backend that has been given back
  is therefore never cancelled on behalf of the client that held it before.\<close>

theorem cancel_hits_held_backend:
  assumes "cancel_step\<^sup>*\<^sup>* cancel_start (b, s, ts)" and "FP_Lease t \<in># ts"
  shows "held_target s = Some t"
  using cancelling.run_invariant [OF assms(1)] assms(2)
  by (simp add: cancel_start_def cancel_binding_new_def)

text \<open>A session that binds, is asked to cancel, and unbinds while the request is forwarded.\<close>

abbreviation demo_target :: "nat cancel_target" where
  "demo_target \<equiv> \<lparr>ct_backend_addr = 5432, ct_process_id = 7, ct_secret_key = 9\<rparr>"

abbreviation demo_binding :: "nat cancel_target option \<Rightarrow> bool \<Rightarrow> nat cancel_binding" where
  "demo_binding target forwarding \<equiv> \<lparr>cb_target = target, cb_forwarding = forwarding\<rparr>"

lemma cancel_run_leased:
  "cancel_step\<^sup>*\<^sup>* cancel_start (demo_binding (Some demo_target) True, SP_Bound demo_target, {#FP_Lease demo_target#})"
proof -
  have "cancel_step\<^sup>*\<^sup>* cancel_start (demo_binding (Some demo_target) False, SP_Bound demo_target, {#})"
    using cancel_step.bind [of SP_Unbound demo_target cancel_binding_new "{#}"]
    by (simp add: cancel_start_def cancel_binding_new_def r_into_rtranclp)
  then have "cancel_step\<^sup>*\<^sup>* cancel_start (demo_binding (Some demo_target) False, SP_Bound demo_target, {#FP_Exchange#})"
    by (rule run_step) (rule request)
  then have "cancel_step\<^sup>*\<^sup>* cancel_start (demo_binding (Some demo_target) True, SP_Bound demo_target, {#FP_ReadTarget#})"
    by (rule run_step) (use exchange_free [of "demo_binding (Some demo_target) False" "SP_Bound demo_target" "{#}"] in simp)
  then show ?thesis by (rule run_step) (rule read_bound, simp)
qed

theorem cancel_hits_held_backend_witness: "held_target (SP_Bound demo_target) = Some demo_target"
  by (rule cancel_hits_held_backend [OF cancel_run_leased]) simp

lemma cancel_run_lost:
  "cancel_step\<^sup>*\<^sup>* cancel_start (demo_binding None False, SP_Waiting demo_target, {#})"
proof -
  have "cancel_step\<^sup>*\<^sup>* cancel_start (demo_binding None True, SP_TestForwarding demo_target, {#FP_Lease demo_target#})"
    by (rule run_step [OF cancel_run_leased])
      (use unbind [of "demo_binding (Some demo_target) True" demo_target] in simp)
  then have "cancel_step\<^sup>*\<^sup>* cancel_start (demo_binding None True, SP_AskNotified demo_target, {#FP_Lease demo_target#})"
    by (rule run_step) (rule test_busy, simp)
  then have "cancel_step\<^sup>*\<^sup>* cancel_start (demo_binding None True, SP_AskNotified demo_target, {#FP_Reset#})"
    by (rule run_step) (rule forwarded)
  then have "cancel_step\<^sup>*\<^sup>* cancel_start (demo_binding None False, SP_AskNotified demo_target, {#FP_Notify#})"
    by (rule run_step) (use reset [of "demo_binding None True" "SP_AskNotified demo_target" "{#}"] in simp)
  then have "cancel_step\<^sup>*\<^sup>* cancel_start (demo_binding None False, SP_AskNotified demo_target, {#})"
    by (rule run_step) (use notify [of "demo_binding None False" "SP_AskNotified demo_target" "{#}"] in simp)
  then show ?thesis by (rule run_step) (rule ask)
qed

inductive_cases cancel_step_waiting: "cancel_step (b, SP_Waiting t, {#}) y"

text \<open>C36. The wake-up of \<open>unbind\<close> can be lost. Between its test of the flag and its call of \<open>notified\<close> the
  forwarding task can reset the flag and notify nobody; the session then waits although no request is
  being forwarded, and the only step left to the whole system is the arrival of another cancel
  request for the same key.\<close>

theorem unbind_wakeup_lost:
  "cancel_step\<^sup>*\<^sup>* cancel_start (demo_binding None False, SP_Waiting demo_target, {#}) \<and>
   cancel_step (demo_binding None False, SP_Waiting demo_target, {#}) y =
     (y = (demo_binding None False, SP_Waiting demo_target, {#FP_Exchange#}))"
  using cancel_run_lost by (auto elim: cancel_step_waiting intro: request)

end
