(* ===== verification/Timestamp.thy ===== *)
theory Timestamp
  imports Rust_Std "HOL-Library.Word"
begin

text \<open>
  The instants a replica reports (\<open>parse_replay_timestamp\<close> and what it calls in
  \<open>observe/health.rs\<close>): milliseconds since the epoch, or a date, a time and a zone offset in
  PostgreSQL's output format. A \<open>SystemTime\<close> is the number of nanoseconds since the epoch. The
  machine arithmetic of the source is kept where it can leave its range: the sum of the time of
  day wraps at 64 bits, the addition of the days is checked, and the final conversion to
  \<open>u64\<close> truncates.

  Shown: the day number is the one of the Gregorian calendar, and a text in PostgreSQL's format
  is read as the instant it denotes.
\<close>

section \<open>Integers\<close>

definition i64_wrap :: "int \<Rightarrow> int" where
  "i64_wrap x = sint (word_of_int x :: 64 word)"

definition fits_i64 :: "int \<Rightarrow> bool" where
  "fits_i64 x \<longleftrightarrow> - (2 ^ 63) \<le> x \<and> x < 2 ^ 63"

lemma i64_wrap_fits [simp]: "fits_i64 x \<Longrightarrow> i64_wrap x = x"
  by (simp add: i64_wrap_def fits_i64_def sint_sbintrunc' signed_take_bit_int_eq_self)

text \<open>\<open>str::parse\<close> at a signed type of the given width.\<close>

definition parse_sint :: "nat \<Rightarrow> rstr \<Rightarrow> int option" where
  "parse_sint w s =
     (let negative = (s \<noteq> [] \<and> hd s = 45);
          digits = (if s \<noteq> [] \<and> (hd s = 45 \<or> hd s = 43) then tl s else s) in
      if digits = [] \<or> \<not> list_all is_ascii_digit digits then None
      else
        let value = (if negative then - int (decimal_value 0 digits) else int (decimal_value 0 digits)) in
        if - (2 ^ (w - 1)) \<le> value \<and> value < 2 ^ (w - 1) then Some value else None)"

section \<open>The day number\<close>

datatype timestamp_error =
    TSE_MissingSeparator
  | TSE_YearInvalid | TSE_MissingMonth | TSE_MonthInvalid | TSE_MissingDay | TSE_DayInvalid
  | TSE_ExtraDateParts
  | TSE_MissingOffset | TSE_OffsetEmpty | TSE_OffsetSign | TSE_OffsetDigits | TSE_OffsetHours
  | TSE_OffsetMinutes | TSE_OffsetShape
  | TSE_HourInvalid | TSE_MissingMinute | TSE_MinuteInvalid | TSE_MissingSeconds | TSE_ExtraTimeParts
  | TSE_SecondInvalid | TSE_FractionInvalid
  | TSE_MonthRange | TSE_DayRange | TSE_SecondsOverflow
  | TSE_Panic

definition days_from_civil :: "int \<Rightarrow> nat \<Rightarrow> nat \<Rightarrow> timestamp_error + int" where
  "days_from_civil year month day =
     (if \<not> (1 \<le> month \<and> month \<le> 12) then Inl TSE_MonthRange
      else if \<not> (1 \<le> day \<and> day \<le> 31) then Inl TSE_DayRange
      else
        let y = year - (if month \<le> 2 then 1 else 0);
            era = y div 400;
            year_of_era = y - era * 400;
            adjusted_month = int month + (if month > 2 then - 3 else 9);
            day_of_year = (153 * adjusted_month + 2) div 5 + int day - 1;
            day_of_era = year_of_era * 365 + year_of_era div 4 - year_of_era div 100 + day_of_year
        in Inr (era * 146097 + day_of_era - 719468))"

section \<open>Parsing\<close>

definition parse_part :: "(rstr \<Rightarrow> 'a option) \<Rightarrow> timestamp_error \<Rightarrow> timestamp_error \<Rightarrow> rstr list
    \<Rightarrow> timestamp_error + ('a \<times> rstr list)" where
  "parse_part parse missing invalid parts =
     (case parts of
        [] \<Rightarrow> Inl missing
      | p # ps \<Rightarrow> and_then (ok_or (parse p) invalid) (\<lambda>v. Inr (v, ps)))"

fun fraction_loop :: "nat \<Rightarrow> nat \<Rightarrow> bytes \<Rightarrow> timestamp_error + (nat \<times> nat)" where
  "fraction_loop nanosecond digits [] = Inr (nanosecond, digits)"
| "fraction_loop nanosecond digits (b # bs) =
     (if digits = 9 then Inr (nanosecond, digits)
      else if 48 \<le> unat b \<and> unat b \<le> 57
      then fraction_loop (nanosecond * 10 + (unat b - 48)) (digits + 1) bs
      else Inl TSE_FractionInvalid)"

function pad_nanosecond :: "nat \<Rightarrow> nat \<Rightarrow> nat" where
  "pad_nanosecond nanosecond digits =
     (if digits < 9 then pad_nanosecond (nanosecond * 10) (digits + 1) else nanosecond)"
  by pat_completeness auto
termination
  by (relation "measure (\<lambda>(n, d). 9 - d)") auto

declare pad_nanosecond.simps [simp del]

definition parse_second_part :: "rstr \<Rightarrow> timestamp_error + (int \<times> nat)" where
  "parse_second_part value =
     (case split_once_char value 46 of
        Some (seconds, fraction) \<Rightarrow>
          and_then (ok_or (parse_sint 64 seconds) TSE_SecondInvalid) (\<lambda>second.
          and_then (fraction_loop 0 0 (as_bytes fraction)) (\<lambda>(nanosecond, digits).
            Inr (second, pad_nanosecond nanosecond digits)))
      | None \<Rightarrow> and_then (ok_or (parse_sint 64 value) TSE_SecondInvalid) (\<lambda>second. Inr (second, 0)))"

definition parse_offset_seconds :: "rstr \<Rightarrow> timestamp_error + int" where
  "parse_offset_seconds offset =
     (if offset = [] then Inl TSE_OffsetEmpty
      else if hd offset \<noteq> 43 \<and> hd offset \<noteq> 45 then Inl TSE_OffsetSign
      else
        let sign = (if hd offset = 43 then 1 else - 1 :: int);
            cleaned = filter (\<lambda>c. c \<noteq> 58) (tl offset)
        in if cleaned = [] then Inl TSE_OffsetDigits
           else if str_len cleaned = 2 then
             and_then (ok_or (parse_sint 64 cleaned) TSE_OffsetHours) (\<lambda>hours. Inr (sign * (hours * 3600)))
           else if str_len cleaned = 4 then
             (case str_split_at 2 cleaned of
                None \<Rightarrow> Inl TSE_Panic
              | Some (h, m) \<Rightarrow>
                  and_then (ok_or (parse_sint 64 h) TSE_OffsetHours) (\<lambda>hours.
                  and_then (ok_or (parse_sint 64 m) TSE_OffsetMinutes) (\<lambda>minutes.
                    Inr (sign * (hours * 3600 + minutes * 60)))))
           else Inl TSE_OffsetShape)"

text \<open>The part before the last sign and the part from it on.\<close>

definition split_last_sign :: "rstr \<Rightarrow> (rstr \<times> rstr) option" where
  "split_last_sign value =
     (let n = length (takeWhile (\<lambda>c. c \<noteq> 43 \<and> c \<noteq> 45) (rev value)) in
      if n = length value then None
      else Some (take (length value - n - 1) value, drop (length value - n - 1) value))"

definition parse_timestamp_offset :: "rstr \<Rightarrow> timestamp_error + (rstr \<times> int)" where
  "parse_timestamp_offset value =
     (if value \<noteq> [] \<and> last value = 90 then Inr (butlast value, 0)
      else
        and_then (ok_or (split_last_sign value) TSE_MissingOffset) (\<lambda>(time_part, offset_part).
        and_then (parse_offset_seconds offset_part) (\<lambda>offset_seconds.
          Inr (time_part, offset_seconds))))"

definition parse_date_part :: "rstr \<Rightarrow> timestamp_error + (int \<times> nat \<times> nat)" where
  "parse_date_part date_part =
     and_then (parse_part (parse_sint 32) TSE_YearInvalid TSE_YearInvalid (split_on (\<lambda>c. c = 45) date_part)) (\<lambda>(year, parts).
     and_then (parse_part (parse_uint 32) TSE_MissingMonth TSE_MonthInvalid parts) (\<lambda>(month, parts).
     and_then (parse_part (parse_uint 32) TSE_MissingDay TSE_DayInvalid parts) (\<lambda>(day, parts).
       if parts \<noteq> [] then Inl TSE_ExtraDateParts else Inr (year, month, day))))"

definition parse_time_part :: "rstr \<Rightarrow> timestamp_error + (int \<times> int \<times> int \<times> nat)" where
  "parse_time_part time_part =
     and_then (parse_part (parse_sint 64) TSE_HourInvalid TSE_HourInvalid (split_on (\<lambda>c. c = 58) time_part)) (\<lambda>(hour, parts).
     and_then (parse_part (parse_sint 64) TSE_MissingMinute TSE_MinuteInvalid parts) (\<lambda>(minute, parts).
     and_then (parse_part Some TSE_MissingSeconds TSE_MissingSeconds parts) (\<lambda>(second_part, parts).
       if parts \<noteq> [] then Inl TSE_ExtraTimeParts
       else and_then (parse_second_part second_part) (\<lambda>(second, nanosecond).
         Inr (hour, minute, second, nanosecond)))))"

definition system_time :: "int \<Rightarrow> int" where
  "system_time total_nanos =
     (if total_nanos \<ge> 0 then total_nanos mod 2 ^ 64 else - ((- total_nanos) mod 2 ^ 64))"

definition parse_postgres_timestamp :: "rstr \<Rightarrow> timestamp_error + int" where
  "parse_postgres_timestamp value =
     and_then (ok_or (split_once_char value 32) TSE_MissingSeparator) (\<lambda>(date_part, time_part).
     and_then (parse_date_part date_part) (\<lambda>(year, month, day).
     and_then (parse_timestamp_offset time_part) (\<lambda>(time_part, offset_seconds).
     and_then (parse_time_part time_part) (\<lambda>(hour, minute, second, nanosecond).
     and_then (days_from_civil year month day) (\<lambda>days.
       let seconds = days * 86400 + i64_wrap (hour * 3600 + minute * 60 + second) in
       if \<not> fits_i64 (days * 86400) \<or> \<not> fits_i64 seconds then Inl TSE_SecondsOverflow
       else Inr (system_time (i64_wrap (seconds - offset_seconds) * 1000000000 + int nanosecond)))))))"

definition parse_replay_timestamp :: "rstr \<Rightarrow> timestamp_error + int" where
  "parse_replay_timestamp text =
     (let value = trim text in
      case parse_uint 64 value of
        Some milliseconds \<Rightarrow> Inr (int milliseconds * 1000000)
      | None \<Rightarrow> parse_postgres_timestamp value)"

section \<open>The Gregorian calendar\<close>

definition leap_year :: "int \<Rightarrow> bool" where
  "leap_year y \<longleftrightarrow> 4 dvd y \<and> (\<not> 100 dvd y \<or> 400 dvd y)"

definition month_lengths :: "int \<Rightarrow> int list" where
  "month_lengths y = [31, if leap_year y then 29 else 28, 31, 30, 31, 30, 31, 31, 30, 31, 30, 31]"

definition valid_date :: "int \<Rightarrow> nat \<Rightarrow> nat \<Rightarrow> bool" where
  "valid_date y m d \<longleftrightarrow> 1 \<le> m \<and> m \<le> 12 \<and> 1 \<le> d \<and> int d \<le> month_lengths y ! (m - 1)"

text \<open>The leap days before the first of January of the year after \<open>y\<close>.\<close>

definition leap_days :: "int \<Rightarrow> int" where
  "leap_days y = y div 4 - y div 100 + y div 400"

text \<open>Days since the first of January of year 1: whole years, whole months, days.\<close>

definition gregorian_day :: "int \<Rightarrow> nat \<Rightarrow> nat \<Rightarrow> int" where
  "gregorian_day y m d =
     365 * (y - 1) + leap_days (y - 1) + sum_list (take (m - 1) (month_lengths y)) + int d - 1"

lemma era_days:
  "y div 400 * 146097 + ((y - y div 400 * 400) * 365 + (y - y div 400 * 400) div 4 - (y - y div 400 * 400) div 100 + k)
    = 365 * y + leap_days y + (k :: int)"
proof -
  define e r where "e = y div 400" and "r = y mod 400"
  have y: "y = 400 * e + r" by (simp add: e_def r_def)
  have q: "y div 4 = 100 * e + r div 4" "y div 100 = 4 * e + r div 100" by (simp_all add: y)
  have "y - e * 400 = r" by (simp add: y)
  then show ?thesis by (simp add: e_def [symmetric] q leap_days_def)
qed

lemma div_step:
  assumes "0 < (n :: int)"
  shows "y div n = (y - 1) div n + (if n dvd y then 1 else 0)"
proof (cases "n dvd y")
  case True
  then obtain k where "y = n * k" by blast
  moreover have "(n * k - 1) div n = k - 1"
    by (rule int_div_pos_eq [where r = "n - 1"]) (use assms in \<open>simp_all add: algebra_simps\<close>)
  ultimately show ?thesis using assms by simp
next
  case False
  have "(y - 1) div n = y div n"
  proof (rule int_div_pos_eq [where r = "y mod n - 1"])
    show "y - 1 = n * (y div n) + (y mod n - 1)" by simp
    show "0 \<le> y mod n - 1" "y mod n - 1 < n"
      using False pos_mod_bound [OF assms, of y] pos_mod_sign [OF assms, of y] unfolding dvd_eq_mod_eq_0
      by linarith+
  qed
  then show ?thesis using False by simp
qed

lemma leap_days_step: "leap_days y = leap_days (y - 1) + (if leap_year y then 1 else 0)"
proof -
  have "leap_days y = leap_days (y - 1) + (of_bool (4 dvd y) - of_bool (100 dvd y) + of_bool (400 dvd y))"
    unfolding leap_days_def div_step [of 4 y, OF zero_less_numeral] div_step [of 100 y, OF zero_less_numeral]
      div_step [of 400 y, OF zero_less_numeral] of_bool_def
    by (simp only: algebra_simps)
  moreover have "100 dvd y \<Longrightarrow> 4 dvd y" "400 dvd y \<Longrightarrow> 100 dvd y"
    using dvd_trans [of 4 100 y] dvd_trans [of 100 400 y] by simp_all
  then have "of_bool (4 dvd y) - of_bool (100 dvd y) + of_bool (400 dvd y) = (if leap_year y then 1 else 0 :: int)"
    by (cases "4 dvd y"; cases "100 dvd y"; cases "400 dvd y") (simp_all add: leap_year_def)
  ultimately show ?thesis by simp
qed

lemma months: "1 \<le> m \<Longrightarrow> m \<le> 12 \<Longrightarrow> m \<in> {1, 2, 3, 4, 5, 6, 7, 8, 9, 10, 11, 12}" for m :: nat
  by (simp add: le_Suc_eq numeral_eq_Suc)

text \<open>The days before each month of a year that begins in March.\<close>

definition march_days :: "nat \<Rightarrow> int" where
  "march_days m = (153 * (int m + (if m > 2 then - 3 else 9)) + 2) div 5"

lemma days_from_civil_eq:
  assumes "1 \<le> m" and "m \<le> 12" and "1 \<le> d" and "d \<le> 31"
  shows "days_from_civil y m d =
    Inr (let y = (if m \<le> 2 then y - 1 else y) in 365 * y + leap_days y + march_days m + int d - 719469)"
proof -
  let ?y = "y - (if m \<le> 2 then 1 else 0)"
  have "days_from_civil y m d = Inr (?y div 400 * 146097 + ((?y - ?y div 400 * 400) * 365 + (?y - ?y div 400 * 400) div 4
      - (?y - ?y div 400 * 400) div 100 + (march_days m + int d - 1)) - 719468)"
    using assms by (simp add: days_from_civil_def Let_def march_days_def)
  then show ?thesis unfolding era_days by (simp add: Let_def)
qed

text \<open>What the months before \<open>m\<close> add, in the year from January and in the year from March.\<close>

lemma months_before:
  assumes "1 \<le> m" and "m \<le> 12"
  shows "sum_list (take (m - 1) (month_lengths y)) =
    (if m \<le> 2 then march_days m - 306 else march_days m + (if leap_year y then 60 else 59))"
  using months [OF assms]
  by (elim insertE emptyE) (simp_all add: month_lengths_def march_days_def)

lemma valid_day: "valid_date y m d \<Longrightarrow> d \<le> 31"
proof -
  assume "valid_date y m d"
  moreover have "month_lengths y ! (m - 1) \<le> 31" if "1 \<le> m" "m \<le> 12"
    using months [OF that] by (elim insertE emptyE) (simp_all add: month_lengths_def)
  ultimately show "d \<le> 31" by (force simp: valid_date_def)
qed

text \<open>The day number of a date is exact: for every date of the proleptic Gregorian calendar it is the
  number of days from the first of January 1970, counted in whole years, months and days.\<close>

lemma days_from_civil_exact:
  assumes "valid_date y m d"
  shows "days_from_civil y m d = Inr (gregorian_day y m d - gregorian_day 1970 1 1)"
proof -
  have m: "1 \<le> m" "m \<le> 12" and d: "1 \<le> d" "d \<le> 31"
    using assms valid_day [OF assms] by (simp_all add: valid_date_def)
  have "gregorian_day 1970 1 1 = 719162" by (simp add: gregorian_day_def leap_days_def)
  then show ?thesis
    using leap_days_step [of y] days_from_civil_eq [OF m d, of y] months_before [OF m, of y]
    by (simp add: gregorian_day_def Let_def)
qed

section \<open>Texts are read as the instants they denote\<close>

definition digit_text :: "rstr \<Rightarrow> bool" where
  "digit_text s \<longleftrightarrow> s \<noteq> [] \<and> list_all is_ascii_digit s"

abbreviation num :: "rstr \<Rightarrow> nat" where
  "num s \<equiv> decimal_value 0 s"

lemma digit_text_not_in: "digit_text s \<Longrightarrow> c < 48 \<or> 57 < c \<Longrightarrow> c \<notin> set s"
  by (auto simp: digit_text_def list_all_iff is_ascii_digit_def)

lemma digit_text_hd: "digit_text s \<Longrightarrow> 48 \<le> hd s \<and> hd s \<le> 57"
  by (cases s) (auto simp: digit_text_def is_ascii_digit_def)

lemma parse_sint_digits: "digit_text s \<Longrightarrow> num s < 2 ^ (w - 1) \<Longrightarrow> parse_sint w s = Some (int (num s))"
  using digit_text_hd [of s] order_trans [of "- (2 ^ (w - 1))" 0 "int (num s)"]
  by (auto simp: parse_sint_def digit_text_def Let_def)

lemma parse_uint_digits: "digit_text s \<Longrightarrow> num s < 2 ^ w \<Longrightarrow> parse_uint w s = Some (num s)"
  using digit_text_hd [of s] by (cases s) (auto simp: parse_uint_def digit_text_def Let_def)

lemma as_bytes_digits: "list_all is_ascii_digit s \<Longrightarrow> map unat (as_bytes s) = s"
  by (induction s) (auto simp: as_bytes_def encode_char_def byte_of_def is_ascii_digit_def unat_of_nat take_bit_nat_eq_self)

lemma fraction_loop_digits:
  "list_all is_ascii_digit s \<Longrightarrow> map unat bs = s \<Longrightarrow> k + length s \<le> 9
    \<Longrightarrow> fraction_loop n k bs = Inr (decimal_value n s, k + length s)"
  by (induction s arbitrary: n k bs) (auto simp: is_ascii_digit_def)

lemma pad_nanosecond_eq: "k + j = 9 \<Longrightarrow> pad_nanosecond n k = n * 10 ^ j"
proof (induction j arbitrary: n k)
  case 0
  then show ?case by (subst pad_nanosecond.simps) simp
next
  case (Suc j)
  then show ?case using Suc.IH [of "k + 1" "n * 10"] by (simp add: pad_nanosecond.simps [of n k])
qed

lemma parse_second_digits:
  assumes "digit_text s" and "num s < 2 ^ 63" and "digit_text f" and "length f \<le> 9"
  shows "parse_second_part (s @ 46 # f) = Inr (int (num s), num f * 10 ^ (9 - length f))"
proof -
  have "split_once_char (s @ 46 # f) 46 = Some (s, f)"
    using digit_text_not_in [OF assms(1), of 46] by (simp add: split_once_char_Some)
  moreover have "fraction_loop 0 0 (as_bytes f) = Inr (num f, length f)"
    using fraction_loop_digits [of f "as_bytes f" 0 0] as_bytes_digits [of f] assms(3,4) by (simp add: digit_text_def)
  ultimately show ?thesis
    using parse_sint_digits [OF assms(1), of 64] assms(2,4) pad_nanosecond_eq [of "length f" "9 - length f" "num f"]
    by (simp add: parse_second_part_def ok_or_def)
qed

lemma split_three:
  assumes "c \<notin> set a" and "c \<notin> set b" and "c \<notin> set d"
  shows "split_on (\<lambda>x. x = c) (a @ c # b @ c # d) = [a, b, d]"
proof -
  have "split_on (\<lambda>x. x = c) d = [d]" using assms(3) by (induction d) auto
  then have "split_on (\<lambda>x. x = c) (b @ c # d) = [b, d]" using assms(2) split_on_append [of b "\<lambda>x. x = c" c d] by auto
  then show ?thesis using assms(1) split_on_append [of a "\<lambda>x. x = c" c "b @ c # d"] by auto
qed

lemma parse_date_digits:
  assumes "digit_text y" and "digit_text m" and "digit_text d" and "num y < 2 ^ 31" and "num m < 2 ^ 32" and "num d < 2 ^ 32"
  shows "parse_date_part (y @ 45 # m @ 45 # d) = Inr (int (num y), num m, num d)"
  using split_three [of 45 y m d] digit_text_not_in [of _ 45] parse_sint_digits [of y 32] parse_uint_digits [of _ 32] assms
  by (simp add: parse_date_part_def parse_part_def ok_or_def)

lemma parse_time_digits:
  assumes "digit_text h" and "digit_text m" and "digit_text s" and "digit_text f" and "length f \<le> 9"
    and "num h < 2 ^ 63" and "num m < 2 ^ 63" and "num s < 2 ^ 63"
  shows "parse_time_part (h @ 58 # m @ 58 # s @ 46 # f) =
    Inr (int (num h), int (num m), int (num s), num f * 10 ^ (9 - length f))"
proof -
  have "58 \<notin> set (s @ 46 # f)" using digit_text_not_in [of s 58] digit_text_not_in [of f 58] assms(3,4) by simp
  then have "split_on (\<lambda>c. c = 58) (h @ 58 # m @ 58 # s @ 46 # f) = [h, m, s @ 46 # f]"
    using split_three [of 58 h m "s @ 46 # f"] digit_text_not_in [of _ 58] assms(1,2) by simp
  then show ?thesis
    using parse_second_digits [OF assms(3,8,4,5)] parse_sint_digits [of _ 64] assms(1,2,6,7)
    by (simp add: parse_time_part_def parse_part_def ok_or_def)
qed

lemma decimal_value_bound: "list_all is_ascii_digit s \<Longrightarrow> decimal_value acc s < (acc + 1) * 10 ^ length s"
proof (induction s arbitrary: acc)
  case (Cons c s)
  then have "decimal_value (acc * 10 + (c - 48)) s < (acc * 10 + (c - 48) + 1) * 10 ^ length s" by simp
  also have "\<dots> \<le> (acc * 10 + 10) * 10 ^ length s"
    using Cons.prems by (intro mult_right_mono) (auto simp: is_ascii_digit_def)
  finally show ?case by (simp add: algebra_simps)
qed simp

lemma num_bound: "digit_text s \<Longrightarrow> num s < 10 ^ length s"
  using decimal_value_bound [of s 0] by (simp add: digit_text_def)

lemma parse_offset_digits:
  assumes "digit_text z" and "length z = 2" and "sign = 43 \<or> sign = 45"
  shows "parse_timestamp_offset (t @ sign # z) = Inr (t, (if sign = 43 then 1 else - 1) * (int (num z) * 3600))"
proof -
  have "num z < 2 ^ 63" using num_bound [OF assms(1)] assms(2) by simp
  moreover have "str_len z = 2"
    using assms(1,2) str_len_ascii [of z] by (force simp: digit_text_def is_ascii_str_def list_all_iff is_ascii_digit_def)
  moreover have "filter (\<lambda>c. c \<noteq> 58) z = z" using digit_text_not_in [OF assms(1), of 58] by (auto simp: filter_id_conv)
  ultimately have offset: "parse_offset_seconds (sign # z) = Inr ((if sign = 43 then 1 else - 1) * (int (num z) * 3600))"
    using assms parse_sint_digits [OF assms(1), of 64]
    by (auto simp: parse_offset_seconds_def Let_def ok_or_def digit_text_def)
  have "\<forall>c\<in>set (rev z). c \<noteq> 43 \<and> c \<noteq> 45" using digit_text_not_in [OF assms(1)] by force
  then have "takeWhile (\<lambda>c. c \<noteq> 43 \<and> c \<noteq> 45) (rev z @ sign # rev t) = rev z"
    using takeWhile_append2 [of "rev z" "\<lambda>c. c \<noteq> 43 \<and> c \<noteq> 45" "sign # rev t"] assms(3) by auto
  then have "split_last_sign (t @ sign # z) = Some (t, sign # z)" by (simp add: split_last_sign_def Let_def)
  moreover have "last z \<noteq> 90" using assms(1) digit_text_not_in [of z 90] last_in_set [of z] by (force simp: digit_text_def)
  ultimately show ?thesis
    using offset assms(1) by (simp add: parse_timestamp_offset_def ok_or_def digit_text_def)
qed

definition timestamp_text :: "rstr \<Rightarrow> rstr \<Rightarrow> rstr \<Rightarrow> rstr \<Rightarrow> rstr \<Rightarrow> rstr \<Rightarrow> rstr \<Rightarrow> rchar \<Rightarrow> rstr \<Rightarrow> rstr" where
  "timestamp_text y m d h mi s f sign z = (y @ 45 # m @ 45 # d) @ 32 # (h @ 58 # mi @ 58 # s @ 46 # f) @ sign # z"

lemma trim_digits:
  assumes "digit_text a" and "digit_text z"
  shows "trim (a @ b @ z) = a @ b @ z"
proof -
  have ws: "\<not> is_whitespace c" if "48 \<le> c" "c \<le> 57" for c using that by (auto simp: is_whitespace_def)
  have hd: "hd (a @ b @ z) = hd a" and ne: "a @ b @ z \<noteq> []" using assms(1) by (simp_all add: digit_text_def)
  then have "trim_start (a @ b @ z) = a @ b @ z"
    using trim_start_same [of "a @ b @ z"] ws digit_text_hd [OF assms(1)] by auto
  moreover obtain z' c where z: "z = z' @ [c]" using assms(2) by (cases z rule: rev_cases) (auto simp: digit_text_def)
  then have "\<not> is_whitespace c" using assms(2) ws by (auto simp: digit_text_def is_ascii_digit_def)
  ultimately show ?thesis by (simp add: trim_def trim_end_def trim_end_pred_def z)
qed

lemma timestamp_text_no_number: "digit_text y \<Longrightarrow> parse_uint 64 (timestamp_text y m d h mi s f sign z) = None"
  using digit_text_hd [of y] by (auto simp: timestamp_text_def parse_uint_def Let_def is_ascii_digit_def digit_text_def)

lemma instant_bounds:
  "0 \<le> X * 1000000000 + n \<Longrightarrow> X * 1000000000 + n < 2 ^ 64 \<Longrightarrow> 0 \<le> n \<Longrightarrow> n < 1000000000
    \<Longrightarrow> - 1 < X \<and> X < 2 ^ 35" for X n :: int
  by simp

text \<open>
  A timestamp in PostgreSQL's output format is read as the instant it denotes: the days of the
  Gregorian calendar since the first of January 1970, the time of day, the zone offset and the
  fraction, to the nanosecond, for every date whose instant a \<open>u64\<close> of nanoseconds can hold.
\<close>

lemma replay_timestamp_read_back:
  assumes "digit_text y" and "digit_text m" and "digit_text d" and "digit_text h" and "digit_text mi" and "digit_text s"
    and "digit_text f" and "length f \<le> 9" and "digit_text z" and "length z = 2" and "sign = 43 \<or> sign = 45"
    and "num y < 2 ^ 31" and "valid_date (int (num y)) (num m) (num d)"
    and "num h < 24" and "num mi < 60" and "num s < 60"
    and "instant = ((gregorian_day (int (num y)) (num m) (num d) - gregorian_day 1970 1 1) * 86400
           + int (num h) * 3600 + int (num mi) * 60 + int (num s)
           - (if sign = 43 then 1 else - 1) * (int (num z) * 3600)) * 1000000000 + int (num f * 10 ^ (9 - length f))"
    and "0 \<le> instant" and "instant < 2 ^ 64"
  shows "parse_replay_timestamp (timestamp_text y m d h mi s f sign z) = Inr instant"
proof -
  let ?text = "timestamp_text y m d h mi s f sign z"
  have trim: "trim ?text = ?text"
    using trim_digits [OF assms(1,9), of "45 # m @ 45 # d @ 32 # h @ 58 # mi @ 58 # s @ 46 # f @ [sign]"]
    by (simp add: timestamp_text_def)
  have split: "split_once_char ?text 32 = Some (y @ 45 # m @ 45 # d, (h @ 58 # mi @ 58 # s @ 46 # f) @ sign # z)"
    using digit_text_not_in [of _ 32] assms(1-3) by (simp add: timestamp_text_def split_once_char_Some)
  have md: "num m < 2 ^ 32" "num d < 2 ^ 32"
    using assms(13) valid_day [OF assms(13)] by (auto simp: valid_date_def)
  define days where "days = gregorian_day (int (num y)) (num m) (num d) - gregorian_day 1970 1 1"
  define nanos where "nanos = num f * 10 ^ (9 - length f)"
  have "nanos < 10 ^ length f * 10 ^ (9 - length f)" unfolding nanos_def using num_bound [OF assms(7)] by simp
  also have "\<dots> = 1000000000" using assms(8) by (simp add: power_add [symmetric])
  finally have n: "int nanos < 1000000000" by simp
  have z: "int (num z) < 100" using num_bound [OF assms(9)] assms(10) by simp
  define offset where "offset = (if sign = 43 then 1 else - 1) * (int (num z) * 3600)"
  define time where "time = int (num h) * 3600 + int (num mi) * 60 + int (num s)"
  have o: "- 360000 < offset" "offset < 360000" and t: "0 \<le> time" "time < 90000"
    using z assms(14-16) by (auto simp: offset_def time_def)
  have inst: "instant = (days * 86400 + time - offset) * 1000000000 + int nanos"
    using assms(17) by (simp add: days_def nanos_def offset_def time_def add_diff_eq add.assoc)
  then have range: "- 1 < days * 86400 + time - offset \<and> days * 86400 + time - offset < 2 ^ 35"
    by (intro instant_bounds [where n = "int nanos"]) (use assms(18,19) n in simp_all)
  have fits: "fits_i64 time" "fits_i64 (days * 86400)" "fits_i64 (days * 86400 + time)" "fits_i64 (days * 86400 + time - offset)"
    using range o t by (simp_all add: fits_i64_def)
  have off: "parse_timestamp_offset ((h @ 58 # mi @ 58 # s @ 46 # f) @ sign # z) = Inr (h @ 58 # mi @ 58 # s @ 46 # f, offset)"
    unfolding offset_def by (rule parse_offset_digits [OF assms(9-11)])
  have tm: "parse_time_part (h @ 58 # mi @ 58 # s @ 46 # f) = Inr (int (num h), int (num mi), int (num s), nanos)"
    unfolding nanos_def by (rule parse_time_digits [OF assms(4-8)]) (use assms(14-16) in simp_all)
  have civil: "days_from_civil (int (num y)) (num m) (num d) = Inr days"
    unfolding days_def by (rule days_from_civil_exact [OF assms(13)])
  have "parse_postgres_timestamp ?text = Inr (system_time ((days * 86400 + time - offset) * 1000000000 + int nanos))"
    using split parse_date_digits [OF assms(1-3,12) md] off tm civil fits
    by (simp add: parse_postgres_timestamp_def ok_or_def time_def Let_def)
  then have "parse_postgres_timestamp ?text = Inr instant"
    unfolding inst [symmetric] using assms(18,19) by (simp add: system_time_def)
  then show ?thesis using trim timestamp_text_no_number [OF assms(1)] by (simp add: parse_replay_timestamp_def)
qed

lemma replay_timestamp_read_back_witness:
  "parse_replay_timestamp (lit ''1970-01-02 01:00:01.5+01'') = Inr 86401500000000"
  using replay_timestamp_read_back [of "lit ''1970''" "lit ''01''" "lit ''02''" "lit ''01''" "lit ''00''" "lit ''01''"
      "lit ''5''" "lit ''01''" 43 86401500000000]
  by (simp add: lit_def digit_text_def is_ascii_digit_def valid_date_def month_lengths_def gregorian_day_def leap_days_def
      timestamp_text_def)

end
