(* ===== verification/Endpoint_Health.thy ===== *)
theory Endpoint_Health
  imports Timestamp Routing_Model Backend_Recovery Lifecycle
begin

text \<open>
  The health of endpoints, \<open>cluster/ha.rs\<close> of the core and \<open>observe/health.rs\<close> of the proxy: the probe
  that asks an endpoint for its role and its replay position, how the outcomes of successive probes
  become a health state and a delay, the store of the last snapshot of every endpoint
  (\<open>observe/snapshot.rs\<close>), and the answers of the health listener. Connecting is a parameter; a
  connection is the list of reads it delivers, and an endpoint that stays silent makes the probe's
  timeout fire. A \<open>SystemTime\<close> is the number of nanoseconds since the epoch.
\<close>

section \<open>States\<close>

datatype endpoint_health = EH_Healthy | EH_Degraded | EH_Unhealthy | EH_Unavailable

fun endpoint_health_as_str :: "endpoint_health \<Rightarrow> rstr" where
  "endpoint_health_as_str EH_Healthy = lit ''healthy''"
| "endpoint_health_as_str EH_Degraded = lit ''degraded''"
| "endpoint_health_as_str EH_Unhealthy = lit ''unhealthy''"
| "endpoint_health_as_str EH_Unavailable = lit ''unavailable''"

interpretation endpoint_health: labelled endpoint_health_as_str
proof unfold_locales
  fix x y show "endpoint_health_as_str x = endpoint_health_as_str y \<Longrightarrow> x = y"
    by (cases x; cases y) (simp_all add: lit_def)
qed

datatype endpoint_role_state = ERS_Primary | ERS_Replica | ERS_Warning | ERS_Unknown

fun endpoint_role_state_as_str :: "endpoint_role_state \<Rightarrow> rstr" where
  "endpoint_role_state_as_str ERS_Primary = lit ''primary''"
| "endpoint_role_state_as_str ERS_Replica = lit ''replica''"
| "endpoint_role_state_as_str ERS_Warning = lit ''warning''"
| "endpoint_role_state_as_str ERS_Unknown = lit ''unknown''"

interpretation endpoint_role_state: labelled endpoint_role_state_as_str
proof unfold_locales
  fix x y show "endpoint_role_state_as_str x = endpoint_role_state_as_str y \<Longrightarrow> x = y"
    by (cases x; cases y) (simp_all add: lit_def)
qed

datatype replica_lag_state = RLG_Unknown | RLG_Fresh | RLG_Lagging

fun replica_lag_state_as_str :: "replica_lag_state \<Rightarrow> rstr" where
  "replica_lag_state_as_str RLG_Unknown = lit ''unknown''"
| "replica_lag_state_as_str RLG_Fresh = lit ''fresh''"
| "replica_lag_state_as_str RLG_Lagging = lit ''lagging''"

interpretation replica_lag_state: labelled replica_lag_state_as_str
proof unfold_locales
  fix x y show "replica_lag_state_as_str x = replica_lag_state_as_str y \<Longrightarrow> x = y"
    by (cases x; cases y) (simp_all add: lit_def)
qed

datatype health_status = HS_Ready | HS_NotReady | HS_Live | HS_Degraded

fun health_status_as_str :: "health_status \<Rightarrow> rstr" where
  "health_status_as_str HS_Ready = lit ''ready''"
| "health_status_as_str HS_NotReady = lit ''not_ready''"
| "health_status_as_str HS_Live = lit ''live''"
| "health_status_as_str HS_Degraded = lit ''degraded''"

interpretation health_status: labelled health_status_as_str
proof unfold_locales
  fix x y show "health_status_as_str x = health_status_as_str y \<Longrightarrow> x = y"
    by (cases x; cases y) (simp_all add: lit_def)
qed


definition endpoint_is_healthy :: "endpoint_health \<Rightarrow> bool" where
  "endpoint_is_healthy h \<longleftrightarrow> h = EH_Healthy"

definition endpoint_is_available :: "endpoint_health \<Rightarrow> bool" where
  "endpoint_is_available h \<longleftrightarrow> h \<noteq> EH_Unavailable"

record split_brain_warning =
  sbw_expected_role :: backend_role
  sbw_observed_role :: backend_role

record health_probe_outcome =
  hpo_state :: endpoint_health
  hpo_recovered :: bool
  hpo_consecutive_failures :: nat

record role_probe_outcome =
  rpo_state :: endpoint_role_state
  rpo_warning :: "split_brain_warning option"

datatype probe_error =
    HPE_Connect
  | HPE_Query query_error
  | HPE_UnexpectedRole rstr
  | HPE_NoRows
  | HPE_ReplayLsn lsn_parse_error
  | HPE_ReplayTimestamp timestamp_error
  | HPE_TimedOut

record 'addr endpoint_health_snapshot =
  ehs_endpoint_id :: nat
  ehs_endpoint_addr :: 'addr
  ehs_expected_role :: backend_role
  ehs_health :: health_probe_outcome
  ehs_role :: role_probe_outcome
  ehs_replay_lsn :: "pg_lsn option"
  ehs_replay_timestamp :: "int option"
  ehs_lag_duration :: "int option"
  ehs_lag_state :: replica_lag_state
  ehs_last_successful_probe_at :: "int option"
  ehs_last_error :: "probe_error option"

definition endpoint_health_snapshot_new :: "nat \<Rightarrow> 'addr \<Rightarrow> backend_role \<Rightarrow> 'addr endpoint_health_snapshot" where
  "endpoint_health_snapshot_new endpoint_id addr role =
     \<lparr>ehs_endpoint_id = endpoint_id, ehs_endpoint_addr = addr, ehs_expected_role = role,
      ehs_health = \<lparr>hpo_state = EH_Unhealthy, hpo_recovered = False, hpo_consecutive_failures = 0\<rparr>,
      ehs_role = \<lparr>rpo_state = ERS_Unknown, rpo_warning = None\<rparr>, ehs_replay_lsn = None, ehs_replay_timestamp = None,
      ehs_lag_duration = None, ehs_lag_state = RLG_Unknown, ehs_last_successful_probe_at = None, ehs_last_error = None\<rparr>"

record probe_observation =
  po_observed_role :: backend_role
  po_replay_lsn :: "pg_lsn option"
  po_replay_timestamp :: "int option"
  po_lag_duration :: "int option"
  po_lag_state :: replica_lag_state
  po_last_successful_probe_at :: int

definition observation_primary :: "backend_role \<Rightarrow> int \<Rightarrow> probe_observation" where
  "observation_primary role now =
     \<lparr>po_observed_role = role, po_replay_lsn = None, po_replay_timestamp = None, po_lag_duration = None,
      po_lag_state = RLG_Unknown, po_last_successful_probe_at = now\<rparr>"

section \<open>Queries of the probe\<close>

fun parse_probe_columns :: "nat \<Rightarrow> bytes \<Rightarrow> query_error + rstr option list option" where
  "parse_probe_columns 0 payload = Inr (Some [])"
| "parse_probe_columns (Suc n) payload =
     (case get_i32 payload of
        None \<Rightarrow> Inr None
      | Some (len, payload) \<Rightarrow>
          if sint len < 0 then
            and_then (parse_probe_columns n payload) (\<lambda>vs. Inr (map_option (\<lambda>vs. None # vs) vs))
          else if length payload < nat (sint len) then Inr None
          else (case from_utf8 (take (nat (sint len)) payload) of
             None \<Rightarrow> Inl QE_Utf8
           | Some value \<Rightarrow>
               and_then (parse_probe_columns n (drop (nat (sint len)) payload))
                 (\<lambda>vs. Inr (map_option (\<lambda>vs. Some value # vs) vs))))"

definition parse_probe_row :: "bytes \<Rightarrow> query_error + rstr option list option" where
  "parse_probe_row payload =
     (case get_i16 payload of
        None \<Rightarrow> Inr None
      | Some (columns, payload) \<Rightarrow>
          if sint columns \<le> 0 then Inr None else parse_probe_columns (nat (sint columns)) payload)"

type_synonym probe_row = "rstr option list option"

function probe_query_frames ::
  "probe_row \<Rightarrow> bytes \<Rightarrow> (query_error + probe_row) option \<times> probe_row \<times> bytes" where
  "probe_query_frames row buffer =
     (case parse_backend_frame buffer of
        (Inl e, rest) \<Rightarrow> (Some (Inl (QE_Wire e)), row, rest)
      | (Inr None, rest) \<Rightarrow> (None, row, rest)
      | (Inr (Some frame), rest) \<Rightarrow>
          if bf_tag frame = backend_tag_byte BE_DataRow \<and> row = None then
            (case parse_probe_row (bf_payload frame) of
               Inl e \<Rightarrow> (Some (Inl e), row, rest)
             | Inr row' \<Rightarrow> probe_query_frames row' rest)
          else if bf_tag frame = backend_tag_byte BE_ErrorResponse then (Some (Inl QE_ErrorResponse), row, rest)
          else if bf_tag frame = backend_tag_byte BE_ReadyForQuery then (Some (Inr row), row, rest)
          else probe_query_frames row rest)"
  by pat_completeness auto
termination
  by (relation "measure (length \<circ> snd)") (auto dest: be_parser.parse_shrinks [OF sym])

declare probe_query_frames.simps [simp del]

fun probe_query_loop :: "probe_row \<Rightarrow> bytes \<Rightarrow> backend_read list \<Rightarrow> (query_error + probe_row) \<times> backend_read list" where
  "probe_query_loop row buffer [] = (Inl QE_Silent, [])"
| "probe_query_loop row buffer (BR_Error # reads) = (Inl QE_Read, reads)"
| "probe_query_loop row buffer (BR_Data bs # reads) =
     (if bs = [] then (Inl QE_Disconnected, reads)
      else case probe_query_frames row (buffer @ bs) of
        (Some result, row', rest) \<Rightarrow> (result, reads)
      | (None, row', rest) \<Rightarrow> probe_query_loop row' rest reads)"

definition simple_query_packet :: "rstr \<Rightarrow> bytes" where
  "simple_query_packet sql =
     frontend_tag_byte FE_Query # put_i32 (usize_as_i32 (str_len sql + 5)) @ as_bytes sql @ [0]"

definition health_startup_packet :: "rstr \<Rightarrow> rstr \<Rightarrow> bytes" where
  "health_startup_packet user database =
     (let body = put_i32 protocol_version_to_i32 @ as_bytes (lit ''user'') @ [0] @ as_bytes user @ [0]
                   @ as_bytes (lit ''database'') @ [0] @ as_bytes database @ [0]
                   @ as_bytes (lit ''application_name'') @ [0] @ as_bytes (lit ''pg-kinetic-health'') @ [0] @ [0]
      in put_i32 (usize_as_i32 (length body + 4)) @ body)"

definition execute_probe_query :: "rstr \<Rightarrow> backend_conn \<Rightarrow> (probe_error + probe_row) \<times> backend_conn" where
  "execute_probe_query sql c =
     (case backend_write (simple_query_packet sql) c of
        (Inl e, c') \<Rightarrow> (Inl (HPE_Query e), c')
      | (Inr _, c') \<Rightarrow>
          (let (result, reads) = probe_query_loop None [] (bk_reads c')
           in (case result of Inl e \<Rightarrow> Inl (HPE_Query e) | Inr row \<Rightarrow> Inr row, c'\<lparr>bk_reads := reads\<rparr>)))"

section \<open>The probe\<close>

definition parse_replay_lsn :: "rstr \<Rightarrow> lsn_parse_error + pg_lsn" where
  "parse_replay_lsn value = lsn_from_str (trim value)"

text \<open>The column of a row, if there is a row, it has the column, and the column is not null.\<close>

definition row_column :: "nat \<Rightarrow> probe_row \<Rightarrow> rstr option" where
  "row_column i row = (case row of None \<Rightarrow> None | Some vs \<Rightarrow> if i < length vs then vs ! i else None)"

definition observed_role_of :: "probe_row \<Rightarrow> probe_error + backend_role" where
  "observed_role_of row =
     (case row_column 0 row of
        None \<Rightarrow> Inl HPE_NoRows
      | Some v \<Rightarrow>
          if v = lit ''t'' \<or> v = lit ''true'' \<or> v = lit ''1'' then Inr BR_Replica
          else if v = lit ''f'' \<or> v = lit ''false'' \<or> v = lit ''0'' then Inr BR_Primary
          else Inl (HPE_UnexpectedRole v))"

definition lag_state_of :: "nat \<Rightarrow> int option \<Rightarrow> replica_lag_state" where
  "lag_state_of max_replica_lag_ms lag =
     (case lag of
        None \<Rightarrow> RLG_Unknown
      | Some d \<Rightarrow> if d div 1000000 > int max_replica_lag_ms then RLG_Lagging else RLG_Fresh)"

definition replica_observation :: "nat \<Rightarrow> int \<Rightarrow> probe_row \<Rightarrow> probe_error + probe_observation" where
  "replica_observation max_replica_lag_ms now row =
     and_then (case row_column 0 row of
        None \<Rightarrow> Inr None
      | Some v \<Rightarrow> (case parse_replay_lsn v of Inl e \<Rightarrow> Inl (HPE_ReplayLsn e) | Inr lsn \<Rightarrow> Inr (Some lsn))) (\<lambda>lsn.
     and_then (case row_column 1 row of
        None \<Rightarrow> Inr None
      | Some v \<Rightarrow> (case parse_replay_timestamp v of Inl e \<Rightarrow> Inl (HPE_ReplayTimestamp e) | Inr t \<Rightarrow> Inr (Some t))) (\<lambda>timestamp.
       let lag = (case timestamp of None \<Rightarrow> None | Some t \<Rightarrow> if t \<le> now then Some (now - t) else None)
       in Inr \<lparr>po_observed_role = BR_Replica, po_replay_lsn = lsn, po_replay_timestamp = timestamp, po_lag_duration = lag,
               po_lag_state = lag_state_of max_replica_lag_ms lag, po_last_successful_probe_at = now\<rparr>))"

definition run_probe ::
  "bool \<Rightarrow> rstr \<Rightarrow> rstr \<Rightarrow> nat \<Rightarrow> int \<Rightarrow> backend_conn \<Rightarrow> (probe_error + probe_observation) \<times> backend_conn" where
  "run_probe connect_ok user database max_replica_lag_ms now c =
     (if \<not> connect_ok then (Inl HPE_Connect, c)
      else case backend_write (health_startup_packet user database) c of
        (Inl e, c) \<Rightarrow> (Inl (HPE_Query e), c)
      | (Inr _, c) \<Rightarrow>
          (case execute_probe_query (lit ''SELECT 1'') c of
             (Inl e, c) \<Rightarrow> (Inl e, c)
           | (Inr _, c) \<Rightarrow>
               (case execute_probe_query (lit ''SELECT pg_is_in_recovery()'') c of
                  (Inl e, c) \<Rightarrow> (Inl e, c)
                | (Inr role, c) \<Rightarrow>
                    (case observed_role_of role of
                       Inl e \<Rightarrow> (Inl e, c)
                     | Inr observed \<Rightarrow>
                         if observed \<noteq> BR_Replica then (Inr (observation_primary observed now), c)
                         else (case execute_probe_query
                                  (lit ''SELECT pg_last_wal_replay_lsn(), pg_last_xact_replay_timestamp()'') c of
                                 (Inl e, c) \<Rightarrow> (Inl e, c)
                               | (Inr row, c) \<Rightarrow> (replica_observation max_replica_lag_ms now row, c))))))"

definition role_outcome :: "backend_role \<Rightarrow> backend_role \<Rightarrow> role_probe_outcome" where
  "role_outcome expected observed =
     (if expected = observed then
        \<lparr>rpo_state = (case observed of BR_Primary \<Rightarrow> ERS_Primary | BR_Replica \<Rightarrow> ERS_Replica | BR_Unknown \<Rightarrow> ERS_Unknown),
         rpo_warning = None\<rparr>
      else \<lparr>rpo_state = ERS_Warning,
            rpo_warning = Some \<lparr>sbw_expected_role = expected, sbw_observed_role = observed\<rparr>\<rparr>)"

definition UNAVAILABLE_FAILURE_THRESHOLD :: nat where
  "UNAVAILABLE_FAILURE_THRESHOLD = 3"

definition sat_add32 :: "nat \<Rightarrow> nat \<Rightarrow> nat" where
  "sat_add32 a b = min (a + b) (2 ^ 32 - 1)"

text \<open>The two failing branches of \<open>probe_once\<close>, which differ in the state below the threshold.\<close>

definition failed_snapshot ::
  "endpoint_health \<Rightarrow> probe_error \<Rightarrow> 'addr endpoint_health_snapshot \<Rightarrow> 'addr endpoint_health_snapshot" where
  "failed_snapshot below e snapshot =
     (let failures = sat_add32 (hpo_consecutive_failures (ehs_health snapshot)) 1
      in snapshot\<lparr>ehs_health := \<lparr>hpo_state = (if failures \<ge> UNAVAILABLE_FAILURE_THRESHOLD then EH_Unavailable else below),
                               hpo_recovered = False, hpo_consecutive_failures = failures\<rparr>,
                  ehs_role := \<lparr>rpo_state = ERS_Unknown, rpo_warning = None\<rparr>, ehs_replay_lsn := None,
                  ehs_replay_timestamp := None, ehs_lag_duration := None, ehs_lag_state := RLG_Unknown,
                  ehs_last_error := Some e\<rparr>)"

definition probe_once ::
  "probe_error + probe_observation \<Rightarrow> 'addr endpoint_health_snapshot \<Rightarrow> 'addr endpoint_health_snapshot" where
  "probe_once outcome snapshot =
     (case outcome of
        Inr obs \<Rightarrow>
          snapshot\<lparr>ehs_health := \<lparr>hpo_state = EH_Healthy,
                                 hpo_recovered = (\<not> endpoint_is_healthy (hpo_state (ehs_health snapshot))),
                                 hpo_consecutive_failures = 0\<rparr>,
                   ehs_role := role_outcome (ehs_expected_role snapshot) (po_observed_role obs),
                   ehs_replay_lsn := po_replay_lsn obs, ehs_replay_timestamp := po_replay_timestamp obs,
                   ehs_lag_duration := po_lag_duration obs, ehs_lag_state := po_lag_state obs,
                   ehs_last_successful_probe_at := Some (po_last_successful_probe_at obs), ehs_last_error := None\<rparr>
      | Inl (HPE_Query QE_Silent) \<Rightarrow> failed_snapshot EH_Degraded HPE_TimedOut snapshot
      | Inl e \<Rightarrow> failed_snapshot EH_Unhealthy e snapshot)"

text \<open>Delays in nanoseconds; \<open>Duration::saturating_mul\<close> stops at the largest duration.\<close>

definition duration_max :: nat where
  "duration_max = 2 ^ 64 * 1000000000 - 1"

definition backoff_delay :: "nat \<Rightarrow> 'addr endpoint_health_snapshot \<Rightarrow> nat" where
  "backoff_delay probe_interval snapshot =
     (if endpoint_is_healthy (hpo_state (ehs_health snapshot)) then probe_interval
      else min duration_max (probe_interval * 2 ^ min (hpo_consecutive_failures (ehs_health snapshot) - 1) 4))"

section \<open>The store of snapshots\<close>

type_synonym 'addr replica_health_store = "(nat, 'addr endpoint_health_snapshot) btree_map"

definition set_replica_health_snapshot ::
  "'addr endpoint_health_snapshot \<Rightarrow> 'addr replica_health_store \<Rightarrow> 'addr replica_health_store" where
  "set_replica_health_snapshot snapshot store = bt_insert (ehs_endpoint_id snapshot) snapshot store"

definition remove_replica_health_snapshot ::
  "nat \<Rightarrow> 'addr replica_health_store \<Rightarrow> 'addr endpoint_health_snapshot option \<times> 'addr replica_health_store" where
  "remove_replica_health_snapshot endpoint_id store = (map_of store endpoint_id, bt_remove endpoint_id store)"

definition replica_health_snapshots :: "'addr replica_health_store \<Rightarrow> 'addr endpoint_health_snapshot list" where
  "replica_health_snapshots store = sort_key ehs_endpoint_id (map snd store)"

section \<open>The health listener\<close>

fun status_to_u8 :: "health_status \<Rightarrow> u8" where
  "status_to_u8 HS_Ready = 0"
| "status_to_u8 HS_NotReady = 1"
| "status_to_u8 HS_Live = 2"
| "status_to_u8 HS_Degraded = 3"

definition status_from_u8 :: "u8 \<Rightarrow> health_status" where
  "status_from_u8 b = (if b = 0 then HS_Ready else if b = 1 then HS_NotReady else if b = 2 then HS_Live else HS_Degraded)"

text \<open>\<open>refresh_once\<close>: the status that is stored for the result of connecting, \<open>None\<close> on a timeout.\<close>

definition refresh_once :: "bool option \<Rightarrow> u8" where
  "refresh_once connected = status_to_u8 (case connected of Some True \<Rightarrow> HS_Ready | _ \<Rightarrow> HS_NotReady)"

record health_snapshot =
  hs_process :: health_status
  hs_ready :: health_status
  hs_drain_state :: drain_state
  hs_active_clients :: nat
  hs_backend_health :: health_status

definition health_is_ready :: "drain_controller \<Rightarrow> u8 \<Rightarrow> bool" where
  "health_is_ready dc status \<longleftrightarrow> dc_is_accepting dc \<and> status_from_u8 status = HS_Ready"

definition take_health_snapshot :: "drain_controller \<Rightarrow> u8 \<Rightarrow> health_snapshot" where
  "take_health_snapshot dc status =
     \<lparr>hs_process = HS_Live, hs_ready = (if health_is_ready dc status then HS_Ready else HS_NotReady),
      hs_drain_state = dc_state dc, hs_active_clients = dc_active_clients dc,
      hs_backend_health = status_from_u8 status\<rparr>"

fun drain_state_as_str :: "drain_state \<Rightarrow> rstr" where
  "drain_state_as_str DS_Accepting = lit ''accepting''"
| "drain_state_as_str DS_Draining = lit ''draining''"
| "drain_state_as_str DS_Drained = lit ''drained''"

text \<open>The read loop of a request: \<open>None\<close> for a failed read, nothing more to read at the end of the list.\<close>

definition has_blank_line :: "bytes \<Rightarrow> bool" where
  "has_blank_line buffer \<longleftrightarrow> (\<exists>i\<in>{0..<length buffer}. take 4 (drop i buffer) = [13, 10, 13, 10])"

fun read_request :: "bytes \<Rightarrow> bytes option list \<Rightarrow> bytes option" where
  "read_request buffer [] = Some buffer"
| "read_request buffer (None # reads) = None"
| "read_request buffer (Some chunk # reads) =
     (if chunk = [] then Some buffer
      else
        let buffer = buffer @ chunk in
        if length buffer \<ge> 4 \<and> has_blank_line buffer then Some buffer
        else if length buffer > 8 * 1024 then Some buffer
        else read_request buffer reads)"

text \<open>The first item of \<open>str::lines\<close>: a carriage return belongs to the line end it precedes.\<close>

definition first_line :: "rstr \<Rightarrow> rstr option" where
  "first_line s =
     (if s = [] then None
      else
        let line = takeWhile (\<lambda>c. c \<noteq> 10) s in
        Some (if length line < length s \<and> line \<noteq> [] \<and> last line = 13 then butlast line else line))"

definition request_path :: "bytes \<Rightarrow> rstr option" where
  "request_path request =
     (case from_utf8 request of
        None \<Rightarrow> None
      | Some request \<Rightarrow>
          (case first_line request of
             None \<Rightarrow> None
           | Some line \<Rightarrow>
               (case split_whitespace line of
                  method # path # _ \<Rightarrow> if method = lit ''GET'' then Some path else None
                | _ \<Rightarrow> None)))"

abbreviation crlf :: rstr where
  "crlf \<equiv> [13, 10]"

definition http_response :: "nat \<Rightarrow> rstr \<Rightarrow> rstr \<Rightarrow> bytes" where
  "http_response status content_type body =
     (let reason = (if status = 404 then lit ''Not Found'' else if status = 503 then lit ''Service Unavailable''
                    else lit ''OK'')
      in as_bytes (lit ''HTTP/1.1 '' @ fmt_decimal status @ lit '' '' @ reason @ crlf
           @ lit ''Content-Type: '' @ content_type @ crlf
           @ lit ''Content-Length: '' @ fmt_decimal (str_len body) @ crlf
           @ lit ''Connection: close'' @ crlf @ crlf @ body))"

definition text_response :: "nat \<Rightarrow> rstr \<Rightarrow> bytes" where
  "text_response status body = http_response status (lit ''text/plain; charset=utf-8'') body"

definition json_response :: "nat \<Rightarrow> rstr \<Rightarrow> bytes" where
  "json_response status body = http_response status (lit ''application/json; charset=utf-8'') body"

definition snapshot_body :: "health_snapshot \<Rightarrow> rstr" where
  "snapshot_body s =
     lit ''{\"process\":\"'' @ health_status_as_str (hs_process s)
     @ lit ''\",\"ready\":\"'' @ health_status_as_str (hs_ready s)
     @ lit ''\",\"drain_state\":\"'' @ drain_state_as_str (hs_drain_state s)
     @ lit ''\",\"active_clients\":'' @ fmt_decimal (hs_active_clients s)
     @ lit '',\"backend_health\":\"'' @ health_status_as_str (hs_backend_health s) @ lit ''\"}''"

definition health_answer :: "drain_controller \<Rightarrow> u8 \<Rightarrow> bytes \<Rightarrow> bytes" where
  "health_answer dc status request =
     (let path = (case request_path request of None \<Rightarrow> lit ''/'' | Some p \<Rightarrow> p);
          snapshot = take_health_snapshot dc status
      in if path = lit ''/healthz'' then text_response 200 (health_status_as_str (hs_process snapshot))
         else if path = lit ''/readyz'' then
           text_response (if hs_ready snapshot = HS_Ready then 200 else 503) (health_status_as_str (hs_ready snapshot))
         else if path = lit ''/state'' then json_response 200 (snapshot_body snapshot)
         else text_response 404 (lit ''not_found''))"

section \<open>Health follows the probes\<close>

lemma status_u8_roundtrip: "status_from_u8 (status_to_u8 s) = s"
  by (cases s) (simp_all add: status_from_u8_def)

text \<open>The failures since the last probe that reached the endpoint.\<close>

fun trailing_failures :: "(probe_error + probe_observation) list \<Rightarrow> nat" where
  "trailing_failures [] = 0"
| "trailing_failures (Inl e # history) = Suc (trailing_failures history)"
| "trailing_failures (Inr obs # history) = 0"

text \<open>The snapshot after a history of probes, the latest first.\<close>

fun probe_history :: "'addr endpoint_health_snapshot \<Rightarrow> (probe_error + probe_observation) list \<Rightarrow> 'addr endpoint_health_snapshot" where
  "probe_history start [] = start"
| "probe_history start (outcome # history) = probe_once outcome (probe_history start history)"

fun expected_health :: "(probe_error + probe_observation) list \<Rightarrow> endpoint_health" where
  "expected_health [] = EH_Unhealthy"
| "expected_health (Inr obs # history) = EH_Healthy"
| "expected_health (Inl e # history) =
     (if trailing_failures history \<ge> 2 then EH_Unavailable
      else if e = HPE_Query QE_Silent then EH_Degraded else EH_Unhealthy)"

lemma failed_snapshot_fields [simp]:
  "hpo_consecutive_failures (ehs_health (failed_snapshot below e s)) =
     sat_add32 (hpo_consecutive_failures (ehs_health s)) 1"
  "hpo_state (ehs_health (failed_snapshot below e s)) =
     (if sat_add32 (hpo_consecutive_failures (ehs_health s)) 1 \<ge> 3 then EH_Unavailable else below)"
  "ehs_replay_lsn (failed_snapshot below e s) = None" "ehs_expected_role (failed_snapshot below e s) = ehs_expected_role s"
  by (simp_all add: failed_snapshot_def Let_def UNAVAILABLE_FAILURE_THRESHOLD_def)

lemma probe_once_failed:
  "probe_once (Inl e) s =
     (if e = HPE_Query QE_Silent then failed_snapshot EH_Degraded HPE_TimedOut s else failed_snapshot EH_Unhealthy e s)"
  by (auto simp: probe_once_def split: probe_error.split query_error.split)

lemma probe_history_failures:
  "hpo_consecutive_failures (ehs_health (probe_history (endpoint_health_snapshot_new i a r) history)) =
     min (trailing_failures history) (2 ^ 32 - 1)"
  by (induction history rule: trailing_failures.induct)
    (auto simp: endpoint_health_snapshot_new_def probe_once_failed probe_once_def [of "Inr _"] sat_add32_def)

lemma backoff_bounds:
  assumes "probe_interval * 16 \<le> duration_max"
  shows "probe_interval \<le> backoff_delay probe_interval s \<and> backoff_delay probe_interval s \<le> 16 * probe_interval"
proof -
  let ?m = "2 ^ min (hpo_consecutive_failures (ehs_health s) - 1) 4 :: nat"
  have "?m \<le> 2 ^ 4" by (rule power_increasing) simp_all
  then have "probe_interval * ?m \<le> probe_interval * 16" by (intro mult_le_mono2) simp
  moreover from this have "min duration_max (probe_interval * ?m) = probe_interval * ?m" using assms by (intro min_absorb2) linarith
  ultimately show ?thesis by (simp add: backoff_delay_def mult.commute)
qed

text \<open>C25. The health of an endpoint is a function of its last probes: after any history the snapshot
  counts the failures since the last success, up to the largest \<open>u32\<close>; it is healthy exactly after a
  success, unavailable from the third failure in a row on, and before that degraded after a timeout
  and unhealthy after an error. A replay position is reported only while the endpoint is healthy, and
  the delay to the next probe stays between the interval and sixteen times the interval.\<close>

theorem endpoint_health_exact:
  assumes "probe_interval * 16 \<le> duration_max"
  shows "let s = probe_history (endpoint_health_snapshot_new i a r) history in
    hpo_consecutive_failures (ehs_health s) = min (trailing_failures history) (2 ^ 32 - 1) \<and>
    hpo_state (ehs_health s) = expected_health history \<and>
    (ehs_replay_lsn s \<noteq> None \<longrightarrow> hpo_state (ehs_health s) = EH_Healthy) \<and>
    probe_interval \<le> backoff_delay probe_interval s \<and> backoff_delay probe_interval s \<le> 16 * probe_interval"
proof -
  let ?s = "probe_history (endpoint_health_snapshot_new i a r)"
  have state: "hpo_state (ehs_health (?s history)) = expected_health history"
  proof (cases history rule: expected_health.cases)
    case (3 e h)
    then show ?thesis
      using probe_history_failures [of i a r h] by (auto simp: probe_once_failed sat_add32_def)
  qed (auto simp: endpoint_health_snapshot_new_def probe_once_def)
  have lsn: "ehs_replay_lsn (?s history) \<noteq> None \<longrightarrow> hpo_state (ehs_health (?s history)) = EH_Healthy"
    by (cases history rule: expected_health.cases)
      (auto simp: endpoint_health_snapshot_new_def probe_once_failed probe_once_def [of "Inr _"])
  have "probe_interval \<le> backoff_delay probe_interval s \<and> backoff_delay probe_interval s \<le> 16 * probe_interval"
    for s :: "'a endpoint_health_snapshot" using assms by (rule backoff_bounds)
  then show ?thesis using state lsn probe_history_failures [of i a r history] by (simp add: Let_def)
qed

theorem endpoint_health_exact_witness:
  "expected_health [Inl HPE_NoRows, Inl (HPE_Query QE_Silent), Inl HPE_Connect, Inr (observation_primary BR_Primary 0)] =
     hpo_state (ehs_health (probe_history (endpoint_health_snapshot_new 1 (5432 :: nat) BR_Primary)
       [Inl HPE_NoRows, Inl (HPE_Query QE_Silent), Inl HPE_Connect, Inr (observation_primary BR_Primary 0)]))"
  using endpoint_health_exact [of 1000 1 "5432 :: nat" BR_Primary
      "[Inl HPE_NoRows, Inl (HPE_Query QE_Silent), Inl HPE_Connect, Inr (observation_primary BR_Primary 0)]"]
  by (simp add: duration_max_def Let_def)

text \<open>The listener reports readiness exactly while the proxy accepts clients and the last connection to
  the backend succeeded.\<close>

lemma readyz_exact:
  assumes "request_path request = Some (lit ''/readyz'')"
  shows "health_answer dc (refresh_once connected) request =
    (if dc_is_accepting dc \<and> connected = Some True then text_response 200 (lit ''ready'') else text_response 503 (lit ''not_ready''))"
  using assms
  by (auto simp: health_answer_def take_health_snapshot_def health_is_ready_def refresh_once_def status_from_u8_def
      lit_def Let_def split: option.split bool.split)

section \<open>The answer to the startup packet\<close>

definition text_row :: "rstr \<Rightarrow> backend_frame" where
  "text_row v = \<lparr>bf_tag = backend_tag_byte BE_DataRow,
     bf_payload = put_i16 1 @ put_i32 (usize_as_i32 (str_len v)) @ as_bytes v\<rparr>"

definition auth_ok_frame :: backend_frame where
  "auth_ok_frame = \<lparr>bf_tag = backend_tag_byte BE_Authentication, bf_payload = put_i32 0\<rparr>"

lemma probe_query_frames_Cons:
  assumes "payload_fits (bf_payload f)"
  shows "probe_query_frames row (encode_backend f @ rest) =
     (if bf_tag f = backend_tag_byte BE_DataRow \<and> row = None then
        (case parse_probe_row (bf_payload f) of
           Inl e \<Rightarrow> (Some (Inl e), row, rest)
         | Inr row' \<Rightarrow> probe_query_frames row' rest)
      else if bf_tag f = backend_tag_byte BE_ErrorResponse then (Some (Inl QE_ErrorResponse), row, rest)
      else if bf_tag f = backend_tag_byte BE_ReadyForQuery then (Some (Inr row), row, rest)
      else probe_query_frames row rest)"
  by (subst probe_query_frames.simps) (simp add: parse_backend_message [OF assms] split: sum.split)

lemma parse_text_row:
  "scalars v \<Longrightarrow> str_len v < 2 ^ 31 \<Longrightarrow> parse_probe_row (bf_payload (text_row v)) = Inr (Some [Some v])"
  by (simp add: text_row_def parse_probe_row_def)

text \<open>Frames that carry no row, no error and no end of an answer: authentication, parameter status, row
  descriptions, command tags, notices.\<close>

definition plain_replies :: "backend_frame list \<Rightarrow> bool" where
  "plain_replies fs \<longleftrightarrow> list_all (\<lambda>f. payload_fits (bf_payload f) \<and>
     bf_tag f \<notin> backend_tag_byte ` {BE_DataRow, BE_ErrorResponse, BE_ReadyForQuery}) fs"

lemma probe_query_plain: "plain_replies fs \<Longrightarrow> probe_query_frames row (encode_replies fs @ rest) = probe_query_frames row rest"
  by (induction fs) (simp_all add: plain_replies_def probe_query_frames_Cons)

lemma probe_query_ready: "probe_query_frames row (encode_backend ready_frame) = (Some (Inr row), row, [])"
  using probe_query_frames_Cons [of ready_frame row "[]"] by (simp add: payload_fits_def)

lemma probe_row_answer:
  assumes "scalars v" and "str_len v + 10 < 2 ^ 31" and "plain_replies gs" and "plain_replies hs"
  shows "probe_query_loop None [] (BR_Data (encode_replies (gs @ [text_row v] @ hs @ [ready_frame])) # reads) =
    (Inr (Some [Some v]), reads)"
proof -
  have fits: "payload_fits (bf_payload (text_row v))" using assms(2) by (simp add: text_row_def payload_fits_def)
  have "probe_query_frames None (encode_replies (gs @ [text_row v] @ hs @ [ready_frame])) =
      probe_query_frames None (encode_backend (text_row v) @ encode_replies hs @ encode_backend ready_frame)"
    using probe_query_plain [OF assms(3), of None] by simp
  also have "\<dots> = probe_query_frames (Some [Some v]) (encode_replies hs @ encode_backend ready_frame)"
    unfolding probe_query_frames_Cons [OF fits] using parse_text_row [of v] assms(1,2) by (simp add: text_row_def)
  also have "\<dots> = (Some (Inr (Some [Some v])), Some [Some v], [])"
    unfolding probe_query_plain [OF assms(4)] by (rule probe_query_ready)
  finally show ?thesis by (simp add: backend_message_def)
qed

lemma probe_startup_answer:
  assumes "plain_replies fs"
  shows "probe_query_loop None [] (BR_Data (encode_replies (fs @ [ready_frame])) # reads) = (Inr None, reads)"
proof -
  have "probe_query_frames None (encode_replies (fs @ [ready_frame])) = (Some (Inr None), None, [])"
    using probe_query_plain [OF assms, of None "encode_backend ready_frame"] probe_query_ready by simp
  then show ?thesis by (simp add: backend_message_def)
qed

lemma probe_query_answered:
  assumes "bk_write_ok c" and "bk_reads c = BR_Data bs # reads"
    and "probe_query_loop None [] (BR_Data bs # reads) = (Inr row, reads)"
  shows "execute_probe_query sql c = (Inr row, c\<lparr>bk_reads := reads, bk_sent := bk_sent c @ simple_query_packet sql\<rparr>)"
  using assms by (simp add: execute_probe_query_def backend_write_def)

text \<open>C35. The probe never reads the answer to its startup packet. When this answer, which ends with a
  \<open>ReadyForQuery\<close>, arrives in a read of its own it is taken for the answer of the first query, and
  every answer for that of the next query: the row of \<open>SELECT 1\<close> tells the probe that the endpoint is
  a replica, and the endpoint's role is then parsed as a replay position. The probe of a healthy
  endpoint fails, whatever its role, and whatever frames without rows and errors (authentication,
  parameters, row descriptions, command tags) are part of the answers.\<close>

theorem startup_answer_spoils_probe:
  assumes "bk_write_ok c" and "role = lit ''t'' \<or> role = lit ''f''"
    and "bk_reads c = map (\<lambda>fs. BR_Data (encode_replies fs))
           [startup @ [ready_frame], gs @ [text_row (lit ''1'')] @ hs @ [ready_frame],
            gs' @ [text_row role] @ hs' @ [ready_frame]] @ later"
    and "list_all plain_replies [startup, gs, hs, gs', hs']"
  shows "\<exists>e. fst (run_probe True user database lag now c) = Inl (HPE_ReplayLsn e)"
proof -
  have texts: "scalars (lit ''1'')" "str_len (lit ''1'') + 10 < 2 ^ 31" "scalars role" "str_len role + 10 < 2 ^ 31"
    using assms(2) by (auto simp: lit_def is_scalar_def str_len_def utf8_len_def)
  have plain: "plain_replies startup" "plain_replies gs" "plain_replies hs" "plain_replies gs'" "plain_replies hs'"
    using assms(4) by simp_all
  have "\<exists>e. parse_replay_lsn role = Inl e"
    using assms(2) by (auto simp: parse_replay_lsn_def lsn_from_str_def lit_def trim_def trim_start_def trim_end_def
        trim_end_pred_def is_whitespace_def split_once_char_def ok_or_def)
  moreover have "observed_role_of (Some [Some (lit ''1'')]) = Inr BR_Replica"
    by (simp add: observed_role_of_def row_column_def)
  ultimately show ?thesis
    using assms(1,3) probe_row_answer [OF texts(1,2) plain(2,3)] probe_row_answer [OF texts(3,4) plain(4,5)]
      probe_startup_answer [OF plain(1)]
    by (auto simp: run_probe_def backend_write_def probe_query_answered replica_observation_def row_column_def
        simp del: probe_query_loop.simps map_append concat_append)
qed

text \<open>A server that sends \<open>AuthenticationOk\<close>, a parameter status and its key data, and wraps each row in a
  row description and a command tag.\<close>

theorem startup_answer_spoils_probe_witness:
  "\<exists>e. fst (run_probe True (lit ''app'') (lit ''app'') 1000 0 (demo_conn (map (\<lambda>fs. BR_Data (encode_replies fs))
     [[auth_ok_frame, \<lparr>bf_tag = 83, bf_payload = [97, 0, 98, 0]\<rparr>, \<lparr>bf_tag = 75, bf_payload = [0, 0, 0, 1, 0, 0, 0, 2]\<rparr>]
        @ [ready_frame],
      [\<lparr>bf_tag = 84, bf_payload = [0, 0]\<rparr>] @ [text_row (lit ''1'')] @ [\<lparr>bf_tag = 67, bf_payload = [83, 0]\<rparr>] @ [ready_frame],
      [\<lparr>bf_tag = 84, bf_payload = [0, 0]\<rparr>] @ [text_row (lit ''f'')] @ [\<lparr>bf_tag = 67, bf_payload = [83, 0]\<rparr>] @ [ready_frame]]))) =
   Inl (HPE_ReplayLsn e)"
  by (rule startup_answer_spoils_probe [where role = "lit ''f''" and later = "[]"
      and startup = "[auth_ok_frame, \<lparr>bf_tag = 83, bf_payload = [97, 0, 98, 0]\<rparr>, \<lparr>bf_tag = 75, bf_payload = [0, 0, 0, 1, 0, 0, 0, 2]\<rparr>]"
      and gs = "[\<lparr>bf_tag = 84, bf_payload = [0, 0]\<rparr>]" and gs' = "[\<lparr>bf_tag = 84, bf_payload = [0, 0]\<rparr>]"
      and hs = "[\<lparr>bf_tag = 67, bf_payload = [83, 0]\<rparr>]" and hs' = "[\<lparr>bf_tag = 67, bf_payload = [83, 0]\<rparr>]"])
    (simp_all add: demo_conn_def plain_replies_def auth_ok_frame_def payload_fits_def)

end
