(* ===== verification/Checkout.thy ===== *)
theory Checkout
  imports Endpoint_Health Route_Pools Policy_Runtime
begin

text \<open>
  From a request to a backend, \<open>proxy/checkout.rs\<close> with \<open>wait_for_checkout_target\<close> and its helpers of
  \<open>proxy.rs\<close>: the target of a request from the routing mode, the session and the health of the
  replicas, the wait for a replica, the checkout from the pool of the target with its errors, and
  the startup packet that is sent to a new backend. The checkout from one pool and the bootstrap of
  a new backend are parameters; metrics, debug samples and logs are left out.
\<close>

section \<open>Targets and answers\<close>

definition CANNOT_CONNECT_NOW_SQLSTATE :: rstr where
  "CANNOT_CONNECT_NOW_SQLSTATE = lit ''57P03''"

definition REPLICA_UNAVAILABLE_MESSAGE :: rstr where
  "REPLICA_UNAVAILABLE_MESSAGE = lit ''no healthy replica available''"

definition policy_audit_event_from_decision ::
  "policy_runtime \<Rightarrow> policy_audit_kind \<Rightarrow> policy_decision \<Rightarrow> 'addr policy_eval_input \<Rightarrow> routing_target \<Rightarrow> policy_audit_event" where
  "policy_audit_event_from_decision r kind decision input target =
     (build_audit_event_from_input r kind decision input)
       \<lparr>pae_target_role := map_option backend_role_as_str (routing_target_role target)\<rparr>"

fun checkout_postgres_error_for_target :: "routing_target \<Rightarrow> (rstr \<times> rstr) option" where
  "checkout_postgres_error_for_target (RT_Reject reason) =
     (if reason = TR_PolicyDenied then Some (POLICY_DENY_SQLSTATE, lit ''policy denied'')
      else Some (CANNOT_CONNECT_NOW_SQLSTATE, REPLICA_UNAVAILABLE_MESSAGE))"
| "checkout_postgres_error_for_target _ = None"

definition checkout_fallback_target :: "read_routing_mode \<Rightarrow> fallback_policy \<Rightarrow> routing_target" where
  "checkout_fallback_target mode policy =
     (if mode = RRM_RequireReplica then RT_Reject TR_RequireReplicaMode
      else case policy of
        FP_Primary \<Rightarrow> RT_Primary TR_FallbackPrimary
      | FP_Reject \<Rightarrow> RT_Reject TR_FallbackReject
      | FP_Wait \<Rightarrow> RT_Wait TR_FallbackWait)"

fun routing_reason_from_core :: "routing_reason \<Rightarrow> target_reason" where
  "routing_reason_from_core RR_Off = TR_Off"
| "routing_reason_from_core RR_PrimaryOnlyMode = TR_PrimaryOnlyMode"
| "routing_reason_from_core RR_PreferReplicaMode = TR_ReadCandidateQuery"
| "routing_reason_from_core RR_RequireReplicaMode = TR_RequireReplicaMode"
| "routing_reason_from_core RR_WriteQuery = TR_WriteQuery"
| "routing_reason_from_core RR_ReadOnlyQuery = TR_ReadOnlyQuery"
| "routing_reason_from_core RR_ReadCandidateQuery = TR_ReadCandidateQuery"
| "routing_reason_from_core RR_TransactionControl = TR_TransactionControl"
| "routing_reason_from_core RR_SessionMutation = TR_SessionMutation"
| "routing_reason_from_core RR_Copy = TR_CopyQuery"
| "routing_reason_from_core RR_UnknownQuery = TR_UnknownQuery"
| "routing_reason_from_core RR_FreshnessRequired = TR_FreshnessRequired"
| "routing_reason_from_core RR_ReplicaStale = TR_ReplicaStale"
| "routing_reason_from_core RR_ReplicaUnavailable = TR_ReplicaUnavailable"
| "routing_reason_from_core RR_FallbackPrimary = TR_FallbackPrimary"
| "routing_reason_from_core RR_FallbackReject = TR_FallbackReject"
| "routing_reason_from_core RR_FallbackWait = TR_FallbackWait"

definition apply_policy_before_routing_target ::
  "read_routing_planner \<Rightarrow> routing_context \<Rightarrow> policy_action option \<Rightarrow> routing_target" where
  "apply_policy_before_routing_target p c action = apply_policy_action_to_routing_target p c None action"

definition apply_policy_after_routing_target ::
  "read_routing_planner \<Rightarrow> routing_context \<Rightarrow> routing_target \<Rightarrow> policy_action option \<Rightarrow> routing_target" where
  "apply_policy_after_routing_target p c current action = apply_policy_action_to_routing_target p c (Some current) action"

definition apply_policy_before_checkout_target ::
  "read_routing_planner \<Rightarrow> routing_context \<Rightarrow> routing_target \<Rightarrow> policy_action option \<Rightarrow> routing_target" where
  "apply_policy_before_checkout_target p c current action = apply_policy_after_routing_target p c current action"

definition apply_policy_action_to_routing_target_with_mode ::
  "read_routing_planner \<Rightarrow> routing_context \<Rightarrow> routing_target option \<Rightarrow> policy_action option \<Rightarrow> policy_mode \<Rightarrow> routing_target" where
  "apply_policy_action_to_routing_target_with_mode p c current_target action mode =
     (let current = (case current_target of Some t \<Rightarrow> t | None \<Rightarrow> choose_routing_target p c)
      in case mode of
           PMD_Enforce \<Rightarrow> apply_policy_action_to_routing_target p c (Some current) action
         | _ \<Rightarrow> current)"

definition route_checkout_freshness_outcome ::
  "routing_target \<Rightarrow> read_after_write_state \<Rightarrow> freshness_status option" where
  "route_checkout_freshness_outcome target raw =
     (case target of
        RT_Replica _ _ \<Rightarrow> Some FS_Satisfied
      | RT_Wait reason \<Rightarrow>
          if reason = TR_FallbackWait then
            Some (case raw of RAW_Unknown \<Rightarrow> FS_Unknown | RAW_Required _ \<Rightarrow> FS_Waiting | RAW_Disabled \<Rightarrow> FS_Unavailable)
          else None
      | RT_Reject reason \<Rightarrow>
          Some (if reason = TR_ReplicaStale then FS_Stale
                else if reason = TR_FreshnessRequired then FS_Unknown
                else if reason \<in> {TR_PolicyDenied, TR_ReplicaUnavailable, TR_FallbackReject, TR_RequireReplicaMode}
                then FS_Unavailable
                else FS_Unknown)
      | RT_Primary reason \<Rightarrow>
          if reason = TR_FallbackPrimary then
            (case raw of RAW_Disabled \<Rightarrow> None | RAW_Required _ \<Rightarrow> Some FS_Stale | RAW_Unknown \<Rightarrow> Some FS_Unknown)
          else None)"

record 'addr route_checkout_snapshot =
  rcs_route_key :: "'addr route_key"
  rcs_decision :: routing_target
  rcs_freshness_outcome :: "freshness_status option"
  rcs_required_session_write_lsn :: "pg_lsn option"

definition route_checkout_snapshot_for_target ::
  "'addr route_key \<Rightarrow> routing_target \<Rightarrow> read_after_write_state \<Rightarrow> 'addr route_checkout_snapshot" where
  "route_checkout_snapshot_for_target route target raw =
     \<lparr>rcs_route_key = route, rcs_decision = target, rcs_freshness_outcome = route_checkout_freshness_outcome target raw,
      rcs_required_session_write_lsn = None\<rparr>"

definition checkout_debug_fields :: "routing_target \<Rightarrow> rstr \<Rightarrow> (rstr \<times> rstr) list" where
  "checkout_debug_fields target checkout_mode =
     [(lit ''checkout_mode'', checkout_mode),
      (lit ''target_role'', case routing_target_role target of Some role \<Rightarrow> backend_role_as_str role | None \<Rightarrow> lit ''unknown''),
      (lit ''reason'', target_reason_as_str (routing_target_reason target))]"

section \<open>Choosing the target\<close>

record ('p, 'addr) read_routing_selection =
  sel_planner :: read_routing_planner
  sel_route_pools :: "'p route_pools"
  sel_replica_health :: "'addr replica_health_store"
  sel_read_routing_mode :: read_routing_mode
  sel_fallback_policy :: fallback_policy
  sel_session :: virtual_session
  sel_request_plan :: "request_plan option"

text \<open>The candidate of one replica: the health of its pool, and what its last probe reported.\<close>

definition replica_candidate_of ::
  "nat \<Rightarrow> 'addr endpoint_health_snapshot list \<Rightarrow> 'p backend_pool_ref \<Rightarrow> replica_candidate" where
  "replica_candidate_of now snapshots replica =
     (let health = find (\<lambda>s. ehs_endpoint_id s = bpr_id replica) snapshots;
          lsn = (case health of None \<Rightarrow> None | Some s \<Rightarrow> ehs_replay_lsn s);
          lag = (case health of None \<Rightarrow> None
                 | Some s \<Rightarrow> map_option (\<lambda>d. min (nat (d div 1000000)) u64_max) (ehs_lag_duration s));
          warning = (case health of None \<Rightarrow> None | Some s \<Rightarrow> rpo_warning (ehs_role s))
      in (replica_candidate_new (bpr_id replica) (fst (is_healthy now replica)) lsn lag)\<lparr>rc_split_brain := warning \<noteq> None\<rparr>)"

definition build_route_health_snapshot ::
  "nat \<Rightarrow> 'p route_pools \<Rightarrow> 'addr replica_health_store \<Rightarrow> route_health_snapshot" where
  "build_route_health_snapshot now pools store =
     \<lparr>rhs_replicas = map (replica_candidate_of now (replica_health_snapshots store)) (rpo_replicas pools)\<rparr>"

definition transaction_cross_shard_violation :: "virtual_session \<Rightarrow> bool" where
  "transaction_cross_shard_violation s =
     (case vs_transaction_shard s of None \<Rightarrow> False | Some st \<Rightarrow> cross_shard_violation st)"

definition selection_context :: "nat \<Rightarrow> ('p, 'addr) read_routing_selection \<Rightarrow> routing_context" where
  "selection_context now sel =
     (let (sql, analysis) =
        (case sel_request_plan sel of None \<Rightarrow> ([], analyze_sql []) | Some plan \<Rightarrow> (rp_sql plan, plan_analysis plan))
      in routing_context_with_analysis sql ST_Idle (vs_read_after_write (sel_session sel))
           (build_route_health_snapshot now (sel_route_pools sel) (sel_replica_health sel)) analysis)"

text \<open>
  Asking a replica for its health lets its breaker see the time, so that the pools change; the
  snapshot asks every replica.
\<close>

definition refreshed_pools :: "nat \<Rightarrow> 'p route_pools \<Rightarrow> 'p route_pools" where
  "refreshed_pools now pools = pools\<lparr>rpo_replicas := map (\<lambda>r. snd (is_healthy now r)) (rpo_replicas pools)\<rparr>"

text \<open>The target of a request inside a transaction that is bound to a role.\<close>

definition transaction_target ::
  "nat \<Rightarrow> read_routing_mode \<Rightarrow> fallback_policy \<Rightarrow> read_routing_transaction_state \<Rightarrow> 'p route_pools
   \<Rightarrow> routing_target \<times> 'p route_pools" where
  "transaction_target now mode policy st pools =
     (let reason = routing_reason_from_core (rr_route_reason st)
      in case rr_target_role st of
           BR_Primary \<Rightarrow> (RT_Primary reason, pools)
         | BR_Replica \<Rightarrow>
             (let (chosen, selector) = replica_select now (rpo_replicas pools) (rpo_selector pools)
              in (case chosen of
                    Some replica \<Rightarrow>
                      RT_Replica (replica_candidate_new (bpr_id replica) (fst (is_healthy now replica)) None None) reason
                  | None \<Rightarrow> checkout_fallback_target mode policy,
                  pools\<lparr>rpo_selector := selector\<rparr>))
         | BR_Unknown \<Rightarrow> (RT_Primary TR_UnknownQuery, pools))"

definition select_checkout_target ::
  "nat \<Rightarrow> ('p, 'addr) read_routing_selection \<Rightarrow> routing_target \<times> 'p route_pools" where
  "select_checkout_target now sel =
     (let c = selection_context now sel; p = sel_planner sel; session = sel_session sel;
          pools = refreshed_pools now (sel_route_pools sel);
          before = apply_policy_before_routing_target p c None;
          checkout = (\<lambda>t. apply_policy_before_checkout_target p c t None)
      in if before = RT_Reject TR_PolicyDenied then (before, pools)
         else case sel_read_routing_mode sel of
           RRM_Off \<Rightarrow> (checkout (RT_Primary TR_Off), pools)
         | RRM_PrimaryOnly \<Rightarrow> (checkout (RT_Primary TR_PrimaryOnlyMode), pools)
         | _ \<Rightarrow>
             if transaction_cross_shard_violation session then (checkout (RT_Reject TR_FallbackReject), pools)
             else (case vs_read_routing session of
                Some st \<Rightarrow>
                  (let (target, pools') =
                     transaction_target now (sel_read_routing_mode sel) (sel_fallback_policy sel) st pools
                   in (checkout (apply_policy_after_routing_target p c target None), pools'))
              | None \<Rightarrow>
                  (checkout (apply_policy_after_routing_target p c (choose_routing_target p c) None), pools)))"

section \<open>Waiting for a replica\<close>





section \<open>Checking a backend out\<close>

datatype checkout_failure =
    CF_Overload rstr
  | CF_Postgres rstr rstr
  | CF_Close
  | CF_Fatal

datatype request_checkout_mode = RCM_AllowConnect | RCM_PreferConnect

fun checkout_mode_label :: "request_checkout_mode \<Rightarrow> rstr" where
  "checkout_mode_label RCM_AllowConnect = lit ''allow_connect''"
| "checkout_mode_label RCM_PreferConnect = lit ''prefer_connect''"

text \<open>
  \<open>checkout mode\<close> is the checkout from one pool, \<open>requires_startup\<close> whether the lease is of a new
  connection, and \<open>bootstrap\<close> the bootstrap of such a connection.
\<close>

definition checkout_backend ::
  "nat \<Rightarrow> (checkout_mode \<Rightarrow> ('p, 's, 'l) pool_checkout) \<Rightarrow> ('l \<Rightarrow> bool) \<Rightarrow> ('l \<Rightarrow> 's \<Rightarrow> bool \<times> 's) \<Rightarrow> request_checkout_mode \<Rightarrow> bool
   \<Rightarrow> routing_target \<Rightarrow> 'p route_pools \<Rightarrow> 's \<Rightarrow> (checkout_failure + 'l) \<times> 's" where
  "checkout_backend now checkout requires_startup bootstrap mode bootstrap_backend target pools s =
     (let pool_mode = (case mode of RCM_AllowConnect \<Rightarrow> CM_AllowConnect | RCM_PreferConnect \<Rightarrow> CM_PreferConnect)
      in case target of
           RT_Wait _ \<Rightarrow> (Inl (CF_Overload (lit ''backend checkout is waiting for a replica'')), s)
         | RT_Reject _ \<Rightarrow>
             (case checkout_postgres_error_for_target target of
                Some (sqlstate, message) \<Rightarrow> (Inl (CF_Postgres sqlstate message), s)
              | None \<Rightarrow> (Inl (CF_Postgres CANNOT_CONNECT_NOW_SQLSTATE REPLICA_UNAVAILABLE_MESSAGE), s))
         | _ \<Rightarrow>
             (case checkout_target now (checkout pool_mode) target pools s of
                (Inl (PE_Backpressure e), s') \<Rightarrow>
                  (Inl (case e of BE_QueueFull \<Rightarrow> CF_Overload (lit ''backend checkout queue is full'')
                        | BE_Timeout \<Rightarrow> CF_Overload (lit ''backend checkout timed out'')
                        | BE_Closed \<Rightarrow> CF_Close), s')
              | (Inl PE_CircuitOpen, s') \<Rightarrow>
                  (Inl (CF_Postgres CANNOT_CONNECT_NOW_SQLSTATE (lit ''backend temporarily unavailable'')), s')
              | (Inl PE_Connect, s') \<Rightarrow> (Inl CF_Fatal, s')
              | (Inr lease, s') \<Rightarrow>
                  if bootstrap_backend \<and> requires_startup lease then
                    (case bootstrap lease s' of
                       (True, s'') \<Rightarrow> (Inr lease, s'')
                     | (False, s'') \<Rightarrow> (Inl CF_Fatal, s''))
                  else (Inr lease, s')))"

section \<open>Startup packets for backends\<close>

definition startup_parameter :: "(rstr \<times> rstr) list \<Rightarrow> rstr \<Rightarrow> rstr option" where
  "startup_parameter parameters key =
     map_option snd (find (\<lambda>p. eq_ignore_ascii_case (fst p) key) parameters)"

datatype startup_error =
    STE_Wire wire_error
  | STE_Kind
  | STE_MissingDatabase
  | STE_MissingUser

definition startup_route_key :: "bytes \<Rightarrow> startup_error + (rstr \<times> rstr \<times> rstr option)" where
  "startup_route_key packet =
     (case parse_startup_packet packet of
        Inl e \<Rightarrow> Inl (STE_Wire e)
      | Inr (Startup _ _ parameters) \<Rightarrow>
          and_then (ok_or (startup_parameter parameters (lit ''database'')) STE_MissingDatabase) (\<lambda>database.
          and_then (ok_or (startup_parameter parameters (lit ''user'')) STE_MissingUser) (\<lambda>user.
            Inr (database, user, startup_parameter parameters (lit ''application_name''))))
      | Inr _ \<Rightarrow> Inl STE_Kind)"

definition is_user_key :: "rstr \<Rightarrow> bool" where
  "is_user_key key \<longleftrightarrow> eq_ignore_ascii_case key (lit ''user'')"

definition rewrite_backend_startup_user :: "bytes \<Rightarrow> rstr option \<Rightarrow> startup_error + bytes" where
  "rewrite_backend_startup_user packet backend_user =
     (case backend_user of
        None \<Rightarrow> Inr packet
      | Some user \<Rightarrow>
          (case parse_startup_packet packet of
             Inl e \<Rightarrow> Inl (STE_Wire e)
           | Inr (Startup major minor parameters) \<Rightarrow>
               (let body = put_i32 (push_bit 16 (scast major) OR (scast minor AND 0xffff))
                      @ concat (map (\<lambda>(key, value). as_bytes key @ [0]
                          @ as_bytes (if is_user_key key then user else value) @ [0]) parameters)
                in if \<not> list_ex (\<lambda>p. is_user_key (fst p)) parameters then Inl STE_MissingUser
                   else Inr (put_i32 (usize_as_i32 (length body + 1 + 4)) @ body @ [0]))
           | Inr _ \<Rightarrow> Inl STE_Kind))"

definition session_route_key :: "rstr \<Rightarrow> rstr \<Rightarrow> rstr option \<Rightarrow> 'addr \<Rightarrow> 'addr route_key" where
  "session_route_key database user application_name client_addr =
     route_key_new database user application_name (Some client_addr) RQ_Default"

section \<open>A replica is chosen safely\<close>

lemma apply_policy_None [simp]:
  "apply_policy_action_to_routing_target p c (Some t) None = ensure_policy_action_target_is_safe p c t"
  "apply_policy_action_to_routing_target p c None None =
     ensure_policy_action_target_is_safe p c (choose_routing_target p c)"
  by (simp_all add: apply_policy_action_to_routing_target_def)

lemmas checkout_policy_defs =
  apply_policy_before_routing_target_def apply_policy_after_routing_target_def apply_policy_before_checkout_target_def

lemma ensure_replica_source:
  "ensure_policy_action_target_is_safe p c t = RT_Replica r x \<Longrightarrow>
     t = RT_Replica r x \<or> choose_routing_target p c = RT_Replica r x"
  by (cases t) (auto split: if_splits)

lemma checkout_fallback_not_replica [simp]: "checkout_fallback_target mode policy \<noteq> RT_Replica r x"
  by (cases policy) (simp_all add: checkout_fallback_target_def)

lemma breaker_state_at_idem: "fst (breaker_state_at now (snd (breaker_state_at now b))) = fst (breaker_state_at now b)"
  by (simp add: breaker_state_at_def half_open_after_cooldown_def split: option.splits)

lemma is_healthy_refreshed [simp]: "fst (is_healthy now (snd (is_healthy now r))) = fst (is_healthy now r)"
  using breaker_state_at_idem [of now "bpr_breaker r"] by (simp add: is_healthy_def case_prod_beta Let_def)

lemma is_healthy_id [simp]: "bpr_id (snd (is_healthy now r)) = bpr_id r"
  by (simp add: is_healthy_def case_prod_beta Let_def)

lemma wrr_scan_in: "wrr_scan k i rs = Some r \<Longrightarrow> r \<in> set rs"
  by (induction rs arbitrary: i) (auto simp: Let_def split: if_splits)

lemma replica_select_in:
  "fst (replica_select now rs sel) = Some r \<Longrightarrow> \<exists>r0\<in>set rs. r = snd (is_healthy now r0) \<and> fst (is_healthy now r0)"
  by (force simp: replica_select_def Let_def healthy_replicas_def split: if_splits replica_selection_strategy.splits
      dest: min_by_key_in wrr_scan_in)

text \<open>A candidate stands for a replica of the route whose pool is healthy.\<close>

definition stands_for_replica :: "nat \<Rightarrow> 'p route_pools \<Rightarrow> replica_candidate \<Rightarrow> bool" where
  "stands_for_replica now pools cand \<longleftrightarrow>
     list_ex (\<lambda>r. bpr_id r = rc_replica_id cand \<and> fst (is_healthy now r)) (rpo_replicas pools)"

lemma stands_for_snapshot:
  assumes "cand \<in> set (rhs_replicas (build_route_health_snapshot now pools store))" "rc_healthy cand"
  shows "stands_for_replica now pools cand"
  using assms
  by (auto simp: build_route_health_snapshot_def replica_candidate_of_def Let_def replica_candidate_new_def
      stands_for_replica_def list_ex_iff)

lemma stands_for_transaction:
  assumes "fst (transaction_target now mode policy st (refreshed_pools now pools)) = RT_Replica cand reason"
  shows "rr_target_role st = BR_Replica \<and> stands_for_replica now pools cand"
  using assms
  by (auto simp: transaction_target_def Let_def refreshed_pools_def stands_for_replica_def list_ex_iff
      replica_candidate_new_def case_prod_beta split: backend_role.splits option.splits dest!: replica_select_in)
     blast

lemma selection_context_simps [simp]:
  "rcx_transaction_state (selection_context now sel) = ST_Idle"
  "rcx_read_after_write_state (selection_context now sel) = vs_read_after_write (sel_session sel)"
  "rcx_health (selection_context now sel) = build_route_health_snapshot now (sel_route_pools sel) (sel_replica_health sel)"
  by (simp_all add: selection_context_def routing_context_with_analysis_def split: option.splits prod.splits)

lemma selection_class:
  "context_query_class (selection_context now sel) =
     (case sel_request_plan sel of None \<Rightarrow> QC_Unknown | Some plan \<Rightarrow> sa_query_class (plan_analysis plan))"
proof -
  have "strip_token_separators [] = []"
    by (subst strip_leading_comments_and_whitespace.simps)
       (simp add: trim_start_def strip_prefix_def starts_with_def lit_def)
  then have "classify_sql [] = QC_Unknown"
    by (simp add: classify_sql_def)
  then show ?thesis
    by (simp add: selection_context_def routing_context_with_analysis_def context_query_class_def analyze_sql_def
        split: option.splits)
qed

lemma selection_choose:
  assumes "choose_routing_target p (selection_context now sel) = RT_Replica cand reason"
  shows "stands_for_replica now (sel_route_pools sel) cand \<and>
    (\<exists>plan. sel_request_plan sel = Some plan \<and> routes_to_replica (sa_query_class (plan_analysis plan)))"
proof -
  from choose_replica_read [OF assms]
  have "routes_to_replica (context_query_class (selection_context now sel))"
    and "cand \<in> set (rhs_replicas (build_route_health_snapshot now (sel_route_pools sel) (sel_replica_health sel)))"
    and "rc_healthy cand" by (auto simp: eligible_def)
  then show ?thesis
    by (auto simp: selection_class stands_for_snapshot split: option.splits)
qed

lemma select_checkout_source:
  assumes "select_checkout_target now sel = (RT_Replica cand reason, pools)"
  obtains t where "sel_read_routing_mode sel \<in> {RRM_PreferReplica, RRM_RequireReplica}"
    and "\<not> transaction_cross_shard_violation (sel_session sel)"
    and "ensure_policy_action_target_is_safe (sel_planner sel) (selection_context now sel)
      (ensure_policy_action_target_is_safe (sel_planner sel) (selection_context now sel) t) = RT_Replica cand reason"
    and "t = choose_routing_target (sel_planner sel) (selection_context now sel) \<or>
      (\<exists>st. vs_read_routing (sel_session sel) = Some st \<and>
        t = fst (transaction_target now (sel_read_routing_mode sel) (sel_fallback_policy sel) st
          (refreshed_pools now (sel_route_pools sel))))"
  using assms
  by (auto simp: select_checkout_target_def Let_def checkout_policy_defs case_prod_beta
      split: if_splits read_routing_mode.splits option.splits)

lemma select_checkout_replica:
  assumes "select_checkout_target now sel = (RT_Replica cand reason, pools)"
  shows "sel_read_routing_mode sel \<in> {RRM_PreferReplica, RRM_RequireReplica}"
    and "\<not> transaction_cross_shard_violation (sel_session sel)"
    and "safe_candidate (sel_planner sel) (selection_context now sel) cand"
    and "choose_routing_target (sel_planner sel) (selection_context now sel) = RT_Replica cand reason \<or>
      (\<exists>st. vs_read_routing (sel_session sel) = Some st \<and>
        fst (transaction_target now (sel_read_routing_mode sel) (sel_fallback_policy sel) st
          (refreshed_pools now (sel_route_pools sel))) = RT_Replica cand reason)"
  by (rule select_checkout_source [OF assms]; use ensure_safe ensure_replica_source in metis)+

text \<open>
  C8. A request is sent to a replica only when that is safe: reads are routed at all, the session has
  not touched a second shard, the candidate stands for a replica of the route whose pool is
  healthy, it is fresh enough for the session, and the request is a read or belongs to a
  transaction that is bound to a replica.
\<close>

theorem checkout_replica_safe:
  assumes "select_checkout_target now sel = (RT_Replica cand reason, pools)"
  shows "sel_read_routing_mode sel \<in> {RRM_PreferReplica, RRM_RequireReplica} \<and>
    \<not> transaction_cross_shard_violation (sel_session sel) \<and>
    stands_for_replica now (sel_route_pools sel) cand \<and>
    safe_candidate (sel_planner sel) (selection_context now sel) cand \<and>
    ((\<exists>plan. sel_request_plan sel = Some plan \<and> routes_to_replica (sa_query_class (plan_analysis plan))) \<or>
     (\<exists>st. vs_read_routing (sel_session sel) = Some st \<and> rr_target_role st = BR_Replica))"
  using select_checkout_replica [OF assms] selection_choose [of "sel_planner sel" now sel cand reason]
    stands_for_transaction [of now _ _ _ "sel_route_pools sel" cand reason]
  by blast

text \<open>
  C5. A write is never sent to a replica. When the text of the request's plan has a write statement
  anywhere among its top-level statements, the checkout target is not a replica, whatever the mode,
  the hint in the text, the health of the replicas and the session, unless the session is in a
  transaction that it has already bound to a replica. The plan's analysis, where it has one, is that
  of its text. A cycle of several messages is routed by its first plan.
\<close>

theorem write_never_sent_to_replica:
  assumes "sel_request_plan sel = Some plan"
    and "rp_analysis plan = None \<or> rp_analysis plan = Some (analyze_sql (rp_sql plan))"
    and "st \<in> set (split_top_level_statements (strip_leading_comments_and_whitespace (rp_sql plan)))"
    and "is_write_statement st"
    and "\<And>t. vs_read_routing (sel_session sel) = Some t \<Longrightarrow> rr_target_role t \<noteq> BR_Replica"
  shows "routing_target_role (fst (select_checkout_target now sel)) \<noteq> Some BR_Replica"
proof
  assume "routing_target_role (fst (select_checkout_target now sel)) = Some BR_Replica"
  then obtain cand reason pools where "select_checkout_target now sel = (RT_Replica cand reason, pools)"
    by (cases "select_checkout_target now sel"; cases "fst (select_checkout_target now sel)") auto
  note r = select_checkout_replica(4) [OF this]
  have "\<not> routes_to_replica (context_query_class (selection_context now sel))"
    using assms(1-3) by (intro write_text_not_read [OF _ assms(4)])
      (auto simp: selection_context_def routing_context_with_analysis_def plan_analysis_def)
  then have "choose_routing_target p (selection_context now sel) \<noteq> RT_Replica cand reason" for p
    using choose_replica_read by blast
  with r assms(5) stands_for_transaction show False by blast
qed

text \<open>
  C11. A session reads its own writes. Let the freshness policy require the position of the session's
  last write, let the query not carry the hint that accepts stale reads, and let the session require
  position \<open>l\<close>. Then every replica a request of the session is sent to, also in a transaction bound
  to a replica, is one whose last probe reported a replay position of \<open>l\<close> or later.
\<close>

theorem replica_reads_own_writes:
  assumes "select_checkout_target now sel = (RT_Replica cand reason, pools)"
    and "requires_session_write_lsn (rrp_freshness_policy (sel_planner sel))"
    and "context_routing_hint (selection_context now sel) \<noteq> RH_StaleOk"
    and "vs_read_after_write (sel_session sel) = RAW_Required l"
  shows "\<exists>s k. s \<in> set (replica_health_snapshots (sel_replica_health sel)) \<and>
    ehs_endpoint_id s = rc_replica_id cand \<and> ehs_replay_lsn s = Some k \<and> l \<le> k"
proof -
  obtain k where k: "rc_replay_lsn cand = Some k" "l \<le> k"
    using safe_candidate_replayed [OF select_checkout_replica(3) [OF assms(1)] assms(2,3)] assms(4) by auto
  have "rc_replay_lsn cand = None" if "fst (transaction_target now mode policy st ps) = RT_Replica cand reason"
    for mode policy st and ps :: "'a route_pools"
    using that by (cases "rr_target_role st")
      (auto simp: transaction_target_def Let_def case_prod_beta replica_candidate_new_def split: option.splits)
  then have "choose_routing_target (sel_planner sel) (selection_context now sel) = RT_Replica cand reason"
    using select_checkout_replica(4) [OF assms(1)] k(1) by fastforce
  from choose_replica_read [OF this]
  have "cand \<in> set (rhs_replicas (build_route_health_snapshot now (sel_route_pools sel) (sel_replica_health sel)))"
    by (simp add: eligible_def)
  with k show ?thesis
    by (auto simp: build_route_health_snapshot_def replica_candidate_of_def Let_def replica_candidate_new_def
        find_Some_iff split: option.splits) (metis nth_mem)
qed

text \<open>
  C34. In a read-only transaction what the prober stored about the replicas is not consulted: with a
  freshness policy that asks for nothing of the replica, the first request of the transaction is
  sent to the replica the selector gives, even when the store says that it has left recovery and
  may be a second primary. Outside a transaction the same store keeps every request off it.
\<close>

theorem read_only_transaction_ignores_split_brain:
  assumes "sel_read_routing_mode sel \<in> {RRM_PreferReplica, RRM_RequireReplica}"
    and "vs_read_routing (sel_session sel) = Some (rr_new ReadOnly)"
    and "\<not> transaction_cross_shard_violation (sel_session sel)"
    and "replica_satisfies_freshness (replica_candidate_new (bpr_id r) True None None) (rrp_freshness_policy (sel_planner sel))
      (vs_read_after_write (sel_session sel)) (rrp_max_replica_lag_ms (sel_planner sel))"
    and "fst (replica_select now (rpo_replicas (refreshed_pools now (sel_route_pools sel)))
      (rpo_selector (sel_route_pools sel))) = Some r"
    and "rc_split_brain (replica_candidate_of now (replica_health_snapshots (sel_replica_health sel)) r)"
  shows "fst (select_checkout_target now sel) = RT_Replica (replica_candidate_new (bpr_id r) True None None) TR_ReadOnlyQuery \<and>
    fst (select_checkout_target now (sel\<lparr>sel_session := (sel_session sel)\<lparr>vs_read_routing := None\<rparr>\<rparr>))
      \<noteq> RT_Replica (replica_candidate_of now (replica_health_snapshots (sel_replica_health sel)) r) reason"
proof
  have "fst (is_healthy now r)"
    using replica_select_in [OF assms(5)] by auto
  then have t: "fst (transaction_target now (sel_read_routing_mode sel) (sel_fallback_policy sel) (rr_new ReadOnly)
      (refreshed_pools now (sel_route_pools sel))) = RT_Replica (replica_candidate_new (bpr_id r) True None None) TR_ReadOnlyQuery"
    using assms(5) by (simp add: transaction_target_def Let_def case_prod_beta rr_defs refreshed_pools_def)
  have "choose_routing_target p c \<noteq> RT_Reject TR_PolicyDenied" for p c
    by (auto simp: choose_routing_target_def Let_def no_safe_replica_target_def
        split: read_routing_mode.splits session_transaction_state.splits option.splits fallback_policy.splits if_splits
        elim!: fallback_target.elims primary_for_query_class.elims stale_reason.elims)
  then have "ensure_policy_action_target_is_safe p c (choose_routing_target p c) \<noteq> RT_Reject TR_PolicyDenied" for p c
    by (cases "choose_routing_target p c") (auto split: if_splits)
  with assms(1-4) t show "fst (select_checkout_target now sel) =
      RT_Replica (replica_candidate_new (bpr_id r) True None None) TR_ReadOnlyQuery"
    by (auto simp: select_checkout_target_def Let_def checkout_policy_defs case_prod_beta replica_candidate_new_def
        split: read_routing_mode.splits)
  show "fst (select_checkout_target now (sel\<lparr>sel_session := (sel_session sel)\<lparr>vs_read_routing := None\<rparr>\<rparr>))
      \<noteq> RT_Replica (replica_candidate_of now (replica_health_snapshots (sel_replica_health sel)) r) reason"
    using assms(6)
    by (metis prod.collapse safe_candidate_def select_checkout_replica(3))
qed

section \<open>Examples\<close>

text \<open>One replica whose last probe found it out of recovery, or as expected.\<close>

definition example_health :: "split_brain_warning option \<Rightarrow> unit replica_health_store" where
  "example_health warning =
     [(1, \<lparr>ehs_endpoint_id = 1, ehs_endpoint_addr = (), ehs_expected_role = BR_Replica,
           ehs_health = \<lparr>hpo_state = EH_Healthy, hpo_recovered = False, hpo_consecutive_failures = 0\<rparr>,
           ehs_role = \<lparr>rpo_state = ERS_Warning, rpo_warning = warning\<rparr>, ehs_replay_lsn = None,
           ehs_replay_timestamp = None, ehs_lag_duration = Some 5000000, ehs_lag_state = RLG_Fresh,
           ehs_last_successful_probe_at = None, ehs_last_error = None\<rparr>)]"

definition example_pools :: "unit route_pools" where
  "example_pools =
     \<lparr>rpo_primary = backend_pool_ref_new 0 BR_Primary 1 True (breaker_new breaker_config_default) (),
      rpo_replicas = [backend_pool_ref_new 1 BR_Replica 1 True (breaker_new breaker_config_default) ()],
      rpo_selector = replica_selector_new RSS_LeastWaiting\<rparr>"

definition example_selection :: "split_brain_warning option \<Rightarrow> virtual_session \<Rightarrow> (unit, unit) read_routing_selection" where
  "example_selection warning session =
     \<lparr>sel_planner = example_planner, sel_route_pools = example_pools, sel_replica_health = example_health warning,
      sel_read_routing_mode = RRM_PreferReplica, sel_fallback_policy = FP_Primary, sel_session = session,
      sel_request_plan =
        Some \<lparr>rp_sql = lit ''SELECT 1'', rp_command = Cmd_Query,
              rp_analysis = Some \<lparr>sa_query_class = QC_ReadOnly, sa_routing_hint = RH_None\<rparr>,
              rp_updates_transaction_state = False, rp_updates_session_state = False\<rparr>\<rparr>"

lemmas example_checkout_defs =
  example_selection_def example_pools_def example_health_def example_planner_def replica_selector_new_def
  backend_pool_ref_new_def breaker_new_def breaker_config_default_def replica_candidate_of_def replica_candidate_new_def
  build_route_health_snapshot_def replica_health_snapshots_def is_healthy_def breaker_state_at_def
  half_open_after_cooldown_def refreshed_pools_def replica_satisfies_freshness_def vs_default_def
  transaction_cross_shard_violation_def u64_max_def

abbreviation example_candidate :: replica_candidate where
  "example_candidate \<equiv> replica_candidate_new 1 True None (Some 5)"

theorem checkout_replica_safe_witness:
  "fst (select_checkout_target 0 (example_selection None vs_default)) = RT_Replica example_candidate TR_ReadCandidateQuery \<and>
   stands_for_replica 0 example_pools example_candidate \<and>
   safe_candidate example_planner (selection_context 0 (example_selection None vs_default)) example_candidate"
proof -
  have "select_checkout_target 0 (example_selection None vs_default) =
      (RT_Replica example_candidate TR_ReadCandidateQuery, refreshed_pools 0 example_pools)"
    by (simp add: select_checkout_target_def checkout_policy_defs choose_routing_target_def select_safe_replica_def
        selection_context_def routing_context_with_analysis_def context_query_class_def context_routing_hint_def
        plan_analysis_def example_checkout_defs)
  from checkout_replica_safe [OF this] this show ?thesis by (simp add: example_selection_def)
qed

theorem write_never_sent_to_replica_witness:
  "routing_target_role (fst (select_checkout_target 0 ((example_selection None vs_default)
     \<lparr>sel_request_plan := Some \<lparr>rp_sql = lit ''SELECT 1; DELETE FROM t'', rp_command = Cmd_Query, rp_analysis = None,
        rp_updates_transaction_state = False, rp_updates_session_state = False\<rparr>\<rparr>))) \<noteq> Some BR_Replica"
  by (rule write_never_sent_to_replica [where st = "lit ''DELETE FROM t''" and
        plan = "\<lparr>rp_sql = lit ''SELECT 1; DELETE FROM t'', rp_command = Cmd_Query, rp_analysis = None,
          rp_updates_transaction_state = False, rp_updates_session_state = False\<rparr>"])
     (simp_all add: example_selection_def vs_default_def example_delete_statement)

text \<open>A replica that has replayed position 9, and a session that has written at position 7.\<close>

theorem replica_reads_own_writes_witness:
  "let s = (snd (hd (example_health None)))\<lparr>ehs_replay_lsn := Some (PgLsn 9)\<rparr>;
       sel = (example_selection None (vs_set_read_after_write (RAW_Required (PgLsn 7)) vs_default))
         \<lparr>sel_replica_health := [(1, s)]\<rparr> in
   fst (select_checkout_target 0 sel) = RT_Replica (replica_candidate_new 1 True (Some (PgLsn 9)) (Some 5)) TR_ReadCandidateQuery \<and>
   (\<exists>s' k. s' \<in> set (replica_health_snapshots (sel_replica_health sel)) \<and>
      ehs_endpoint_id s' = 1 \<and> ehs_replay_lsn s' = Some k \<and> PgLsn 7 \<le> k)"
proof -
  let ?s = "(snd (hd (example_health None)))\<lparr>ehs_replay_lsn := Some (PgLsn 9)\<rparr>"
  let ?sel = "(example_selection None (vs_set_read_after_write (RAW_Required (PgLsn 7)) vs_default))\<lparr>sel_replica_health := [(1, ?s)]\<rparr>"
  have "select_checkout_target 0 ?sel = (RT_Replica (replica_candidate_new 1 True (Some (PgLsn 9)) (Some 5)) TR_ReadCandidateQuery,
      refreshed_pools 0 example_pools)"
    by (simp add: select_checkout_target_def checkout_policy_defs choose_routing_target_def select_safe_replica_def
        selection_context_def routing_context_with_analysis_def context_query_class_def context_routing_hint_def
        plan_analysis_def example_checkout_defs vs_set_read_after_write_def less_pg_lsn_def)
  from replica_reads_own_writes [OF this, of "PgLsn 7"] this show ?thesis
    by (simp add: Let_def example_selection_def example_planner_def vs_set_read_after_write_def
        selection_context_def routing_context_with_analysis_def context_routing_hint_def plan_analysis_def
        replica_candidate_new_def)
qed

theorem read_only_transaction_ignores_split_brain_witness:
  "let w = Some \<lparr>sbw_expected_role = BR_Replica, sbw_observed_role = BR_Primary\<rparr>;
       sel = example_selection w (vs_begin_transaction ReadOnly vs_default) in
   fst (select_checkout_target 0 sel) = RT_Replica (replica_candidate_new 1 True None None) TR_ReadOnlyQuery \<and>
   rhs_replicas (build_route_health_snapshot 0 example_pools (sel_replica_health sel)) = [example_candidate\<lparr>rc_split_brain := True\<rparr>]"
proof -
  let ?r = "backend_pool_ref_new 1 BR_Replica 1 True (breaker_new breaker_config_default) ()"
  let ?w = "Some \<lparr>sbw_expected_role = BR_Replica, sbw_observed_role = BR_Primary\<rparr>"
  let ?sel = "example_selection ?w (vs_begin_transaction ReadOnly vs_default)"
  have "fst (select_checkout_target 0 ?sel) = RT_Replica (replica_candidate_new (bpr_id ?r) True None None) TR_ReadOnlyQuery"
    by (rule read_only_transaction_ignores_split_brain [THEN conjunct1])
       (simp_all add: example_checkout_defs vs_begin_transaction_def replica_select_def healthy_replicas_def)
  moreover have "rhs_replicas (build_route_health_snapshot 0 example_pools (sel_replica_health ?sel)) =
      [example_candidate\<lparr>rc_split_brain := True\<rparr>]"
    by (simp add: example_checkout_defs)
  moreover have "bpr_id ?r = 1" by (simp add: backend_pool_ref_new_def)
  ultimately show ?thesis by (simp only: Let_def)
qed

section \<open>Waiting ends\<close>






section \<open>The rewritten startup packet\<close>

definition with_user :: "rstr \<Rightarrow> rstr \<times> rstr \<Rightarrow> rstr \<times> rstr" where
  "with_user user p = (fst p, if is_user_key (fst p) then user else snd p)"

lemma protocol_code_rebuilt:
  "push_bit 16 (scast (ucast (signed_drop_bit 16 code AND 0xffff) :: i16)) OR (scast (ucast (code AND 0xffff) :: i16) AND 0xffff)
    = (code :: i32)"
proof -
  have m: "(0xffff :: i32) = mask 16" by (simp add: mask_eq_exp_minus_1)
  have a: "bit (push_bit 16 (scast (ucast (signed_drop_bit 16 code AND mask 16) :: i16)) :: i32) n
     \<longleftrightarrow> 16 \<le> n \<and> bit code n" if "n < 32" for n
    using that unfolding bit_push_bit_iff by (cases "n = 31") (auto simp: bit_simps min_def split: if_splits)
  have b: "bit ((scast (ucast (code AND mask 16) :: i16) AND mask 16) :: i32) n \<longleftrightarrow> n < 16 \<and> bit code n" if "n < 32" for n
    using that by (cases "n = 15") (auto simp: bit_simps min_def)
  show ?thesis
    unfolding m by (rule bit_word_eqI) (simp only: bit_or_iff a b len_of_numeral_defs, auto simp: a b)
qed

lemma parse_startup_enc_code:
  assumes "list_all param_ok ps" "length (enc_params ps) + 9 < 2 ^ 31"
    and "code \<notin> {SSL_REQUEST_CODE, GSSENC_REQUEST_CODE, CANCEL_REQUEST_CODE}"
  shows "parse_startup_packet (put_i32 (usize_as_i32 (length (enc_params ps) + 9)) @ put_i32 code @ enc_params ps @ [0]) =
    Inr (Startup (ucast (signed_drop_bit 16 code AND 0xffff)) (ucast (code AND 0xffff)) ps)"
  using assms parse_parameters_enc [of ps]
  by (simp add: parse_startup_packet_def Let_def nat_add_distrib list_all_iff)

lemma parse_startup_code:
  assumes "parse_startup_packet packet = Inr (Startup major minor ps)"
  obtains code where "code \<notin> {SSL_REQUEST_CODE, GSSENC_REQUEST_CODE, CANCEL_REQUEST_CODE}"
    and "major = ucast (signed_drop_bit 16 code AND 0xffff)" "minor = ucast (code AND 0xffff)"
  using assms by (auto simp: parse_startup_packet_def Let_def and_then_eq_Inr split: if_splits)

lemma rewritten_params:
  "concat (map (\<lambda>(key, value). as_bytes key @ 0 # as_bytes (if is_user_key key then user else value) @ [0]) ps)
     = enc_params (map (with_user user) ps)"
  by (induction ps) (auto simp: with_user_def)

lemma ignore_user:
  "\<not> eq_ignore_ascii_case (lit ''user'') (lit ''database'')" "\<not> eq_ignore_ascii_case (lit ''user'') (lit ''application_name'')"
  by (auto simp: lit_def dest!: eq_ignore_ascii_case_len)

lemma is_user_key_ignore:
  "is_user_key k \<Longrightarrow> eq_ignore_ascii_case k key \<longleftrightarrow> eq_ignore_ascii_case (lit ''user'') key"
  by (auto simp: is_user_key_def eq_ignore_ascii_case_def)

lemma startup_parameter_with_user:
  assumes "list_ex (\<lambda>p. is_user_key (fst p)) ps"
  shows "startup_parameter (map (with_user user) ps) (lit ''user'') = Some user"
    and "\<not> eq_ignore_ascii_case (lit ''user'') key \<Longrightarrow>
      startup_parameter (map (with_user user) ps) key = startup_parameter ps key"
    and "\<exists>old. startup_parameter ps (lit ''user'') = Some old"
proof -
  show "\<exists>old. startup_parameter ps (lit ''user'') = Some old"
    using assms by (induction ps) (auto simp: startup_parameter_def is_user_key_def)
  show "startup_parameter (map (with_user user) ps) (lit ''user'') = Some user"
    using assms by (induction ps) (auto simp: startup_parameter_def with_user_def is_user_key_def)
  show "startup_parameter (map (with_user user) ps) key = startup_parameter ps key"
    if "\<not> eq_ignore_ascii_case (lit ''user'') key"
    using that by (induction ps) (auto simp: startup_parameter_def with_user_def is_user_key_ignore)
qed

text \<open>
  C26. The startup packet the proxy sends on behalf of a client that logs in as another backend user
  says what the client's packet said: the proxy's own parser reads the same protocol version and
  the same parameters in the same order from it, with the value of every \<open>user\<close> parameter, in any
  spelling of the key, replaced; so it names the same database and application and the new user.
\<close>

theorem rewritten_startup_read_back:
  assumes parse: "parse_startup_packet packet = Inr (Startup major minor ps)"
    and user: "cstr_ok user" "list_ex (\<lambda>p. is_user_key (fst p)) ps"
    and fits: "length (enc_params (map (with_user user) ps)) + 9 < 2 ^ 31"
  shows "\<exists>q. rewrite_backend_startup_user packet (Some user) = Inr q \<and>
    parse_startup_packet q = Inr (Startup major minor (map (with_user user) ps)) \<and>
    startup_route_key q =
      and_then (startup_route_key packet) (\<lambda>(database, _, application_name). Inr (database, user, application_name))"
proof -
  obtain code where code: "code \<notin> {SSL_REQUEST_CODE, GSSENC_REQUEST_CODE, CANCEL_REQUEST_CODE}"
    "major = ucast (signed_drop_bit 16 code AND 0xffff)" "minor = ucast (code AND 0xffff)"
    using parse_startup_code [OF parse] .
  let ?ps = "map (with_user user) ps"
  let ?q = "put_i32 (usize_as_i32 (length (enc_params ?ps) + 9)) @ put_i32 code @ enc_params ?ps @ [0]"
  have "rewrite_backend_startup_user packet (Some user) = Inr ?q"
    using user(2) by (simp add: rewrite_backend_startup_user_def parse Let_def rewritten_params code(2,3) protocol_code_rebuilt
        add.commute [of 9])
  moreover have "list_all param_ok ?ps"
    using startup_packet_sound [OF parse] user(1) by (auto simp: list_all_iff param_ok_def with_user_def)
  then have q: "parse_startup_packet ?q = Inr (Startup major minor ?ps)"
    using parse_startup_enc_code [OF _ fits code(1)] code(2,3) by simp
  moreover have "startup_route_key ?q =
      and_then (startup_route_key packet) (\<lambda>(database, _, application_name). Inr (database, user, application_name))"
    using startup_parameter_with_user [OF user(2)] ignore_user
    by (cases "startup_parameter ps (lit ''database'')") (auto simp: startup_route_key_def q parse)
  ultimately show ?thesis by blast
qed

definition example_startup :: bytes where
  "example_startup =
     put_i32 30 @ put_i32 protocol_version_to_i32 @
     enc_params [(lit ''User'', lit ''al''), (lit ''database'', lit ''app'')] @ [0]"

theorem rewritten_startup_read_back_witness:
  "\<exists>q. rewrite_backend_startup_user example_startup (Some (lit ''svc'')) = Inr q \<and>
     parse_startup_packet q = Inr (Startup 3 0 [(lit ''User'', lit ''svc''), (lit ''database'', lit ''app'')]) \<and>
     startup_route_key q = Inr (lit ''app'', lit ''svc'', None)"
proof -
  let ?ps = "[(lit ''User'', lit ''al''), (lit ''database'', lit ''app'')]"
  have e: "parse_startup_packet example_startup = Inr (Startup 3 0 ?ps)"
    using parse_startup_enc [of ?ps]
    by (simp add: example_startup_def param_ok_def cstr_ok_def lit_def is_scalar_def str_len_def utf8_len_def usize_as_i32_def)
  have u: "is_user_key (lit ''User'')" "\<not> is_user_key (lit ''database'')"
    by (simp_all add: is_user_key_def eq_ignore_ascii_case_def lit_def to_ascii_lowercase_def char_lower_def
        is_ascii_upper_def)
  have k: "startup_route_key example_startup = Inr (lit ''app'', lit ''al'', None)"
    using u by (simp add: startup_route_key_def e startup_parameter_def is_user_key_def eq_ignore_ascii_case_def lit_def
        to_ascii_lowercase_def char_lower_def is_ascii_upper_def)
  have w: "map (with_user (lit ''svc'')) ?ps = [(lit ''User'', lit ''svc''), (lit ''database'', lit ''app'')]"
    using u by (simp add: with_user_def)
  have "cstr_ok (lit ''svc'')" "list_ex (\<lambda>p. is_user_key (fst p)) ?ps"
    "length (enc_params (map (with_user (lit ''svc'')) ?ps)) + 9 < 2 ^ 31"
    using u unfolding w by (simp_all add: cstr_ok_def lit_def is_scalar_def str_len_def utf8_len_def)
  from rewritten_startup_read_back [OF e this] show ?thesis
    unfolding w by (simp add: k)
qed

end
