(* ===== verification/Spec2Isabelle.thy ===== *)
theory Spec2Isabelle
  imports Auth_Query Guardrails Policy_Rule Policy_Runtime Shard_Routing Lifecycle Route_Pools Forward_Plan
    Backend_Recovery Cancel_Registry Endpoint_Health Checkout
begin

text \<open>
  Verification of pg-kinetic, a proxy between PostgreSQL clients and backends.

  \<^bold>\<open>The program.\<close> A client connects with a startup packet; its receive buffer is cut into request
  cycles. For each cycle the proxy classifies the SQL text, tracks the session (transaction,
  settings, shard affinity), applies guardrails, chooses a pool, checks out a backend through a
  circuit breaker, rewrites prepared statements to names of its own, forwards the messages and
  drains the backend's answer to the client, and finally decides whether the backend goes back to
  the pool. All paths below are under \<open>src/crates\<close>; \<open>core\<close>, \<open>wire\<close> and \<open>proxy\<close> stand for
  \<open>pg-kinetic-core/src\<close>, \<open>pg-kinetic-wire/src\<close> and \<open>pg-kinetic-proxy/src\<close>.

  \<^bold>\<open>Conventions.\<close> A Rust \<open>char\<close> is its code point and \<open>str\<close> a list of them with UTF-8 encoding written
  out (\<open>Rust_Text\<close>, \<open>Rust_Str\<close>), so that byte slices and their panics are those of the code. Bytes and
  the protocol's integers are words of their width; \<open>usize\<close> counters are naturals, with the
  saturating ones written out. \<open>Result\<close> is a sum, a panic is \<open>None\<close> or an error value of its own.
  \<open>BTreeMap\<close> is a strictly sorted entry list (\<open>BTree_Map\<close>, interface \<open>ordered_map\<close>).

  \<^bold>\<open>The wire codec.\<close> \<open>Wire_Frame\<close> models \<open>wire/frame.rs\<close>, \<open>protocol.rs\<close>, \<open>error.rs\<close> and the frame
  parser of \<open>backend.rs\<close>; the interface \<open>frame_parser\<close> and its extension \<open>frame_loop\<close> carry the
  argument that read loops end and do not depend on how the network cuts the stream.
  \<open>Wire_Message\<close> is \<open>message.rs\<close>, \<open>rewrite.rs\<close>, \<open>startup.rs\<close>; \<open>Wire_Backend\<close> is the rest of \<open>backend.rs\<close>,
  \<open>sqlstate.rs\<close>, \<open>auth.rs\<close>, \<open>admin.rs\<close>. The lemmas are round trips and what a rewritten message keeps.

  \<^bold>\<open>Cycles.\<close> \<open>Frontend_Cycle\<close> and \<open>Backend_Drain\<close> are \<open>proxy/engine/io_runtime.rs\<close>: cutting the client's
  buffer into startup packets and cycles, the shape of a cycle, the response drain, and the
  forwarding loop. A connection is the list of reads it will deliver. The cutter is shown equal to
  a definition on frames, and the loop is shown to end, for every way the reads are cut, with the
  whole answer forwarded; the backend's answers are a parameter constrained only by how many
  \<open>ReadyForQuery\<close> and completion messages PostgreSQL sends for a request. A cycle that ends with
  \<open>Flush\<close> is covered when nothing was injected and nothing fails. Where a \<open>Parse\<close> was injected after
  one of the client's own, the order of the replies is shown to be wrong.

  \<^bold>\<open>SQL.\<close> \<open>Sql_Classify\<close> is \<open>core/protocol/sql_classify.rs\<close> (read or write, hints, statement splitting),
  \<open>Sql_Tokens\<close> its tokenizer and \<open>core/fingerprint.rs\<close>, \<open>Sql_Command\<close> is \<open>core/protocol/sql.rs\<close>, the classifier
  of the session tracker. Shown: a text with a write statement is not classified as a read, what the
  fingerprint hides and bounds, and where the classifiers panic.

  \<^bold>\<open>Sessions.\<close> \<open>Session\<close> is \<open>core/protocol/session.rs\<close> and \<open>Virtual_Session\<close> is \<open>virtual_session.rs\<close>; both
  interpret the interface \<open>transaction_tracker\<close>. \<open>Cleanup\<close> is \<open>core/cluster/cleanup.rs\<close>, \<open>recovery.rs\<close>,
  \<open>core/protocol/pin.rs\<close> and \<open>finish_ready_backend\<close> of \<open>proxy/proxy/client_session.rs\<close>; the results of the
  LSN probe and of the reset query are parameters there. Shown: a committed write is reported,
  replayed settings are the recorded ones, and exactly when a backend is released: clean at an idle
  status, but after a failed transaction whatever the session still holds on it.

  \<^bold>\<open>Forwarding a cycle.\<close> \<open>Forward_Plan\<close> is \<open>proxy/proxy/request_plan.rs\<close>, the retry decision of
  \<open>connection.rs\<close> and \<open>client_session.rs\<close>, and from \<open>forwarding.rs\<close> the planning of a cycle, the update of the
  session and the reply loop \<open>forward_message_cycle\<close> with client-driven copy; the two sockets are a list
  of arrivals, and what a client sends before a copy stays unread. \<open>Cycle_Reply\<close> shows that this loop forwards a whole answer for every way the network cuts
  it. \<open>Backend_Recovery\<close> is \<open>recovery.rs\<close> and the rest of what happens to a backend after a cycle: the
  proxy's own queries on a connection (recovery, reset, LSN probe, replay of settings), timeouts,
  disconnects and the dispatch on the outcome of a cycle. A backend is the list of reads it will
  deliver and the bytes it was sent; a wait that outlasts them is a timeout. Shown: a recovered
  backend owes nothing when one response is outstanding; and that with several outstanding it can.

  \<^bold>\<open>Cancellation.\<close> \<open>Cancel_Registry\<close> is \<open>proxy/cancel.rs\<close>: the registry in sequence, and sessions and
  forwarders as interleaved atomic steps (\<open>cancel_step\<close>), where a cancel is only sent to the backend
  held.

  \<^bold>\<open>Prepared statements.\<close> \<open>Prepared\<close> is \<open>core/protocol/prepare.rs\<close> with \<open>prepare_frame_for_backend\<close> of
  \<open>proxy/proxy/forwarding.rs\<close>; \<open>Prepared_Forward\<close> runs it over any sequence of forwarded messages,
  invalidations, new route maps and backend resets (\<open>prepared_reach\<close>), next to a record of the \<open>Parse\<close>
  and \<open>Close\<close> messages sent. What PostgreSQL does with them, and what SQL text (\<open>DEALLOCATE\<close>) or
  other sessions do to a backend's statements, is not modelled; a \<open>Close\<close> of the client must not
  name a statement by the proxy's own name. Shown: the catalog holds exactly the statements of the
  client's own messages, and a \<open>Bind\<close> goes out under a name whose last \<open>Parse\<close> sent to the backend
  carries the client's statement, on every backend that was not reset behind the catalog's back; on
  one that was, it goes out with no \<open>Parse\<close> at all.

  \<^bold>\<open>Routing and sharding.\<close> \<open>Routing_Model\<close> is \<open>core/traffic/routing.rs\<close>, \<open>Route_Key\<close> is \<open>route.rs\<close>, \<open>Lsn\<close> is
  \<open>core/cluster/lsn.rs\<close>. \<open>Shard_Strategy\<close> and \<open>Shard_Map\<close> are \<open>core/traffic/sharding.rs\<close>: keys, hash, range
  and list strategies (interface \<open>exclusive_rules\<close>), lifecycle, migration reports, and the validation
  of a route map, which is shown to accept exactly the well-formed maps. \<open>Shard_Extract\<close> is
  \<open>shard_extract.rs\<close> (tokenizer, the key of a statement, hints) and \<open>Shard_Routing\<close> is
  \<open>proxy/routing/sharding.rs\<close>: the store of route maps with guarded reload and draining shards, in
  sequence and lock by lock (\<open>store_step\<close>), and the plan of a sharded route. \<open>Read_Routing\<close> is
  \<open>proxy/routing.rs\<close>: the target of a read and its fallbacks, shown equal to a specification, with
  freshness and policy actions.

  \<^bold>\<open>Policies.\<close> \<open>Policy_Model\<close> and \<open>Policy_Rule\<close> are \<open>core/traffic/policy.rs\<close> and \<open>policy_rule.rs\<close>,
  \<open>Policy_Runtime\<close> is \<open>proxy/routing/policy.rs\<close>: evaluation against a reference definition, validation
  exactly of the well-formed rule sets, and a context that fits its budget and hides what is
  sensitive.

  \<^bold>\<open>Pools and checkout.\<close> \<open>Interleaving\<close> has the interface \<open>step_invariant\<close> for step relations.
  \<open>Backpressure\<close> is \<open>core/traffic/backpressure.rs\<close>, \<open>Pool_Store\<close> the store of backends of \<open>proxy/pool.rs\<close>
  with checkouts, connects, releases, the reaper and reloads as interleaved steps, and
  \<open>Route_Pools\<close> the pools of a route with the selection of a replica. \<open>Checkout\<close> is
  \<open>proxy/proxy/checkout.rs\<close>: from the health of the replicas and the session to a target, a wait that
  ends, a lease or an error, and the startup packet for the backend. A target is chosen by the first
  plan of a cycle: that writes stay off replicas and that a session reads its own writes is shown of
  that plan, the first outside transactions bound to a replica.

  \<^bold>\<open>Health and lifecycle.\<close> \<open>Timestamp\<close> and \<open>Endpoint_Health\<close> are \<open>proxy/observe/health.rs\<close> with
  \<open>core/cluster/ha.rs\<close>: the probe of an endpoint as a conversation, its health as a function of its
  history, and the health listener. \<open>Lifecycle\<close> is \<open>core/cluster/runtime.rs\<close> and \<open>proxy/ops/lifecycle.rs\<close>,
  \<open>drain.rs\<close> and \<open>pause.rs\<close>, with clients and the drain waiter as interleaved steps. All step
  relations of the development are sequentially consistent.

  \<^bold>\<open>Admission and security.\<close> \<open>Secrets\<close> is \<open>core/security/secrets.rs\<close> with the cryptographic functions as
  parameters, \<open>Auth_Query\<close> is \<open>proxy/pool/backend_query.rs\<close>, with the server's scanner of string
  constants as a parameter that reads them as documented, \<open>Guardrails\<close> is \<open>proxy/guardrails.rs\<close>, and
  \<open>Resilience\<close> is \<open>proxy/resilience.rs\<close> with the admission step of \<open>proxy/pool.rs\<close>; what follows the
  breaker in a checkout is a parameter there and is \<open>Pool_Store\<close>.

  \<^bold>\<open>Theorems about faults.\<close> Some theorems show that the code does not do what it means to: replies out of
  order, a breaker that stays open, slots and wake-ups that are lost, answers that reach the wrong
  client. Those with hypotheses hold of every input that meets them and come with a concrete
  instance; \<open>unbind_wakeup_lost\<close> and \<open>drain_wakeup_lost\<close> are single runs.

  \<^bold>\<open>Fuel and bounds.\<close> No definition has fuel: every loop is a total function with a termination proof.
  The buffer limit of the forwarding theorems bounds one read plus one frame.

  \<^bold>\<open>Not modelled.\<close> Sockets, TLS, timers, the io_uring engine and the task scheduler are I/O of the
  operating system or of third-party runtimes; a timer appears as the choice of when a wait ends.
  Metrics, tracing and most snapshots only observe; the configuration reader and the command line
  are deserialisation by a library; the lab, benchmark and operator tools do not take part in
  forwarding. The authentication handshakes with clients and backends, mirroring, the admin
  console, adaptive limits and the control plane are not modelled. The engine's forwarding loop in
  \<open>Backend_Drain\<close> leaves out failed writes to the client, which end it with an error. Futures that
  the runtime drops are modelled where a timeout of the code drops them (a checkout that connects or
  waits), not where a forced shutdown does.
\<close>

end
